(* ===== verification/DbPrelude.thy ===== *)
theory DbPrelude
  imports Main "HOL-Library.Sublist" "HOL-Library.Char_ord" "HOL-Library.List_Lexorder"
begin

text \<open>
  Shared vocabulary of the development: the types that stand for the C++ types of the
  sources, the fact collections that the component theories extend, and generic lemmas on
  lists and on slices of lists.

  Conventions. A \<open>std::string\<close> is a list of bytes (\<open>string\<close>), which may hold NUL bytes.
  A \<open>const char *\<close> argument is a \<open>cstring\<close>: the bytes before its terminator. Where the code
  passes \<open>s.c_str()\<close> to a function that reads a C string, the model passes \<open>cstr s\<close>
  (theory CRuntime). A nullable \<open>const char *\<close> is a \<open>cstring option\<close>.
\<close>

type_synonym cstring = string

abbreviation NUL :: char where "NUL \<equiv> CHR 0x00"
abbreviation TAB :: char where "TAB \<equiv> CHR 0x09"
abbreviation LF :: char where "LF \<equiv> CHR 0x0A"
abbreviation CR :: char where "CR \<equiv> CHR 0x0D"
abbreviation SPACE :: char where "SPACE \<equiv> CHR 0x20"
abbreviation DQUOTE :: char where "DQUOTE \<equiv> CHR 0x22"

named_theorems c_defs \<open>definitions of the C library functions the sources use\<close>
named_theorems step_defs \<open>definitions of the components' primitive operations\<close>

subsection \<open>Slices\<close>

text \<open>\<open>slice s a b\<close> is the block of \<open>s\<close> from index \<open>a\<close> up to, not including, index \<open>b\<close>:
  what \<open>append( p + a, b - a )\<close> copies.\<close>

definition slice :: "'a list \<Rightarrow> nat \<Rightarrow> nat \<Rightarrow> 'a list" where
  "slice s a b = take (b - a) (drop a s)"

lemma slice_Nil [simp]: "slice [] a b = []"
  by (simp add: slice_def)

lemma slice_same [simp]: "slice s a a = []"
  by (simp add: slice_def)

lemma length_slice: "b \<le> length s \<Longrightarrow> length (slice s a b) = b - a"
  by (simp add: slice_def min_absorb2)

lemma slice_append_mid: "slice (xs @ ys @ zs) (length xs) (length xs + length ys) = ys"
  by (simp add: slice_def)

lemma slice_append_mid':
  "a = length xs \<Longrightarrow> b = length xs + length ys \<Longrightarrow> slice (xs @ ys @ zs) a b = ys"
  by (simp add: slice_append_mid)

lemma slice_Suc_right: "a \<le> b \<Longrightarrow> b < length s \<Longrightarrow> slice s a (Suc b) = slice s a b @ [s ! b]"
  by (simp add: slice_def Suc_diff_le take_Suc_conv_app_nth)

lemma set_slice: "set (slice s a b) \<subseteq> set s"
  by (auto simp: slice_def dest: in_set_takeD in_set_dropD)

lemma slice_drop: "slice (drop k s) a b = slice s (k + a) (k + b)"
  by (simp add: slice_def add.commute)

lemma slice_full [simp]: "slice s 0 (length s) = s"
  by (simp add: slice_def)

lemma slice_all_eq_drop: "length s \<le> b \<Longrightarrow> slice s a b = drop a s"
  by (simp add: slice_def)

lemma take_slice_drop: "a \<le> b \<Longrightarrow> b \<le> length s \<Longrightarrow> take a s @ slice s a b @ drop b s = s"
  by (simp add: slice_def) (metis append_take_drop_id drop_drop le_add_diff_inverse2)

lemma slice_split:
  assumes "a \<le> b" "b \<le> c"
  shows "slice s a c = slice s a b @ slice s b c"
proof -
  have c: "c - a = (b - a) + (c - b)" using assms by simp
  show ?thesis unfolding slice_def c take_add using assms by simp
qed

subsection \<open>Lists\<close>

lemma nth_append_mid [simp]: "(xs @ y # ys) ! length xs = y"
  by (simp add: nth_append)

lemma dropWhile_eq_drop: "dropWhile P xs = drop (length (takeWhile P xs)) xs"
  by (induction xs) auto

lemma takeWhile_all: "(\<And>x. x \<in> set xs \<Longrightarrow> P x) \<Longrightarrow> takeWhile P xs = xs"
  by (induction xs) auto

lemma dropWhile_none: "xs = [] \<or> \<not> P (hd xs) \<Longrightarrow> dropWhile P xs = xs"
  by (cases xs) auto

lemma takeWhile_append_stop: "(\<And>x. x \<in> set xs \<Longrightarrow> P x) \<Longrightarrow> \<not> P y \<Longrightarrow>
    takeWhile P (xs @ y # ys) = xs"
  by (induction xs) auto

lemma dropWhile_append_stop: "(\<And>x. x \<in> set xs \<Longrightarrow> P x) \<Longrightarrow> \<not> P y \<Longrightarrow>
    dropWhile P (xs @ y # ys) = y # ys"
  by (induction xs) auto

lemma list_all_drop: "list_all P xs \<Longrightarrow> list_all P (drop n xs)"
  by (auto simp: list_all_iff dest: in_set_dropD)

end
