(* ===== verification/CRuntime.thy ===== *)
theory CRuntime
  imports DbPrelude
begin

text \<open>
  The part of the C and C++ standard library that the sources call, as functions on byte
  strings and integers: C strings, decimal and hexadecimal printing, \<open>atoi\<close>, \<open>atoll\<close>,
  \<open>strtoul\<close>, \<open>strtoull\<close>, \<open>strncmp\<close>, \<open>strcasecmp\<close>, \<open>snprintf\<close> into a bounded buffer and
  \<open>std::string::find\<close>. The integer model is LP64 with two's complement: \<open>int\<close> has 32
  bits, \<open>long\<close> and \<open>int64_t\<close> 64. A conversion to a narrower type wraps (\<open>i32\<close>, \<open>u32\<close>);
  \<open>strtol\<close> and \<open>strtoul\<close> saturate, as the C standard says.
\<close>

subsection \<open>C strings and characters\<close>

definition cstr :: "string \<Rightarrow> cstring" where
  "cstr s = takeWhile (\<lambda>c. c \<noteq> NUL) s"

text \<open>Reading \<open>p[i]\<close> in a terminated buffer: the byte after the last one is the terminator.\<close>

definition at0 :: "string \<Rightarrow> nat \<Rightarrow> char" where
  "at0 s i = (if i < length s then s ! i else NUL)"

definition isspace_c :: "char \<Rightarrow> bool" where
  "isspace_c c \<longleftrightarrow> c = SPACE \<or> c = TAB \<or> c = LF \<or> c = CHR 0x0B \<or> c = CHR 0x0C \<or> c = CR"

definition isdigit_c :: "char \<Rightarrow> bool" where
  "isdigit_c c \<longleftrightarrow> 48 \<le> (of_char c :: nat) \<and> (of_char c :: nat) \<le> 57"

definition isprint_c :: "char \<Rightarrow> bool" where
  "isprint_c c \<longleftrightarrow> 32 \<le> (of_char c :: nat) \<and> (of_char c :: nat) \<le> 126"

definition tolower_c :: "char \<Rightarrow> char" where
  "tolower_c c = (if 65 \<le> (of_char c :: nat) \<and> (of_char c :: nat) \<le> 90
     then char_of (of_char c + 32 :: nat) else c)"

definition strcasecmp_eq :: "cstring \<Rightarrow> cstring \<Rightarrow> bool" where
  "strcasecmp_eq a b \<longleftrightarrow> map tolower_c a = map tolower_c b"

definition strncmp_eq :: "cstring \<Rightarrow> cstring \<Rightarrow> nat \<Rightarrow> bool" where
  "strncmp_eq a b n \<longleftrightarrow> take n a = take n b"

lemma cstr_id [simp]: "NUL \<notin> set s \<Longrightarrow> cstr s = s"
  by (auto simp: cstr_def takeWhile_eq_all_conv)

lemma NUL_notin_cstr [simp]: "NUL \<notin> set (cstr s)"
  by (auto simp: cstr_def dest: set_takeWhileD)

lemma cstr_cstr [simp]: "cstr (cstr s) = cstr s"
  by simp

lemma cstr_Nil [simp]: "cstr [] = []"
  by (simp add: cstr_def)

lemma cstr_append: "NUL \<notin> set s \<Longrightarrow> cstr (s @ t) = s @ cstr t"
  by (induction s) (auto simp: cstr_def)

lemma set_cstr: "set (cstr s) \<subseteq> set s"
  by (auto simp: cstr_def dest: set_takeWhileD)

lemma at0_append [simp]: "at0 (xs @ ys) (length xs) = at0 ys 0"
  by (simp add: at0_def nth_append)

lemma at0_append_right: "length xs \<le> i \<Longrightarrow> at0 (xs @ ys) i = at0 ys (i - length xs)"
  by (auto simp: at0_def nth_append)

lemma at0_Cons_0 [simp]: "at0 (c # s) 0 = c"
  by (simp add: at0_def)

lemma at0_Nil [simp]: "at0 [] i = NUL"
  by (simp add: at0_def)

lemma at0_Cons_Suc [simp]: "at0 (c # s) (Suc i) = at0 s i"
  by (simp add: at0_def)

lemma at0_drop: "at0 (drop k s) i = at0 s (k + i)"
  by (auto simp: at0_def)

subsection \<open>Integer widths\<close>

definition i32 :: "int \<Rightarrow> int" where "i32 x = (x + 2 ^ 31) mod 2 ^ 32 - 2 ^ 31"
definition i64 :: "int \<Rightarrow> int" where "i64 x = (x + 2 ^ 63) mod 2 ^ 64 - 2 ^ 63"
definition u8 :: "int \<Rightarrow> int" where "u8 x = x mod 2 ^ 8"
definition u32 :: "int \<Rightarrow> int" where "u32 x = x mod 2 ^ 32"
definition u64 :: "int \<Rightarrow> int" where "u64 x = x mod 2 ^ 64"

definition in_i32 :: "int \<Rightarrow> bool" where "in_i32 x \<longleftrightarrow> - (2 ^ 31) \<le> x \<and> x < 2 ^ 31"
definition in_i64 :: "int \<Rightarrow> bool" where "in_i64 x \<longleftrightarrow> - (2 ^ 63) \<le> x \<and> x < 2 ^ 63"

lemma i32_id: "in_i32 x \<Longrightarrow> i32 x = x"
  by (simp add: in_i32_def i32_def)

lemma i64_id: "in_i64 x \<Longrightarrow> i64 x = x"
  by (simp add: in_i64_def i64_def)

lemma in_i32_i32 [simp]: "in_i32 (i32 x)"
  by (simp add: in_i32_def i32_def)

lemma in_i32_in_i64: "in_i32 x \<Longrightarrow> in_i64 x"
  by (simp add: in_i32_def in_i64_def)

lemma i32_nat_id: "int n < 2 ^ 31 \<Longrightarrow> i32 (int n) = int n"
  by (simp add: i32_def)

subsection \<open>Decimal printing and parsing\<close>

definition digit_char :: "nat \<Rightarrow> char" where "digit_char d = char_of (48 + d)"
definition digit_val :: "char \<Rightarrow> nat" where "digit_val c = of_char c - 48"

fun show_nat :: "nat \<Rightarrow> string" where
  "show_nat n = (if n < 10 then [digit_char n] else show_nat (n div 10) @ [digit_char (n mod 10)])"

declare show_nat.simps [simp del]

text \<open>\<open>%d\<close>, \<open>%ld\<close> and \<open>%u\<close>.\<close>

definition show_int :: "int \<Rightarrow> string" where
  "show_int x = (if x < 0 then CHR ''-'' # show_nat (nat (- x)) else show_nat (nat x))"

definition digits_val :: "string \<Rightarrow> nat" where
  "digits_val ds = foldl (\<lambda>n c. 10 * n + digit_val c) 0 ds"

text \<open>What \<open>strtol\<close> and \<open>strtoul\<close> read in base 10: leading white space, a sign, digits.\<close>

definition strto_scan :: "cstring \<Rightarrow> bool \<times> nat" where
  "strto_scan s =
     (let t = dropWhile isspace_c s;
          neg = (t \<noteq> [] \<and> hd t = CHR ''-'');
          u = (if t \<noteq> [] \<and> (hd t = CHR ''-'' \<or> hd t = CHR ''+'') then tl t else t)
      in (neg, digits_val (takeWhile isdigit_c u)))"

definition strtol_c :: "cstring \<Rightarrow> int" where
  "strtol_c s = (let (neg, n) = strto_scan s; v = (if neg then - int n else int n)
     in max (- (2 ^ 63)) (min (2 ^ 63 - 1) v))"

definition strtoul_c :: "cstring \<Rightarrow> int" where
  "strtoul_c s = (let (neg, n) = strto_scan s
     in if 2 ^ 64 \<le> int n then 2 ^ 64 - 1 else if neg then u64 (- int n) else int n)"

definition atoi :: "cstring \<Rightarrow> int" where "atoi s = i32 (strtol_c s)"
definition atoll :: "cstring \<Rightarrow> int" where "atoll s = strtol_c s"

lemma of_char_digit_char [simp]: "d < 10 \<Longrightarrow> (of_char (digit_char d) :: nat) = 48 + d"
  by (simp add: digit_char_def)

lemma digit_val_digit_char [simp]: "d < 10 \<Longrightarrow> digit_val (digit_char d) = d"
  by (simp add: digit_val_def)

lemma isdigit_digit_char [simp]: "d < 10 \<Longrightarrow> isdigit_c (digit_char d)"
  by (simp add: isdigit_c_def)

lemma show_nat_digits: "c \<in> set (show_nat n) \<Longrightarrow> isdigit_c c"
proof (induction n rule: show_nat.induct)
  case (1 n)
  then show ?case by (subst (asm) (2) show_nat.simps) (auto split: if_splits)
qed

lemma show_nat_not_Nil [simp]: "show_nat n \<noteq> []"
  by (subst show_nat.simps) simp

lemma digits_val_snoc [simp]: "digits_val (ds @ [c]) = 10 * digits_val ds + digit_val c"
  by (simp add: digits_val_def)

lemma digits_val_show_nat [simp]: "digits_val (show_nat n) = n"
proof (induction n rule: show_nat.induct)
  case (1 n)
  show ?case
  proof (cases "n < 10")
    case True
    then show ?thesis by (subst show_nat.simps) (simp add: digits_val_def)
  next
    case False
    then show ?thesis using 1 by (subst show_nat.simps) simp
  qed
qed

lemma length_show_nat_le: "n < 10 ^ Suc j \<Longrightarrow> length (show_nat n) \<le> Suc j"
proof (induction j arbitrary: n)
  case 0
  then show ?case by (subst show_nat.simps) simp
next
  case (Suc j)
  show ?case
  proof (cases "n < 10")
    case True
    then show ?thesis by (subst show_nat.simps) simp
  next
    case False
    from Suc.prems have "n div 10 < 10 ^ Suc j"
      by (simp add: less_mult_imp_div_less mult.commute)
    then have "length (show_nat (n div 10)) \<le> Suc j" by (rule Suc.IH)
    with False show ?thesis by (subst show_nat.simps) simp
  qed
qed

lemma length_show_nat_ge: "10 ^ k \<le> n \<Longrightarrow> k < length (show_nat n)"
proof (induction k arbitrary: n)
  case 0
  then show ?case by simp
next
  case (Suc k)
  have "1 \<le> (10 ^ k :: nat)" by simp
  moreover have "10 * 10 ^ k \<le> n" using Suc.prems by simp
  ultimately have n: "\<not> n < 10" by linarith
  from Suc.prems have "10 ^ k \<le> n div 10"
    by (simp add: less_eq_div_iff_mult_less_eq mult.commute)
  then have "k < length (show_nat (n div 10))" by (rule Suc.IH)
  with n show ?case by (subst show_nat.simps) simp
qed

lemma not_digit_sign [simp]: "\<not> isdigit_c (CHR ''-'')" "\<not> isdigit_c (CHR ''+'')"
  by (simp_all add: isdigit_c_def)

lemma isdigit_not_space: "isdigit_c c \<Longrightarrow> \<not> isspace_c c"
  by (auto simp: isdigit_c_def isspace_c_def)

lemma takeWhile_show_nat [simp]: "takeWhile isdigit_c (show_nat n) = show_nat n"
  by (rule takeWhile_all) (rule show_nat_digits)

lemma strto_scan_show_nat [simp]: "strto_scan (show_nat n) = (False, n)"
proof -
  obtain c cs where s: "show_nat n = c # cs" by (cases "show_nat n") auto
  then have c: "isdigit_c c" by (intro show_nat_digits [of c n]) simp
  then have "c \<noteq> CHR ''-''" "c \<noteq> CHR ''+''" "\<not> isspace_c c"
    using not_digit_sign isdigit_not_space by metis+
  moreover have "digits_val (takeWhile isdigit_c (c # cs)) = n"
    using takeWhile_show_nat [of n] digits_val_show_nat [of n] by (simp add: s)
  ultimately show ?thesis by (simp add: strto_scan_def Let_def s)
qed

lemma strto_scan_minus [simp]: "strto_scan (CHR ''-'' # show_nat n) = (True, n)"
  by (simp add: strto_scan_def Let_def isspace_c_def)

lemma strtol_show_int: "in_i64 x \<Longrightarrow> strtol_c (show_int x) = x"
  by (simp add: strtol_c_def show_int_def in_i64_def)

lemma atoi_show_int: "in_i32 x \<Longrightarrow> atoi (show_int x) = x"
  by (simp add: atoi_def strtol_show_int in_i32_in_i64 i32_id)

lemma atoll_show_int: "in_i64 x \<Longrightarrow> atoll (show_int x) = x"
  by (simp add: atoll_def strtol_show_int)

lemma show_int_chars: "c \<in> set (show_int x) \<Longrightarrow> isdigit_c c \<or> c = CHR ''-''"
  by (auto simp: show_int_def show_nat_digits split: if_splits)

lemma NUL_show_int [simp]: "NUL \<notin> set (show_int x)"
  by (auto simp: isdigit_c_def dest: show_int_chars)

subsection \<open>Bounded printing\<close>

text \<open>
  \<open>snprintf_buf n s\<close> is the C string left in a buffer of \<open>n > 0\<close> bytes by an
  \<open>snprintf\<close> whose complete output is \<open>s\<close>.
\<close>

definition snprintf_buf :: "nat \<Rightarrow> string \<Rightarrow> cstring" where
  "snprintf_buf n s = take (n - 1) s"

lemma snprintf_buf_fits: "length s < n \<Longrightarrow> snprintf_buf n s = s"
  by (simp add: snprintf_buf_def)

lemma length_snprintf_buf: "0 < n \<Longrightarrow> length (snprintf_buf n s) < n"
  by (simp add: snprintf_buf_def)

text \<open>\<open>%0wd\<close> of a value that is not negative.\<close>

definition pad_dec :: "nat \<Rightarrow> nat \<Rightarrow> string" where
  "pad_dec w n = replicate (w - length (show_nat n)) (CHR ''0'') @ show_nat n"

definition hex_digit :: "nat \<Rightarrow> char" where
  "hex_digit d = (if d < 10 then char_of (48 + d) else char_of (87 + d))"

text \<open>\<open>%02x\<close> of an unsigned byte.\<close>

definition show_hex2 :: "nat \<Rightarrow> string" where
  "show_hex2 b = [hex_digit (b div 16), hex_digit (b mod 16)]"

text \<open>The same texts computed on integers, which evaluation prefers to natural numbers.\<close>

function show_dec :: "int \<Rightarrow> string" where
  "show_dec x = (if x < 10 then [digit_char (nat x)] else show_dec (x div 10) @ [digit_char (nat (x mod 10))])"
  by pat_completeness auto
termination show_dec
  by (relation "measure nat") auto

declare show_dec.simps [simp del]
declare show_dec.simps [code]

lemma show_dec_nat: "show_dec (int n) = show_nat n"
proof (induction n rule: show_nat.induct)
  case (1 n)
  have d: "int n div 10 = int (n div 10)" "nat (int n mod 10) = n mod 10"
    by (simp_all add: zdiv_int nat_mod_distrib)
  show ?case
    by (subst show_dec.simps, subst show_nat.simps) (use 1 d in simp)
qed

lemma show_nat_code [code]: "show_nat n = show_dec (int n)"
  by (simp add: show_dec_nat)

lemma show_int_code [code]: "show_int x = (if x < 0 then CHR ''-'' # show_dec (- x) else show_dec x)"
  using show_dec_nat [of "nat x"] show_dec_nat [of "nat (- x)"] by (cases "x < 0") (simp_all add: show_int_def)

subsection \<open>Searching\<close>

fun find_sub :: "string \<Rightarrow> string \<Rightarrow> nat option" where
  "find_sub pat [] = (if pat = [] then Some 0 else None)"
| "find_sub pat (c # s) =
     (if prefix pat (c # s) then Some 0 else map_option Suc (find_sub pat s))"

text \<open>\<open>s.find( pat, pos )\<close>; \<open>None\<close> is \<open>std::string::npos\<close>.\<close>

definition find_from :: "string \<Rightarrow> string \<Rightarrow> nat \<Rightarrow> nat option" where
  "find_from pat s pos =
     (if length s < pos then None else map_option ((+) pos) (find_sub pat (drop pos s)))"

lemma find_sub_Some:
  "find_sub pat s = Some i \<Longrightarrow> i \<le> length s \<and> prefix pat (drop i s) \<and> (\<forall>j<i. \<not> prefix pat (drop j s))"
proof (induction pat s arbitrary: i rule: find_sub.induct)
  case (2 pat c s)
  then show ?case by (auto simp: less_Suc_eq_0_disj split: if_splits)
qed (auto split: if_splits)

lemma find_sub_None: "find_sub pat s = None \<longleftrightarrow> (\<forall>j\<le>length s. \<not> prefix pat (drop j s))"
proof (induction s)
  case (Cons c s)
  have "(\<forall>j\<le>length (c # s). \<not> prefix pat (drop j (c # s))) \<longleftrightarrow>
      \<not> prefix pat (c # s) \<and> (\<forall>j\<le>length s. \<not> prefix pat (drop j s))"
    by (auto simp: all_simps less_Suc_eq_le [symmetric] All_less_Suc2 simp del: prefix_Cons)
  with Cons show ?case by simp
qed simp

lemma find_sub_SomeI:
  "prefix pat (drop i s) \<Longrightarrow> i \<le> length s \<Longrightarrow> (\<And>j. j < i \<Longrightarrow> \<not> prefix pat (drop j s)) \<Longrightarrow>
    find_sub pat s = Some i"
  by (metis find_sub_None find_sub_Some linorder_neqE_nat not_None_eq)

lemma find_sub_Nil [simp]: "find_sub [] s = Some 0"
  by (cases s) auto

lemma find_sub_bound: "find_sub pat s = Some i \<Longrightarrow> i + length pat \<le> length s"
  using find_sub_Some [of pat s i] prefix_length_le [of pat "drop i s"] by auto

lemma find_from_bounds:
  "find_from pat s pos = Some i \<Longrightarrow> pos \<le> i \<and> i + length pat \<le> length s"
  by (auto simp: find_from_def split: if_splits dest!: find_sub_bound)

lemma find_from_Some_prefix: "find_from pat s pos = Some i \<Longrightarrow> prefix pat (drop i s)"
  by (auto simp: find_from_def add.commute split: if_splits dest!: find_sub_Some)

lemma find_sub_char: "find_sub [c] s =
    (if c \<in> set s then Some (length (takeWhile (\<lambda>x. x \<noteq> c) s)) else None)"
  by (induction s) (auto simp: prefix_def)

lemma find_sub_eq_None_char: "find_sub [c] s = None \<longleftrightarrow> c \<notin> set s"
  by (simp add: find_sub_char)

end
