(* ===== verification/StringUtility.thy ===== *)
theory StringUtility
  imports CRuntime
begin

text \<open>
  SipPlatform/StringUtility.cpp: replacing, searching, trimming and splitting strings, and
  the conversions to integers and from hexadecimal text. Loops are recursive functions over
  the index the code counts; \<open>ReplaceString\<close>, whose loop does not always end, is a partial
  function with result \<open>None\<close> where it does not return.
\<close>

subsection \<open>ReplaceString\<close>

partial_function (option) ReplaceString_loop ::
    "cstring \<Rightarrow> cstring \<Rightarrow> string \<Rightarrow> nat option \<Rightarrow> string option" where
  "ReplaceString_loop pszBefore pszAfter s pos =
     (if pos = None then Some s
      else ReplaceString_loop pszBefore pszAfter
             (take (the pos) s @ pszAfter @ drop (the pos + length pszBefore) s)
             (find_from pszBefore
               (take (the pos) s @ pszAfter @ drop (the pos + length pszBefore) s)
               (the pos + length pszAfter)))"

definition ReplaceString :: "string \<Rightarrow> cstring \<Rightarrow> cstring \<Rightarrow> string option" where
  "ReplaceString s pszBefore pszAfter =
     ReplaceString_loop pszBefore pszAfter s (find_from pszBefore s 0)"

definition ReplaceStringChar :: "string \<Rightarrow> char \<Rightarrow> char \<Rightarrow> string option" where
  "ReplaceStringChar s cBefore cAfter = ReplaceString s (cstr [cBefore]) (cstr [cAfter])"

text \<open>Reference: left-to-right replacement of non-overlapping occurrences.\<close>

function replace_all :: "string \<Rightarrow> string \<Rightarrow> string \<Rightarrow> string" where
  "replace_all b a s =
     (if b = [] then s
      else case find_sub b s of None \<Rightarrow> s
           | Some i \<Rightarrow> take i s @ a @ replace_all b a (drop (i + length b) s))"
  by pat_completeness auto
termination
  by (relation "measure (\<lambda>(b, a, s). length s)") (auto dest!: find_sub_bound simp: length_greater_0_conv [symmetric]
      simp del: length_greater_0_conv)

declare replace_all.simps [simp del]

lemma find_from_length:
  "k = length xs \<Longrightarrow> find_from b (xs @ ys) k = map_option ((+) k) (find_sub b ys)"
  by (simp add: find_from_def)

lemma ReplaceString_loop_replace_all:
  "pszBefore \<noteq> [] \<Longrightarrow>
   ReplaceString_loop pszBefore pszAfter (dn @ rest) (find_from pszBefore (dn @ rest) (length dn)) =
     Some (dn @ replace_all pszBefore pszAfter rest)"
proof (induction "length rest" arbitrary: dn rest rule: less_induct)
  case less
  show ?case
  proof (cases "find_sub pszBefore rest")
    case None
    then show ?thesis using less.prems
      by (simp add: find_from_length ReplaceString_loop.simps replace_all.simps [of _ _ rest])
  next
    case (Some i)
    let ?rest = "drop (i + length pszBefore) rest" and ?done = "dn @ take i rest @ pszAfter"
    note b = find_sub_bound [OF Some]
    then have "length ?rest < length rest" using less.prems by (cases pszBefore) auto
    note IH = less.hyps [OF this less.prems, of ?done]
    have s': "take (length dn + i) (dn @ rest) @ pszAfter @
        drop (length dn + i + length pszBefore) (dn @ rest) = ?done @ ?rest"
      by (simp add: add.assoc)
    have len: "length dn + i + length pszAfter = length ?done" using b by simp
    have "ReplaceString_loop pszBefore pszAfter (dn @ rest) (Some (length dn + i)) =
        Some (?done @ replace_all pszBefore pszAfter ?rest)"
      by (subst ReplaceString_loop.simps) (simp only: option.sel option.distinct if_False s' len IH)
    then show ?thesis using Some less.prems
      by (simp add: find_from_length replace_all.simps [of _ _ rest])
  qed
qed

lemma ReplaceString_replace_all:
  "pszBefore \<noteq> [] \<Longrightarrow> ReplaceString s pszBefore pszAfter = Some (replace_all pszBefore pszAfter s)"
  using ReplaceString_loop_replace_all [of pszBefore pszAfter "[]" s]
  by (simp add: ReplaceString_def)

text \<open>With an empty search string the loop finds a match at every position it asks for.\<close>

lemma ReplaceString_loop_empty:
  assumes "ReplaceString_loop b a s p = Some r"
  shows "b = [] \<longrightarrow> p \<noteq> None \<longrightarrow> the p \<le> length s \<longrightarrow> False"
proof (rule ReplaceString_loop.raw_induct
    [where P = "\<lambda>b a s p r. b = [] \<longrightarrow> p \<noteq> None \<longrightarrow> the p \<le> length s \<longrightarrow> False", OF _ assms])
  fix f b a s p r
  assume IH: "\<And>b a s p r. f b a s p = Some r \<Longrightarrow> b = [] \<longrightarrow> p \<noteq> None \<longrightarrow> the p \<le> length s \<longrightarrow> False"
    and eq: "(if p = None then Some s
        else f b a (take (the p) s @ a @ drop (the p + length b) s)
            (find_from b (take (the p) s @ a @ drop (the p + length b) s) (the p + length a))) = Some r"
  show "b = [] \<longrightarrow> p \<noteq> None \<longrightarrow> the p \<le> length s \<longrightarrow> False"
  proof (intro impI)
    assume a: "b = []" "p \<noteq> None" "the p \<le> length s"
    then obtain i where i: "p = Some i" "i \<le> length s" by auto
    have "find_from [] (take i s @ a @ drop i s) (i + length a) = Some (i + length a)"
      using i by (simp add: find_from_def)
    with eq a i have "f [] a (take i s @ a @ drop i s) (Some (i + length a)) = Some r" by simp
    from IH [OF this] i show False by simp
  qed
qed

lemma ReplaceString_empty: "ReplaceString s [] a = None"
  using ReplaceString_loop_empty [of "[]" a s "Some 0"]
  by (cases "ReplaceString s [] a") (auto simp: ReplaceString_def find_from_def)

lemma replace_all_char: "replace_all [b] [a] s = map (\<lambda>c. if c = b then a else c) s"
proof (induction "length s" arbitrary: s rule: less_induct)
  case less
  show ?case
  proof (cases "b \<in> set s")
    case False
    then show ?thesis
      by (auto simp: replace_all.simps [of _ _ s] find_sub_char intro!: map_idI [symmetric])
  next
    case True
    then obtain t rest where s: "s = t @ b # rest" and b: "b \<notin> set t"
      by (metis split_list_first)
    have tw: "takeWhile (\<lambda>x. x \<noteq> b) s = t"
      unfolding s using b by (intro takeWhile_append_stop) auto
    have t: "map (\<lambda>c. if c = b then a else c) t = t"
      using b by (intro map_idI) auto
    have len: "length rest < length s" by (simp add: s)
    have "replace_all [b] [a] s = t @ a # replace_all [b] [a] rest"
      using True by (simp add: replace_all.simps [of _ _ s] find_sub_char tw) (simp add: s)
    with less.hyps [OF len] t show ?thesis by (simp add: s)
  qed
qed

lemma ReplaceStringChar_map:
  "b \<noteq> NUL \<Longrightarrow> a \<noteq> NUL \<Longrightarrow> ReplaceStringChar s b a = Some (map (\<lambda>c. if c = b then a else c) s)"
  by (simp add: ReplaceStringChar_def ReplaceString_replace_all replace_all_char)

subsection \<open>SearchValue and SearchString\<close>

definition SearchValue :: "string \<Rightarrow> cstring \<Rightarrow> char \<Rightarrow> bool \<times> string" where
  "SearchValue strText pszKey cSep =
     (case find_from pszKey strText 0 of
        Some iPos \<Rightarrow>
          (case find_from [cSep] strText (iPos + length pszKey) of
             Some iEndPos \<Rightarrow> (True, slice strText (iPos + length pszKey) iEndPos)
           | None \<Rightarrow> (True, drop (iPos + length pszKey) strText))
      | None \<Rightarrow> (False, []))"

text \<open>The integer variant leaves \<open>iValue\<close> as it was when the key is not found.\<close>

definition SearchValueInt :: "string \<Rightarrow> cstring \<Rightarrow> char \<Rightarrow> int \<Rightarrow> bool \<times> int" where
  "SearchValueInt strText pszKey cSep iValue =
     (case SearchValue strText pszKey cSep of
        (True, strValue) \<Rightarrow> (True, atoi (cstr strValue))
      | (False, _) \<Rightarrow> (False, iValue))"

definition SearchString :: "string \<Rightarrow> cstring \<Rightarrow> bool" where
  "SearchString strText pszValue \<longleftrightarrow> find_from pszValue strText 0 \<noteq> None"

definition SearchStringChar :: "string \<Rightarrow> char \<Rightarrow> bool" where
  "SearchStringChar strText cValue \<longleftrightarrow> find_from [cValue] strText 0 \<noteq> None"

lemma find_from_0: "find_from pat s 0 = find_sub pat s"
  by (cases "find_sub pat s") (simp_all add: find_from_def)

lemma SearchStringChar_iff [simp]: "SearchStringChar s c \<longleftrightarrow> c \<in> set s"
  by (simp add: SearchStringChar_def find_from_0 find_sub_char)

lemma SearchString_iff: "SearchString s p \<longleftrightarrow> sublist p s"
proof -
  have "find_sub p s \<noteq> None \<longleftrightarrow> (\<exists>j\<le>length s. prefix p (drop j s))"
    by (simp add: find_sub_None)
  also have "\<dots> \<longleftrightarrow> sublist p s"
  proof
    assume "\<exists>j\<le>length s. prefix p (drop j s)"
    then obtain j zs where "drop j s = p @ zs" by (auto simp: prefix_def)
    then show "sublist p s" using append_take_drop_id [of j s] by (metis sublist_appendI)
  next
    assume "sublist p s"
    then obtain xs ys where "s = xs @ p @ ys" by (auto simp: sublist_def)
    then show "\<exists>j\<le>length s. prefix p (drop j s)" by (intro exI [of _ "length xs"]) auto
  qed
  finally show ?thesis by (simp add: SearchString_def find_from_0)
qed

text \<open>The value found is the text between the first occurrence of the key and the next
  separator, or the end.\<close>

lemma SearchValue_found:
  assumes key: "find_sub pszKey (pre @ pszKey @ val @ rest) = Some (length pre)"
    and "cSep \<notin> set val" and "rest = [] \<or> hd rest = cSep"
  shows "SearchValue (pre @ pszKey @ val @ rest) pszKey cSep = (True, val)"
proof (cases rest)
  case Nil
  then show ?thesis using assms
    by (simp add: SearchValue_def find_from_def find_sub_char)
next
  case (Cons c cs)
  then have c: "c = cSep" using assms by simp
  have tw: "takeWhile (\<lambda>x. x \<noteq> cSep) (val @ cSep # cs) = val"
    using assms by (intro takeWhile_append_stop) auto
  have "slice (pre @ pszKey @ val @ cSep # cs) (length pre + length pszKey)
      (length pre + length pszKey + length val) = val"
    using slice_append_mid' [of _ "pre @ pszKey" _ val "cSep # cs"] by simp
  with Cons c assms tw show ?thesis
    by (simp add: SearchValue_def find_from_def find_sub_char)
qed

subsection \<open>Trimming\<close>

definition blank :: "char \<Rightarrow> bool" where
  "blank c \<longleftrightarrow> c = SPACE \<or> c = TAB"

function LeftTrim_loop :: "string \<Rightarrow> nat \<Rightarrow> string" where
  "LeftTrim_loop s iIndex =
     (if iIndex < length s
      then if blank (s ! iIndex) then LeftTrim_loop s (Suc iIndex) else drop iIndex s
      else [])"
  by pat_completeness auto
termination
  by (relation "measure (\<lambda>(s, i). length s - i)") auto

declare LeftTrim_loop.simps [simp del]

definition LeftTrimString :: "string \<Rightarrow> string" where
  "LeftTrimString s = LeftTrim_loop s 0"

text \<open>\<open>RightTrim_loop s k\<close> is the loop at \<open>iIndex = k - 1\<close>.\<close>

fun RightTrim_loop :: "string \<Rightarrow> nat \<Rightarrow> string" where
  "RightTrim_loop s 0 = []"
| "RightTrim_loop s (Suc iIndex) =
     (if blank (s ! iIndex) then RightTrim_loop s iIndex
      else if iIndex \<noteq> length s - 1 then take (iIndex + 1) s else s)"

definition RightTrimString :: "string \<Rightarrow> string" where
  "RightTrimString s = RightTrim_loop s (length s)"

definition TrimString :: "string \<Rightarrow> string" where
  "TrimString s = RightTrimString (LeftTrimString s)"

lemma LeftTrim_loop_eq: "i \<le> length s \<Longrightarrow> LeftTrim_loop s i = dropWhile blank (drop i s)"
proof (induction s i rule: LeftTrim_loop.induct)
  case (1 s i)
  then show ?case
    by (cases "i < length s")
      (auto simp: LeftTrim_loop.simps [of s] Cons_nth_drop_Suc [symmetric])
qed

lemma LeftTrimString_eq: "LeftTrimString s = dropWhile blank s"
  by (simp add: LeftTrimString_def LeftTrim_loop_eq)

lemma RightTrim_loop_eq:
  "k \<le> length s \<Longrightarrow> RightTrim_loop s k = rev (dropWhile blank (rev (take k s)))"
proof (induction s k rule: RightTrim_loop.induct)
  case (2 s i)
  then have "rev (dropWhile blank (rev (take (Suc i) s))) =
      (if blank (s ! i) then rev (dropWhile blank (rev (take i s))) else take (Suc i) s)"
    by (simp add: take_Suc_conv_app_nth)
  with 2 show ?case by auto
qed simp

lemma RightTrimString_eq: "RightTrimString s = rev (dropWhile blank (rev s))"
  by (simp add: RightTrimString_def RightTrim_loop_eq)

lemma TrimString_eq: "TrimString s = rev (dropWhile blank (rev (dropWhile blank s)))"
  by (simp add: TrimString_def LeftTrimString_eq RightTrimString_eq)

lemma TrimString_decomp:
  "\<exists>l r. s = l @ TrimString s @ r \<and> list_all blank l \<and> list_all blank r"
proof -
  let ?d = "dropWhile blank s"
  have 1: "s = takeWhile blank s @ ?d" by simp
  have 2: "?d = TrimString s @ rev (takeWhile blank (rev ?d))"
    by (metis TrimString_eq rev_append rev_rev_ident takeWhile_dropWhile_id)
  from 1 2 have "s = takeWhile blank s @ TrimString s @ rev (takeWhile blank (rev ?d))" by metis
  moreover have tw: "list_all blank (takeWhile blank t)" for t
    by (auto simp: list_all_iff dest: set_takeWhileD)
  moreover have "list_all blank (rev (takeWhile blank (rev ?d)))"
    unfolding list_all_rev by (rule tw)
  ultimately show ?thesis by blast
qed

lemma TrimString_ends:
  assumes "TrimString s \<noteq> []"
  shows "\<not> blank (hd (TrimString s))" "\<not> blank (last (TrimString s))"
proof -
  let ?d = "dropWhile blank s"
  have ne: "dropWhile blank (rev ?d) \<noteq> []"
    using assms unfolding TrimString_eq by (metis rev_is_Nil_conv)
  with hd_dropWhile [OF this] show "\<not> blank (last (TrimString s))"
    unfolding TrimString_eq by (metis last_rev)
  have "?d \<noteq> []" using ne by (metis dropWhile.simps(1) rev.simps(1))
  moreover have "hd (TrimString s) = hd ?d"
  proof -
    have "?d = TrimString s @ rev (takeWhile blank (rev ?d))"
      by (metis TrimString_eq rev_append rev_rev_ident takeWhile_dropWhile_id)
    then show ?thesis using assms by (metis hd_append2)
  qed
  ultimately show "\<not> blank (hd (TrimString s))" using hd_dropWhile [of blank s] by metis
qed

lemma TrimString_fix: "s = [] \<or> \<not> blank (hd s) \<and> \<not> blank (last s) \<Longrightarrow> TrimString s = s"
  by (cases s rule: rev_cases) (auto simp: TrimString_eq dropWhile_none)

lemma TrimString_idem: "TrimString (TrimString s) = TrimString s"
  using TrimString_ends by (intro TrimString_fix) blast

lemma NUL_TrimString: "NUL \<notin> set s \<Longrightarrow> NUL \<notin> set (TrimString s)"
  using TrimString_decomp [of s] by (metis Un_iff set_append)

subsection \<open>SplitString\<close>

text \<open>\<open>start\<close> is \<open>iStartPos\<close>, \<open>-1\<close> before the first byte.\<close>

definition Split_push :: "cstring \<Rightarrow> int \<Rightarrow> nat \<Rightarrow> string list \<Rightarrow> string list" where
  "Split_push pszText start i clsList =
     (if 0 \<le> start \<and> start \<noteq> int i then clsList @ [slice pszText (nat start) i] else clsList)"

function Split_loop :: "cstring \<Rightarrow> char \<Rightarrow> nat \<Rightarrow> int \<Rightarrow> string list \<Rightarrow> string list" where
  "Split_loop pszText cSep i start clsList =
     (if i < length pszText
      then if pszText ! i = cSep
           then Split_loop pszText cSep (Suc i) (int i + 1) (Split_push pszText start i clsList)
           else if i = 0 then Split_loop pszText cSep (Suc i) 0 clsList
           else Split_loop pszText cSep (Suc i) start clsList
      else Split_push pszText start i clsList)"
  by pat_completeness auto
termination
  by (relation "measure (\<lambda>(t, c, i, st, l). length t - i)") auto

declare Split_loop.simps [simp del]

definition SplitString :: "cstring \<Rightarrow> char \<Rightarrow> string list" where
  "SplitString pszText cSep = Split_loop pszText cSep 0 (-1) []"

text \<open>Reference: the pieces between separators, empty ones included.\<close>

fun split_on :: "char \<Rightarrow> string \<Rightarrow> string list" where
  "split_on c [] = [[]]"
| "split_on c (x # xs) =
     (if x = c then [] # split_on c xs
      else case split_on c xs of [] \<Rightarrow> [[x]] | p # ps \<Rightarrow> (x # p) # ps)"

fun join_with :: "char \<Rightarrow> string list \<Rightarrow> string" where
  "join_with c [] = []"
| "join_with c [x] = x"
| "join_with c (x # y # xs) = x @ c # join_with c (y # xs)"

lemma split_on_not_Nil [simp]: "split_on c xs \<noteq> []"
  by (induction c xs rule: split_on.induct) (auto split: list.splits)

lemma split_on_append: "c \<notin> set xs \<Longrightarrow>
    split_on c (xs @ ys) = (xs @ hd (split_on c ys)) # tl (split_on c ys)"
  by (induction xs) (auto split: list.splits)

lemma split_on_sep: "c \<notin> set xs \<Longrightarrow> split_on c (xs @ c # ys) = xs # split_on c ys"
  by (simp add: split_on_append)

lemma split_on_none: "c \<notin> set xs \<Longrightarrow> split_on c xs = [xs]"
  using split_on_append [of c xs "[]"] by simp

lemma split_on_snoc: "c \<notin> set y \<Longrightarrow> split_on c (x @ c # y) = split_on c x @ [y]"
proof (induction x)
  case (Cons a x)
  then show ?case by (cases "split_on c x") auto
qed (simp add: split_on_none)

lemma split_join: "xs \<noteq> [] \<Longrightarrow> (\<And>x. x \<in> set xs \<Longrightarrow> c \<notin> set x) \<Longrightarrow> split_on c (join_with c xs) = xs"
  by (induction c xs rule: join_with.induct) (auto simp: split_on_sep split_on_none)

lemma Split_push_slice:
  "st \<le> i \<Longrightarrow> i \<le> length t \<Longrightarrow>
    Split_push t (int st) i acc = acc @ filter (\<lambda>x. x \<noteq> []) [slice t st i]"
  by (auto simp: Split_push_def slice_def)

lemma Split_loop_eq:
  "i \<le> length t \<Longrightarrow> st \<le> i \<Longrightarrow> 0 < i \<Longrightarrow> c \<notin> set (slice t st i) \<Longrightarrow>
    Split_loop t c i (int st) acc = acc @ filter (\<lambda>x. x \<noteq> []) (split_on c (drop st t))"
proof (induction "length t - i" arbitrary: i st acc)
  case 0
  then have "slice t st i = drop st t" by (simp add: slice_all_eq_drop)
  with 0 show ?case by (simp add: Split_loop.simps [of t] Split_push_slice split_on_none)
next
  case (Suc n)
  then have i: "i < length t" by simp
  have app: "drop st t = slice t st i @ t ! i # drop (Suc i) t"
    using i Suc.prems by (simp add: slice_def Cons_nth_drop_Suc)
      (metis append_take_drop_id drop_drop le_add_diff_inverse2)
  show ?case
  proof (cases "t ! i = c")
    case True
    have "Split_loop t c (Suc i) (int (Suc i)) (Split_push t (int st) i acc) =
        Split_push t (int st) i acc @ filter (\<lambda>x. x \<noteq> []) (split_on c (drop (Suc i) t))"
      using Suc.hyps(2) i by (intro Suc.hyps(1)) auto
    with True i Suc.prems app show ?thesis
      by (simp add: Split_loop.simps [of t _ i] Split_push_slice split_on_sep add.commute)
  next
    case False
    have "Split_loop t c (Suc i) (int st) acc = acc @ filter (\<lambda>x. x \<noteq> []) (split_on c (drop st t))"
      using Suc.hyps(2) i False Suc.prems by (intro Suc.hyps(1)) (auto simp: slice_Suc_right)
    with False i Suc.prems show ?thesis by (simp add: Split_loop.simps [of t _ i])
  qed
qed

lemma SplitString_eq: "SplitString t c = filter (\<lambda>x. x \<noteq> []) (split_on c t)"
proof (cases t)
  case Nil
  then show ?thesis by (simp add: SplitString_def Split_loop.simps Split_push_def)
next
  case (Cons x xs)
  show ?thesis
  proof (cases "x = c")
    case True
    have "Split_loop t c (Suc 0) (int (Suc 0)) [] =
        [] @ filter (\<lambda>x. x \<noteq> []) (split_on c (drop (Suc 0) t))"
      using Cons by (intro Split_loop_eq) auto
    with True Cons show ?thesis
      by (simp add: SplitString_def Split_loop.simps [of _ _ 0] Split_push_def)
  next
    case False
    have "Split_loop t c (Suc 0) (int 0) [] = [] @ filter (\<lambda>x. x \<noteq> []) (split_on c (drop 0 t))"
      using Cons False by (intro Split_loop_eq) (auto simp: slice_def)
    with False Cons show ?thesis by (simp add: SplitString_def Split_loop.simps [of _ _ 0])
  qed
qed

lemma SplitString_join:
  "xs \<noteq> [] \<Longrightarrow> (\<And>x. x \<in> set xs \<Longrightarrow> c \<notin> set x \<and> x \<noteq> []) \<Longrightarrow> SplitString (join_with c xs) c = xs"
  by (simp add: SplitString_eq split_join filter_id_conv)

subsection \<open>GetUInt32, GetUInt64\<close>

definition GetUInt32 :: "cstring option \<Rightarrow> int" where
  "GetUInt32 pszText = (case pszText of None \<Rightarrow> 0 | Some s \<Rightarrow> u32 (strtoul_c s))"

definition GetUInt64 :: "cstring option \<Rightarrow> int" where
  "GetUInt64 pszText = (case pszText of None \<Rightarrow> 0 | Some s \<Rightarrow> strtoul_c s)"

lemma GetUInt32_show: "0 \<le> x \<Longrightarrow> x < 2 ^ 32 \<Longrightarrow> GetUInt32 (Some (show_int x)) = x"
  by (simp add: GetUInt32_def strtoul_c_def show_int_def u32_def)

lemma GetUInt64_show: "0 \<le> x \<Longrightarrow> x < 2 ^ 64 \<Longrightarrow> GetUInt64 (Some (show_int x)) = x"
  by (simp add: GetUInt64_def strtoul_c_def show_int_def le_nat_iff)

subsection \<open>HexToString\<close>

definition isxdigit_c :: "char \<Rightarrow> bool" where
  "isxdigit_c c \<longleftrightarrow> isdigit_c c \<or> 65 \<le> (of_char c :: nat) \<and> (of_char c :: nat) \<le> 70 \<or>
     97 \<le> (of_char c :: nat) \<and> (of_char c :: nat) \<le> 102"

definition xdigit_val :: "char \<Rightarrow> nat" where
  "xdigit_val c = (if isdigit_c c then of_char c - 48 else of_char (tolower_c c) - 87)"

definition xdigits_val :: "string \<Rightarrow> nat" where
  "xdigits_val ds = foldl (\<lambda>n c. 16 * n + xdigit_val c) 0 ds"

text \<open>
  \<open>sscanf( s, "%02x", &iValue )\<close>: white space is skipped, then at most two bytes are read, a
  sign or a prefix \<open>0x\<close> among them; \<open>None\<close> when nothing matches, which leaves \<open>iValue\<close> as it was.
\<close>

definition sscanf_02x :: "cstring \<Rightarrow> int option" where
  "sscanf_02x s =
     (let t = take 2 (dropWhile isspace_c s);
          neg = (t \<noteq> [] \<and> hd t = CHR ''-'');
          u = (if t \<noteq> [] \<and> (hd t = CHR ''-'' \<or> hd t = CHR ''+'') then tl t else t);
          ds = takeWhile isxdigit_c u
      in if ds = [] then None
         else Some (if neg then - int (xdigits_val ds) else int (xdigits_val ds)))"

text \<open>
  The output is a list of \<open>char option\<close>: \<open>None\<close> is a byte whose value is indeterminate,
  because \<open>iValue\<close> was never written.
\<close>

definition to_char :: "int \<Rightarrow> char" where "to_char v = char_of (nat (v mod 256))"

function Hex_loop :: "cstring \<Rightarrow> nat \<Rightarrow> int option \<Rightarrow> char option list \<Rightarrow> char option list" where
  "Hex_loop pszInput i iValue strOutput =
     (if i < length pszInput
      then let v = (case sscanf_02x (drop i pszInput) of None \<Rightarrow> iValue | Some x \<Rightarrow> Some x)
           in Hex_loop pszInput (i + 2) v (strOutput @ [map_option to_char v])
      else strOutput)"
  by pat_completeness auto
termination
  by (relation "measure (\<lambda>(t, i, v, l). length t - i)") auto

declare Hex_loop.simps [simp del]

definition HexToString :: "cstring \<Rightarrow> bool \<times> char option list" where
  "HexToString pszInput =
     (let s = (if 2 \<le> length pszInput \<and> pszInput ! 0 = CHR ''0'' \<and> pszInput ! 1 = CHR ''x''
               then drop 2 pszInput else pszInput)
      in if s = [] \<or> length s mod 2 = 1 then (False, []) else (True, Hex_loop s 0 None []))"

lemma of_char_hex_digit: "d < 16 \<Longrightarrow> of_char (hex_digit d) = (if d < 10 then 48 + d else 87 + d)"
  by (simp add: hex_digit_def)

lemma hex_digit_facts:
  assumes "d < 16"
  shows "isxdigit_c (hex_digit d)" "xdigit_val (hex_digit d) = d" "\<not> isspace_c (hex_digit d)"
    "hex_digit d \<noteq> CHR ''-''" "hex_digit d \<noteq> CHR ''+''" "hex_digit d \<noteq> CHR ''x''"
    "hex_digit d \<noteq> NUL"
  using assms of_char_hex_digit [OF assms]
  by (auto simp: isxdigit_c_def xdigit_val_def isdigit_c_def tolower_c_def isspace_c_def
      split: if_splits)

lemma sscanf_show_hex2:
  assumes "b < 256"
  shows "sscanf_02x (show_hex2 b @ s) = Some (int b)"
proof -
  have d: "b div 16 < 16" "b mod 16 < 16" using assms by auto
  show ?thesis
    by (simp add: sscanf_02x_def show_hex2_def Let_def hex_digit_facts [OF d(1)]
        hex_digit_facts [OF d(2)] xdigits_val_def numeral_2_eq_2)
qed

lemma of_char_less_256 [simp]: "(of_char c :: nat) < 256"
  by (metis nat_of_char_less_256)

lemma to_char_of_char [simp]: "to_char (int (of_char c)) = c"
proof -
  have "int (of_char c) mod 256 = int (of_char c)"
    by (rule mod_pos_pos_trivial) (use of_char_less_256 [of c] in \<open>simp_all del: of_char_less_256\<close>)
  then show ?thesis by (simp add: to_char_def)
qed

definition hex_text :: "string \<Rightarrow> cstring" where
  "hex_text bs = concat (map (\<lambda>c. show_hex2 (of_char c)) bs)"

lemma length_show_hex2 [simp]: "length (show_hex2 b) = 2"
  by (simp add: show_hex2_def)

lemma length_hex_text [simp]: "length (hex_text bs) = 2 * length bs"
  by (induction bs) (simp_all add: hex_text_def)

lemma Hex_loop_hex_text:
  "Hex_loop (pre @ hex_text bs) (length pre) v out = out @ map Some bs"
proof (induction bs arbitrary: pre v out)
  case Nil
  then show ?case by (simp add: hex_text_def Hex_loop.simps)
next
  case (Cons b bs)
  have h: "hex_text (b # bs) = show_hex2 (of_char b) @ hex_text bs"
    by (simp add: hex_text_def)
  have "Hex_loop (pre @ hex_text (b # bs)) (length pre) v out =
      Hex_loop (pre @ hex_text (b # bs)) (length pre + 2) (Some (int (of_char b))) (out @ [Some b])"
    by (subst Hex_loop.simps) (simp add: h sscanf_show_hex2)
  also have "\<dots> = out @ map Some (b # bs)"
    using Cons.IH [of "pre @ show_hex2 (of_char b)"] by (simp add: h)
  finally show ?case .
qed

text \<open>Reading back what \<open>%02x\<close> printed, with or without the prefix \<open>0x\<close>.\<close>

lemma HexToString_hex_text:
  assumes "bs \<noteq> []"
  shows "HexToString (hex_text bs) = (True, map Some bs)"
    and "HexToString (''0x'' @ hex_text bs) = (True, map Some bs)"
proof -
  obtain b bs' where bs: "bs = b # bs'" using assms by (cases bs) auto
  have "(of_char b :: nat) mod 16 < 16" by simp
  then have x: "hex_text bs ! 1 \<noteq> CHR ''x''"
    using hex_digit_facts(6) [of "of_char b mod 16"] by (simp add: bs hex_text_def show_hex2_def)
  have ne: "hex_text bs \<noteq> []" by (simp add: bs hex_text_def show_hex2_def)
  note loop = Hex_loop_hex_text [of "[]" bs None "[]", simplified]
  show "HexToString (hex_text bs) = (True, map Some bs)"
    using x ne by (simp add: HexToString_def Let_def loop)
  show "HexToString (''0x'' @ hex_text bs) = (True, map Some bs)"
    using ne by (simp add: HexToString_def Let_def loop)
qed

text \<open>An even number of bytes is accepted whatever they are: the result is then not
  determined by the input.\<close>

lemma HexToString_indeterminate: "HexToString ''zz'' = (True, [None])"
  by (simp add: HexToString_def Let_def Hex_loop.simps sscanf_02x_def isspace_c_def isxdigit_c_def
      isdigit_c_def of_char_def)

subsection \<open>IsPrintString\<close>

function IsPrint_loop :: "string \<Rightarrow> nat \<Rightarrow> nat \<Rightarrow> bool" where
  "IsPrint_loop pszText iTextLen i =
     (if i < iTextLen
      then if \<not> isprint_c (at0 pszText i) then False else IsPrint_loop pszText iTextLen (Suc i)
      else True)"
  by pat_completeness auto
termination
  by (relation "measure (\<lambda>(t, n, i). n - i)") auto

declare IsPrint_loop.simps [simp del]

definition IsPrintString :: "string \<Rightarrow> nat \<Rightarrow> bool" where
  "IsPrintString pszText iTextLen = IsPrint_loop pszText iTextLen 0"

lemma IsPrint_loop_iff:
  "IsPrint_loop t n i \<longleftrightarrow> (\<forall>j. i \<le> j \<and> j < n \<longrightarrow> isprint_c (at0 t j))"
proof (induction t n i rule: IsPrint_loop.induct)
  case (1 t n i)
  show ?case
  proof (cases "i < n \<and> isprint_c (at0 t i)")
    case True
    with 1 have "IsPrint_loop t n i \<longleftrightarrow> (\<forall>j. Suc i \<le> j \<and> j < n \<longrightarrow> isprint_c (at0 t j))"
      by (simp add: IsPrint_loop.simps [of t n i])
    with True show ?thesis by (metis Suc_leI le_antisym not_less_eq_eq Suc_leD)
  next
    case False
    then show ?thesis by (auto simp: IsPrint_loop.simps [of t n i])
  qed
qed

lemma IsPrintString_iff:
  "n \<le> length t \<Longrightarrow> IsPrintString t n \<longleftrightarrow> list_all isprint_c (take n t)"
  by (auto simp: IsPrintString_def IsPrint_loop_iff list_all_length at0_def)

end
