(* ===== verification/DbSetData.thy ===== *)
theory DbSetData
  imports StringUtility
begin

text \<open>
  DbMySQLPool/DbSetData.cpp: copying one column of a fetched row into a variable. A
  \<open>MYSQL_ROW\<close> is a list of nullable C strings. \<open>None\<close> is an access outside the row, which C
  leaves undefined. A NULL column leaves the variable as it was; the column index advances
  in either case.
\<close>

type_synonym mysql_row = "cstring option list"

definition row_cell :: "mysql_row \<Rightarrow> int \<Rightarrow> cstring option option" where
  "row_cell sttRow iCol = (if 0 \<le> iCol \<and> iCol < int (length sttRow) then Some (sttRow ! nat iCol) else None)"

definition DbSetData_string :: "mysql_row \<Rightarrow> int \<Rightarrow> string \<Rightarrow> (int \<times> string) option" where
  "DbSetData_string sttRow iCol strData =
     map_option (\<lambda>cell. (iCol + 1, case cell of None \<Rightarrow> strData | Some v \<Rightarrow> v)) (row_cell sttRow iCol)"

definition DbSetData_int :: "mysql_row \<Rightarrow> int \<Rightarrow> int \<Rightarrow> (int \<times> int) option" where
  "DbSetData_int sttRow iCol iData =
     map_option (\<lambda>cell. (iCol + 1, case cell of None \<Rightarrow> iData | Some v \<Rightarrow> atoi v)) (row_cell sttRow iCol)"

definition DbSetData_uint32 :: "mysql_row \<Rightarrow> int \<Rightarrow> int \<Rightarrow> (int \<times> int) option" where
  "DbSetData_uint32 sttRow iCol iData =
     map_option (\<lambda>cell. (iCol + 1, case cell of None \<Rightarrow> iData | Some v \<Rightarrow> GetUInt32 (Some v))) (row_cell sttRow iCol)"

definition DbSetData_int64 :: "mysql_row \<Rightarrow> int \<Rightarrow> int \<Rightarrow> (int \<times> int) option" where
  "DbSetData_int64 sttRow iCol iData =
     map_option (\<lambda>cell. (iCol + 1, case cell of None \<Rightarrow> iData | Some v \<Rightarrow> atoll v)) (row_cell sttRow iCol)"

definition DbSetData_uint64 :: "mysql_row \<Rightarrow> int \<Rightarrow> int \<Rightarrow> (int \<times> int) option" where
  "DbSetData_uint64 sttRow iCol iData =
     map_option (\<lambda>cell. (iCol + 1, case cell of None \<Rightarrow> iData | Some v \<Rightarrow> GetUInt64 (Some v))) (row_cell sttRow iCol)"

lemmas DbSetData_defs = DbSetData_string_def DbSetData_int_def DbSetData_uint32_def
  DbSetData_int64_def DbSetData_uint64_def

text \<open>A column of each type, in the order a row is read.\<close>

datatype col = CString string | CInt int | CUInt32 int | CInt64 int | CUInt64 int

fun col_ok :: "col \<Rightarrow> bool" where
  "col_ok (CString s) = True"
| "col_ok (CInt x) = in_i32 x"
| "col_ok (CUInt32 x) = (0 \<le> x \<and> x < 2 ^ 32)"
| "col_ok (CInt64 x) = in_i64 x"
| "col_ok (CUInt64 x) = (0 \<le> x \<and> x < 2 ^ 64)"

text \<open>The text protocol prints a value; \<open>fetch_col\<close> is the overload that the type selects,
  applied to the old value of the variable.\<close>

fun col_text :: "col \<Rightarrow> cstring" where
  "col_text (CString s) = s"
| "col_text (CInt x) = show_int x"
| "col_text (CUInt32 x) = show_int x"
| "col_text (CInt64 x) = show_int x"
| "col_text (CUInt64 x) = show_int x"

fun fetch_col :: "mysql_row \<Rightarrow> int \<Rightarrow> col \<Rightarrow> (int \<times> col) option" where
  "fetch_col r i (CString s) = map_option (map_prod id CString) (DbSetData_string r i s)"
| "fetch_col r i (CInt x) = map_option (map_prod id CInt) (DbSetData_int r i x)"
| "fetch_col r i (CUInt32 x) = map_option (map_prod id CUInt32) (DbSetData_uint32 r i x)"
| "fetch_col r i (CInt64 x) = map_option (map_prod id CInt64) (DbSetData_int64 r i x)"
| "fetch_col r i (CUInt64 x) = map_option (map_prod id CUInt64) (DbSetData_uint64 r i x)"

fun fetch_cols :: "mysql_row \<Rightarrow> int \<Rightarrow> col list \<Rightarrow> (int \<times> col list) option" where
  "fetch_cols r i [] = Some (i, [])"
| "fetch_cols r i (v # vs) =
     (case fetch_col r i v of None \<Rightarrow> None
      | Some (i', v') \<Rightarrow>
          (case fetch_cols r i' vs of None \<Rightarrow> None | Some (i'', vs') \<Rightarrow> Some (i'', v' # vs')))"

fun same_type :: "col \<Rightarrow> col \<Rightarrow> bool" where
  "same_type (CString _) (CString _) = True"
| "same_type (CInt _) (CInt _) = True"
| "same_type (CUInt32 _) (CUInt32 _) = True"
| "same_type (CInt64 _) (CInt64 _) = True"
| "same_type (CUInt64 _) (CUInt64 _) = True"
| "same_type _ _ = False"

lemma row_cell_append: "row_cell (pre @ c # post) (int (length pre)) = Some c"
  by (simp add: row_cell_def)

lemma fetch_col_text:
  "same_type old v \<Longrightarrow> col_ok v \<Longrightarrow>
    fetch_col (pre @ Some (col_text v) # post) (int (length pre)) old = Some (int (length pre) + 1, v)"
  by (cases v; cases old)
    (simp_all add: DbSetData_defs row_cell_append atoi_show_int atoll_show_int GetUInt32_show GetUInt64_show)

lemma fetch_col_null:
  "fetch_col (pre @ None # post) (int (length pre)) old = Some (int (length pre) + 1, old)"
  by (cases old) (simp_all add: DbSetData_defs row_cell_append)

text \<open>A whole row: \<open>vs\<close> are the values sent (NULL is \<open>None\<close>), \<open>olds\<close> the variables before.\<close>

lemma fetch_cols_text:
  "list_all2 (\<lambda>old v. case v of None \<Rightarrow> True | Some x \<Rightarrow> same_type old x \<and> col_ok x) olds vs \<Longrightarrow>
    fetch_cols (pre @ map (map_option col_text) vs) (int (length pre)) olds =
      Some (int (length pre + length vs), map2 (\<lambda>old v. case v of None \<Rightarrow> old | Some x \<Rightarrow> x) olds vs)"
proof (induction olds vs arbitrary: pre rule: list_all2_induct)
  case (Cons old olds v vs)
  have IH: "fetch_cols ((pre @ [map_option col_text v]) @ map (map_option col_text) vs)
      (int (length (pre @ [map_option col_text v]))) olds =
    Some (int (length (pre @ [map_option col_text v]) + length vs),
      map2 (\<lambda>old v. case v of None \<Rightarrow> old | Some x \<Rightarrow> x) olds vs)"
    by (rule Cons.IH)
  have "fetch_col (pre @ map_option col_text v # map (map_option col_text) vs) (int (length pre)) old =
      Some (int (length pre) + 1, case v of None \<Rightarrow> old | Some x \<Rightarrow> x)"
    using Cons.hyps(1) by (cases v) (simp_all add: fetch_col_null fetch_col_text)
  with IH show ?case by (simp add: add.commute)
qed simp

end
