(* ===== verification/LogLevel.thy ===== *)
theory LogLevel
  imports CRuntime
begin

text \<open>
  The log levels of SipPlatform/Log.h and the events that the other components hand to
  \<open>CLog::Print\<close>: a level and the formatted message. What \<open>CLog\<close> does with an event is
  modelled in theory LogFile; everywhere else the list of events is the effect of logging.
\<close>

datatype EnumLogLevel = LOG_ERROR | LOG_INFO | LOG_DEBUG | LOG_NETWORK | LOG_SYSTEM
  | LOG_SQL | LOG_SQL1 | LOG_SQL2 | LOG_SQL3

fun level_bits :: "EnumLogLevel \<Rightarrow> nat" where
  "level_bits LOG_ERROR = 0x0001"
| "level_bits LOG_INFO = 0x0010"
| "level_bits LOG_DEBUG = 0x0100"
| "level_bits LOG_NETWORK = 0x0200"
| "level_bits LOG_SYSTEM = 0x0400"
| "level_bits LOG_SQL = 0x0800"
| "level_bits LOG_SQL1 = 0x1000"
| "level_bits LOG_SQL2 = 0x2000"
| "level_bits LOG_SQL3 = 0x4000"

fun level_header :: "EnumLogLevel \<Rightarrow> string" where
  "level_header LOG_ERROR = ''[ERROR] ''"
| "level_header LOG_INFO = ''[INFO] ''"
| "level_header LOG_DEBUG = ''[DEBUG] ''"
| "level_header LOG_NETWORK = ''[NETWORK] ''"
| "level_header LOG_SYSTEM = ''[SYSTEM] ''"
| "level_header LOG_SQL = ''[SQL] ''"
| "level_header LOG_SQL1 = ''[SQL1] ''"
| "level_header LOG_SQL2 = ''[SQL2] ''"
| "level_header LOG_SQL3 = ''[SQL3] ''"

text \<open>The levels are ordered by their bit, so that the library's order is available on them.\<close>

instantiation EnumLogLevel :: linorder
begin

definition less_eq_EnumLogLevel :: "EnumLogLevel \<Rightarrow> EnumLogLevel \<Rightarrow> bool" where
  "less_eq_EnumLogLevel a b \<longleftrightarrow> level_bits a \<le> level_bits b"

definition less_EnumLogLevel :: "EnumLogLevel \<Rightarrow> EnumLogLevel \<Rightarrow> bool" where
  "less_EnumLogLevel a b \<longleftrightarrow> level_bits a < level_bits b"

instance
proof
  fix a b c :: EnumLogLevel
  show "a < b \<longleftrightarrow> a \<le> b \<and> \<not> b \<le> a" by (auto simp: less_eq_EnumLogLevel_def less_EnumLogLevel_def)
  show "a \<le> a" by (simp add: less_eq_EnumLogLevel_def)
  show "a \<le> b \<Longrightarrow> b \<le> c \<Longrightarrow> a \<le> c" by (simp add: less_eq_EnumLogLevel_def)
  show "a \<le> b \<Longrightarrow> b \<le> a \<Longrightarrow> a = b" by (cases a; cases b) (simp_all add: less_eq_EnumLogLevel_def)
  show "a \<le> b \<or> b \<le> a" by (auto simp: less_eq_EnumLogLevel_def)
qed

end

type_synonym log_event = "EnumLogLevel \<times> string"

end
