(* ===== verification/MySQLClient.thy ===== *)
theory MySQLClient
  imports DbSetData LogLevel
begin

text \<open>
  The MySQL client library is not part of the repository: it is a parameter of the model. A
  \<open>libmysql\<close> answers each call as a function of the complete history of calls made on the
  connection (newest first, the call itself included), so nothing is assumed about what
  the server does. This theory holds the calls and the library's documented typestate:
  \<open>pstep\<close> follows the connection handle, the open statements, the live result set and the
  heap blocks of one connection, and clears \<open>p_ok\<close> at the first call the library forbids.
\<close>

datatype mysql_call =
    C_init | C_plugin_dir string | C_secure_auth bool | C_read_timeout int | C_write_timeout int
  | C_real_connect string string string string int
  | C_set_character_set string | C_character_set_name
  | C_query cstring | C_errno | C_error
  | C_use_result | C_fetch_row | C_free_result
  | C_insert_id | C_affected_rows | C_close
  | S_init | S_prepare int cstring | S_error int | S_param_count int
  | S_bind_param int "string option list" | S_execute int | S_insert_id int
  | S_bind_result int | S_fetch int | S_close int
  | H_malloc int | H_free

text \<open>\<open>rc\<close>: the return code, count, id or pointer (0 is NULL) of the newest call; \<open>rtext\<close>: the
  text it returns; \<open>rows\<close>: the row of \<open>mysql_fetch_row\<close>; \<open>cell\<close>: the column that
  \<open>mysql_stmt_fetch\<close> writes (\<open>None\<close> for an SQL NULL).\<close>

record libmysql =
  rc :: "mysql_call list \<Rightarrow> int"
  rtext :: "mysql_call list \<Rightarrow> cstring"
  rows :: "mysql_call list \<Rightarrow> mysql_row option"
  cell :: "mysql_call list \<Rightarrow> string option"

subsection \<open>The typestate of the library\<close>

datatype hstate = Uninit | Inited | Open | Closed

record pstate =
  p_handle :: hstate
  p_stmts :: "int list"
  p_res :: bool
  p_heap :: nat
  p_ok :: bool

definition pinit :: pstate where
  "pinit = \<lparr>p_handle = Uninit, p_stmts = [], p_res = False, p_heap = 0, p_ok = True\<rparr>"

definition require :: "bool \<Rightarrow> pstate \<Rightarrow> pstate" where
  "require b p = p\<lparr>p_ok := p_ok p \<and> b\<rparr>"

fun pstep :: "int \<Rightarrow> mysql_call \<Rightarrow> pstate \<Rightarrow> pstate" where
  "pstep r C_init p = require (p_handle p \<in> {Uninit, Closed})
     (p\<lparr>p_handle := if r = 0 then p_handle p else Inited\<rparr>)"
| "pstep r (C_plugin_dir _) p = require (p_handle p = Inited) p"
| "pstep r (C_secure_auth _) p = require (p_handle p = Inited) p"
| "pstep r (C_read_timeout _) p = require (p_handle p = Inited) p"
| "pstep r (C_write_timeout _) p = require (p_handle p = Inited) p"
| "pstep r (C_real_connect _ _ _ _ _) p = require (p_handle p = Inited)
     (p\<lparr>p_handle := if r = 0 then Inited else Open\<rparr>)"
| "pstep r (C_set_character_set _) p = require (p_handle p = Open \<and> \<not> p_res p) p"
| "pstep r C_character_set_name p = require (p_handle p = Open) p"
| "pstep r (C_query _) p = require (p_handle p = Open \<and> \<not> p_res p) p"
| "pstep r C_errno p = require (p_handle p \<in> {Inited, Open}) p"
| "pstep r C_error p = p"
| "pstep r C_use_result p = require (p_handle p = Open \<and> \<not> p_res p) (p\<lparr>p_res := r \<noteq> 0\<rparr>)"
| "pstep r C_fetch_row p = require (p_handle p = Open \<and> p_res p) p"
| "pstep r C_free_result p = require (p_res p) (p\<lparr>p_res := False\<rparr>)"
| "pstep r C_insert_id p = require (p_handle p = Open) p"
| "pstep r C_affected_rows p = require (p_handle p = Open) p"
| "pstep r C_close p = require (p_handle p \<in> {Inited, Open} \<and> p_stmts p = [] \<and> \<not> p_res p)
     (p\<lparr>p_handle := Closed\<rparr>)"
| "pstep r S_init p = require (p_handle p = Open)
     (p\<lparr>p_stmts := if r = 0 then p_stmts p else r # p_stmts p\<rparr>)"
| "pstep r (S_prepare h _) p = require (h \<in> set (p_stmts p) \<and> \<not> p_res p) p"
| "pstep r (S_error h) p = require (h \<in> set (p_stmts p)) p"
| "pstep r (S_param_count h) p = require (h \<in> set (p_stmts p)) p"
| "pstep r (S_bind_param h _) p = require (h \<in> set (p_stmts p)) p"
| "pstep r (S_execute h) p = require (h \<in> set (p_stmts p) \<and> \<not> p_res p) p"
| "pstep r (S_insert_id h) p = require (h \<in> set (p_stmts p)) p"
| "pstep r (S_bind_result h) p = require (h \<in> set (p_stmts p)) p"
| "pstep r (S_fetch h) p = require (h \<in> set (p_stmts p)) p"
| "pstep r (S_close h) p = require (h \<in> set (p_stmts p)) (p\<lparr>p_stmts := remove1 h (p_stmts p)\<rparr>)"
| "pstep r (H_malloc _) p = p\<lparr>p_heap := if r = 0 then p_heap p else Suc (p_heap p)\<rparr>"
| "pstep r H_free p = require (0 < p_heap p) (p\<lparr>p_heap := p_heap p - 1\<rparr>)"

primrec pst :: "libmysql \<Rightarrow> mysql_call list \<Rightarrow> pstate" where
  "pst env [] = pinit"
| "pst env (k # t) = pstep (rc env (k # t)) k (pst env t)"

text \<open>\<open>mysql_error\<close> belongs to a handle that is initialised. \<open>pstep\<close> lets it pass, because the code also reads the
  error text after a reconnection has failed, when \<open>mysql_close\<close> was the last call or \<open>mysql_init\<close> returned
  NULL; \<open>errors_ok\<close> says that it does so nowhere else.\<close>

definition after_failure :: "libmysql \<Rightarrow> mysql_call list \<Rightarrow> bool" where
  "after_failure env t \<longleftrightarrow> (case t of C_close # _ \<Rightarrow> True | C_init # _ \<Rightarrow> rc env t = 0 | _ \<Rightarrow> False)"

primrec errors_ok :: "libmysql \<Rightarrow> mysql_call list \<Rightarrow> bool" where
  "errors_ok env [] = True"
| "errors_ok env (k # t) = (errors_ok env t \<and>
     (k = C_error \<longrightarrow> p_handle (pst env t) \<in> {Inited, Open} \<or> after_failure env t))"

text \<open>An abstract view of the typestate, which the client's invariant is stated over.\<close>

definition proto :: "libmysql \<Rightarrow> mysql_call list \<Rightarrow> hstate \<Rightarrow> int list \<Rightarrow> bool \<Rightarrow> nat \<Rightarrow> bool" where
  "proto env t h ss r n \<longleftrightarrow>
     pst env t = \<lparr>p_handle = h, p_stmts = ss, p_res = r, p_heap = n, p_ok = True\<rparr> \<and> errors_ok env t"

lemma proto_Nil [simp]: "proto env [] Uninit [] False 0"
  by (simp add: proto_def pinit_def)

lemma proto_Cons:
  "proto env t h ss r n \<Longrightarrow>
    proto env (k # t) h' ss' r' n' \<longleftrightarrow>
      pstep (rc env (k # t)) k \<lparr>p_handle = h, p_stmts = ss, p_res = r, p_heap = n, p_ok = True\<rparr> =
      \<lparr>p_handle = h', p_stmts = ss', p_res = r', p_heap = n', p_ok = True\<rparr> \<and>
      (k = C_error \<longrightarrow> h \<in> {Inited, Open} \<or> after_failure env t)"
  by (simp add: proto_def)

lemma proto_errors: "proto env t h ss r n \<Longrightarrow> errors_ok env t"
  by (simp add: proto_def)

lemma proto_ok: "proto env t h ss r n \<Longrightarrow> p_ok (pst env t)"
  by (simp add: proto_def)

end
