(* ===== verification/DbConnection.thy ===== *)
theory DbConnection
  imports MySQLClient
begin

text \<open>
  DbMySQLPool/DbMySQLConnection.cpp: one object of class \<open>CDbMySQLConnection\<close>, over the
  client library of theory MySQLClient. The record holds the members of the class, and in
  \<open>calls\<close> and \<open>logs\<close> (both newest first) the library calls made for this object and the
  events handed to \<open>CLog::Print\<close>. Each operation takes the library and the object and
  returns its result with the updated object. The member \<open>m_sttMySQL\<close> is the library's
  state for \<open>calls\<close>.
\<close>

subsection \<open>The object\<close>

text \<open>A \<open>MYSQL_BIND\<close> is zeroed (\<open>None\<close>) or points to \<open>m_clsBindList[i].c_str()\<close> for a number
  of bytes.\<close>

type_synonym bind_slot = "(nat \<times> nat) option"

record CDbMySQLConnection =
  m_strDbHost :: string
  m_strDbUserId :: string
  m_strDbPassWord :: string
  m_strDbName :: string
  m_strCharacterSet :: string
  m_strPluginDir :: string
  m_bSecureAuth :: bool
  m_iPort :: int
  m_bConnected :: bool
  m_psttStmt :: int
  m_psttBind :: "bind_slot list option"
  m_iBindCount :: int
  m_clsBindList :: "string list"
  m_iReadTimeout :: int
  m_iWriteTimeout :: int
  m_eLogLevel :: EnumLogLevel
  calls :: "mysql_call list"
  logs :: "log_event list"

type_synonym conn = CDbMySQLConnection

definition CDbMySQLConnection_new :: conn where
  "CDbMySQLConnection_new = \<lparr>m_strDbHost = [], m_strDbUserId = [], m_strDbPassWord = [],
     m_strDbName = [], m_strCharacterSet = [], m_strPluginDir = [], m_bSecureAuth = True,
     m_iPort = 3306, m_bConnected = False, m_psttStmt = 0, m_psttBind = None, m_iBindCount = 0,
     m_clsBindList = [], m_iReadTimeout = 0, m_iWriteTimeout = 0, m_eLogLevel = LOG_SQL,
     calls = [], logs = []\<rparr>"

text \<open>One library call: its answer and the object with the call recorded.\<close>

definition lib :: "mysql_call \<Rightarrow> libmysql \<Rightarrow> conn \<Rightarrow> int \<times> conn" where
  "lib k env c = (rc env (k # calls c), c\<lparr>calls := k # calls c\<rparr>)"

definition libv :: "mysql_call \<Rightarrow> conn \<Rightarrow> conn" where
  "libv k c = c\<lparr>calls := k # calls c\<rparr>"

definition lib_text :: "mysql_call \<Rightarrow> libmysql \<Rightarrow> conn \<Rightarrow> cstring \<times> conn" where
  "lib_text k env c = (rtext env (k # calls c), c\<lparr>calls := k # calls c\<rparr>)"

definition log_print :: "EnumLogLevel \<Rightarrow> string \<Rightarrow> conn \<Rightarrow> conn" where
  "log_print l s c = c\<lparr>logs := (l, s) # logs c\<rparr>"

text \<open>\<open>%.2048s\<close>\<close>

definition sql_text :: "cstring \<Rightarrow> string" where
  "sql_text pszSQL = take 2048 pszSQL"

definition CR_SERVER_GONE_ERROR :: int where "CR_SERVER_GONE_ERROR = 2006"
definition CR_SERVER_LOST :: int where "CR_SERVER_LOST = 2013"
definition ER_BAD_TABLE_ERROR :: int where "ER_BAD_TABLE_ERROR = 1051"
definition ER_NO_SUCH_TABLE :: int where "ER_NO_SUCH_TABLE = 1146"

definition conn_lost :: "int \<Rightarrow> bool" where
  "conn_lost iErrorNo \<longleftrightarrow> iErrorNo = CR_SERVER_GONE_ERROR \<or> iErrorNo = CR_SERVER_LOST"

subsection \<open>Connect and Close\<close>

definition Connect_options :: "conn \<Rightarrow> conn" where
  "Connect_options c =
     (let c = (if m_strPluginDir c \<noteq> [] then libv (C_plugin_dir (cstr (m_strPluginDir c))) c else c);
          c = (if \<not> m_bSecureAuth c then libv (C_secure_auth (m_bSecureAuth c)) c else c);
          c = (if 0 < m_iReadTimeout c then libv (C_read_timeout (m_iReadTimeout c)) c else c)
      in if 0 < m_iWriteTimeout c then libv (C_write_timeout (m_iWriteTimeout c)) c else c)"

definition Connect_charset :: "libmysql \<Rightarrow> conn \<Rightarrow> conn" where
  "Connect_charset env c =
     (if m_strCharacterSet c \<noteq> []
      then let (r, c) = lib (C_set_character_set (cstr (m_strCharacterSet c))) env c
           in if r \<noteq> 0
              then log_print LOG_ERROR (''Connect mysql_set_character_set('' @ cstr (m_strCharacterSet c) @ '') error'') c
              else c
      else let (s, c) = lib_text C_character_set_name env c
           in log_print LOG_DEBUG (''Connect mysql default character_set is ('' @ s @ '')'') c)"

text \<open>The private \<open>Connect()\<close>, which reuses the stored parameters.\<close>

definition Connect0 :: "libmysql \<Rightarrow> conn \<Rightarrow> bool \<times> conn" where
  "Connect0 env c =
     (if m_strDbHost c = [] then (False, c)
      else let (r, c) = lib C_init env c
      in if r = 0 then (False, log_print LOG_ERROR ''Connect mysql_init error'' c)
      else let c = Connect_options c;
               (r, c) = lib (C_real_connect (cstr (m_strDbHost c)) (cstr (m_strDbUserId c))
                   (cstr (m_strDbPassWord c)) (cstr (m_strDbName c)) (m_iPort c)) env c
      in if r = 0
         then let (s, c) = lib_text C_error env c;
                  c = log_print LOG_ERROR (''Connect mysql_real_connect error - '' @ s) c
              in (False, libv C_close c)
      else let c = log_print LOG_INFO ''Connect mysql_real_connect success'' c
      in (True, Connect_charset env (c\<lparr>m_bConnected := True\<rparr>)))"

definition Connect :: "libmysql \<Rightarrow> cstring \<Rightarrow> cstring \<Rightarrow> cstring \<Rightarrow> cstring \<Rightarrow> int \<Rightarrow> cstring option \<Rightarrow> conn \<Rightarrow> bool \<times> conn" where
  "Connect env pszHost pszUserId pszPassWord pszDbName iPort pszCharacterSet c =
     (let c = c\<lparr>m_strDbHost := pszHost, m_strDbUserId := pszUserId, m_strDbPassWord := pszPassWord,
                m_strDbName := pszDbName, m_iPort := iPort\<rparr>;
          c = (case pszCharacterSet of None \<Rightarrow> c | Some s \<Rightarrow> c\<lparr>m_strCharacterSet := s\<rparr>)
      in Connect0 env c)"

definition PrepareClose :: "conn \<Rightarrow> conn" where
  "PrepareClose c =
     (let c = (case m_psttBind c of None \<Rightarrow> c | Some _ \<Rightarrow> (libv H_free c)\<lparr>m_psttBind := None\<rparr>);
          c = (if m_psttStmt c \<noteq> 0 then (libv (S_close (m_psttStmt c)) c)\<lparr>m_psttStmt := 0\<rparr> else c)
      in c\<lparr>m_iBindCount := 0, m_clsBindList := []\<rparr>)"

definition Close :: "conn \<Rightarrow> conn" where
  "Close c = (if \<not> m_bConnected c then c
     else (libv C_close (PrepareClose c))\<lparr>m_bConnected := False\<rparr>)"

subsection \<open>Plain statements\<close>

text \<open>The loop of the private \<open>Query( pszSQL )\<close>, at most two attempts.\<close>

fun Query_loop :: "libmysql \<Rightarrow> cstring \<Rightarrow> nat \<Rightarrow> nat \<Rightarrow> conn \<Rightarrow> bool \<times> conn" where
  "Query_loop env pszSQL cTryCount 0 c = (False, c)"
| "Query_loop env pszSQL cTryCount (Suc n) c =
     (let (r, c) = lib (C_query pszSQL) env c
      in if r \<noteq> 0
         then let cTryCount = cTryCount + 1; (iErrorNo, c) = lib C_errno env c
         in if cTryCount = 1 \<and> conn_lost iErrorNo
            then let (b, c) = Connect0 env (Close c)
                 in if \<not> b
                    then let (s, c) = lib_text C_error env c
                         in (False, log_print LOG_ERROR (sql_text pszSQL @
                              '' - db connection is closed and db connection error - '' @ s) c)
                    else Query_loop env pszSQL cTryCount n c
            else let (s, c) = lib_text C_error env c;
                     m = sql_text pszSQL @ '' - error('' @ show_int (u32 iErrorNo) @ '') - '' @ s
                 in (False, log_print
                       (if iErrorNo = ER_NO_SUCH_TABLE \<or> iErrorNo = ER_BAD_TABLE_ERROR
                        then m_eLogLevel c else LOG_ERROR) m c)
         else (True, log_print (m_eLogLevel c) (sql_text pszSQL) c))"

definition Query0 :: "libmysql \<Rightarrow> cstring \<Rightarrow> conn \<Rightarrow> bool \<times> conn" where
  "Query0 env pszSQL c =
     (if m_bConnected c then Query_loop env pszSQL 0 2 c
      else let (b, c) = Connect0 env c
           in if b then Query_loop env pszSQL 0 2 c
              else (False, log_print LOG_ERROR (sql_text pszSQL @ '' - DB connect error'') c))"

definition Execute :: "libmysql \<Rightarrow> cstring \<Rightarrow> conn \<Rightarrow> bool \<times> conn" where
  "Execute env pszSQL c = Query0 env pszSQL c"

text \<open>\<open>piId\<close>: whether the caller passes a pointer; the second result is what is stored there.\<close>

definition Insert :: "libmysql \<Rightarrow> cstring \<Rightarrow> bool \<Rightarrow> conn \<Rightarrow> (bool \<times> int option) \<times> conn" where
  "Insert env pszSQL piId c =
     (let (b, c) = Query0 env pszSQL c
      in if \<not> b then ((False, None), c)
      else if piId then let (r, c) = lib C_insert_id env c in ((True, Some (u64 r)), c)
      else ((True, None), c))"

subsection \<open>Result sets\<close>

text \<open>The \<open>while\<close> loop over the rows. It ends when the library has no more rows or the
  callback refuses one; a server that sends rows for ever makes it run for ever (\<open>None\<close>).\<close>

partial_function (option) Fetch_loop ::
    "libmysql \<Rightarrow> ('d \<Rightarrow> mysql_row \<Rightarrow> bool \<times> 'd) \<Rightarrow> 'd \<Rightarrow> conn \<Rightarrow> ('d \<times> conn) option" where
  [code]: "Fetch_loop env FetchRow pclsData c =
     (let c = libv C_fetch_row c; sttRow = rows env (calls c)
      in if sttRow = None then Some (pclsData, c)
         else let (b, d) = FetchRow pclsData (the sttRow)
              in if \<not> b then Some (d, c) else Fetch_loop env FetchRow d c)"

definition Query ::
    "libmysql \<Rightarrow> cstring \<Rightarrow> 'd \<Rightarrow> ('d \<Rightarrow> mysql_row \<Rightarrow> bool \<times> 'd) \<Rightarrow> conn \<Rightarrow> ((bool \<times> 'd) \<times> conn) option" where
  "Query env pszSQL pclsData FetchRow c =
     (let (b, c) = Query0 env pszSQL c
      in if \<not> b then Some ((False, pclsData), c)
      else let (r, c) = lib C_use_result env c
      in if r = 0
         then let (e, c) = lib C_errno env c; (s, c) = lib_text C_error env c
              in Some ((False, pclsData), log_print LOG_ERROR (''mysql_use_result - '' @ sql_text pszSQL @
                    '' - error('' @ show_int (u32 e) @ '') - '' @ s) c)
         else map_option (\<lambda>(d, c). ((True, d), libv C_free_result c)) (Fetch_loop env FetchRow pclsData c))"

text \<open>The row's first column; a row without columns is outside what the library returns and
  counts as NULL.\<close>

definition first_cell :: "mysql_row \<Rightarrow> cstring option" where
  "first_cell sttRow = (case sttRow of [] \<Rightarrow> None | v # _ \<Rightarrow> v)"

definition QueryOne_string :: "libmysql \<Rightarrow> cstring \<Rightarrow> conn \<Rightarrow> (bool \<times> string) \<times> conn" where
  "QueryOne_string env pszSQL c =
     (let (b, c) = Query0 env pszSQL c
      in if \<not> b then ((False, []), c)
      else let (r, c) = lib C_use_result env c
      in if r = 0
         then let (s, c) = lib_text C_error env c
              in ((False, []), log_print LOG_ERROR (''mysql_use_result - '' @ sql_text pszSQL @ '' - '' @ s) c)
      else let c = libv C_fetch_row c;
               res = (case rows env (calls c) of None \<Rightarrow> (False, [])
                      | Some sttRow \<Rightarrow> (case first_cell sttRow of None \<Rightarrow> (False, []) | Some v \<Rightarrow> (True, v)))
           in (res, libv C_free_result c))"

definition QueryOne_int :: "libmysql \<Rightarrow> cstring \<Rightarrow> conn \<Rightarrow> (bool \<times> int) \<times> conn" where
  "QueryOne_int env pszSQL c =
     (let ((b, s), c) = QueryOne_string env pszSQL c in ((b, if b then atoi (cstr s) else 0), c))"

definition QueryOne_uint8 :: "libmysql \<Rightarrow> cstring \<Rightarrow> conn \<Rightarrow> (bool \<times> int) \<times> conn" where
  "QueryOne_uint8 env pszSQL c =
     (let ((b, s), c) = QueryOne_string env pszSQL c in ((b, if b then u8 (atoi (cstr s)) else 0), c))"

definition QueryOne_uint32 :: "libmysql \<Rightarrow> cstring \<Rightarrow> conn \<Rightarrow> (bool \<times> int) \<times> conn" where
  "QueryOne_uint32 env pszSQL c =
     (let ((b, s), c) = QueryOne_string env pszSQL c in ((b, if b then GetUInt32 (Some (cstr s)) else 0), c))"

definition QueryOne_uint64 :: "libmysql \<Rightarrow> cstring \<Rightarrow> conn \<Rightarrow> (bool \<times> int) \<times> conn" where
  "QueryOne_uint64 env pszSQL c =
     (let ((b, s), c) = QueryOne_string env pszSQL c in ((b, if b then GetUInt64 (Some (cstr s)) else 0), c))"

definition QueryOne_int64 :: "libmysql \<Rightarrow> cstring \<Rightarrow> conn \<Rightarrow> (bool \<times> int) \<times> conn" where
  "QueryOne_int64 env pszSQL c =
     (let ((b, s), c) = QueryOne_string env pszSQL c in ((b, if b then atoll (cstr s) else 0), c))"

text \<open>\<open>snprintf\<close> into \<open>char szSQL[1048]\<close>.\<close>

definition IsExistTable_sql :: "string \<Rightarrow> cstring \<Rightarrow> cstring" where
  "IsExistTable_sql strDbName pszTableName = snprintf_buf 1048
     (''select count(*) from information_schema.tables where table_schema = '' @ [CHR 0x27] @
      cstr strDbName @ [CHR 0x27] @ '' and table_name = '' @ [CHR 0x27] @ pszTableName @ [CHR 0x27])"

definition IsExistTable :: "libmysql \<Rightarrow> cstring \<Rightarrow> conn \<Rightarrow> bool \<times> conn" where
  "IsExistTable env pszTableName c =
     (let ((b, iCount), c) = QueryOne_int env (IsExistTable_sql (m_strDbName c) pszTableName) c
      in (b \<and> iCount = 1, c))"

definition GetAffectedRow :: "libmysql \<Rightarrow> conn \<Rightarrow> int \<times> conn" where
  "GetAffectedRow env c =
     (if \<not> m_bConnected c then (0, c)
      else let (r, c) = lib C_affected_rows env c in (u64 r, c))"

definition GetError :: "libmysql \<Rightarrow> conn \<Rightarrow> int \<times> conn" where
  "GetError env c = (let (r, c) = lib C_errno env c in (u32 r, c))"

subsection \<open>Prepared statements\<close>

text \<open>The loop of \<open>Prepare\<close>; \<open>i\<close> counts up to 2.\<close>

fun Prepare_loop :: "libmysql \<Rightarrow> cstring \<Rightarrow> nat \<Rightarrow> nat \<Rightarrow> conn \<Rightarrow> bool \<times> conn" where
  "Prepare_loop env pszSQL i 0 c = (True, c)"
| "Prepare_loop env pszSQL i (Suc n) c =
     (let (h, c) = lib S_init env c; c = c\<lparr>m_psttStmt := h\<rparr>
      in if h = 0
         then let (s, c) = lib_text C_error env c
              in (False, log_print LOG_ERROR (sql_text pszSQL @ '' - mysql_stmt_init error - '' @ s) c)
      else let (r, c) = lib (S_prepare h pszSQL) env c
      in if r \<noteq> 0
         then let (iErrorNo, c) = lib C_errno env c
              in if i = 0 \<and> conn_lost iErrorNo
                 then let (b, c) = Connect0 env (Close c)
                      in if \<not> b
                         then let (s, c) = lib_text C_error env c
                              in (False, log_print LOG_ERROR (sql_text pszSQL @
                                   '' - db connection is closed and db connection error - '' @ s) c)
                         else Prepare_loop env pszSQL (i + 1) n (PrepareClose c)
                 else let (s, c) = lib_text (S_error h) env c
                      in (False, log_print LOG_ERROR (sql_text pszSQL @ '' - mysql_stmt_prepare error - '' @ s) c)
         else (True, log_print (m_eLogLevel c) (sql_text pszSQL) c))"

text \<open>\<open>sizeof(MYSQL_BIND)\<close> of the LP64 client library.\<close>

definition sizeof_MYSQL_BIND :: int where "sizeof_MYSQL_BIND = 112"

definition Prepare_bind :: "libmysql \<Rightarrow> cstring \<Rightarrow> conn \<Rightarrow> bool \<times> conn" where
  "Prepare_bind env pszSQL c =
     (let (k, c) = lib (S_param_count (m_psttStmt c)) env c; c = c\<lparr>m_iBindCount := i32 k\<rparr>
      in if 0 < m_iBindCount c
         then let (p, c) = lib (H_malloc (sizeof_MYSQL_BIND * m_iBindCount c)) env c
              in if p = 0
                 then (False, PrepareClose (log_print LOG_ERROR (sql_text pszSQL @ '' - bind malloc error'') c))
                 else (True, c\<lparr>m_psttBind := Some (replicate (nat (m_iBindCount c)) None),
                               m_clsBindList := m_clsBindList c @ replicate (nat (m_iBindCount c)) []\<rparr>)
         else (True, c))"

definition Prepare :: "libmysql \<Rightarrow> cstring \<Rightarrow> conn \<Rightarrow> bool \<times> conn" where
  "Prepare env pszSQL c =
     (let (b, c) = (if m_bConnected c then (True, c) else Connect0 env c)
      in if \<not> b then (False, log_print LOG_ERROR (sql_text pszSQL @ '' - DB connect error'') c)
      else let (b, c) = Prepare_loop env pszSQL 0 2 (PrepareClose c)
      in if \<not> b then (False, c) else Prepare_bind env pszSQL c)"

definition Bind :: "int \<Rightarrow> cstring \<Rightarrow> conn \<Rightarrow> bool \<times> conn" where
  "Bind iIndex pszVal c =
     (if m_psttStmt c = 0
      then (False, log_print LOG_ERROR ''Bind error - not called Prepare function'' c)
      else if iIndex \<ge> m_iBindCount c \<or> iIndex < 0
      then (False, log_print LOG_ERROR (''Bind error - index('' @ show_int iIndex @
              '') is not correct - bind count('' @ show_int (m_iBindCount c) @ '')'') c)
      else let i = nat iIndex
           in (True, c\<lparr>m_clsBindList := (m_clsBindList c)[i := pszVal],
                       m_psttBind := map_option (\<lambda>b. b[i := Some (i, length pszVal)]) (m_psttBind c)\<rparr>))"

text \<open>What \<open>mysql_stmt_bind_param\<close> reads through the array.\<close>

definition bound_params :: "conn \<Rightarrow> string option list" where
  "bound_params c = (case m_psttBind c of None \<Rightarrow> []
     | Some b \<Rightarrow> map (map_option (\<lambda>(i, l). take l (m_clsBindList c ! i))) b)"

definition PrepareExecute :: "libmysql \<Rightarrow> bool \<Rightarrow> conn \<Rightarrow> (bool \<times> int option) \<times> conn" where
  "PrepareExecute env piId c =
     (if m_psttStmt c = 0
      then ((False, None), log_print LOG_ERROR ''Bind error - not called Prepare function'' c)
      else let h = m_psttStmt c; (r, c) = lib (S_bind_param h (bound_params c)) env c
      in if r \<noteq> 0
         then let (s, c) = lib_text (S_error h) env c
              in ((False, None), log_print LOG_ERROR (''mysql_stmt_bind_param error - '' @ s) c)
      else let (r, c) = lib (S_execute h) env c
      in if r \<noteq> 0
         then let (s, c) = lib_text (S_error h) env c
              in ((False, None), log_print LOG_ERROR (''mysql_stmt_execute error - '' @ s) c)
      else if piId then let (r, c) = lib (S_insert_id h) env c in ((True, Some (u64 r)), c)
      else ((True, None), c))"

text \<open>The variadic \<open>Execute( pszSQL, iArgCount, ... )\<close>: \<open>args\<close> are the pointers that the
  caller passes. Reading an argument that was not passed is undefined behaviour (\<open>None\<close>).\<close>

fun Bind_args :: "nat \<Rightarrow> nat \<Rightarrow> cstring option list \<Rightarrow> conn \<Rightarrow> (bool \<times> conn) option" where
  "Bind_args 0 i args c = Some (True, c)"
| "Bind_args (Suc n) i [] c = None"
| "Bind_args (Suc n) i (None # args) c =
     Some (False, log_print LOG_ERROR (''Execute arg('' @ show_int (int i) @ '') is NULL'') c)"
| "Bind_args (Suc n) i (Some pszArg # args) c =
     (let (b, c) = Bind (int i) pszArg c
      in if \<not> b then Some (False, c) else Bind_args n (Suc i) args c)"

definition Execute_bound :: "libmysql \<Rightarrow> bool \<times> conn \<Rightarrow> bool \<times> conn" where
  "Execute_bound env bc =
     (if \<not> fst bc then (False, PrepareClose (snd bc))
      else let ((bRes, _), c) = PrepareExecute env False (snd bc) in (bRes, PrepareClose c))"

definition Execute_args :: "libmysql \<Rightarrow> cstring \<Rightarrow> int \<Rightarrow> cstring option list \<Rightarrow> conn \<Rightarrow> (bool \<times> conn) option" where
  "Execute_args env pszSQL iArgCount args c =
     (let (b, c) = Prepare env pszSQL c
      in if \<not> b then Some (False, c)
      else map_option (Execute_bound env) (Bind_args (nat iArgCount) 0 args c))"

fun Bind_list :: "nat \<Rightarrow> string list \<Rightarrow> conn \<Rightarrow> bool \<times> conn" where
  "Bind_list i [] c = (True, c)"
| "Bind_list i (s # ss) c =
     (let (b, c) = Bind (int i) (cstr s) c in if \<not> b then (False, c) else Bind_list (Suc i) ss c)"

definition Execute_list :: "libmysql \<Rightarrow> cstring \<Rightarrow> string list \<Rightarrow> conn \<Rightarrow> bool \<times> conn" where
  "Execute_list env pszSQL clsArgList c =
     (let (b, c) = Prepare env pszSQL c
      in if \<not> b then (False, c) else Execute_bound env (Bind_list 0 clsArgList c))"

text \<open>The prepared \<open>QueryOne\<close>. The buffer of \<open>iDataSize\<close> zeroed bytes receives at most
  \<open>iDataSize - 1\<close> bytes of the column. \<open>malloc\<close> sees the size as
  \<open>size_t\<close>. \<open>None\<close>: \<open>iDataSize\<close> is not positive and \<open>malloc\<close> gave a block, whose use
  as a string of \<open>iDataSize\<close> bytes is undefined.\<close>

definition fetched :: "int \<Rightarrow> string option \<Rightarrow> string" where
  "fetched iDataSize column = (case column of None \<Rightarrow> [] | Some v \<Rightarrow> cstr (take (nat (iDataSize - 1)) v))"

definition QueryOne_fetch :: "libmysql \<Rightarrow> int \<Rightarrow> string \<Rightarrow> conn \<Rightarrow> ((bool \<times> string) \<times> conn) option" where
  "QueryOne_fetch env iDataSize strData c =
     (let (p, c) = lib (H_malloc (u64 iDataSize)) env c
      in if p = 0 then Some ((False, strData), PrepareClose c)
      else if iDataSize \<le> 0 then None
      else let h = m_psttStmt c; (r, c) = lib (S_bind_result h) env c
      in if r \<noteq> 0 then Some ((False, strData), libv H_free (PrepareClose c))
      else let (r, c) = lib (S_fetch h) env c;
               strData = (if r = 0 then fetched iDataSize (cell env (calls c)) else strData)
           in Some ((True, strData), libv H_free (PrepareClose c)))"

definition QueryOne_arg ::
    "libmysql \<Rightarrow> cstring \<Rightarrow> cstring \<Rightarrow> int \<Rightarrow> string \<Rightarrow> conn \<Rightarrow> ((bool \<times> string) \<times> conn) option" where
  "QueryOne_arg env pszSQL pszArg iDataSize strData c =
     (let (b, c) = Prepare env pszSQL c;
          (b, c) = (if b then Bind 0 pszArg c else (False, c));
          (b, c) = (if b then (let ((b, _), c) = PrepareExecute env False c in (b, c)) else (False, c))
      in if \<not> b then Some ((False, strData), PrepareClose c)
         else QueryOne_fetch env iDataSize strData c)"

subsection \<open>Settings\<close>

definition SetReadTimeout :: "int \<Rightarrow> conn \<Rightarrow> conn" where
  "SetReadTimeout iSecond c = (if 0 < iSecond then c\<lparr>m_iReadTimeout := iSecond\<rparr> else c)"

definition SetWriteTimeout :: "int \<Rightarrow> conn \<Rightarrow> conn" where
  "SetWriteTimeout iSecond c = (if 0 < iSecond then c\<lparr>m_iWriteTimeout := iSecond\<rparr> else c)"

definition SetPluginDir :: "cstring \<Rightarrow> conn \<Rightarrow> conn" where
  "SetPluginDir pszPluginDir c = c\<lparr>m_strPluginDir := pszPluginDir\<rparr>"

definition SetSecureAuth :: "bool \<Rightarrow> conn \<Rightarrow> conn" where
  "SetSecureAuth bSecureAuth c = c\<lparr>m_bSecureAuth := bSecureAuth\<rparr>"

definition SetLogLevel :: "EnumLogLevel \<Rightarrow> conn \<Rightarrow> conn" where
  "SetLogLevel eLogLevel c = c\<lparr>m_eLogLevel := eLogLevel\<rparr>"

end
