(* ===== verification/DbConnectionSafe.thy ===== *)
theory DbConnectionSafe
  imports DbConnection
begin

text \<open>
  The invariant of a connection object: the calls made so far obey the library's protocol,
  and the members of the object agree with the library's state. Every operation keeps it,
  whatever the library answers.
\<close>

definition bind_ok :: "conn \<Rightarrow> bool" where
  "bind_ok c \<longleftrightarrow> length (m_clsBindList c) = nat (m_iBindCount c) \<and>
     (case m_psttBind c of None \<Rightarrow> m_iBindCount c \<le> 0
      | Some b \<Rightarrow> length b = nat (m_iBindCount c) \<and> 0 < m_iBindCount c \<and>
          (\<forall>i<length b. b ! i \<in> {None, Some (i, length (m_clsBindList c ! i))}))"

definition heap_of :: "conn \<Rightarrow> nat" where
  "heap_of c = (case m_psttBind c of None \<Rightarrow> 0 | Some _ \<Rightarrow> 1)"

definition stmts_of :: "conn \<Rightarrow> int list" where
  "stmts_of c = (if m_psttStmt c = 0 then [] else [m_psttStmt c])"

definition closed_h :: "hstate \<Rightarrow> bool" where
  "closed_h h \<longleftrightarrow> h = Uninit \<or> h = Closed"

text \<open>\<open>conn_st env c r n\<close>: the object agrees with the library, with a live result set iff
  \<open>r\<close>, and \<open>n\<close> live heap blocks besides the array of parameters.\<close>

definition conn_st :: "libmysql \<Rightarrow> bool \<Rightarrow> nat \<Rightarrow> conn \<Rightarrow> bool" where
  "conn_st env r n c \<longleftrightarrow> bind_ok c \<and>
     (if m_bConnected c then proto env (calls c) Open (stmts_of c) r (heap_of c + n)
      else m_psttStmt c = 0 \<and> m_psttBind c = None \<and> m_iBindCount c \<le> 0 \<and>
        (\<exists>h. closed_h h \<and> proto env (calls c) h [] r n))"

definition conn_inv :: "libmysql \<Rightarrow> conn \<Rightarrow> bool" where
  "conn_inv env c \<longleftrightarrow> conn_st env False 0 c"

lemmas conn_defs = conn_st_def bind_ok_def heap_of_def stmts_of_def

lemmas lib_defs = lib_def libv_def lib_text_def log_print_def

lemma conn_inv_new: "conn_inv env CDbMySQLConnection_new"
  by (simp add: conn_inv_def conn_defs CDbMySQLConnection_new_def closed_h_def)
    (rule exI [of _ Uninit], simp)

lemma conn_st_ok: "conn_st env r n c \<Longrightarrow> p_ok (pst env (calls c))"
  by (auto simp: conn_st_def proto_ok split: if_splits)

subsection \<open>Logging and library calls\<close>

lemma log_print_sel [simp]:
  "calls (log_print l s c) = calls c" "m_bConnected (log_print l s c) = m_bConnected c"
  "m_psttStmt (log_print l s c) = m_psttStmt c" "m_psttBind (log_print l s c) = m_psttBind c"
  "m_iBindCount (log_print l s c) = m_iBindCount c" "m_clsBindList (log_print l s c) = m_clsBindList c"
  by (simp_all add: log_print_def)

lemma members_log_print [simp]:
  "bind_ok (log_print l s c) = bind_ok c" "heap_of (log_print l s c) = heap_of c"
  "stmts_of (log_print l s c) = stmts_of c"
  by (simp_all add: bind_ok_def heap_of_def stmts_of_def cong: option.case_cong)

lemma conn_st_log [simp]: "conn_st env r n (log_print l s c) = conn_st env r n c"
  by (simp add: conn_st_def)

lemma libv_sel [simp]:
  "calls (libv k c) = k # calls c" "m_bConnected (libv k c) = m_bConnected c"
  "m_psttStmt (libv k c) = m_psttStmt c" "m_psttBind (libv k c) = m_psttBind c"
  "m_iBindCount (libv k c) = m_iBindCount c" "m_clsBindList (libv k c) = m_clsBindList c"
  "m_strDbHost (libv k c) = m_strDbHost c" "m_strCharacterSet (libv k c) = m_strCharacterSet c"
  by (simp_all add: libv_def)

lemma members_libv [simp]:
  "bind_ok (libv k c) = bind_ok c" "heap_of (libv k c) = heap_of c" "stmts_of (libv k c) = stmts_of c"
  by (simp_all add: bind_ok_def heap_of_def stmts_of_def cong: option.case_cong)

text \<open>A call is the recording \<open>libv\<close> together with its answer.\<close>

lemma lib_eq: "lib k env c = (rc env (k # calls c), libv k c)"
  by (simp add: lib_def libv_def)

lemma lib_text_eq: "lib_text k env c = (rtext env (k # calls c), libv k c)"
  by (simp add: lib_text_def libv_def)

lemma conn_st_libv:
  "conn_st env r n c \<Longrightarrow> m_bConnected c \<Longrightarrow>
    conn_st env r' n' (libv k c) \<longleftrightarrow>
      pstep (rc env (k # calls c)) k
        \<lparr>p_handle = Open, p_stmts = stmts_of c, p_res = r, p_heap = heap_of c + n, p_ok = True\<rparr> =
        \<lparr>p_handle = Open, p_stmts = stmts_of c, p_res = r', p_heap = heap_of c + n', p_ok = True\<rparr>"
  by (simp add: conn_st_def proto_def)

lemma conn_st_query [simp]:
  "conn_st env False n c \<Longrightarrow> m_bConnected c \<Longrightarrow> conn_st env False n (libv (C_query s) c)"
  by (simp add: conn_st_libv require_def)

lemma conn_st_errno [simp]:
  "conn_st env r n c \<Longrightarrow> m_bConnected c \<Longrightarrow> conn_st env r n (libv C_errno c)"
  by (simp add: conn_st_libv require_def)

lemma proto_error [simp]:
  "h \<in> {Inited, Open} \<or> after_failure env t \<Longrightarrow> proto env (C_error # t) h ss r n = proto env t h ss r n"
  by (auto simp: proto_def)

lemma conn_st_error [simp]:
  "m_bConnected c \<or> after_failure env (calls c) \<Longrightarrow> conn_st env r n (libv C_error c) = conn_st env r n c"
  by (auto simp: conn_st_def proto_def)

lemma conn_st_open_call [simp]:
  assumes "conn_st env r n c" "m_bConnected c"
  shows "conn_st env r n (libv C_insert_id c)" "conn_st env r n (libv C_affected_rows c)"
    "conn_st env r n (libv C_character_set_name c)"
  using assms by (simp_all add: conn_st_libv require_def)

lemma conn_st_set_charset [simp]:
  "conn_st env False n c \<Longrightarrow> m_bConnected c \<Longrightarrow> conn_st env False n (libv (C_set_character_set s) c)"
  by (simp add: conn_st_libv require_def)

lemma conn_st_use_result:
  "conn_st env False n c \<Longrightarrow> m_bConnected c \<Longrightarrow>
    conn_st env (rc env (C_use_result # calls c) \<noteq> 0) n (libv C_use_result c)"
  by (simp add: conn_st_libv require_def)

lemma conn_st_result [simp]:
  assumes "conn_st env True n c" "m_bConnected c"
  shows "conn_st env True n (libv C_fetch_row c)" "conn_st env False n (libv C_free_result c)"
  using assms by (simp_all add: conn_st_libv require_def)

lemma conn_st_stmt_call [simp]:
  assumes "conn_st env r n c" "m_bConnected c" "h = m_psttStmt c" "h \<noteq> 0"
  shows "conn_st env r n (libv (S_error h) c)" "conn_st env r n (libv (S_param_count h) c)"
    "conn_st env r n (libv (S_bind_param h ps) c)" "conn_st env r n (libv (S_insert_id h) c)"
    "conn_st env r n (libv (S_bind_result h) c)" "conn_st env r n (libv (S_fetch h) c)"
  using assms by (simp_all add: conn_st_libv require_def stmts_of_def)

lemma conn_st_stmt_exec [simp]:
  assumes "conn_st env False n c" "m_bConnected c" "h = m_psttStmt c" "h \<noteq> 0"
  shows "conn_st env False n (libv (S_prepare h s) c)" "conn_st env False n (libv (S_execute h) c)"
  using assms by (simp_all add: conn_st_libv require_def stmts_of_def)

lemma conn_st_malloc:
  "conn_st env r n c \<Longrightarrow> m_bConnected c \<Longrightarrow>
    conn_st env r (if rc env (H_malloc k # calls c) = 0 then n else Suc n) (libv (H_malloc k) c)"
  by (simp add: conn_st_libv)

lemma conn_st_free [simp]:
  "conn_st env r (Suc n) c \<Longrightarrow> m_bConnected c \<Longrightarrow> conn_st env r n (libv H_free c)"
  by (simp add: conn_st_libv require_def)

subsection \<open>Connect, Close and PrepareClose\<close>

lemma proto_option [simp]:
  assumes "proto env t Inited ss r n"
  shows "proto env (C_plugin_dir d # t) Inited ss r n" "proto env (C_secure_auth b # t) Inited ss r n"
    "proto env (C_read_timeout i # t) Inited ss r n" "proto env (C_write_timeout i # t) Inited ss r n"
  using assms by (simp_all add: proto_Cons require_def)

lemma proto_close:
  "proto env t h [] False n \<Longrightarrow> h = Open \<or> h = Inited \<Longrightarrow> proto env (C_close # t) Closed [] False n"
  by (auto simp: proto_Cons require_def)

text \<open>The part of the state that \<open>Connect\<close> works on: no statement, an initialised handle.\<close>

definition idle :: "conn \<Rightarrow> bool" where
  "idle c \<longleftrightarrow> bind_ok c \<and> m_psttStmt c = 0 \<and> m_psttBind c = None \<and> m_iBindCount c \<le> 0"

lemma idle_libv [simp]: "idle (libv k c) = idle c"
  by (simp add: idle_def)

lemma idle_log [simp]: "idle (log_print l s c) = idle c"
  by (simp add: idle_def)

lemma conn_st_idle:
  "conn_st env r n c \<Longrightarrow> \<not> m_bConnected c \<Longrightarrow> idle c \<and> (\<exists>h. closed_h h \<and> proto env (calls c) h [] r n)"
  by (simp add: conn_st_def idle_def)

lemma idle_conn_st:
  "idle c \<Longrightarrow> \<not> m_bConnected c \<Longrightarrow> closed_h h \<Longrightarrow> proto env (calls c) h [] r n \<Longrightarrow> conn_st env r n c"
  by (auto simp: conn_st_def idle_def)

lemma Connect_options_st:
  "idle c \<Longrightarrow> proto env (calls c) Inited [] False n \<Longrightarrow>
    idle (Connect_options c) \<and> proto env (calls (Connect_options c)) Inited [] False n \<and>
    m_bConnected (Connect_options c) = m_bConnected c"
  by (simp add: Connect_options_def Let_def)

lemma Connect_charset_st:
  "conn_st env False n c \<Longrightarrow> m_bConnected c \<Longrightarrow>
    conn_st env False n (Connect_charset env c) \<and> m_bConnected (Connect_charset env c)"
  by (simp add: Connect_charset_def lib_eq lib_text_eq)

lemma Connect0_st:
  assumes st: "conn_st env False n c" and nc: "\<not> m_bConnected c" and C: "Connect0 env c = (b, c')"
  shows "conn_st env False n c' \<and> m_bConnected c' = b"
proof -
  from conn_st_idle [OF st nc] obtain h where i: "idle c" and h: "closed_h h"
    and p: "proto env (calls c) h [] False n" by blast
  let ?c1 = "libv C_init c"
  let ?c2 = "Connect_options ?c1"
  show ?thesis
  proof (cases "m_strDbHost c = [] \<or> rc env (C_init # calls c) = 0")
    case True
    then have "proto env (calls c') h [] False n" "idle c'" "m_bConnected c' = b \<and> \<not> b"
      using C p i nc h by (auto simp: Connect0_def lib_eq proto_Cons require_def closed_h_def split: if_splits)
    then show ?thesis using idle_conn_st [OF _ _ h] by simp
  next
    case False
    then have "proto env (calls ?c1) Inited [] False n"
      using p h by (auto simp: proto_Cons require_def closed_h_def)
    with Connect_options_st [of ?c1] i nc
    have p2: "proto env (calls ?c2) Inited [] False n" and i2: "idle ?c2" and n2: "\<not> m_bConnected ?c2"
      by simp_all
    define k where "k = C_real_connect (cstr (m_strDbHost ?c2)) (cstr (m_strDbUserId ?c2))
       (cstr (m_strDbPassWord ?c2)) (cstr (m_strDbName ?c2)) (m_iPort ?c2)"
    show ?thesis
    proof (cases "rc env (k # calls ?c2) = 0")
      case True
      with False C have b: "\<not> b" "c' = libv C_close (log_print LOG_ERROR
          (''Connect mysql_real_connect error - '' @ rtext env (C_error # k # calls ?c2)) (libv C_error (libv k ?c2)))"
        by (auto simp: Connect0_def lib_eq lib_text_eq Let_def k_def [symmetric])
      from True p2 have "proto env (C_error # k # calls ?c2) Inited [] False n"
        by (simp add: proto_Cons require_def k_def)
      then have "proto env (calls c') Closed [] False n"
        by (simp add: b proto_Cons require_def del: proto_error)
      then show ?thesis using b i2 n2 by (auto intro: idle_conn_st simp: closed_h_def)
    next
      case nz: False
      define c3 where "c3 = (log_print LOG_INFO ''Connect mysql_real_connect success'' (libv k ?c2))\<lparr>m_bConnected := True\<rparr>"
      from nz False C have b: "b" "c' = Connect_charset env c3"
        by (auto simp: Connect0_def lib_eq lib_text_eq Let_def k_def [symmetric] c3_def)
      have "conn_st env False n c3"
        using i2 p2 nz by (simp add: c3_def conn_st_def idle_def bind_ok_def stmts_of_def heap_of_def
            k_def proto_Cons require_def)
      with Connect_charset_st [of env n c3] b show ?thesis by (simp add: c3_def)
    qed
  qed
qed

lemma PrepareClose_st:
  assumes "conn_st env r n c"
  shows "conn_st env r n (PrepareClose c) \<and> m_bConnected (PrepareClose c) = m_bConnected c \<and>
    idle (PrepareClose c)"
  using assms
  by (auto simp: PrepareClose_def conn_st_def idle_def bind_ok_def stmts_of_def heap_of_def
      proto_def require_def closed_h_def Let_def split: option.splits if_splits)

lemma idle_PrepareClose: "m_psttStmt (PrepareClose c) = 0" "m_psttBind (PrepareClose c) = None"
    "m_bConnected (PrepareClose c) = m_bConnected c"
  by (simp_all add: PrepareClose_def Let_def split: option.splits)

lemma Close_st:
  assumes "conn_st env False n c"
  shows "conn_st env False n (Close c) \<and> \<not> m_bConnected (Close c)"
proof (cases "m_bConnected c")
  case True
  let ?c = "PrepareClose c"
  from PrepareClose_st [OF assms] True
  have "conn_st env False n ?c" "m_bConnected ?c" "idle ?c" by simp_all
  then have "proto env (C_close # calls ?c) Closed [] False n" "idle ?c"
    by (auto intro!: proto_close simp: conn_st_def idle_def stmts_of_def heap_of_def)
  then have "conn_st env False n ((libv C_close ?c)\<lparr>m_bConnected := False\<rparr>)"
    by (intro idle_conn_st [of _ Closed]) (simp_all add: closed_h_def idle_def bind_ok_def)
  with True show ?thesis by (simp add: Close_def)
qed (simp add: Close_def assms)

text \<open>After a failed reconnection, the handle was closed by the last call, or \<open>mysql_init\<close> failed.\<close>

lemma Connect0_failed:
  assumes "Connect0 env c = (False, c')" and "after_failure env (calls c)"
  shows "after_failure env (calls c')"
  using assms by (auto simp: Connect0_def lib_eq lib_text_eq Let_def after_failure_def split: if_splits)

lemma reconnect_failed: "Connect0 env (Close c) = (False, c') \<Longrightarrow> m_bConnected c \<Longrightarrow> after_failure env (calls c')"
  by (erule Connect0_failed) (simp add: Close_def after_failure_def)

subsection \<open>Statements\<close>

lemma Query_loop_st:
  "conn_st env False n c \<Longrightarrow> m_bConnected c \<Longrightarrow> Query_loop env q k m c = (b, c') \<Longrightarrow>
    conn_st env False n c' \<and> (b \<longrightarrow> m_bConnected c')"
proof (induction m arbitrary: k c)
  case (Suc m)
  let ?c1 = "libv (C_query q) c"
  let ?c2 = "libv C_errno ?c1"
  have c1: "conn_st env False n ?c1" "m_bConnected ?c1" and c2: "conn_st env False n ?c2"
    using Suc by simp_all
  show ?case
  proof (cases "rc env (C_query q # calls c) \<noteq> 0 \<and> k = 0 \<and> conn_lost (rc env (C_errno # C_query q # calls c))")
    case True
    obtain b1 c3 where C: "Connect0 env (Close ?c2) = (b1, c3)" by fastforce
    have "conn_st env False n c3 \<and> m_bConnected c3 = b1"
      using Connect0_st [OF _ _ C] Close_st [OF c2] by blast
    with C True Suc.prems(3) Suc.IH [of c3 1] reconnect_failed [of env ?c2 c3] c1(2) show ?thesis
      by (auto simp: lib_eq lib_text_eq split: if_splits)
  next
    case False
    with Suc.prems c1 c2 show ?thesis by (auto simp: lib_eq lib_text_eq Let_def split: if_splits)
  qed
qed simp

lemma Query0_st:
  assumes "conn_st env False n c" "Query0 env q c = (b, c')"
  shows "conn_st env False n c' \<and> (b \<longrightarrow> m_bConnected c')"
proof (cases "m_bConnected c")
  case True
  then show ?thesis using assms Query_loop_st [of env n c q 0 2 b c'] by (simp add: Query0_def)
next
  case False
  obtain b1 c1 where C: "Connect0 env c = (b1, c1)" by fastforce
  from Connect0_st [OF assms(1) False C] have "conn_st env False n c1 \<and> m_bConnected c1 = b1" .
  then show ?thesis
    using assms(2) False C Query_loop_st [of env n c1 q 0 2 b c'] by (auto simp: Query0_def split: if_splits)
qed

lemma Execute_st: "conn_inv env c \<Longrightarrow> Execute env q c = (b, c') \<Longrightarrow> conn_inv env c'"
  unfolding conn_inv_def Execute_def using Query0_st by blast

lemma Insert_st: "conn_inv env c \<Longrightarrow> Insert env q p c = (b, c') \<Longrightarrow> conn_inv env c'"
  using Query0_st [of env 0 c q, OF _ surjective_pairing]
  by (auto simp: conn_inv_def Insert_def lib_eq case_prod_beta Let_def split: if_splits)

lemma QueryOne_string_st:
  assumes "conn_inv env c" "QueryOne_string env q c = (b, c')"
  shows "conn_inv env c'"
proof -
  obtain b1 c1 where Q: "Query0 env q c = (b1, c1)" by fastforce
  from Query0_st [OF _ Q] assms have st: "conn_st env False 0 c1" "b1 \<longrightarrow> m_bConnected c1"
    by (auto simp: conn_inv_def)
  then have r: "b1 \<Longrightarrow> conn_st env (rc env (C_use_result # calls c1) \<noteq> 0) 0 (libv C_use_result c1)"
    by (simp add: conn_st_use_result)
  let ?u = "libv C_use_result c1"
  show ?thesis
  proof (cases "b1 \<and> rc env (C_use_result # calls c1) \<noteq> 0")
    case True
    with assms(2) have "c' = libv C_free_result (libv C_fetch_row ?u)"
      by (simp add: QueryOne_string_def Q lib_eq Let_def)
    with True st r show ?thesis by (simp add: conn_inv_def)
  next
    case False
    then consider "\<not> b1" | "b1" "rc env (C_use_result # calls c1) = 0" by blast
    then show ?thesis
    proof cases
      case 1
      with assms(2) have "c' = c1" by (simp add: QueryOne_string_def Q)
      with st show ?thesis by (simp add: conn_inv_def)
    next
      case 2
      with assms(2) obtain m where "c' = log_print LOG_ERROR m (libv C_error ?u)"
        by (simp add: QueryOne_string_def Q lib_eq lib_text_eq Let_def) blast
      with 2 st r show ?thesis by (simp add: conn_inv_def)
    qed
  qed
qed

lemma QueryOne_conv_st:
  "conn_inv env c \<Longrightarrow> conn_inv env (snd (let ((b, s), c) = QueryOne_string env q c in (f b s, c)))"
  using QueryOne_string_st [of env c q, OF _ surjective_pairing] by (simp add: case_prod_beta)

lemma QueryOne_st:
  assumes "conn_inv env c"
  shows "conn_inv env (snd (QueryOne_int env q c))" "conn_inv env (snd (QueryOne_uint8 env q c))"
    "conn_inv env (snd (QueryOne_uint32 env q c))" "conn_inv env (snd (QueryOne_uint64 env q c))"
    "conn_inv env (snd (QueryOne_int64 env q c))"
  unfolding QueryOne_int_def QueryOne_uint8_def QueryOne_uint32_def QueryOne_uint64_def QueryOne_int64_def
  by (rule QueryOne_conv_st [OF assms])+

lemma IsExistTable_st: "conn_inv env c \<Longrightarrow> conn_inv env (snd (IsExistTable env t c))"
  using QueryOne_st(1) [of env c "IsExistTable_sql (m_strDbName c) t"]
  by (simp add: IsExistTable_def case_prod_beta)

lemma Fetch_loop_st:
  fixes F :: "'d \<Rightarrow> mysql_row \<Rightarrow> bool \<times> 'd"
  assumes "Fetch_loop env F d c = Some r" "conn_st env True n c" "m_bConnected c"
  shows "conn_st env True n (snd r) \<and> m_bConnected (snd r)"
proof -
  have "conn_st env True n c \<longrightarrow> m_bConnected c \<longrightarrow> conn_st env True n (snd r) \<and> m_bConnected (snd r)"
    using assms(1)
  proof (rule Fetch_loop.raw_induct [rotated])
    fix loop :: "libmysql \<Rightarrow> ('d \<Rightarrow> mysql_row \<Rightarrow> bool \<times> 'd) \<Rightarrow> 'd \<Rightarrow> conn \<Rightarrow> ('d \<times> conn) option"
    fix env c and F :: "'d \<Rightarrow> mysql_row \<Rightarrow> bool \<times> 'd" and d r
    assume IH: "\<And>env F d c r. loop env F d c = Some r \<Longrightarrow>
        conn_st env True n c \<longrightarrow> m_bConnected c \<longrightarrow> conn_st env True n (snd r) \<and> m_bConnected (snd r)"
    assume "(let c = libv C_fetch_row c; sttRow = rows env (calls c)
        in if sttRow = None then Some (d, c)
           else let (b, d) = F d (the sttRow) in if \<not> b then Some (d, c) else loop env F d c) = Some r"
    then show "conn_st env True n c \<longrightarrow> m_bConnected c \<longrightarrow> conn_st env True n (snd r) \<and> m_bConnected (snd r)"
      using IH [of env F "snd (F d (the (rows env (C_fetch_row # calls c))))" "libv C_fetch_row c" r]
      by (auto simp: Let_def case_prod_beta split: if_splits)
  qed
  with assms show ?thesis by blast
qed

lemma Query_st:
  assumes "conn_inv env c" "Query env q d F c = Some (r, c')"
  shows "conn_inv env c'"
proof -
  obtain b1 c1 where Q: "Query0 env q c = (b1, c1)" by fastforce
  from Query0_st [OF _ Q] assms have st: "conn_st env False 0 c1" "b1 \<longrightarrow> m_bConnected c1"
    by (auto simp: conn_inv_def)
  then have r: "b1 \<Longrightarrow> conn_st env (rc env (C_use_result # calls c1) \<noteq> 0) 0 (libv C_use_result c1)"
    by (simp add: conn_st_use_result)
  let ?u = "libv C_use_result c1"
  show ?thesis
  proof (cases "b1 \<and> rc env (C_use_result # calls c1) \<noteq> 0")
    case True
    with assms(2) obtain r' where F: "Fetch_loop env F d ?u = Some r'" "c' = libv C_free_result (snd r')"
      by (auto simp: Query_def Q lib_eq Let_def)
    with True st r show ?thesis using Fetch_loop_st [OF F(1), of 0] by (simp add: conn_inv_def)
  next
    case False
    then consider "\<not> b1" | "b1" "rc env (C_use_result # calls c1) = 0" by blast
    then show ?thesis
    proof cases
      case 1
      with assms(2) have "c' = c1" by (simp add: Query_def Q)
      with st show ?thesis by (simp add: conn_inv_def)
    next
      case 2
      with assms(2) obtain m where "c' = log_print LOG_ERROR m (libv C_error (libv C_errno ?u))"
        by (simp add: Query_def Q lib_eq lib_text_eq Let_def) blast
      with 2 st r show ?thesis by (simp add: conn_inv_def)
    qed
  qed
qed

subsection \<open>Prepared statements\<close>

text \<open>A statement is prepared: the state in which \<open>Bind\<close> and \<open>PrepareExecute\<close> work.\<close>

definition stmt_st :: "libmysql \<Rightarrow> nat \<Rightarrow> conn \<Rightarrow> bool" where
  "stmt_st env n c \<longleftrightarrow> conn_st env False n c \<and> m_bConnected c \<and> m_psttStmt c \<noteq> 0"

lemma stmt_st_conn: "stmt_st env n c \<Longrightarrow> conn_st env False n c"
  by (simp add: stmt_st_def)

lemma stmt_st_log [simp]: "stmt_st env n (log_print l s c) = stmt_st env n c"
  by (simp add: stmt_st_def)

lemma stmt_st_call [simp]:
  assumes "stmt_st env n c" "h = m_psttStmt c"
  shows "stmt_st env n (libv (S_error h) c)" "stmt_st env n (libv (S_bind_param h ps) c)"
    "stmt_st env n (libv (S_insert_id h) c)" "stmt_st env n (libv (S_bind_result h) c)"
    "stmt_st env n (libv (S_fetch h) c)" "stmt_st env n (libv (S_prepare h s) c)"
    "stmt_st env n (libv (S_execute h) c)"
  using assms by (simp_all add: stmt_st_def)

lemma stmt_init_st:
  assumes "conn_st env False n c" "m_bConnected c" "idle c" "c' = (libv S_init c)\<lparr>m_psttStmt := rc env (S_init # calls c)\<rparr>"
  shows "conn_st env False n c'" "m_bConnected c'" "m_psttBind c' = None" "m_iBindCount c' \<le> 0"
  using assms by (auto simp: conn_st_def idle_def bind_ok_def stmts_of_def heap_of_def proto_Cons require_def)

lemma Prepare_loop_st:
  "conn_st env False n c \<Longrightarrow> m_bConnected c \<Longrightarrow> idle c \<Longrightarrow> 0 < m \<Longrightarrow> i = 0 \<longrightarrow> 1 < m \<Longrightarrow>
    Prepare_loop env q i m c = (b, c') \<Longrightarrow>
    conn_st env False n c' \<and> (b \<longrightarrow> stmt_st env n c' \<and> m_psttBind c' = None \<and> m_iBindCount c' \<le> 0)"
proof (induction m arbitrary: i c)
  case (Suc m)
  define h where "h = rc env (S_init # calls c)"
  define c1 where "c1 = (libv S_init c)\<lparr>m_psttStmt := h\<rparr>"
  have st1: "conn_st env False n c1" "m_bConnected c1" "m_psttBind c1 = None" "m_iBindCount c1 \<le> 0"
    using stmt_init_st [OF Suc.prems(1-3), of c1] by (simp_all add: c1_def h_def)
  show ?case
  proof (cases "h = 0")
    case True
    then obtain s where "c' = log_print LOG_ERROR s (libv C_error c1)" "\<not> b"
      using Suc.prems(6) by (auto simp: lib_eq lib_text_eq Let_def h_def c1_def)
    with st1 show ?thesis by simp
  next
    case False
    then have s1: "stmt_st env n c1" "m_psttStmt c1 = h" using st1 by (simp_all add: stmt_st_def c1_def)
    let ?c2 = "libv (S_prepare h q) c1"
    let ?c3 = "libv C_errno ?c2"
    have s2: "stmt_st env n ?c2" and s3: "stmt_st env n ?c3"
      using s1 by (simp_all add: stmt_st_def)
    have unf: "Prepare_loop env q i (Suc m) c =
        (if rc env (S_prepare h q # calls c1) \<noteq> 0
         then if i = 0 \<and> conn_lost (rc env (C_errno # calls ?c2))
              then let (b, c) = Connect0 env (Close ?c3)
                   in if \<not> b then (False, log_print LOG_ERROR (sql_text q @
                        '' - db connection is closed and db connection error - '' @ rtext env (C_error # calls c)) (libv C_error c))
                      else Prepare_loop env q (i + 1) m (PrepareClose c)
              else (False, log_print LOG_ERROR (sql_text q @ '' - mysql_stmt_prepare error - '' @
                      rtext env (S_error h # calls ?c3)) (libv (S_error h) ?c3))
         else (True, log_print (m_eLogLevel ?c2) (sql_text q) ?c2))"
      using False by (simp add: lib_eq lib_text_eq case_prod_beta Let_def h_def [symmetric] c1_def [symmetric])
        (simp add: c1_def)
    show ?thesis
    proof (cases "rc env (S_prepare h q # calls c1) \<noteq> 0 \<and> i = 0 \<and> conn_lost (rc env (C_errno # calls ?c2))")
      case True
      obtain b1 c4 where C: "Connect0 env (Close ?c3) = (b1, c4)" by fastforce
      have st4: "conn_st env False n c4 \<and> m_bConnected c4 = b1"
        using Connect0_st [OF _ _ C] Close_st [OF stmt_st_conn [OF s3]] by blast
      show ?thesis
      proof (cases b1)
        case b1: True
        from b1 C True Suc.prems(6) have "Prepare_loop env q 1 m (PrepareClose c4) = (b, c')"
          unfolding unf by simp
        then show ?thesis using Suc.IH [of "PrepareClose c4" 1] PrepareClose_st [of env False n c4] st4 b1 True Suc.prems(5)
          by simp
      next
        case False
        have "m_bConnected ?c3" using s3 by (simp add: stmt_st_def)
        with reconnect_failed [of env ?c3 c4] C False have "after_failure env (calls c4)" by simp
        with C True Suc.prems(6) st4 False show ?thesis unfolding unf by auto
      qed
    next
      case False
      with Suc.prems(6) s1 s2 s3 st1 show ?thesis
        unfolding unf by (auto simp: stmt_st_conn split: if_splits)
    qed
  qed
qed simp

lemma Prepare_bind_st:
  assumes "stmt_st env n c" "m_psttBind c = None" "m_iBindCount c \<le> 0" "Prepare_bind env q c = (b, c')"
  shows "conn_st env False n c' \<and> (b \<longrightarrow> stmt_st env n c' \<and> bound_params c' = replicate (nat (m_iBindCount c')) None)"
proof -
  let ?h = "m_psttStmt c"
  define k where "k = i32 (rc env (S_param_count ?h # calls c))"
  define c1 where "c1 = (libv (S_param_count ?h) c)\<lparr>m_iBindCount := k\<rparr>"
  have l: "m_clsBindList c = []" using assms(1-3) by (simp add: stmt_st_def conn_st_def bind_ok_def)
  have p: "proto env (S_param_count ?h # calls c) Open [?h] False n"
    using assms(1,2) by (auto simp: stmt_st_def conn_st_def stmts_of_def heap_of_def proto_Cons require_def)
  have c1: "m_bConnected c1" "m_psttStmt c1 = ?h" "m_psttBind c1 = None" "m_clsBindList c1 = []" "?h \<noteq> 0"
    "calls c1 = S_param_count ?h # calls c" "m_iBindCount c1 = k"
    using assms(1,2) l by (simp_all add: c1_def stmt_st_def)
  define a where "a = rc env (H_malloc (sizeof_MYSQL_BIND * k) # calls c1)"
  let ?c2 = "libv (H_malloc (sizeof_MYSQL_BIND * k)) c1"
  have unf: "Prepare_bind env q c =
      (if 0 < k then if a = 0 then (False, PrepareClose (log_print LOG_ERROR (sql_text q @ '' - bind malloc error'') ?c2))
         else (True, ?c2\<lparr>m_psttBind := Some (replicate (nat k) None), m_clsBindList := replicate (nat k) []\<rparr>)
       else (True, c1))"
    using c1 by (simp add: Prepare_bind_def lib_eq Let_def k_def [symmetric] c1_def [symmetric] a_def)
  consider "k \<le> 0" | "0 < k" "a = 0" | "0 < k" "a \<noteq> 0" by linarith
  then show ?thesis
  proof cases
    case 1
    then show ?thesis using assms(4) c1 p unfolding unf
      by (auto simp: stmt_st_def conn_st_def bind_ok_def stmts_of_def heap_of_def bound_params_def)
  next
    case 2
    then have "c' = PrepareClose (log_print LOG_ERROR (sql_text q @ '' - bind malloc error'') ?c2)" "\<not> b"
      using assms(4) unfolding unf by auto
    moreover have "proto env (S_close ?h # calls ?c2) Open [] False n"
      using p 2 c1 by (simp add: proto_def require_def a_def)
    ultimately show ?thesis using c1
      by (simp add: PrepareClose_def conn_st_def bind_ok_def stmts_of_def heap_of_def)
  next
    case 3
    then have "proto env (calls ?c2) Open [?h] False (Suc n)"
      using p c1 by (simp add: proto_def a_def)
    with 3 c1 assms(4) show ?thesis unfolding unf
      by (auto simp: stmt_st_def conn_st_def bind_ok_def stmts_of_def heap_of_def bound_params_def)
  qed
qed

lemma Prepare_st:
  assumes "conn_st env False n c" "Prepare env q c = (b, c')"
  shows "conn_st env False n c' \<and> (b \<longrightarrow> stmt_st env n c' \<and> bound_params c' = replicate (nat (m_iBindCount c')) None)"
proof -
  define b1 c1 where "b1 = fst (if m_bConnected c then (True, c) else Connect0 env c)"
    and "c1 = snd (if m_bConnected c then (True, c) else Connect0 env c)"
  have s1: "conn_st env False n c1 \<and> m_bConnected c1 = b1"
    using assms(1) Connect0_st [OF assms(1) _ surjective_pairing] by (auto simp: b1_def c1_def)
  obtain b2 c2 where L: "Prepare_loop env q 0 2 (PrepareClose c1) = (b2, c2)" by fastforce
  have unf: "Prepare env q c = (if \<not> b1 then (False, log_print LOG_ERROR (sql_text q @ '' - DB connect error'') c1)
      else if \<not> b2 then (False, c2) else Prepare_bind env q c2)"
    by (simp add: Prepare_def case_prod_beta b1_def c1_def [symmetric] L)
  show ?thesis
  proof (cases b1)
    case True
    with s1 PrepareClose_st [of env False n c1] Prepare_loop_st [OF _ _ _ _ _ L, of n]
    have "conn_st env False n c2 \<and> (b2 \<longrightarrow> stmt_st env n c2 \<and> m_psttBind c2 = None \<and> m_iBindCount c2 \<le> 0)"
      by simp
    with True assms(2) Prepare_bind_st [of env n c2 q b c'] show ?thesis unfolding unf
      by (auto split: if_splits)
  next
    case False
    with assms(2) s1 show ?thesis unfolding unf by auto
  qed
qed

text \<open>\<open>Bind\<close> replaces one parameter and leaves the others alone.\<close>

lemma length_bound_params: "bind_ok c \<Longrightarrow> length (bound_params c) = nat (m_iBindCount c)"
  by (auto simp: bind_ok_def bound_params_def split: option.splits)

lemma nth_bound_params:
  assumes "bind_ok c" "m_psttBind c = Some bs" "i < length bs"
  shows "bound_params c ! i = (if bs ! i = None then None else Some (m_clsBindList c ! i))"
  using assms by (force simp: bind_ok_def bound_params_def)

lemma Bind_st:
  assumes st: "stmt_st env n c" and B: "Bind i v c = (b, c')"
  shows "stmt_st env n c' \<and> b = (0 \<le> i \<and> i < m_iBindCount c) \<and> calls c' = calls c \<and>
    m_psttStmt c' = m_psttStmt c \<and> m_iBindCount c' = m_iBindCount c \<and>
    bound_params c' = (if b then (bound_params c)[nat i := Some v] else bound_params c)"
proof (cases "0 \<le> i \<and> i < m_iBindCount c")
  case False
  with st B show ?thesis by (auto simp: Bind_def stmt_st_def bound_params_def split: if_splits cong: option.case_cong)
next
  case True
  let ?i = "nat i"
  have ok: "bind_ok c" using st by (simp add: stmt_st_def conn_st_def)
  with True obtain bs where bs: "m_psttBind c = Some bs" "length bs = nat (m_iBindCount c)"
    by (cases "m_psttBind c") (auto simp: bind_ok_def)
  with True ok have i: "?i < length bs" "length (m_clsBindList c) = length bs"
    by (auto simp: bind_ok_def)
  define c1 where "c1 = c\<lparr>m_clsBindList := (m_clsBindList c)[?i := v],
      m_psttBind := Some (bs[?i := Some (?i, length v)])\<rparr>"
  have c1: "b" "c' = c1" using st B True bs by (auto simp: Bind_def stmt_st_def c1_def Let_def)
  have ok1: "bind_ok c1"
    using ok bs i by (auto simp: bind_ok_def c1_def nth_list_update)
  then have "stmt_st env n c1"
    using st bs by (auto simp: stmt_st_def conn_st_def c1_def stmts_of_def heap_of_def)
  moreover have "bound_params c1 = (bound_params c)[?i := Some v]"
  proof (rule nth_equalityI)
    show l: "length (bound_params c1) = length ((bound_params c)[?i := Some v])"
      using length_bound_params [OF ok] length_bound_params [OF ok1] by (simp add: c1_def)
    fix j assume "j < length (bound_params c1)"
    then have j: "j < length bs" using length_bound_params [OF ok1] bs by (simp add: c1_def)
    then show "bound_params c1 ! j = (bound_params c)[?i := Some v] ! j"
      using nth_bound_params [OF ok bs(1) j] nth_bound_params [OF ok1, of "bs[?i := Some (?i, length v)]" j]
        i bs length_bound_params [OF ok] by (simp add: c1_def nth_list_update)
  qed
  ultimately show ?thesis using c1 True by (simp add: c1_def)
qed

lemma PrepareExecute_st:
  assumes "conn_st env False n c" "m_psttStmt c \<noteq> 0 \<longrightarrow> m_bConnected c" "PrepareExecute env p c = ((b, r), c')"
  shows "conn_st env False n c' \<and> m_psttStmt c' = m_psttStmt c \<and> m_bConnected c' = m_bConnected c"
proof (cases "m_psttStmt c = 0")
  case True
  with assms show ?thesis by (auto simp: PrepareExecute_def)
next
  case False
  let ?h = "m_psttStmt c"
  let ?c1 = "libv (S_bind_param ?h (bound_params c)) c"
  let ?c2 = "libv (S_execute ?h) ?c1"
  have st: "stmt_st env n c" using assms False by (simp add: stmt_st_def)
  then have st2: "stmt_st env n ?c1" "stmt_st env n ?c2" by simp_all
  consider "c' = log_print LOG_ERROR (''mysql_stmt_bind_param error - '' @ rtext env (S_error ?h # calls ?c1)) (libv (S_error ?h) ?c1)"
    | "c' = log_print LOG_ERROR (''mysql_stmt_execute error - '' @ rtext env (S_error ?h # calls ?c2)) (libv (S_error ?h) ?c2)"
    | "c' = libv (S_insert_id ?h) ?c2" | "c' = ?c2"
    using False assms(3) by (auto simp: PrepareExecute_def lib_eq lib_text_eq Let_def split: if_splits)
  then show ?thesis using st st2
    by cases (auto simp: stmt_st_conn)
qed

text \<open>A successful \<open>PrepareExecute\<close> binds the current parameters and then executes.\<close>

lemma PrepareExecute_trace:
  assumes "PrepareExecute env False c = ((True, r), c')"
  shows "calls c' = S_execute (m_psttStmt c) # S_bind_param (m_psttStmt c) (bound_params c) # calls c \<and>
    rc env (calls c') = 0 \<and> m_psttStmt c' = m_psttStmt c \<and> r = None"
  using assms by (auto simp: PrepareExecute_def lib_eq lib_text_eq Let_def split: if_splits)

lemma PrepareClose_trace:
  "\<exists>cl. calls (PrepareClose c) = cl @ calls c \<and> set cl \<subseteq> {H_free, S_close (m_psttStmt c)}"
  by (auto simp: PrepareClose_def Let_def split: option.splits)

text \<open>A successful \<open>Prepare\<close> ends with the preparation of the statement.\<close>

lemma Prepare_loop_trace:
  "0 < m \<Longrightarrow> i = 0 \<longrightarrow> 1 < m \<Longrightarrow> Prepare_loop env q i m c = (True, c') \<Longrightarrow>
    \<exists>t. calls c' = S_prepare (m_psttStmt c') q # S_init # t \<and> rc env (calls c') = 0"
proof (induction m arbitrary: i c)
  case (Suc m)
  then consider cx where "i = 0" "Prepare_loop env q 1 m cx = (True, c')"
    | "\<exists>t. calls c' = S_prepare (m_psttStmt c') q # S_init # t \<and> rc env (calls c') = 0"
    by (auto simp: lib_eq lib_text_eq Let_def case_prod_beta split: if_splits)
  then show ?case
  proof cases
    case 1
    with Suc.prems(2) show ?thesis by (intro Suc.IH [of 1 cx]) auto
  qed blast
qed simp

lemma Prepare_trace:
  assumes "Prepare env q c = (True, c')"
  shows "\<exists>al t. calls c' = al @ S_param_count (m_psttStmt c') # S_prepare (m_psttStmt c') q # S_init # t \<and>
    (\<forall>k\<in>set al. \<exists>z. k = H_malloc z) \<and> m_iBindCount c' = i32 (rc env (S_param_count (m_psttStmt c') # S_prepare (m_psttStmt c') q # S_init # t))"
proof -
  obtain c1 c2 where L: "Prepare_loop env q 0 2 c1 = (True, c2)" "Prepare_bind env q c2 = (True, c')"
    using assms by (auto simp: Prepare_def Let_def split: prod.splits if_splits)
  from Prepare_loop_trace [OF _ _ L(1)] obtain t where t: "calls c2 = S_prepare (m_psttStmt c2) q # S_init # t" by auto
  with L(2) have "m_psttStmt c' = m_psttStmt c2 \<and> m_iBindCount c' = i32 (rc env (S_param_count (m_psttStmt c2) # calls c2)) \<and>
      (\<exists>al. calls c' = al @ S_param_count (m_psttStmt c2) # calls c2 \<and> (\<forall>k\<in>set al. \<exists>z. k = H_malloc z))"
    by (cases "0 < i32 (rc env (S_param_count (m_psttStmt c2) # calls c2))")
      (auto simp: Prepare_bind_def lib_eq Let_def split: if_splits)
  with t show ?thesis by auto
qed

text \<open>\<open>Bind_list\<close> fills the parameters from position \<open>i\<close> on.\<close>

lemma Bind_list_st:
  "stmt_st env n c \<Longrightarrow> Bind_list i ss c = (b, c') \<Longrightarrow>
    stmt_st env n c' \<and> calls c' = calls c \<and> m_psttStmt c' = m_psttStmt c \<and> m_iBindCount c' = m_iBindCount c \<and>
    (b \<longrightarrow> (ss \<noteq> [] \<longrightarrow> int (i + length ss) \<le> m_iBindCount c) \<and>
      bound_params c' = take i (bound_params c) @ map (Some \<circ> cstr) ss @ drop (i + length ss) (bound_params c))"
proof (induction ss arbitrary: i c)
  case (Cons s ss)
  obtain b1 c1 where B: "Bind (int i) (cstr s) c = (b1, c1)" by fastforce
  note b = Bind_st [OF Cons.prems(1) B]
  have len: "length (bound_params c) = nat (m_iBindCount c)"
    using Cons.prems(1) by (simp add: stmt_st_def conn_st_def length_bound_params)
  show ?case
  proof (cases b1)
    case True
    with Cons.prems(2) B have L: "Bind_list (Suc i) ss c1 = (b, c')" by simp
    from b True have i: "i < length (bound_params c)" using len by (simp add: zless_nat_eq_int_zless)
    then have t: "take (Suc i) ((bound_params c)[i := Some (cstr s)]) = take i (bound_params c) @ [Some (cstr s)]"
      by (simp add: take_Suc_conv_app_nth)
    from Cons.IH [OF _ L] b True show ?thesis by (auto simp: t)
  next
    case False
    with Cons.prems(2) B b show ?thesis by auto
  qed
qed auto

text \<open>The variadic loop does the same for arguments that are passed and not NULL.\<close>

lemma Bind_args_list:
  "Bind_args n i args c = Some (True, c') \<Longrightarrow>
    \<exists>ss. take n args = map Some ss \<and> length ss = n \<and>
      ((\<forall>s\<in>set ss. NUL \<notin> set s) \<longrightarrow> Bind_list i ss c = (True, c'))"
proof (induction n i args c rule: Bind_args.induct)
  case (4 n i a args c)
  obtain b1 c1 where B: "Bind (int i) a c = (b1, c1)" by fastforce
  with 4(2) have b: "b1" "Bind_args n (Suc i) args c1 = Some (True, c')" by (auto split: if_splits)
  from 4(1) [OF B [symmetric] refl] b obtain ss where
    "take n args = map Some ss" "length ss = n" "(\<forall>s\<in>set ss. NUL \<notin> set s) \<longrightarrow> Bind_list (Suc i) ss c1 = (True, c')"
    by auto
  with B b(1) show ?case by (intro exI [of _ "a # ss"]) auto
qed auto

lemma Bind_args_st:
  "stmt_st env m c \<Longrightarrow> Bind_args n i args c = Some (b, c') \<Longrightarrow> stmt_st env m c'"
proof (induction n i args c rule: Bind_args.induct)
  case (4 n i a args c)
  obtain b1 c1 where B: "Bind (int i) a c = (b1, c1)" by fastforce
  with 4 Bind_st [OF 4(2) B] show ?case by (auto split: if_splits)
qed auto

lemma Execute_bound_st:
  assumes "stmt_st env n c" "Execute_bound env (b, c) = (r, c')"
  shows "conn_st env False n c' \<and> m_psttStmt c' = 0"
proof -
  obtain r1 c1 where P: "PrepareExecute env False c = (r1, c1)" by fastforce
  with PrepareExecute_st [of env n c False "fst r1" "snd r1" c1] assms(1)
  have "conn_st env False n c1" by (simp add: stmt_st_def)
  with assms P show ?thesis
    using PrepareClose_st stmt_st_conn idle_PrepareClose(1)
    by (auto simp: Execute_bound_def split: if_splits prod.splits)
qed

lemma Execute_args_st:
  assumes "conn_inv env c" "Execute_args env q k args c = Some (b, c')"
  shows "conn_inv env c'"
proof -
  obtain b1 c1 where P: "Prepare env q c = (b1, c1)" by fastforce
  from Prepare_st [OF _ P] assms(1) have st: "conn_st env False 0 c1" "b1 \<longrightarrow> stmt_st env 0 c1"
    by (auto simp: conn_inv_def)
  show ?thesis
  proof (cases b1)
    case True
    with assms(2) P obtain b2 c2 where "Bind_args (nat k) 0 args c1 = Some (b2, c2)" "Execute_bound env (b2, c2) = (b, c')"
      by (auto simp: Execute_args_def)
    with st True show ?thesis using Bind_args_st Execute_bound_st unfolding conn_inv_def by blast
  next
    case False
    with assms(2) P st show ?thesis by (auto simp: Execute_args_def conn_inv_def)
  qed
qed

lemma Execute_list_st:
  assumes "conn_inv env c" "Execute_list env q args c = (b, c')"
  shows "conn_inv env c'"
proof -
  obtain b1 c1 where P: "Prepare env q c = (b1, c1)" by fastforce
  obtain b2 c2 where L: "Bind_list 0 args c1 = (b2, c2)" by fastforce
  from Prepare_st [OF _ P] assms(1) have st: "conn_st env False 0 c1" "b1 \<longrightarrow> stmt_st env 0 c1"
    by (auto simp: conn_inv_def)
  with assms(2) P L Bind_list_st [OF _ L] show ?thesis
    using Execute_bound_st [of env 0 c2 b2 b c'] by (auto simp: Execute_list_def conn_inv_def split: if_splits)
qed

lemma PrepareClose_inv: "conn_st env False n c \<Longrightarrow> conn_st env False n (PrepareClose c)"
  using PrepareClose_st by blast

lemma QueryOne_fetch_st:
  assumes st: "stmt_st env 0 c" and Q: "QueryOne_fetch env sz d c = Some (r, c')"
  shows "conn_inv env c'"
proof -
  let ?h = "m_psttStmt c"
  let ?m = "libv (H_malloc (u64 sz)) c"
  let ?b = "libv (S_bind_result ?h) ?m"
  let ?f = "libv (S_fetch ?h) ?b"
  show ?thesis
  proof (cases "rc env (H_malloc (u64 sz) # calls c) = 0")
    case True
    with Q have "c' = PrepareClose ?m" by (simp add: QueryOne_fetch_def lib_eq)
    moreover have "conn_st env False 0 ?m"
      using True st conn_st_malloc [of env False 0 c "u64 sz"] by (simp add: stmt_st_def)
    ultimately show ?thesis by (simp add: PrepareClose_inv conn_inv_def)
  next
    case False
    then have "stmt_st env 1 ?m"
      using st conn_st_malloc [of env False 0 c "u64 sz"] by (simp add: stmt_st_def)
    then have "stmt_st env 1 ?b" "stmt_st env 1 ?f" by simp_all
    moreover have "c' = libv H_free (PrepareClose ?b) \<or> c' = libv H_free (PrepareClose ?f)"
      using False Q by (auto simp: QueryOne_fetch_def lib_eq Let_def split: if_splits)
    ultimately show ?thesis
      using PrepareClose_st [of env False 1] by (auto simp: stmt_st_def conn_inv_def)
  qed
qed

lemma QueryOne_arg_st:
  assumes "conn_inv env c" "QueryOne_arg env q a sz d c = Some (r, c')"
  shows "conn_inv env c'"
proof -
  obtain b1 c1 where P: "Prepare env q c = (b1, c1)" by fastforce
  obtain b2 c2 where B: "Bind 0 a c1 = (b2, c2)" by fastforce
  obtain b3 r3 c3 where E: "PrepareExecute env False c2 = ((b3, r3), c3)" by (metis surj_pair)
  from Prepare_st [OF _ P] assms(1) have st: "conn_st env False 0 c1" "b1 \<longrightarrow> stmt_st env 0 c1"
    by (auto simp: conn_inv_def)
  then have st2: "b1 \<longrightarrow> stmt_st env 0 c2" using Bind_st [OF _ B] by blast
  then have st3: "b1 \<longrightarrow> stmt_st env 0 c3" using PrepareExecute_st [OF _ _ E, of 0] by (simp add: stmt_st_def)
  consider "\<not> b1" "c' = PrepareClose c1" | "b1" "c' = PrepareClose c2" | "b1" "c' = PrepareClose c3"
    | "b1" "QueryOne_fetch env sz d c3 = Some (r, c')"
    using assms(2) by (auto simp: QueryOne_arg_def P B E Let_def split: if_splits)
  then show ?thesis
    using st st2 st3 QueryOne_fetch_st PrepareClose_inv stmt_st_conn unfolding conn_inv_def
    by cases blast+
qed

subsection \<open>Runs of the public interface\<close>

text \<open>A call of the public interface.\<close>

datatype api =
    A_Connect cstring cstring cstring cstring int "cstring option" | A_Close
  | A_Execute cstring | A_Execute_args cstring int "cstring option list" | A_Execute_list cstring "string list"
  | A_Insert cstring bool | A_Query cstring "nat" | A_QueryOne cstring | A_QueryOne_arg cstring cstring int
  | A_Prepare cstring | A_Bind int cstring | A_PrepareExecute bool | A_PrepareClose
  | A_GetAffectedRow | A_GetError | A_IsExistTable cstring
  | A_SetReadTimeout int | A_SetWriteTimeout int | A_SetPluginDir cstring | A_SetSecureAuth bool
  | A_SetLogLevel EnumLogLevel

text \<open>\<open>A_Query q k\<close> fetches with a callback that refuses the row after \<open>k\<close> rows.\<close>

definition count_rows :: "nat \<Rightarrow> mysql_row \<Rightarrow> bool \<times> nat" where
  "count_rows k sttRow = (k \<noteq> 0, k - 1)"

fun api_step :: "libmysql \<Rightarrow> api \<Rightarrow> conn \<Rightarrow> conn option" where
  "api_step env (A_Connect h u p d n cs) c = Some (snd (Connect env h u p d n cs c))"
| "api_step env A_Close c = Some (Close c)"
| "api_step env (A_Execute q) c = Some (snd (Execute env q c))"
| "api_step env (A_Execute_args q n args) c = map_option snd (Execute_args env q n args c)"
| "api_step env (A_Execute_list q args) c = Some (snd (Execute_list env q args c))"
| "api_step env (A_Insert q b) c = Some (snd (Insert env q b c))"
| "api_step env (A_Query q k) c = map_option snd (Query env q k count_rows c)"
| "api_step env (A_QueryOne q) c = Some (snd (QueryOne_string env q c))"
| "api_step env (A_QueryOne_arg q a n) c = map_option snd (QueryOne_arg env q a n [] c)"
| "api_step env (A_Prepare q) c = Some (snd (Prepare env q c))"
| "api_step env (A_Bind i v) c = Some (snd (Bind i v c))"
| "api_step env (A_PrepareExecute b) c = Some (snd (PrepareExecute env b c))"
| "api_step env A_PrepareClose c = Some (PrepareClose c)"
| "api_step env A_GetAffectedRow c = Some (snd (GetAffectedRow env c))"
| "api_step env A_GetError c = Some (snd (GetError env c))"
| "api_step env (A_IsExistTable t) c = Some (snd (IsExistTable env t c))"
| "api_step env (A_SetReadTimeout i) c = Some (SetReadTimeout i c)"
| "api_step env (A_SetWriteTimeout i) c = Some (SetWriteTimeout i c)"
| "api_step env (A_SetPluginDir d) c = Some (SetPluginDir d c)"
| "api_step env (A_SetSecureAuth b) c = Some (SetSecureAuth b c)"
| "api_step env (A_SetLogLevel l) c = Some (SetLogLevel l c)"

text \<open>Two calls have a condition that the class does not check: \<open>Connect\<close> is for an object that is not connected (on
  a connected one it overwrites the open handle), and \<open>GetError\<close> for one that is (otherwise it reads from a handle
  that is closed or was never initialised).\<close>

fun proper :: "api \<Rightarrow> conn \<Rightarrow> bool" where
  "proper (A_Connect h u p d n cs) c \<longleftrightarrow> \<not> m_bConnected c"
| "proper A_GetError c \<longleftrightarrow> m_bConnected c"
| "proper _ c \<longleftrightarrow> True"

text \<open>The objects that a client can reach with proper calls, in any order.\<close>

inductive reach :: "libmysql \<Rightarrow> conn \<Rightarrow> bool" for env where
  reach_new: "reach env CDbMySQLConnection_new"
| reach_step: "reach env c \<Longrightarrow> proper a c \<Longrightarrow> api_step env a c = Some c' \<Longrightarrow> reach env c'"

lemma settings_st [simp]:
  "conn_inv env (SetReadTimeout i c) = conn_inv env c" "conn_inv env (SetWriteTimeout i c) = conn_inv env c"
  "conn_inv env (SetPluginDir d c) = conn_inv env c" "conn_inv env (SetSecureAuth b c) = conn_inv env c"
  "conn_inv env (SetLogLevel l c) = conn_inv env c"
  by (simp_all add: SetReadTimeout_def SetWriteTimeout_def SetPluginDir_def SetSecureAuth_def SetLogLevel_def
      conn_inv_def conn_st_def bind_ok_def stmts_of_def heap_of_def cong: option.case_cong)

lemma Connect_st:
  assumes "conn_inv env c" "\<not> m_bConnected c"
  shows "conn_inv env (snd (Connect env h u p d n cs c))"
proof -
  define c1 where "c1 = c\<lparr>m_strDbHost := h, m_strDbUserId := u, m_strDbPassWord := p, m_strDbName := d, m_iPort := n\<rparr>"
  define c2 where "c2 = (case cs of None \<Rightarrow> c1 | Some s \<Rightarrow> c1\<lparr>m_strCharacterSet := s\<rparr>)"
  have "conn_st env False 0 c2" "\<not> m_bConnected c2"
    using assms by (auto simp: c1_def c2_def conn_inv_def conn_st_def bind_ok_def stmts_of_def heap_of_def split: option.splits)
  with Connect0_st [OF _ _ surjective_pairing] show ?thesis
    by (simp add: Connect_def conn_inv_def c1_def [symmetric] c2_def [symmetric])
qed

lemma stmt_needs_conn: "conn_inv env c \<Longrightarrow> m_psttStmt c \<noteq> 0 \<Longrightarrow> m_bConnected c"
  by (auto simp: conn_inv_def conn_st_def split: if_splits)

lemma Bind_inv: "conn_inv env c \<Longrightarrow> conn_inv env (snd (Bind i v c))"
  using Bind_st [of env 0 c i v, OF _ surjective_pairing] stmt_needs_conn [of env c]
  by (cases "m_psttStmt c = 0") (auto simp: conn_inv_def stmt_st_def Bind_def)

lemma PrepareExecute_inv: "conn_inv env c \<Longrightarrow> conn_inv env (snd (PrepareExecute env b c))"
  using PrepareExecute_st [of env 0 c b] stmt_needs_conn [of env c] unfolding conn_inv_def
  by (metis surj_pair snd_conv)

lemma api_step_inv:
  assumes "conn_inv env c" "proper a c" "api_step env a c = Some c'"
  shows "conn_inv env c'"
proof (cases a)
  case A_GetError
  with assms show ?thesis by (auto simp: GetError_def lib_eq conn_inv_def)
next
  case (A_QueryOne q)
  with assms show ?thesis using QueryOne_string_st [OF assms(1) surjective_pairing] by auto
next
  case (A_Prepare q)
  with assms show ?thesis using Prepare_st [OF _ surjective_pairing] by (auto simp: conn_inv_def)
next
  case A_GetAffectedRow
  with assms show ?thesis by (auto simp: GetAffectedRow_def lib_eq conn_inv_def)
next
  case (A_Execute q)
  with assms show ?thesis using Execute_st [OF assms(1) surjective_pairing] by auto
next
  case (A_Execute_list q l)
  with assms show ?thesis using Execute_list_st [OF assms(1) surjective_pairing] by auto
next
  case (A_Insert q b)
  with assms show ?thesis using Insert_st [OF assms(1) surjective_pairing] by auto
qed (use assms in \<open>auto simp: Connect_st IsExistTable_st Bind_inv PrepareExecute_inv
      conn_inv_def [symmetric] split: if_splits
      intro: Execute_args_st Query_st QueryOne_arg_st\<close>,
    (use assms in \<open>auto simp: conn_inv_def intro: PrepareClose_inv dest: Close_st\<close>)+)

lemma reach_inv: "reach env c \<Longrightarrow> conn_inv env c"
  by (induction rule: reach.induct) (auto intro: conn_inv_new api_step_inv)

end
