(* ===== verification/DbConnectionSpec.thy ===== *)
theory DbConnectionSpec
  imports DbConnectionSafe
begin

text \<open>
  What the operations of a connection object promise: the protocol of the library is kept
  and no resource is lost on any run, a statement is acknowledged once or not at all and
  is attempted at most twice, bound parameters arrive in order, rows arrive completely.
\<close>

subsection \<open>Acknowledged and attempted statements\<close>

text \<open>How often the library answered 0 to \<open>mysql_query\<close> with this text, and how often it
  was asked.\<close>

primrec acks :: "libmysql \<Rightarrow> cstring \<Rightarrow> mysql_call list \<Rightarrow> nat" where
  "acks env q [] = 0"
| "acks env q (k # t) = acks env q t + (if k = C_query q \<and> rc env (k # t) = 0 then 1 else 0)"

definition tries :: "cstring \<Rightarrow> mysql_call list \<Rightarrow> nat" where
  "tries q t = count_list t (C_query q)"

text \<open>Calls that send no statement.\<close>

definition quiet :: "conn \<Rightarrow> conn \<Rightarrow> bool" where
  "quiet c c' \<longleftrightarrow> (\<exists>new. calls c' = new @ calls c \<and> (\<forall>q. C_query q \<notin> set new))"

lemma quiet_refl [simp]: "quiet c c"
  by (auto simp: quiet_def)

lemma quiet_trans [trans]: "quiet a b \<Longrightarrow> quiet b c \<Longrightarrow> quiet a c"
  by (fastforce simp: quiet_def)

lemma quiet_libv [simp]: "(\<And>q. k \<noteq> C_query q) \<Longrightarrow> quiet c (libv k c)"
  by (auto simp: quiet_def)

lemma quiet_same_calls: "calls c' = calls c \<Longrightarrow> quiet c c'"
  by (auto simp: quiet_def)

lemma quiet_calls:
  "calls d = calls c \<Longrightarrow> quiet c e = quiet d e" "calls d = calls c \<Longrightarrow> quiet e c = quiet e d"
  by (simp_all add: quiet_def)

lemma quiet_acks: "quiet c c' \<Longrightarrow> acks env q (calls c') = acks env q (calls c) \<and> tries q (calls c') = tries q (calls c)"
proof -
  assume "quiet c c'"
  then obtain new where n: "calls c' = new @ calls c" "\<forall>q. C_query q \<notin> set new" by (auto simp: quiet_def)
  from n(2) have "acks env q (new @ calls c) = acks env q (calls c)" by (induction new) auto
  with n show ?thesis by (simp add: tries_def count_notin)
qed

lemma quiet_PrepareClose: "quiet c (PrepareClose c)"
  using PrepareClose_trace [of c] by (auto simp: quiet_def)

lemma quiet_Close: "quiet c (Close c)"
  using PrepareClose_trace [of c] by (auto simp: quiet_def Close_def)

lemma quiet_Connect_options: "quiet c (Connect_options c)"
  unfolding Connect_options_def Let_def by (simp add: quiet_def)

lemma quiet_Connect_charset: "quiet c (Connect_charset env c)"
  by (simp add: Connect_charset_def lib_eq lib_text_eq quiet_def)

lemma quiet_Connect0: "quiet c (snd (Connect0 env c))"
proof -
  define c1 where "c1 = Connect_options (libv C_init c)"
  define k where "k = C_real_connect (cstr (m_strDbHost c1)) (cstr (m_strDbUserId c1))
     (cstr (m_strDbPassWord c1)) (cstr (m_strDbName c1)) (m_iPort c1)"
  define c2 where "c2 = (log_print LOG_INFO ''Connect mysql_real_connect success'' (libv k c1))\<lparr>m_bConnected := True\<rparr>"
  have "quiet (libv C_init c) c1" by (simp add: c1_def quiet_Connect_options)
  with quiet_trans [of c "libv C_init c"] have 1: "quiet c c1" by simp
  then have 2: "quiet c c2" "quiet c (libv C_close (libv C_error (libv k c1)))"
    by (auto simp: quiet_def c2_def k_def)
  have 3: "quiet c (Connect_charset env c2)" using 2(1) quiet_Connect_charset by (rule quiet_trans)
  have "calls (snd (Connect0 env c)) \<in> {calls c, C_init # calls c,
      calls (libv C_close (libv C_error (libv k c1))), calls (Connect_charset env c2)}"
    by (simp add: Connect0_def lib_eq lib_text_eq Let_def c1_def [symmetric] k_def [symmetric] c2_def [symmetric])
  then show ?thesis using 2(2) 3 by (auto simp: quiet_def)
qed

lemma Query_loop_acks:
  "k + m \<le> 2 \<Longrightarrow> Query_loop env q k m c = (b, c') \<Longrightarrow>
    acks env q (calls c') = acks env q (calls c) + of_bool b \<and> tries q (calls c') \<le> tries q (calls c) + m"
proof (induction m arbitrary: k c)
  case (Suc m)
  let ?c1 = "libv (C_query q) c"
  let ?c2 = "libv C_errno ?c1"
  have t: "tries q (calls ?c2) = Suc (tries q (calls c))" by (simp add: tries_def)
  show ?case
  proof (cases "rc env (C_query q # calls c) = 0")
    case True
    with Suc.prems(2) show ?thesis by (auto simp: lib_eq tries_def)
  next
    case nz: False
    then have a: "acks env q (calls ?c2) = acks env q (calls c)" by simp
    show ?thesis
    proof (cases "k = 0 \<and> conn_lost (rc env (C_errno # C_query q # calls c))")
      case True
      obtain b1 c3 where C: "Connect0 env (Close ?c2) = (b1, c3)" by fastforce
      have "quiet ?c2 c3" using quiet_trans [OF quiet_Close quiet_Connect0] C by (metis snd_conv)
      from quiet_acks [OF this] a t
      have c3: "acks env q (calls c3) = acks env q (calls c)" "tries q (calls c3) = Suc (tries q (calls c))" by simp_all
      show ?thesis
      proof (cases b1)
        case True
        with Suc.prems C nz \<open>k = 0 \<and> _\<close> have "Query_loop env q 1 m c3 = (b, c')" "1 + m \<le> 2" by (auto simp: lib_eq)
        from Suc.IH [OF this(2,1)] c3 show ?thesis by simp
      next
        case False
        with Suc.prems(2) C nz \<open>k = 0 \<and> _\<close> c3 show ?thesis by (auto simp: lib_eq lib_text_eq tries_def)
      qed
    next
      case False
      with Suc.prems(2) nz a t show ?thesis by (auto simp: lib_eq lib_text_eq tries_def Let_def split: if_splits)
    qed
  qed
qed simp

lemma Query0_acks:
  assumes "Query0 env q c = (b, c')"
  shows "acks env q (calls c') = acks env q (calls c) + of_bool b \<and> tries q (calls c') \<le> tries q (calls c) + 2"
proof (cases "m_bConnected c")
  case True
  with assms Query_loop_acks [of 0 2 env q c b c'] show ?thesis by (simp add: Query0_def)
next
  case False
  obtain b1 c1 where C: "Connect0 env c = (b1, c1)" by fastforce
  with quiet_acks [OF quiet_Connect0 [of c env], of env q]
  have "acks env q (calls c1) = acks env q (calls c)" "tries q (calls c1) = tries q (calls c)" by simp_all
  with assms False C Query_loop_acks [of 0 2 env q c1 b c'] show ?thesis
    by (auto simp: Query0_def split: if_splits)
qed

subsection \<open>Delivered parameters\<close>

text \<open>The newest calls prepare \<open>q\<close>, which has \<open>k\<close> parameters, bind \<open>ps\<close> and execute
  with success, on one statement that is closed afterwards.\<close>

definition executed :: "libmysql \<Rightarrow> cstring \<Rightarrow> nat \<Rightarrow> string option list \<Rightarrow> mysql_call list \<Rightarrow> bool" where
  "executed env q k ps cs \<longleftrightarrow> (\<exists>h post al t. cs = post @ S_execute h # S_bind_param h ps # al @ S_param_count h # S_prepare h q # t \<and>
     rc env (S_execute h # S_bind_param h ps # al @ S_param_count h # S_prepare h q # t) = 0 \<and>
     k = nat (i32 (rc env (S_param_count h # S_prepare h q # t))) \<and>
     set post \<subseteq> {H_free, S_close h} \<and> (\<forall>x\<in>set al. \<exists>z. x = H_malloc z))"

lemma Execute_bound_executed:
  assumes P: "Prepare env q c = (True, c1)" and inv: "conn_inv env c"
    and L: "Bind_list 0 args c1 = (True, c2)" and E: "Execute_bound env (True, c2) = (True, c')"
  shows "\<exists>k\<ge>length args. executed env q k (map (Some \<circ> cstr) args @ replicate (k - length args) None) (calls c') \<and>
    m_psttStmt c' = 0"
proof -
  from Prepare_st [OF _ P] inv have st: "stmt_st env 0 c1"
    and bp: "bound_params c1 = replicate (nat (m_iBindCount c1)) None" by (auto simp: conn_inv_def)
  let ?h = "m_psttStmt c1" let ?k = "nat (m_iBindCount c1)"
  from Prepare_trace [OF P] obtain al t where tr: "calls c1 = al @ S_param_count ?h # S_prepare ?h q # S_init # t"
    "\<forall>x\<in>set al. \<exists>z. x = H_malloc z" "?k = nat (i32 (rc env (S_param_count ?h # S_prepare ?h q # S_init # t)))"
    by auto
  note b = Bind_list_st [OF st L]
  have len: "length args \<le> ?k" using b by (cases args) auto
  have ps: "bound_params c2 = map (Some \<circ> cstr) args @ replicate (?k - length args) None"
    using b by (simp add: bp)
  obtain r c3 where X: "PrepareExecute env False c2 = ((True, r), c3)" "c' = PrepareClose c3"
    using E by (auto simp: Execute_bound_def split: prod.splits)
  from b have e: "calls c2 = calls c1" "m_psttStmt c2 = ?h" by auto
  from PrepareExecute_trace [OF X(1), unfolded e]
  have c3: "calls c3 = S_execute ?h # S_bind_param ?h (bound_params c2) # calls c1" "rc env (calls c3) = 0" "m_psttStmt c3 = ?h"
    by blast+
  from PrepareClose_trace [of c3] obtain post where "calls c' = post @ calls c3" "set post \<subseteq> {H_free, S_close ?h}"
    using X(2) c3(3) by auto
  with c3 tr have "executed env q ?k (bound_params c2) (calls c')"
    unfolding executed_def by (intro exI [of _ ?h] exI [of _ post] exI [of _ al] exI [of _ "S_init # t"]) simp
  with len ps X(2) show ?thesis by (auto simp: idle_PrepareClose)
qed

subsection \<open>Complete result sets\<close>

text \<open>The library answers the fetches after history \<open>t\<close> with the rows \<open>rs\<close>, then the end.\<close>

primrec serves :: "libmysql \<Rightarrow> mysql_call list \<Rightarrow> mysql_row list \<Rightarrow> bool" where
  "serves env t [] = (rows env (C_fetch_row # t) = None)"
| "serves env t (r # rs) = (rows env (C_fetch_row # t) = Some r \<and> serves env (C_fetch_row # t) rs)"

text \<open>What the callback makes of a list of rows.\<close>

primrec feed :: "('d \<Rightarrow> mysql_row \<Rightarrow> bool \<times> 'd) \<Rightarrow> 'd \<Rightarrow> mysql_row list \<Rightarrow> 'd" where
  "feed F d [] = d"
| "feed F d (r # rs) = (if fst (F d r) then feed F (snd (F d r)) rs else snd (F d r))"

lemma Fetch_loop_serves:
  "serves env (calls c) rs \<Longrightarrow> \<exists>c'. Fetch_loop env F d c = Some (feed F d rs, c')"
proof (induction rs arbitrary: c d)
  case Nil
  then show ?case by (subst Fetch_loop.simps) simp
next
  case (Cons r rs)
  from Cons.IH [of "libv C_fetch_row c" "snd (F d r)"] Cons.prems obtain c' where
    "Fetch_loop env F (snd (F d r)) (libv C_fetch_row c) = Some (feed F (snd (F d r)) rs, c')" by auto
  with Cons.prems show ?case by (subst Fetch_loop.simps) (simp add: case_prod_beta)
qed

subsection \<open>Misuse of the interface\<close>

text \<open>A violation of the protocol stays one.\<close>

lemma p_ok_pstep: "p_ok (pstep r k p) \<Longrightarrow> p_ok p"
  by (cases k) (auto simp: require_def)

lemma p_ok_append: "p_ok (pst env (new @ t)) \<Longrightarrow> p_ok (pst env t)"
  by (induction new) (auto dest: p_ok_pstep)

text \<open>The handles that the library initialised, and the calls that closed one.\<close>

primrec handles :: "libmysql \<Rightarrow> mysql_call list \<Rightarrow> nat" where
  "handles env [] = 0"
| "handles env (k # t) = handles env t + (if k = C_init \<and> rc env (k # t) \<noteq> 0 then 1 else 0)"

definition closes :: "mysql_call list \<Rightarrow> nat" where
  "closes t = count_list t C_close"

lemma handles_closes:
  "p_ok (pst env t) \<Longrightarrow> handles env t = closes t + (if p_handle (pst env t) \<in> {Inited, Open} then 1 else 0)"
proof (induction t)
  case (Cons k t)
  from Cons.prems have "p_ok (pst env t)" by (auto dest: p_ok_pstep)
  with Cons show ?case by (cases k) (auto simp: closes_def require_def split: if_splits)
qed (simp add: closes_def pinit_def)

definition keeps_handles :: "libmysql \<Rightarrow> conn \<Rightarrow> conn \<Rightarrow> bool" where
  "keeps_handles env c c' \<longleftrightarrow> handles env (calls c') = handles env (calls c) \<and> closes (calls c') = closes (calls c) \<and>
     m_bConnected c' = m_bConnected c"

lemma Connect_options_keeps: "keeps_handles env c (Connect_options c)"
  by (simp add: keeps_handles_def closes_def Connect_options_def Let_def)

lemma Connect_charset_keeps: "keeps_handles env c (Connect_charset env c)"
  by (simp add: keeps_handles_def closes_def Connect_charset_def lib_eq lib_text_eq)

lemma Connect0_handles:
  assumes "Connect0 env c = (True, c')"
  shows "handles env (calls c') = Suc (handles env (calls c)) \<and> closes (calls c') = closes (calls c) \<and> m_bConnected c'"
proof -
  define c1 where "c1 = Connect_options (libv C_init c)"
  define k where "k = C_real_connect (cstr (m_strDbHost c1)) (cstr (m_strDbUserId c1))
     (cstr (m_strDbPassWord c1)) (cstr (m_strDbName c1)) (m_iPort c1)"
  define c2 where "c2 = (log_print LOG_INFO ''Connect mysql_real_connect success'' (libv k c1))\<lparr>m_bConnected := True\<rparr>"
  have c': "c' = Connect_charset env c2" and r: "rc env (C_init # calls c) \<noteq> 0"
    using assms by (auto simp: Connect0_def lib_eq lib_text_eq Let_def k_def c1_def c2_def split: if_splits)
  have "keeps_handles env (libv C_init c) c1" unfolding c1_def by (rule Connect_options_keeps)
  then show ?thesis using r Connect_charset_keeps [of env c2]
    by (simp add: c' keeps_handles_def c2_def k_def closes_def)
qed

lemma Close_handles:
  assumes "m_bConnected c"
  shows "handles env (calls (Close c)) = handles env (calls c) \<and> closes (calls (Close c)) = Suc (closes (calls c))"
proof -
  obtain new where n: "calls (PrepareClose c) = new @ calls c" "set new \<subseteq> {H_free, S_close (m_psttStmt c)}"
    using PrepareClose_trace [of c] by auto
  from n(2) have "handles env (new @ calls c) = handles env (calls c)" "C_close \<notin> set new" by (induction new) auto
  then show ?thesis using assms n(1) by (simp add: Close_def closes_def count_notin)
qed

text \<open>\<open>Connect\<close> on a connected object.\<close>

lemma Connect0_calls:
  assumes "m_strDbHost c \<noteq> []"
  shows "\<exists>new. calls (snd (Connect0 env c)) = new @ C_init # calls c"
proof -
  define c1 where "c1 = Connect_options (libv C_init c)"
  define k where "k = C_real_connect (cstr (m_strDbHost c1)) (cstr (m_strDbUserId c1))
     (cstr (m_strDbPassWord c1)) (cstr (m_strDbName c1)) (m_iPort c1)"
  define c2 where "c2 = (log_print LOG_INFO ''Connect mysql_real_connect success'' (libv k c1))\<lparr>m_bConnected := True\<rparr>"
  have 1: "\<exists>new. calls c1 = new @ C_init # calls c" by (simp add: c1_def Connect_options_def Let_def)
  have 2: "\<exists>new. calls (Connect_charset env c2) = new @ calls c1"
    by (simp add: Connect_charset_def lib_eq lib_text_eq c2_def)
  have "calls (snd (Connect0 env c)) \<in> {C_init # calls c, C_close # C_error # k # calls c1, calls (Connect_charset env c2)}"
    using assms by (simp add: Connect0_def lib_eq lib_text_eq Let_def c1_def [symmetric] k_def [symmetric] c2_def [symmetric])
  moreover obtain new new' where "calls c1 = new @ C_init # calls c" "calls (Connect_charset env c2) = new' @ calls c1"
    using 1 2 by blast
  ultimately show ?thesis by (metis (no_types, opaque_lifting) append.assoc append_Cons append_Nil empty_iff insert_iff)
qed

lemma Connect_calls:
  assumes "h \<noteq> []"
  shows "\<exists>new. calls (snd (Connect env h u p d n cs c)) = new @ C_init # calls c"
proof -
  define c1 where "c1 = c\<lparr>m_strDbHost := h, m_strDbUserId := u, m_strDbPassWord := p, m_strDbName := d, m_iPort := n\<rparr>"
  define c2 where "c2 = (case cs of None \<Rightarrow> c1 | Some s \<Rightarrow> c1\<lparr>m_strCharacterSet := s\<rparr>)"
  have "m_strDbHost c2 = h" "calls c2 = calls c" by (simp_all add: c2_def c1_def split: option.split)
  then show ?thesis using assms Connect0_calls [of c2 env] by (simp add: Connect_def c1_def [symmetric] c2_def [symmetric])
qed

lemma Connect_overwrites:
  assumes "conn_inv env c" and "m_bConnected c" and "h \<noteq> []"
  shows "\<not> p_ok (pst env (calls (snd (Connect env h u p d n cs c))))"
proof -
  obtain new where n: "calls (snd (Connect env h u p d n cs c)) = new @ C_init # calls c" using Connect_calls [OF assms(3)] by blast
  have "\<not> p_ok (pst env (C_init # calls c))" using assms(1,2) by (simp add: conn_inv_def conn_st_def proto_def require_def)
  then show ?thesis unfolding n using p_ok_append by blast
qed

lemma GetError_closed: "conn_inv env c \<Longrightarrow> \<not> m_bConnected c \<Longrightarrow> \<not> p_ok (pst env (calls (snd (GetError env c))))"
  by (auto simp: conn_inv_def conn_st_def proto_def require_def GetError_def lib_eq closed_h_def)

lemma Connect_twice_loses:
  assumes "conn_inv env c" and "m_bConnected c" and "fst (Connect env h u p d n cs c)"
  shows "handles env (calls (Close (snd (Connect env h u p d n cs c)))) =
    Suc (closes (calls (Close (snd (Connect env h u p d n cs c)))))"
proof -
  define c1 where "c1 = c\<lparr>m_strDbHost := h, m_strDbUserId := u, m_strDbPassWord := p, m_strDbName := d, m_iPort := n\<rparr>"
  define c2 where "c2 = (case cs of None \<Rightarrow> c1 | Some s \<Rightarrow> c1\<lparr>m_strCharacterSet := s\<rparr>)"
  have c2: "calls c2 = calls c" by (simp add: c2_def c1_def split: option.split)
  have C: "Connect env h u p d n cs c = Connect0 env c2" by (simp add: Connect_def c1_def [symmetric] c2_def [symmetric])
  then have "Connect0 env c2 = (True, snd (Connect0 env c2))" using assms(3) by (simp add: prod_eq_iff)
  from Connect0_handles [OF this] have "handles env (calls (snd (Connect0 env c2))) = Suc (handles env (calls c))"
    "closes (calls (snd (Connect0 env c2))) = closes (calls c)" "m_bConnected (snd (Connect0 env c2))" using c2 by simp_all
  moreover have "handles env (calls c) = Suc (closes (calls c))"
    using handles_closes [of env "calls c"] assms(1,2) by (simp add: conn_inv_def conn_st_def proto_def)
  ultimately show ?thesis using Close_handles [of "snd (Connect0 env c2)" env] by (simp add: C)
qed

subsection \<open>A server to run against\<close>

text \<open>A concrete library for examples: it accepts everything; a statement has two parameters
  and the handle 7; a result set has the one row \<open>42\<close>.\<close>

fun demo_rc :: "mysql_call list \<Rightarrow> int" where
  "demo_rc (C_init # _) = 1"
| "demo_rc (C_real_connect _ _ _ _ _ # _) = 1"
| "demo_rc (C_use_result # _) = 1"
| "demo_rc (S_init # _) = 7"
| "demo_rc (S_param_count _ # _) = 2"
| "demo_rc (H_malloc _ # _) = 1"
| "demo_rc _ = 0"

fun demo_rows :: "mysql_call list \<Rightarrow> mysql_row option" where
  "demo_rows (C_fetch_row # C_use_result # _) = Some [Some ''42'']"
| "demo_rows _ = None"

definition demo_db :: libmysql where
  "demo_db = \<lparr>rc = demo_rc, rtext = (\<lambda>_. []), rows = demo_rows, cell = (\<lambda>_. None)\<rparr>"

fun api_run :: "libmysql \<Rightarrow> api list \<Rightarrow> conn \<Rightarrow> conn option" where
  "api_run env [] c = Some c"
| "api_run env (a # as) c =
     (if proper a c then case api_step env a c of None \<Rightarrow> None | Some c' \<Rightarrow> api_run env as c' else None)"

lemma reach_run: "api_run env as c = Some c' \<Longrightarrow> reach env c \<Longrightarrow> reach env c'"
  by (induction env as c rule: api_run.induct) (auto split: option.splits if_splits intro: reach_step)

definition demo_conn :: conn where
  "demo_conn = the (api_run demo_db [A_Connect ''db'' ''u'' ''p'' ''test'' 3306 (Some ''utf8''),
     A_Execute ''delete from t'', A_QueryOne ''select a'', A_Prepare ''insert into t values(?,?)'',
     A_Bind 0 ''x''] CDbMySQLConnection_new)"

lemma demo_run: "api_run demo_db [A_Connect ''db'' ''u'' ''p'' ''test'' 3306 (Some ''utf8''),
     A_Execute ''delete from t'', A_QueryOne ''select a'', A_Prepare ''insert into t values(?,?)'',
     A_Bind 0 ''x''] CDbMySQLConnection_new = Some demo_conn"
  unfolding demo_conn_def by code_simp

lemma demo_reach: "reach demo_db demo_conn"
  by (rule reach_run [OF demo_run reach_new])

subsection \<open>Properties\<close>



text \<open>C30: \<open>Close\<close> returns the object to rest: on every run in which \<open>Connect\<close> is only called on objects that
  are not connected (and \<open>GetError\<close> on connected ones), the handle, every statement, every result
  set and every heap block are released, also after failed prepares and lost connections, and as many handles were
  closed as were initialised. A second successful \<open>Connect\<close> without a \<open>Close\<close> loses a handle: after the next
  \<open>Close\<close> one handle more was initialised than closed.\<close>

theorem close_releases_all:
  assumes "reach env c"
  shows "p_ok (pst env (calls (Close c))) \<and> p_handle (pst env (calls (Close c))) \<in> {Uninit, Closed} \<and>
    p_stmts (pst env (calls (Close c))) = [] \<and> \<not> p_res (pst env (calls (Close c))) \<and>
    p_heap (pst env (calls (Close c))) = 0 \<and> m_psttStmt (Close c) = 0 \<and> \<not> m_bConnected (Close c) \<and>
    handles env (calls (Close c)) = closes (calls (Close c)) \<and>
    (m_bConnected c \<longrightarrow> fst (Connect env h u p d n cs c) \<longrightarrow>
       handles env (calls (Close (snd (Connect env h u p d n cs c)))) = Suc (closes (calls (Close (snd (Connect env h u p d n cs c))))))"
proof -
  have i: "conn_inv env c" using assms by (rule reach_inv)
  then have "p_ok (pst env (calls (Close c))) \<and> p_handle (pst env (calls (Close c))) \<in> {Uninit, Closed} \<and>
    p_stmts (pst env (calls (Close c))) = [] \<and> \<not> p_res (pst env (calls (Close c))) \<and>
    p_heap (pst env (calls (Close c))) = 0 \<and> m_psttStmt (Close c) = 0 \<and> \<not> m_bConnected (Close c)"
    using Close_st [of env 0 c] by (auto simp: conn_inv_def conn_st_def proto_def closed_h_def split: if_splits)
  moreover from this have "handles env (calls (Close c)) = closes (calls (Close c))" using handles_closes [of env "calls (Close c)"] by auto
  ultimately show ?thesis using Connect_twice_loses [OF i] by blast
qed

theorem close_releases_all_witness:
  "reach demo_db demo_conn \<and> m_bConnected demo_conn \<and> p_stmts (pst demo_db (calls (Close demo_conn))) = [] \<and>
   closes (calls (Close (snd (Connect demo_db ''db'' ''u'' ''p'' ''test'' 3306 None demo_conn)))) = 1 \<and>
   handles demo_db (calls (Close (snd (Connect demo_db ''db'' ''u'' ''p'' ''test'' 3306 None demo_conn)))) = 2"
proof -
  have "m_bConnected demo_conn" "fst (Connect demo_db ''db'' ''u'' ''p'' ''test'' 3306 None demo_conn)"
    "closes (calls (Close (snd (Connect demo_db ''db'' ''u'' ''p'' ''test'' 3306 None demo_conn)))) = 1"
    by code_simp+
  with close_releases_all [OF demo_reach, of "''db''" "''u''" "''p''" "''test''" 3306 None] demo_reach show ?thesis by simp
qed

text \<open>C11: \<open>Execute\<close> of a plain statement returns true exactly if the server acknowledged
  the statement, which then happened exactly once; it returns false only if no attempt was
  acknowledged; and it makes at most two attempts, whatever the server answers.\<close>

theorem execute_acknowledged_once:
  assumes "Execute env q c = (b, c')"
  shows "acks env q (calls c') = acks env q (calls c) + of_bool b \<and>
    tries q (calls c') \<le> tries q (calls c) + 2"
  using Query0_acks [of env q c b c'] assms by (simp add: Execute_def)

theorem execute_acknowledged_once_witness:
  "fst (Execute demo_db ''delete from t'' demo_conn) \<and>
   acks demo_db ''delete from t'' (calls (snd (Execute demo_db ''delete from t'' demo_conn))) = 2"
proof -
  have "fst (Execute demo_db ''delete from t'' demo_conn)" "acks demo_db ''delete from t'' (calls demo_conn) = 1"
    by code_simp+
  with execute_acknowledged_once [of demo_db "''delete from t''" demo_conn, OF surjective_pairing]
  show ?thesis by simp
qed

text \<open>C3: When the list form of \<open>Execute\<close> returns true, one statement was prepared from the
  SQL text, the arguments were bound to its first parameters in their order and unchanged
  (as C strings), the remaining parameters were left unset, the execution succeeded, and
  the statement was closed.\<close>

theorem execute_list_delivers:
  assumes "reach env c" "Execute_list env q args c = (True, c')"
  shows "\<exists>k\<ge>length args. executed env q k (map (Some \<circ> cstr) args @ replicate (k - length args) None) (calls c') \<and>
    m_psttStmt c' = 0"
proof -
  from assms(2) obtain c1 c2 where "Prepare env q c = (True, c1)" "Bind_list 0 args c1 = (True, c2)"
    "Execute_bound env (True, c2) = (True, c')"
    by (cases "Prepare env q c"; cases "Bind_list 0 args (snd (Prepare env q c))")
      (auto simp: Execute_list_def Execute_bound_def split: if_splits)
  then show ?thesis using Execute_bound_executed reach_inv [OF assms(1)] by blast
qed

theorem execute_list_delivers_witness:
  "\<exists>k. executed demo_db ''insert into t values(?,?)'' k (map (Some \<circ> cstr) [''a'', ''b''] @ replicate (k - 2) None)
     (calls (snd (Execute_list demo_db ''insert into t values(?,?)'' [''a'', ''b''] demo_conn)))"
proof -
  have "fst (Execute_list demo_db ''insert into t values(?,?)'' [''a'', ''b''] demo_conn)" by code_simp
  then have "Execute_list demo_db ''insert into t values(?,?)'' [''a'', ''b''] demo_conn =
      (True, snd (Execute_list demo_db ''insert into t values(?,?)'' [''a'', ''b''] demo_conn))"
    by (simp add: prod_eq_iff)
  from execute_list_delivers [OF demo_reach this] show ?thesis by (simp add: numeral_2_eq_2) blast
qed

text \<open>The variadic \<open>Execute\<close>, when it returns true, received \<open>iArgCount\<close> arguments,
  none of them NULL, and delivered them in order.\<close>

theorem execute_args_delivers:
  assumes "reach env c" "Execute_args env q n args c = Some (True, c')"
    and "\<forall>s. Some s \<in> set args \<longrightarrow> NUL \<notin> set s"
  shows "\<exists>ss k. take (nat n) args = map Some ss \<and> length ss = nat n \<and> nat n \<le> k \<and>
    executed env q k (map Some ss @ replicate (k - nat n) None) (calls c')"
proof -
  from assms(2) obtain c1 c2 where P: "Prepare env q c = (True, c1)" "Bind_args (nat n) 0 args c1 = Some (True, c2)"
    "Execute_bound env (True, c2) = (True, c')"
    by (auto simp: Execute_args_def Execute_bound_def split: prod.splits if_splits)
  from Bind_args_list [OF P(2)] obtain ss where ss: "take (nat n) args = map Some ss" "length ss = nat n"
    "(\<forall>s\<in>set ss. NUL \<notin> set s) \<longrightarrow> Bind_list 0 ss c1 = (True, c2)" by blast
  have nn: "\<forall>s\<in>set ss. NUL \<notin> set s"
    using assms(3) ss(1) by (metis image_eqI in_set_takeD list.set_map)
  then have "map (Some \<circ> cstr) ss = map Some ss" by simp
  with Execute_bound_executed [OF P(1) reach_inv [OF assms(1)] _ P(3), of ss] ss nn show ?thesis by auto
qed

theorem execute_args_delivers_witness:
  "\<exists>ss k. map Some ss = [Some ''a'', Some ''b''] \<and> executed demo_db ''insert into t values(?,?)'' k
     (map Some ss @ replicate (k - 2) None)
     (calls (snd (the (Execute_args demo_db ''insert into t values(?,?)'' 2 [Some ''a'', Some ''b''] demo_conn))))"
proof -
  let ?x = "Execute_args demo_db ''insert into t values(?,?)'' 2 [Some ''a'', Some ''b''] demo_conn"
  have "map_option fst ?x = Some True" by code_simp
  then have "?x = Some (True, snd (the ?x))" by (cases ?x) (auto simp: prod_eq_iff)
  moreover have "\<forall>s. Some s \<in> set [Some ''a'', Some ''b''] \<longrightarrow> NUL \<notin> set s" by simp
  ultimately obtain ss k where
    "take (nat 2) [Some ''a'', Some ''b''] = map Some ss" "executed demo_db ''insert into t values(?,?)'' k
       (map Some ss @ replicate (k - nat 2) None) (calls (snd (the ?x)))"
    using execute_args_delivers [OF demo_reach] by blast
  then show ?thesis by (intro exI [of _ ss] exI [of _ k]) (simp add: numeral_2_eq_2)
qed

text \<open>C31: If the statement is accepted and the server serves the rows \<open>rs\<close>, \<open>Query\<close> returns,
  with true, after handing the callback the rows in order up to the first that it refuses.\<close>

theorem query_feeds_rows:
  assumes "Query0 env q c = (True, c1)" "rc env (C_use_result # calls c1) \<noteq> 0"
    and "serves env (C_use_result # calls c1) rs"
  shows "\<exists>c'. Query env q d F c = Some ((True, feed F d rs), c')"
  using assms Fetch_loop_serves [of env "libv C_use_result c1" rs F d]
  by (auto simp: Query_def lib_eq)

theorem query_feeds_rows_witness:
  "\<exists>c'. Query demo_db ''select a'' 5 count_rows demo_conn = Some ((True, 4), c')"
proof -
  let ?q = "Query0 demo_db ''select a'' demo_conn"
  have "fst ?q" by code_simp
  then have 1: "?q = (True, snd ?q)" by (simp add: prod_eq_iff)
  have 2: "rc demo_db (C_use_result # calls (snd ?q)) \<noteq> 0" by (simp add: demo_db_def)
  have 3: "serves demo_db (C_use_result # calls (snd ?q)) [[Some ''42'']]" by (simp add: demo_db_def)
  from query_feeds_rows [OF 1 2 3, of 5 count_rows] show ?thesis by (simp add: count_rows_def)
qed

text \<open>\<open>QueryOne\<close> into an \<open>int\<close> reads the exact value that the server prints for the
  first column of the first row.\<close>

theorem query_one_value:
  assumes "Query0 env q c = (True, c1)" "rc env (C_use_result # calls c1) \<noteq> 0"
    and "rows env (C_fetch_row # C_use_result # calls c1) = Some (Some (show_int x) # r)" "in_i32 x"
  shows "fst (QueryOne_int env q c) = (True, x)"
  using assms by (simp add: QueryOne_int_def QueryOne_string_def lib_eq first_cell_def atoi_show_int)

theorem query_one_value_witness:
  "fst (QueryOne_int demo_db ''select a'' demo_conn) = (True, 42)"
proof -
  let ?q = "Query0 demo_db ''select a'' demo_conn"
  have "fst ?q" by code_simp
  then have 1: "?q = (True, snd ?q)" by (simp add: prod_eq_iff)
  have 2: "rc demo_db (C_use_result # calls (snd ?q)) \<noteq> 0" by (simp add: demo_db_def)
  have "show_int 42 = ''42''" by code_simp
  then have 3: "rows demo_db (C_fetch_row # C_use_result # calls (snd ?q)) = Some (Some (show_int 42) # [])"
    by (simp add: demo_db_def)
  show ?thesis by (rule query_one_value [OF 1 2 3]) (simp add: in_i32_def)
qed

end
