(* ===== verification/DbQueue.thy ===== *)
theory DbQueue
  imports CRuntime LogLevel
begin

text \<open>
  DbMySQLPool/DbMySQLQueue.cpp: the bounded queue of SQL statements that the worker threads
  drain. Each operation is one critical section of \<open>m_clsMutex\<close>; \<open>signals\<close> counts the
  \<open>signal()\<close> and \<open>broadcasts\<close> the \<open>broadcast()\<close> calls. The interface that the workers rely
  on is the locale \<open>fifo\<close>, interpreted on this queue.
\<close>

subsection \<open>The queue\<close>

record CDbMySQLQueueData =
  m_strSQL :: string
  m_clsArgList :: "string list"

record CDbMySQLQueue =
  m_clsList :: "CDbMySQLQueueData list"
  m_iMaxSize :: int
  signals :: nat
  broadcasts :: nat

definition CDbMySQLQueue_new :: CDbMySQLQueue where
  "CDbMySQLQueue_new = \<lparr>m_clsList = [], m_iMaxSize = 0, signals = 0, broadcasts = 0\<rparr>"

definition dropped_log :: "CDbMySQLQueue \<Rightarrow> cstring \<Rightarrow> log_event" where
  "dropped_log q pszSQL = (LOG_ERROR, ''Insert queue size('' @ show_int (int (length (m_clsList q))) @
     '') >= max size('' @ show_int (m_iMaxSize q) @ '') sql('' @ pszSQL @ '') is dropped'')"

definition Insert_data :: "CDbMySQLQueueData \<Rightarrow> cstring \<Rightarrow> CDbMySQLQueue \<Rightarrow> (bool \<times> log_event list) \<times> CDbMySQLQueue" where
  "Insert_data clsData pszSQL q =
     (if m_iMaxSize q \<noteq> 0 \<and> i32 (int (length (m_clsList q))) \<ge> m_iMaxSize q
      then ((False, [dropped_log q pszSQL]), q)
      else let q = q\<lparr>m_clsList := m_clsList q @ [clsData]\<rparr>
           in ((True, []), if length (m_clsList q) = 1 then q\<lparr>signals := signals q + 1\<rparr> else q))"

definition Queue_Insert :: "cstring \<Rightarrow> CDbMySQLQueue \<Rightarrow> (bool \<times> log_event list) \<times> CDbMySQLQueue" where
  "Queue_Insert pszSQL q = Insert_data \<lparr>m_strSQL = pszSQL, m_clsArgList = []\<rparr> pszSQL q"

text \<open>The loop over the variadic arguments: \<open>None\<close> is the read of an argument that was not
  passed, which is undefined; \<open>Some (Inl i)\<close> the NULL argument \<open>i\<close>.\<close>

fun arg_list :: "nat \<Rightarrow> nat \<Rightarrow> cstring option list \<Rightarrow> (nat + string list) option" where
  "arg_list 0 i args = Some (Inr [])"
| "arg_list (Suc n) i [] = None"
| "arg_list (Suc n) i (None # args) = Some (Inl i)"
| "arg_list (Suc n) i (Some a # args) = map_option (map_sum id ((#) a)) (arg_list n (Suc i) args)"

definition Queue_Insert_args ::
    "cstring \<Rightarrow> int \<Rightarrow> cstring option list \<Rightarrow> CDbMySQLQueue \<Rightarrow> ((bool \<times> log_event list) \<times> CDbMySQLQueue) option" where
  "Queue_Insert_args pszSQL iArgCount args q =
     map_option (\<lambda>r. case r of
         Inl i \<Rightarrow> ((False, [(LOG_ERROR, ''Insert arg('' @ show_int (int i) @ '') is NULL'')]), q)
       | Inr l \<Rightarrow> Insert_data \<lparr>m_strSQL = pszSQL, m_clsArgList = l\<rparr> pszSQL q)
       (arg_list (nat iArgCount) 0 args)"

text \<open>\<open>Select( clsData, bWait )\<close>. \<open>woken\<close> is the queue at the moment \<open>wait()\<close> returns: other
  threads run while this one waits without the mutex. One wait, whatever it finds.\<close>

definition Queue_Select :: "bool \<Rightarrow> CDbMySQLQueue \<Rightarrow> CDbMySQLQueue \<Rightarrow> CDbMySQLQueueData option \<times> CDbMySQLQueue" where
  "Queue_Select bWait woken q =
     (let q = (if bWait \<and> m_clsList q = [] then woken else q)
      in case m_clsList q of [] \<Rightarrow> (None, q) | d # l \<Rightarrow> (Some d, q\<lparr>m_clsList := l\<rparr>))"

definition GetSize :: "CDbMySQLQueue \<Rightarrow> int" where
  "GetSize q = i32 (int (length (m_clsList q)))"

definition Signal :: "CDbMySQLQueue \<Rightarrow> CDbMySQLQueue" where
  "Signal q = q\<lparr>broadcasts := broadcasts q + 1\<rparr>"

definition SetMaxSize :: "int \<Rightarrow> CDbMySQLQueue \<Rightarrow> CDbMySQLQueue" where
  "SetMaxSize iMaxSize q = q\<lparr>m_iMaxSize := iMaxSize\<rparr>"

subsection \<open>The interface of a queue\<close>

locale fifo =
  fixes enq :: "'a \<Rightarrow> 'q \<Rightarrow> bool \<times> 'q"
    and deq :: "'q \<Rightarrow> 'a option \<times> 'q"
    and items :: "'q \<Rightarrow> 'a list"
  assumes enq_accept: "enq x q = (True, q') \<Longrightarrow> items q' = items q @ [x]"
    and enq_refuse: "enq x q = (False, q') \<Longrightarrow> items q' = items q"
    and deq_none: "deq q = (None, q') \<Longrightarrow> items q = [] \<and> items q' = []"
    and deq_some: "deq q = (Some x, q') \<Longrightarrow> items q = x # items q'"
begin

text \<open>Producers and consumers in any order: \<open>Some x\<close> inserts, \<open>None\<close> takes.\<close>

fun run :: "'a option list \<Rightarrow> 'q \<Rightarrow> ('a list \<times> 'a list) \<times> 'q" where
  "run [] q = (([], []), q)"
| "run (Some x # cs) q =
     (let (b, q) = enq x q; ((ins, outs), q) = run cs q in ((if b then x # ins else ins, outs), q))"
| "run (None # cs) q =
     (let (r, q) = deq q; ((ins, outs), q) = run cs q
      in ((ins, case r of None \<Rightarrow> outs | Some x \<Rightarrow> x # outs), q))"

lemma run_fifo: "run cs q = ((ins, outs), q') \<Longrightarrow> items q @ ins = outs @ items q'"
proof (induction cs q arbitrary: ins outs q' rule: run.induct)
  case (2 x cs q)
  obtain b q1 where e: "enq x q = (b, q1)" by fastforce
  obtain i o' q2 where r: "run cs q1 = ((i, o'), q2)" by (metis surj_pair)
  from "2.IH" [OF e [symmetric] refl r] have "items q1 @ i = o' @ items q2" .
  with e r "2.prems" show ?case
    by (cases b) (auto dest: enq_accept enq_refuse)
next
  case (3 cs q)
  obtain r1 q1 where d: "deq q = (r1, q1)" by fastforce
  obtain i o' q2 where r: "run cs q1 = ((i, o'), q2)" by (metis surj_pair)
  from "3.IH" [OF d [symmetric] refl r] have "items q1 @ i = o' @ items q2" .
  with d r "3.prems" show ?case
    by (cases r1) (auto dest: deq_none deq_some)
qed simp

text \<open>Draining: as many takes as there are items.\<close>

fun drain :: "nat \<Rightarrow> 'q \<Rightarrow> 'a list \<times> 'q" where
  "drain 0 q = ([], q)"
| "drain (Suc n) q = (case deq q of (None, q') \<Rightarrow> ([], q')
     | (Some x, q') \<Rightarrow> (let (xs, q'') = drain n q' in (x # xs, q'')))"

lemma drain_all: "length (items q) \<le> n \<Longrightarrow> fst (drain n q) = items q \<and> items (snd (drain n q)) = []"
proof (induction n arbitrary: q)
  case (Suc n)
  obtain r q' where d: "deq q = (r, q')" by fastforce
  show ?case
  proof (cases r)
    case None
    with d deq_none [of q q'] show ?thesis by simp
  next
    case (Some x)
    with d deq_some [of q x q'] have "items q = x # items q'" by simp
    with Suc.IH [of q'] Suc.prems d Some show ?thesis by (auto simp: case_prod_beta)
  qed
qed simp

end

text \<open>A queue with a bound that both operations keep.\<close>

locale bounded_fifo = fifo +
  fixes within :: "'b \<Rightarrow> bool"
  assumes enq_within: "within q \<Longrightarrow> within (snd (enq x q))"
    and deq_within: "within q \<Longrightarrow> within (snd (deq q))"
begin

lemma run_within: "within q \<Longrightarrow> within (snd (run cs q))"
proof (induction cs q rule: run.induct)
  case (2 x cs q)
  have "within (snd (run cs (snd (enq x q))))"
    by (rule "2.IH" [of "enq x q" "fst (enq x q)"]) (use "2.prems" enq_within in simp_all)
  then show ?case by (simp add: case_prod_beta Let_def)
next
  case (3 cs q)
  have "within (snd (run cs (snd (deq q))))"
    by (rule "3.IH" [of "deq q" "fst (deq q)"]) (use "3.prems" deq_within in simp_all)
  then show ?case by (simp add: case_prod_beta Let_def)
qed simp

end

subsection \<open>The SQL queue provides it\<close>

definition enq_sql :: "CDbMySQLQueueData \<Rightarrow> CDbMySQLQueue \<Rightarrow> bool \<times> CDbMySQLQueue" where
  "enq_sql d q = (let ((b, _), q') = Insert_data d (m_strSQL d) q in (b, q'))"

definition deq_sql :: "CDbMySQLQueue \<Rightarrow> CDbMySQLQueueData option \<times> CDbMySQLQueue" where
  "deq_sql q = Queue_Select False q q"

text \<open>The bound: a queue within its limit stays within it.\<close>

definition bounded :: "CDbMySQLQueue \<Rightarrow> bool" where
  "bounded q \<longleftrightarrow> m_iMaxSize q = 0 \<or> int (length (m_clsList q)) \<le> max 0 (m_iMaxSize q)"

lemma Insert_data_bounded:
  assumes "bounded q" "Insert_data d s q = (r, q')" "m_iMaxSize q < 2 ^ 31"
  shows "bounded q' \<and> m_iMaxSize q' = m_iMaxSize q"
proof (cases "m_iMaxSize q = 0")
  case True
  with assms show ?thesis by (auto simp: bounded_def Insert_data_def Let_def split: if_splits)
next
  case False
  with assms have "i32 (int (length (m_clsList q))) = int (length (m_clsList q))"
    by (intro i32_nat_id) (auto simp: bounded_def)
  with assms False show ?thesis by (auto simp: bounded_def Insert_data_def Let_def split: if_splits)
qed

lemma Queue_Select_bounded: "bounded q \<Longrightarrow> bounded (snd (Queue_Select False w q))"
  by (auto simp: bounded_def Queue_Select_def split: list.splits)

lemma enq_sql_bounded:
  assumes "bounded q \<and> m_iMaxSize q < 2 ^ 31"
  shows "bounded (snd (enq_sql d q)) \<and> m_iMaxSize (snd (enq_sql d q)) < 2 ^ 31"
  using assms Insert_data_bounded [of q d "m_strSQL d" _ "snd (enq_sql d q)"] by (fastforce simp: enq_sql_def case_prod_beta prod_eq_iff)

interpretation sql: bounded_fifo enq_sql deq_sql m_clsList "\<lambda>q. bounded q \<and> m_iMaxSize q < 2 ^ 31"
proof unfold_locales
  fix q d
  show "bounded q \<and> m_iMaxSize q < 2 ^ 31 \<Longrightarrow> bounded (snd (enq_sql d q)) \<and> m_iMaxSize (snd (enq_sql d q)) < 2 ^ 31"
    by (rule enq_sql_bounded)
  show "bounded q \<and> m_iMaxSize q < 2 ^ 31 \<Longrightarrow> bounded (snd (deq_sql q)) \<and> m_iMaxSize (snd (deq_sql q)) < 2 ^ 31"
    using Queue_Select_bounded [of q q] by (auto simp: deq_sql_def Queue_Select_def split: list.splits)
qed (auto simp: enq_sql_def deq_sql_def Insert_data_def Queue_Select_def Let_def split: if_splits list.splits)

lemma Queue_Insert_enq: "Queue_Insert s q = ((b, l), q') \<Longrightarrow>
    enq_sql \<lparr>m_strSQL = s, m_clsArgList = []\<rparr> q = (b, q')"
  by (simp add: Queue_Insert_def enq_sql_def)

lemma arg_list_Some: "arg_list n i args = Some (Inr l) \<longleftrightarrow> n \<le> length args \<and> take n args = map Some l"
proof (induction n i args arbitrary: l rule: arg_list.induct)
  case (4 n i a args)
  have "arg_list (Suc n) i (Some a # args) = Some (Inr l) \<longleftrightarrow> (\<exists>l'. l = a # l' \<and> arg_list n (Suc i) args = Some (Inr l'))"
    by (cases "arg_list n (Suc i) args") (auto simp: map_sum_def split: sum.splits)
  with 4 show ?case by (auto simp: Cons_eq_map_conv)
qed auto

lemma Insert_args_enq:
  assumes "Queue_Insert_args s n args q = Some ((True, l), q')"
  shows "\<exists>as. take (nat n) args = map Some as \<and> length as = nat n \<and> m_clsList q' = m_clsList q @ [\<lparr>m_strSQL = s, m_clsArgList = as\<rparr>]"
proof -
  from assms obtain as where a: "arg_list (nat n) 0 args = Some (Inr as)"
    "Insert_data \<lparr>m_strSQL = s, m_clsArgList = as\<rparr> s q = ((True, l), q')"
    by (cases "arg_list (nat n) 0 args"; cases "the (arg_list (nat n) 0 args)") (auto simp: Queue_Insert_args_def)
  from a(1) have t: "take (nat n) args = map Some as" "nat n \<le> length args" by (simp_all add: arg_list_Some)
  then have "length as = nat n" by (metis length_map length_take min_absorb2)
  with a(2) t show ?thesis by (auto simp: Insert_data_def Let_def split: if_splits)
qed

subsection \<open>Properties\<close>

text \<open>Any interleaving of producers and consumers, each call one critical section.\<close>

fun queue_run :: "CDbMySQLQueueData option list \<Rightarrow> CDbMySQLQueue \<Rightarrow>
    (CDbMySQLQueueData list \<times> CDbMySQLQueueData list) \<times> CDbMySQLQueue" where
  "queue_run [] q = (([], []), q)"
| "queue_run (Some d # cs) q =
     (let ((b, _), q) = Insert_data d (m_strSQL d) q; ((ins, outs), q) = queue_run cs q
      in ((if b then d # ins else ins, outs), q))"
| "queue_run (None # cs) q =
     (let (r, q) = Queue_Select False q q; ((ins, outs), q) = queue_run cs q
      in ((ins, case r of None \<Rightarrow> outs | Some d \<Rightarrow> d # outs), q))"

lemma queue_run_Some: "queue_run (Some d # cs) q =
    (let (b, q) = enq_sql d q; ((ins, outs), q) = queue_run cs q in ((if b then d # ins else ins, outs), q))"
  by (simp add: enq_sql_def case_prod_beta)

lemma queue_run_None: "queue_run (None # cs) q =
    (let (r, q) = deq_sql q; ((ins, outs), q) = queue_run cs q
     in ((ins, case r of None \<Rightarrow> outs | Some d \<Rightarrow> d # outs), q))"
  by (simp add: deq_sql_def)

lemma queue_run_fifo_run: "queue_run cs q = sql.run cs q"
proof (induction cs arbitrary: q)
  case (Cons c cs)
  then show ?case
    by (cases c) (simp_all only: queue_run_Some queue_run_None sql.run.simps)
qed simp

lemma queue_run_bounded:
  "bounded q \<Longrightarrow> m_iMaxSize q < 2 ^ 31 \<Longrightarrow> bounded (snd (queue_run cs q))"
  using sql.run_within [of q cs] by (simp add: queue_run_fifo_run)

text \<open>The queue hands out the accepted statements in the order in which they were accepted,
  none lost and none twice, for every interleaving of inserting and taking threads; what is
  accepted and not yet handed out is what the queue holds.\<close>

theorem queue_is_fifo:
  assumes "queue_run cs CDbMySQLQueue_new = ((ins, outs), q')"
  shows "ins = outs @ m_clsList q'"
  using assms sql.run_fifo [of cs CDbMySQLQueue_new ins outs q']
  by (simp add: queue_run_fifo_run CDbMySQLQueue_new_def)

theorem queue_is_fifo_witness:
  "let cs = [Some \<lparr>m_strSQL = ''a'', m_clsArgList = []\<rparr>, Some \<lparr>m_strSQL = ''b'', m_clsArgList = [''x'']\<rparr>, None];
       r = queue_run cs CDbMySQLQueue_new
   in fst (fst r) = snd (fst r) @ m_clsList (snd r) \<and> length (fst (fst r)) = 2 \<and> length (snd (fst r)) = 1"
proof -
  let ?cs = "[Some \<lparr>m_strSQL = ''a'', m_clsArgList = []\<rparr>, Some \<lparr>m_strSQL = ''b'', m_clsArgList = [''x'']\<rparr>, None]"
  have "length (fst (fst (queue_run ?cs CDbMySQLQueue_new))) = 2 \<and> length (snd (fst (queue_run ?cs CDbMySQLQueue_new))) = 1"
    by code_simp
  moreover have "fst (fst (queue_run ?cs CDbMySQLQueue_new)) =
      snd (fst (queue_run ?cs CDbMySQLQueue_new)) @ m_clsList (snd (queue_run ?cs CDbMySQLQueue_new))"
    by (rule queue_is_fifo) (simp only: prod.collapse)
  ultimately show ?thesis unfolding Let_def by blast
qed

text \<open>C35: A queue whose maximum is set to \<open>n > 0\<close> never holds more than \<open>n\<close> statements, for every
  interleaving; an insertion into a full queue returns false, logs one error and changes
  nothing.\<close>

theorem queue_respects_max:
  assumes "0 < n" "n < 2 ^ 31" "q = snd (queue_run cs (SetMaxSize n CDbMySQLQueue_new))"
  shows "int (length (m_clsList q)) \<le> n \<and>
    (int (length (m_clsList q)) = n \<longrightarrow> Queue_Insert s q = ((False, [dropped_log q s]), q))"
proof -
  let ?q0 = "SetMaxSize n CDbMySQLQueue_new"
  have "bounded ?q0" "m_iMaxSize ?q0 = n" using assms by (simp_all add: bounded_def SetMaxSize_def CDbMySQLQueue_new_def)
  moreover have "m_iMaxSize (snd (queue_run cs r)) = m_iMaxSize r" for r
    by (induction cs r rule: queue_run.induct)
      (auto simp: Insert_data_def Queue_Select_def Let_def case_prod_beta split: list.splits)
  ultimately have "bounded q" "m_iMaxSize q = n" using assms queue_run_bounded [of ?q0 cs] by simp_all
  moreover from this have "i32 (int (length (m_clsList q))) = int (length (m_clsList q))"
    using assms(1,2) by (intro i32_nat_id) (auto simp: bounded_def)
  moreover have "i32 n = n" using assms(1,2) by (intro i32_id) (simp add: in_i32_def)
  ultimately show ?thesis using assms(1,2) by (simp add: bounded_def Queue_Insert_def Insert_data_def)
qed

theorem queue_respects_max_witness:
  "let q = snd (queue_run [Some \<lparr>m_strSQL = ''a'', m_clsArgList = []\<rparr>] (SetMaxSize 1 CDbMySQLQueue_new))
   in int (length (m_clsList q)) = 1 \<and> fst (fst (Queue_Insert ''b'' q)) = False"
proof -
  let ?q = "snd (queue_run [Some \<lparr>m_strSQL = ''a'', m_clsArgList = []\<rparr>] (SetMaxSize 1 CDbMySQLQueue_new))"
  have "int (length (m_clsList ?q)) = 1" by code_simp
  with queue_respects_max [of 1 ?q, OF _ _ refl, of "''b''"] show ?thesis unfolding Let_def by auto
qed

text \<open>The variadic insertion that returns true was given \<open>iArgCount\<close> arguments, none NULL,
  and appends exactly the statement with these arguments in order.\<close>

theorem queue_insert_args:
  assumes "Queue_Insert_args s n args q = Some ((True, l), q')"
  shows "\<exists>as. take (nat n) args = map Some as \<and> length as = nat n \<and>
    m_clsList q' = m_clsList q @ [\<lparr>m_strSQL = s, m_clsArgList = as\<rparr>]"
  using Insert_args_enq [OF assms] .

theorem queue_insert_args_witness:
  "\<exists>as. [Some ''x'', Some ''y''] = map Some as \<and>
    m_clsList (snd (the (Queue_Insert_args ''q'' 2 [Some ''x'', Some ''y''] CDbMySQLQueue_new))) =
    [\<lparr>m_strSQL = ''q'', m_clsArgList = as\<rparr>]"
proof -
  let ?r = "Queue_Insert_args ''q'' 2 [Some ''x'', Some ''y''] CDbMySQLQueue_new"
  have "map_option fst ?r = Some (True, [])" by code_simp
  then have "?r = Some ((True, []), snd (the ?r))" by (cases ?r) (auto simp: prod_eq_iff)
  from queue_insert_args [OF this] show ?thesis by (auto simp: CDbMySQLQueue_new_def numeral_2_eq_2)
qed

end
