(* ===== verification/StdMap.thy ===== *)
theory StdMap
  imports DbPrelude
begin

text \<open>
  \<open>std::map\<close> as the sources use it: an association list in strictly increasing key order,
  so that iteration from \<open>begin()\<close> to \<open>end()\<close> is the list itself. \<open>insert\<close> leaves an
  existing entry alone; assignment through an iterator is \<open>map_assign\<close>. The interface that
  the clients rely on is the locale \<open>kv_map\<close>, interpreted on this model as \<open>std\<close>.
\<close>

type_synonym ('k, 'v) std_map = "('k \<times> 'v) list"

fun map_insert :: "'k::linorder \<Rightarrow> 'v \<Rightarrow> ('k, 'v) std_map \<Rightarrow> ('k, 'v) std_map" where
  "map_insert k v [] = [(k, v)]"
| "map_insert k v ((k', v') # m) =
     (if k < k' then (k, v) # (k', v') # m
      else if k = k' then (k', v') # m
      else (k', v') # map_insert k v m)"

fun map_assign :: "'k \<Rightarrow> 'v \<Rightarrow> ('k, 'v) std_map \<Rightarrow> ('k, 'v) std_map" where
  "map_assign k v [] = []"
| "map_assign k v ((k', v') # m) =
     (if k = k' then (k', v) # m else (k', v') # map_assign k v m)"

fun map_erase :: "'k \<Rightarrow> ('k, 'v) std_map \<Rightarrow> ('k, 'v) std_map" where
  "map_erase k [] = []"
| "map_erase k ((k', v') # m) = (if k = k' then m else (k', v') # map_erase k m)"

definition map_inv :: "('k::linorder, 'v) std_map \<Rightarrow> bool" where
  "map_inv m \<longleftrightarrow> sorted_wrt (<) (map fst m)"

subsection \<open>The interface\<close>

locale kv_map =
  fixes find :: "'m \<Rightarrow> 'k \<Rightarrow> 'v option"
    and insert :: "'k \<Rightarrow> 'v \<Rightarrow> 'm \<Rightarrow> 'm"
    and assign :: "'k \<Rightarrow> 'v \<Rightarrow> 'm \<Rightarrow> 'm"
    and erase :: "'k \<Rightarrow> 'm \<Rightarrow> 'm"
    and empty :: 'm
    and count :: "'m \<Rightarrow> nat"
    and inv :: "'m \<Rightarrow> bool"
  assumes find_empty: "find empty = Map.empty"
    and find_insert: "inv m \<Longrightarrow> find m k = None \<Longrightarrow> find (insert k v m) = (find m)(k \<mapsto> v)"
    and insert_present: "inv m \<Longrightarrow> find m k \<noteq> None \<Longrightarrow> insert k v m = m"
    and find_assign: "inv m \<Longrightarrow> find m k \<noteq> None \<Longrightarrow> find (assign k v m) = (find m)(k \<mapsto> v)"
    and find_erase: "inv m \<Longrightarrow> find (erase k m) = (find m)(k := None)"
    and count_find: "inv m \<Longrightarrow> count m = card (dom (find m))"
    and inv_empty: "inv empty"
    and inv_insert: "inv m \<Longrightarrow> inv (insert k v m)"
    and inv_assign: "inv m \<Longrightarrow> inv (assign k v m)"
    and inv_erase: "inv m \<Longrightarrow> inv (erase k m)"
begin

text \<open>Insertion when absent, assignment when present: an unconditional update.\<close>

lemma upsert:
  "inv m \<Longrightarrow> find (if find m k = None then insert k v m else assign k v m) = (find m)(k \<mapsto> v)"
  by (simp add: find_insert find_assign)

lemma inv_upsert: "inv m \<Longrightarrow> inv (if find m k = None then insert k v m else assign k v m)"
  by (simp add: inv_insert inv_assign)

lemma find_insert_any:
  "inv m \<Longrightarrow> find (insert k v m) = (case find m k of None \<Rightarrow> (find m)(k \<mapsto> v) | Some _ \<Rightarrow> find m)"
  by (cases "find m k") (auto simp: find_insert insert_present)

lemma erase_absent: "inv m \<Longrightarrow> find m k = None \<Longrightarrow> find (erase k m) = find m"
  by (auto simp: find_erase)

end

subsection \<open>The model provides it\<close>

lemma set_map_insert: "fst ` set (map_insert k v m) = insert k (fst ` set m)"
  by (induction k v m rule: map_insert.induct) auto

lemma map_inv_insert: "map_inv m \<Longrightarrow> map_inv (map_insert k v m)"
proof (induction k v m rule: map_insert.induct)
  case (2 k v k' v' m)
  then show ?case
    using set_map_insert [of k v m] by (auto simp: map_inv_def dest: less_trans)
qed (simp add: map_inv_def)

lemma map_fst_assign [simp]: "map fst (map_assign k v m) = map fst m"
  by (induction k v m rule: map_assign.induct) auto

lemma set_map_erase: "set (map_erase k m) \<subseteq> set m"
  by (induction k m rule: map_erase.induct) auto

lemma map_inv_erase: "map_inv m \<Longrightarrow> map_inv (map_erase k m)"
proof (induction k m rule: map_erase.induct)
  case (2 k k' v' m)
  then show ?case using set_map_erase [of k m] by (auto simp: map_inv_def)
qed (simp add: map_inv_def)

lemma map_inv_distinct: "map_inv m \<Longrightarrow> distinct (map fst m)"
  unfolding map_inv_def by (simp add: strict_sorted_iff)

lemma map_of_head_less:
  "map_inv ((k', v') # m) \<Longrightarrow> k < k' \<Longrightarrow> map_of m k = None"
  by (force simp: map_inv_def map_of_eq_None_iff)

lemma map_of_map_insert:
  "map_inv m \<Longrightarrow> map_of m k = None \<Longrightarrow> map_of (map_insert k v m) = (map_of m)(k \<mapsto> v)"
  by (induction k v m rule: map_insert.induct) (auto simp: map_inv_def fun_eq_iff split: if_splits)

lemma map_insert_present: "map_inv m \<Longrightarrow> map_of m k \<noteq> None \<Longrightarrow> map_insert k v m = m"
proof (induction k v m rule: map_insert.induct)
  case (2 k v k' v' m)
  then show ?case by (auto simp: map_of_head_less) (auto simp: map_inv_def)
qed simp

lemma map_of_map_assign: "map_of m k \<noteq> None \<Longrightarrow> map_of (map_assign k v m) = (map_of m)(k \<mapsto> v)"
  by (induction k v m rule: map_assign.induct) (auto simp: fun_eq_iff)

lemma map_of_map_erase: "map_inv m \<Longrightarrow> map_of (map_erase k m) = (map_of m)(k := None)"
proof (induction k m rule: map_erase.induct)
  case (2 k k' v' m)
  then have "map_of m k' = None" by (force simp: map_inv_def map_of_eq_None_iff)
  with 2 show ?case by (auto simp: map_inv_def fun_eq_iff)
qed (simp add: fun_eq_iff)

lemma length_map_inv: "map_inv m \<Longrightarrow> length m = card (dom (map_of m))"
  using map_inv_distinct [of m] distinct_card [of "map fst m"]
  by (simp add: dom_map_of_conv_image_fst)

interpretation std: kv_map "map_of :: ('k::linorder \<times> 'v) list \<Rightarrow> 'k \<Rightarrow> 'v option"
    map_insert map_assign map_erase "[]" length map_inv
proof unfold_locales
  fix m :: "('k::linorder \<times> 'v) list" and k v
  show "map_inv m \<Longrightarrow> map_inv (map_assign k v m)" by (simp add: map_inv_def)
qed (auto simp: map_of_map_insert map_insert_present map_of_map_assign map_of_map_erase
    length_map_inv map_inv_insert map_inv_erase, simp add: map_inv_def)

text \<open>Appending at the end: insertion of a key above all others.\<close>

lemma map_insert_append:
  "(\<And>k'. k' \<in> fst ` set m \<Longrightarrow> k' < k) \<Longrightarrow> map_insert k v m = m @ [(k, v)]"
proof (induction k v m rule: map_insert.induct)
  case (2 k v k' v' m)
  from "2.prems" [of k'] have k: "k' < k" by simp
  then have nl: "\<not> k < k'" "k \<noteq> k'" by auto
  have "map_insert k v m = m @ [(k, v)]" using "2.prems" by (intro "2.IH" nl) auto
  with nl show ?case by auto
qed simp

end
