(* ===== verification/DbPool.thy ===== *)
theory DbPool
  imports DbConnectionSpec StdMap
begin

text \<open>
  DbMySQLPool/DbMySQLPool.cpp and SipPlatform/AutoRelease.h: the connection pool. The heap of
  connection objects is a map from pointers (natural numbers, 0 is NULL) to objects; \<open>new\<close>
  returns a pointer that was not used before. \<open>env p\<close> is the client library of the object
  at \<open>p\<close>. Ghost fields: \<open>freed\<close> holds the deleted objects in the state in which they were
  deleted, \<open>fault\<close> records a member call through a pointer to a deleted object.
\<close>

record CDbMySQLPool =
  m_clsStandByList :: "nat list"
  m_clsUseMap :: "(nat, nat) std_map"
  m_bDestroy :: bool
  pool_bSecureAuth :: bool
  pool_iReadTimeout :: int
  pool_iWriteTimeout :: int
  pool_strPluginDir :: string
  heap :: "nat \<Rightarrow> conn option"
  next_ptr :: nat
  freed :: "(nat \<times> conn) list"
  fault :: bool
  pool_logs :: "log_event list"

type_synonym pool = CDbMySQLPool

definition CDbMySQLPool_new :: pool where
  "CDbMySQLPool_new = \<lparr>m_clsStandByList = [], m_clsUseMap = [], m_bDestroy = False,
     pool_bSecureAuth = True, pool_iReadTimeout = 0, pool_iWriteTimeout = 0, pool_strPluginDir = [],
     heap = Map.empty, next_ptr = 1, freed = [], fault = False, pool_logs = []\<rparr>"

subsection \<open>Create\<close>

definition Create_conn :: "libmysql \<Rightarrow> cstring \<Rightarrow> cstring \<Rightarrow> cstring \<Rightarrow> cstring \<Rightarrow> int \<Rightarrow> cstring option \<Rightarrow> pool \<Rightarrow> bool \<times> conn" where
  "Create_conn env pszHost pszUserId pszPassWord pszDbName iPort pszCharacterSet P =
     (let c = SetReadTimeout (pool_iReadTimeout P) CDbMySQLConnection_new;
          c = SetWriteTimeout (pool_iWriteTimeout P) c;
          c = (if pool_strPluginDir P \<noteq> [] then SetPluginDir (cstr (pool_strPluginDir P)) c else c);
          c = SetSecureAuth (pool_bSecureAuth P) c
      in Connect env pszHost pszUserId pszPassWord pszDbName iPort pszCharacterSet c)"

text \<open>The loop of \<open>Create\<close>, with \<open>n\<close> connections to go; false is \<open>bError\<close>.\<close>

fun Create_loop :: "(nat \<Rightarrow> libmysql) \<Rightarrow> cstring \<Rightarrow> cstring \<Rightarrow> cstring \<Rightarrow> cstring \<Rightarrow> int \<Rightarrow> cstring option \<Rightarrow> nat \<Rightarrow> nat \<Rightarrow> pool \<Rightarrow> bool \<times> pool" where
  "Create_loop env host user pw db port cs i 0 P = (True, P)"
| "Create_loop env host user pw db port cs i (Suc n) P =
     (let p = next_ptr P; (b, c) = Create_conn (env p) host user pw db port cs P;
          P = P\<lparr>heap := (heap P)(p \<mapsto> c), next_ptr := next_ptr P + 1\<rparr>
      in if \<not> b then (False, P\<lparr>pool_logs := (LOG_ERROR, ''pclsDB->Connect error - index('' @ show_int (int i) @ '')'') # pool_logs P\<rparr>)
         else Create_loop env host user pw db port cs (Suc i) n (P\<lparr>m_clsStandByList := m_clsStandByList P @ [p]\<rparr>))"

subsection \<open>Destroy\<close>

text \<open>A member call through a pointer.\<close>

definition on_conn :: "nat \<Rightarrow> (conn \<Rightarrow> conn) \<Rightarrow> pool \<Rightarrow> pool" where
  "on_conn p f P = (case heap P p of None \<Rightarrow> P\<lparr>fault := True\<rparr> | Some c \<Rightarrow> P\<lparr>heap := (heap P)(p \<mapsto> f c)\<rparr>)"

definition delete_conn :: "nat \<Rightarrow> pool \<Rightarrow> pool" where
  "delete_conn p P = (case heap P p of None \<Rightarrow> P\<lparr>fault := True\<rparr>
     | Some c \<Rightarrow> P\<lparr>heap := (heap P)(p := None), freed := (p, c) # freed P\<rparr>)"

fun Destroy_loop :: "nat list \<Rightarrow> pool \<Rightarrow> pool" where
  "Destroy_loop [] P = P"
| "Destroy_loop (p # ps) P = Destroy_loop ps (delete_conn p (on_conn p Close P))"

text \<open>The critical section that closes and deletes what stands by.\<close>

definition Destroy_free :: "pool \<Rightarrow> pool" where
  "Destroy_free P = (Destroy_loop (m_clsStandByList P) P)\<lparr>m_clsStandByList := []\<rparr>"

text \<open>The wait for the connections in use, at most 500 rounds. \<open>others i\<close> is what the other
  threads do to the pool during the sleep of round \<open>i\<close>.\<close>

fun Destroy_wait :: "(nat \<Rightarrow> pool \<Rightarrow> pool) \<Rightarrow> nat \<Rightarrow> nat \<Rightarrow> pool \<Rightarrow> pool" where
  "Destroy_wait others i 0 P = P"
| "Destroy_wait others i (Suc n) P =
     (if length (m_clsUseMap P) = 0 then P else Destroy_wait others (Suc i) n (others i P))"

text \<open>The other threads also run between the assignment to \<open>m_bDestroy\<close> and the first look at the used connections
  (\<open>others 500\<close>), between the last look and the critical section that deletes (\<open>others 501\<close>; a \<open>Select\<close> that has
  passed its test of \<open>m_bDestroy\<close> may take a connection there), and before the flag is reset (\<open>others 502\<close>).\<close>

definition Destroy :: "(nat \<Rightarrow> pool \<Rightarrow> pool) \<Rightarrow> pool \<Rightarrow> pool" where
  "Destroy others P =
     (let P = Destroy_wait others 0 500 (others 500 (P\<lparr>m_bDestroy := True\<rparr>));
          P = Destroy_free (others 501 P)
      in (others 502 P)\<lparr>m_bDestroy := False\<rparr>)"

text \<open>Nobody else uses the pool.\<close>

definition alone :: "nat \<Rightarrow> pool \<Rightarrow> pool" where "alone k P = P"

definition Create ::
    "(nat \<Rightarrow> libmysql) \<Rightarrow> (nat \<Rightarrow> pool \<Rightarrow> pool) \<Rightarrow> int \<Rightarrow> cstring \<Rightarrow> cstring \<Rightarrow> cstring \<Rightarrow> cstring \<Rightarrow> int \<Rightarrow> cstring option \<Rightarrow> pool \<Rightarrow> bool \<times> pool" where
  "Create env others iPoolCount pszHost pszUserId pszPassWord pszDbName iPort pszCharacterSet P =
     (if iPoolCount \<le> 0 then (False, P)
      else let (b, P) = Create_loop env pszHost pszUserId pszPassWord pszDbName iPort pszCharacterSet 0 (nat iPoolCount) P
           in if b then (True, P) else (False, Destroy others P))"

subsection \<open>Select and Release\<close>

text \<open>The critical section of \<open>Select\<close>.\<close>

definition Select_try :: "pool \<Rightarrow> nat option \<times> pool" where
  "Select_try P = (case m_clsStandByList P of [] \<Rightarrow> (None, P)
     | p # ps \<Rightarrow> (Some p, P\<lparr>m_clsStandByList := ps, m_clsUseMap := map_insert p p (m_clsUseMap P)\<rparr>))"

text \<open>The loop of \<open>Select\<close>; it may wait for ever (\<open>None\<close>).\<close>

partial_function (option) Select_loop :: "(nat \<Rightarrow> pool \<Rightarrow> pool) \<Rightarrow> nat \<Rightarrow> bool \<Rightarrow> pool \<Rightarrow> (nat option \<times> pool) option" where
  [code]: "Select_loop others i bStandByUntilAvailable pl =
     (if m_bDestroy pl then Some (None, pl)
      else let (r, pl) = Select_try pl
           in if r \<noteq> None \<or> \<not> bStandByUntilAvailable then Some (r, pl)
              else Select_loop others (Suc i) bStandByUntilAvailable (others i pl))"

definition Select :: "(nat \<Rightarrow> pool \<Rightarrow> pool) \<Rightarrow> bool \<Rightarrow> pool \<Rightarrow> (nat option \<times> pool) option" where
  "Select others bStandByUntilAvailable P =
     (if m_bDestroy P then Some (None, P) else Select_loop others 0 bStandByUntilAvailable P)"

definition Release :: "nat \<Rightarrow> pool \<Rightarrow> pool" where
  "Release pclsDbConn P =
     (if pclsDbConn = 0 then P
      else case map_of (m_clsUseMap P) pclsDbConn of None \<Rightarrow> P
        | Some _ \<Rightarrow> P\<lparr>m_clsUseMap := map_erase pclsDbConn (m_clsUseMap P),
                     m_clsStandByList := m_clsStandByList P @ [pclsDbConn]\<rparr>)"

subsection \<open>The operations that borrow a connection\<close>

text \<open>\<open>CAutoRelease\<close>: the destructor releases what was selected, on every path.\<close>

definition CAutoRelease_dtor :: "nat option \<Rightarrow> pool \<Rightarrow> pool" where
  "CAutoRelease_dtor m_pclsData P = (case m_pclsData of None \<Rightarrow> P | Some p \<Rightarrow> Release p P)"

definition with_conn ::
    "(nat \<Rightarrow> libmysql) \<Rightarrow> (nat \<Rightarrow> pool \<Rightarrow> pool) \<Rightarrow> 'r \<Rightarrow> (libmysql \<Rightarrow> conn \<Rightarrow> ('r \<times> conn) option) \<Rightarrow> pool \<Rightarrow> ('r \<times> pool) option" where
  "with_conn env others fail op P =
     (case Select others True P of None \<Rightarrow> None
      | Some (None, P) \<Rightarrow> Some (fail, CAutoRelease_dtor None P)
      | Some (Some p, P) \<Rightarrow>
          (case heap P p of None \<Rightarrow> Some (fail, P\<lparr>fault := True\<rparr>)
           | Some c \<Rightarrow> map_option (\<lambda>(r, c). (r, CAutoRelease_dtor (Some p) (P\<lparr>heap := (heap P)(p \<mapsto> c)\<rparr>))) (op (env p) c)))"

definition Pool_Execute where
  "Pool_Execute env others pszSQL = with_conn env others False (\<lambda>l c. Some (Execute l pszSQL c))"

definition Pool_Insert where
  "Pool_Insert env others pszSQL piId = with_conn env others (False, None) (\<lambda>l c. Some (Insert l pszSQL piId c))"

definition Pool_Query where
  "Pool_Query env others pszSQL pclsData FetchRow =
     with_conn env others (False, pclsData) (\<lambda>l c. Query l pszSQL pclsData FetchRow c)"

text \<open>The variables of a failed \<open>QueryOne\<close> keep their value when no connection is selected.\<close>

definition Pool_QueryOne_int where
  "Pool_QueryOne_int env others pszSQL iData =
     with_conn env others (False, iData) (\<lambda>l c. Some (QueryOne_int l pszSQL c))"

definition Pool_QueryOne_uint32 where
  "Pool_QueryOne_uint32 env others pszSQL iData =
     with_conn env others (False, iData) (\<lambda>l c. Some (QueryOne_uint32 l pszSQL c))"

definition Pool_QueryOne_uint64 where
  "Pool_QueryOne_uint64 env others pszSQL iData =
     with_conn env others (False, iData) (\<lambda>l c. Some (QueryOne_uint64 l pszSQL c))"

definition Pool_QueryOne_int64 where
  "Pool_QueryOne_int64 env others pszSQL iData =
     with_conn env others (False, iData) (\<lambda>l c. Some (QueryOne_int64 l pszSQL c))"

definition Pool_QueryOne_string where
  "Pool_QueryOne_string env others pszSQL strData =
     with_conn env others (False, strData) (\<lambda>l c. Some (QueryOne_string l pszSQL c))"

subsection \<open>Settings\<close>

definition Pool_SetReadTimeout :: "int \<Rightarrow> pool \<Rightarrow> pool" where
  "Pool_SetReadTimeout iSecond P = (if 0 < iSecond then P\<lparr>pool_iReadTimeout := iSecond\<rparr> else P)"

definition Pool_SetWriteTimeout :: "int \<Rightarrow> pool \<Rightarrow> pool" where
  "Pool_SetWriteTimeout iSecond P = (if 0 < iSecond then P\<lparr>pool_iWriteTimeout := iSecond\<rparr> else P)"

definition Pool_SetPluginDir :: "cstring \<Rightarrow> pool \<Rightarrow> pool" where
  "Pool_SetPluginDir pszPluginDir P = P\<lparr>pool_strPluginDir := pszPluginDir\<rparr>"

definition Pool_SetSecureAuth :: "bool \<Rightarrow> pool \<Rightarrow> pool" where
  "Pool_SetSecureAuth bSecureAuth P = P\<lparr>pool_bSecureAuth := bSecureAuth\<rparr>"

end
