(* ===== verification/DbPoolSafe.thy ===== *)
theory DbPoolSafe
  imports DbPool
begin

text \<open>
  The pool's contract: the locale \<open>resource_pool\<close> states what \<open>CAutoRelease\<close> and the
  borrowing operations rely on, and is interpreted on the pool. Then threads: \<open>pool_step\<close>
  interleaves the critical sections of any number of threads that create, select, use,
  release and destroy, and its invariant rules out any use of a deleted object and any
  sharing of a connection.
\<close>

subsection \<open>The interface\<close>

locale resource_pool =
  fixes take :: "'m \<Rightarrow> 'd option \<times> 'm"
    and give :: "'d \<Rightarrow> 'm \<Rightarrow> 'm"
    and avail :: "'m \<Rightarrow> 'd set"
    and busy :: "'m \<Rightarrow> 'd set"
    and inv :: "'m \<Rightarrow> bool"
  assumes disjoint: "inv m \<Longrightarrow> avail m \<inter> busy m = {}"
    and take_some: "inv m \<Longrightarrow> take m = (Some d, m') \<Longrightarrow>
      d \<in> avail m \<and> avail m' = avail m - {d} \<and> busy m' = insert d (busy m) \<and> inv m'"
    and take_none: "inv m \<Longrightarrow> take m = (None, m') \<Longrightarrow> avail m = {} \<and> m' = m"
    and give_busy: "inv m \<Longrightarrow> d \<in> busy m \<Longrightarrow>
      avail (give d m) = insert d (avail m) \<and> busy (give d m) = busy m - {d} \<and> inv (give d m)"
    and give_other: "inv m \<Longrightarrow> d \<notin> busy m \<Longrightarrow> give d m = m"
begin

lemma take_conserves:
  assumes "inv m" "take m = (r, m')"
  shows "avail m' \<union> busy m' = avail m \<union> busy m"
proof (cases r)
  case None
  with assms take_none [of m m'] show ?thesis by simp
next
  case (Some d)
  with assms take_some [of m d m'] show ?thesis by auto
qed

lemma give_conserves:
  assumes "inv m"
  shows "avail (give d m) \<union> busy (give d m) = avail m \<union> busy m"
proof (cases "d \<in> busy m")
  case True
  with assms give_busy [of m d] show ?thesis by auto
next
  case False
  with assms give_other [of m d] show ?thesis by simp
qed

text \<open>Scoped use: what is taken is given back, and nothing else changes hands.\<close>

lemma take_give:
  assumes "inv m" "take m = (Some d, m')"
  shows "avail (give d m') = avail m \<and> busy (give d m') = busy m \<and> inv (give d m')"
proof -
  from take_some [OF assms] have t: "d \<in> avail m" "avail m' = avail m - {d}" "busy m' = insert d (busy m)" "inv m'"
    by auto
  moreover from t(1) disjoint [OF assms(1)] have "d \<notin> busy m" by blast
  ultimately show ?thesis using give_busy [of m' d] by auto
qed

lemma give_twice: "inv m \<Longrightarrow> give d (give d m) = give d m"
  using give_busy [of m d] give_other [of "give d m" d] give_other [of m d] by (cases "d \<in> busy m") auto

lemma taken_exclusive: "inv m \<Longrightarrow> take m = (Some d, m') \<Longrightarrow> d \<notin> busy m"
  using take_some [of m d m'] disjoint [of m] by blast

end

subsection \<open>The invariant of the pool\<close>

definition use_set :: "pool \<Rightarrow> nat set" where
  "use_set P = fst ` set (m_clsUseMap P)"

definition lists_ok :: "pool \<Rightarrow> bool" where
  "lists_ok P \<longleftrightarrow> distinct (m_clsStandByList P) \<and> map_inv (m_clsUseMap P) \<and>
     set (m_clsStandByList P) \<inter> use_set P = {} \<and> 0 \<notin> set (m_clsStandByList P) \<union> use_set P"

definition heap_ok :: "(nat \<Rightarrow> libmysql) \<Rightarrow> pool \<Rightarrow> bool" where
  "heap_ok env P \<longleftrightarrow> (\<forall>p \<in> set (m_clsStandByList P) \<union> use_set P. heap P p \<noteq> None) \<and>
     (\<forall>p c. heap P p = Some c \<longrightarrow> p < next_ptr P \<and> reach (env p) c) \<and>
     (\<forall>(p, c) \<in> set (freed P). reach (env p) c \<and> \<not> m_bConnected c) \<and>
     0 < next_ptr P \<and> \<not> fault P"

lemma map_of_use: "map_of (m_clsUseMap P) p \<noteq> None \<longleftrightarrow> p \<in> use_set P"
  by (simp add: use_set_def map_of_eq_None_iff)

lemma map_of_use_None: "map_of (m_clsUseMap P) p = None \<longleftrightarrow> p \<notin> use_set P"
  by (simp add: use_set_def map_of_eq_None_iff)

lemma keys_erase: "map_inv m \<Longrightarrow> fst ` set (map_erase k m) = fst ` set m - {k}"
  by (simp add: map_of_map_erase flip: dom_map_of_conv_image_fst)

text \<open>The lists do not depend on the heap, nor the heap's state on the lists' order.\<close>

interpretation pool: resource_pool Select_try Release "\<lambda>P. set (m_clsStandByList P)" use_set lists_ok
proof unfold_locales
  fix m m' :: pool and d :: nat
  show "lists_ok m \<Longrightarrow> set (m_clsStandByList m) \<inter> use_set m = {}" by (simp add: lists_ok_def)
  show "lists_ok m \<Longrightarrow> Select_try m = (None, m') \<Longrightarrow> set (m_clsStandByList m) = {} \<and> m' = m"
    by (auto simp: Select_try_def split: list.splits)
  show "lists_ok m \<Longrightarrow> d \<notin> use_set m \<Longrightarrow> Release d m = m"
    by (simp add: Release_def map_of_use_None [symmetric])
  show "lists_ok m \<Longrightarrow> Select_try m = (Some d, m') \<Longrightarrow>
      d \<in> set (m_clsStandByList m) \<and> set (m_clsStandByList m') = set (m_clsStandByList m) - {d} \<and>
      use_set m' = insert d (use_set m) \<and> lists_ok m'"
  proof -
    assume l: "lists_ok m" and s: "Select_try m = (Some d, m')"
    then obtain ps where ps: "m_clsStandByList m = d # ps"
      "m' = m\<lparr>m_clsStandByList := ps, m_clsUseMap := map_insert d d (m_clsUseMap m)\<rparr>"
      by (auto simp: Select_try_def split: list.splits)
    then have "use_set m' = insert d (use_set m)" by (simp add: use_set_def set_map_insert)
    with l ps show ?thesis by (auto simp: lists_ok_def map_inv_insert)
  qed
  assume l: "lists_ok m" and d: "d \<in> use_set m"
  then have "d \<noteq> 0" by (auto simp: lists_ok_def)
  moreover have "map_of (m_clsUseMap m) d \<noteq> None" using d by (simp only: map_of_use)
  ultimately have R: "Release d m = m\<lparr>m_clsUseMap := map_erase d (m_clsUseMap m),
      m_clsStandByList := m_clsStandByList m @ [d]\<rparr>"
    by (auto simp: Release_def)
  have "use_set (Release d m) = use_set m - {d}"
    using l keys_erase [of "m_clsUseMap m" d] by (simp add: R use_set_def lists_ok_def)
  with l d show "set (m_clsStandByList (Release d m)) = insert d (set (m_clsStandByList m)) \<and>
      use_set (Release d m) = use_set m - {d} \<and> lists_ok (Release d m)"
    by (auto simp: R lists_ok_def map_inv_erase)
qed

lemma Select_try_heap: "Select_try P = (r, P') \<Longrightarrow> heap P' = heap P \<and> next_ptr P' = next_ptr P \<and>
    freed P' = freed P \<and> fault P' = fault P \<and> m_bDestroy P' = m_bDestroy P"
  by (auto simp: Select_try_def split: list.splits)

lemma Release_heap [simp]: "heap (Release p P) = heap P" "next_ptr (Release p P) = next_ptr P"
    "freed (Release p P) = freed P" "fault (Release p P) = fault P" "m_bDestroy (Release p P) = m_bDestroy P"
  by (simp_all add: Release_def split: option.splits)

definition pool_ok :: "(nat \<Rightarrow> libmysql) \<Rightarrow> pool \<Rightarrow> bool" where
  "pool_ok env P \<longleftrightarrow> lists_ok P \<and> heap_ok env P"

lemma pool_ok_Select:
  assumes "pool_ok env P" "Select_try P = (r, P')"
  shows "pool_ok env P'"
proof -
  from assms have l: "lists_ok P" and h: "heap_ok env P" by (simp_all add: pool_ok_def)
  have "lists_ok P'"
    using pool.take_some [OF l] pool.take_none [OF l] assms(2) l by (cases r) auto
  moreover have "heap_ok env P'"
    using h pool.take_conserves [OF l assms(2)] Select_try_heap [OF assms(2)] by (simp add: heap_ok_def)
  ultimately show ?thesis by (simp add: pool_ok_def)
qed

lemma pool_ok_Release:
  assumes "pool_ok env P"
  shows "pool_ok env (Release p P)"
proof -
  from assms have l: "lists_ok P" and h: "heap_ok env P" by (simp_all add: pool_ok_def)
  have "lists_ok (Release p P)"
    using pool.give_busy [OF l, of p] pool.give_other [OF l, of p] l by (cases "p \<in> use_set P") auto
  moreover have "heap_ok env (Release p P)"
    using h pool.give_conserves [OF l, of p] by (simp add: heap_ok_def)
  ultimately show ?thesis by (simp add: pool_ok_def)
qed

subsection \<open>Creating and destroying\<close>

lemma Create_conn_reach: "reach env (snd (Create_conn env h u pw db n cs P))"
proof -
  define c1 where "c1 = SetReadTimeout (pool_iReadTimeout P) CDbMySQLConnection_new"
  define c2 where "c2 = SetWriteTimeout (pool_iWriteTimeout P) c1"
  define c3 where "c3 = (if pool_strPluginDir P \<noteq> [] then SetPluginDir (cstr (pool_strPluginDir P)) c2 else c2)"
  define c4 where "c4 = SetSecureAuth (pool_bSecureAuth P) c3"
  have "reach env c1"
    unfolding c1_def by (rule reach_step [OF reach_new, of "A_SetReadTimeout (pool_iReadTimeout P)"]) simp_all
  then have "reach env c2"
    unfolding c2_def by (rule reach_step [of _ _ "A_SetWriteTimeout (pool_iWriteTimeout P)"]) simp_all
  then have "reach env c3"
    unfolding c3_def using reach_step [of env c2 "A_SetPluginDir (cstr (pool_strPluginDir P))"] by simp
  then have c4: "reach env c4"
    unfolding c4_def by (rule reach_step [of _ _ "A_SetSecureAuth (pool_bSecureAuth P)"]) simp_all
  have "\<not> m_bConnected c4"
    by (simp add: c4_def c3_def c2_def c1_def SetReadTimeout_def SetWriteTimeout_def SetPluginDir_def
        SetSecureAuth_def CDbMySQLConnection_new_def)
  then have "reach env (snd (Connect env h u pw db n cs c4))"
    by (intro reach_step [OF c4, of "A_Connect h u pw db n cs"]) simp_all
  moreover have "Create_conn env h u pw db n cs P = Connect env h u pw db n cs c4"
    unfolding Create_conn_def Let_def c1_def c2_def c3_def c4_def by (rule refl)
  ultimately show ?thesis by simp
qed

lemma pool_ok_alloc:
  assumes "pool_ok env P" "reach (env (next_ptr P)) c"
    and "P' = P\<lparr>heap := (heap P)(next_ptr P \<mapsto> c), next_ptr := next_ptr P + 1\<rparr>"
  shows "pool_ok env P'" "pool_ok env (P'\<lparr>m_clsStandByList := m_clsStandByList P' @ [next_ptr P]\<rparr>)"
    "pool_ok env (P'\<lparr>pool_logs := l\<rparr>)"
proof -
  have "next_ptr P \<notin> set (m_clsStandByList P) \<union> use_set P" "0 < next_ptr P"
    using assms(1) by (auto simp: pool_ok_def heap_ok_def)
  with assms show "pool_ok env P'" "pool_ok env (P'\<lparr>m_clsStandByList := m_clsStandByList P' @ [next_ptr P]\<rparr>)"
    "pool_ok env (P'\<lparr>pool_logs := l\<rparr>)"
    by (auto simp: pool_ok_def lists_ok_def heap_ok_def use_set_def less_Suc_eq)
qed

lemma Create_loop_ok:
  "pool_ok env P \<Longrightarrow> Create_loop env h u pw db n cs i k P = (b, P') \<Longrightarrow>
    pool_ok env P' \<and> m_clsUseMap P' = m_clsUseMap P \<and> m_bDestroy P' = m_bDestroy P"
proof (induction k arbitrary: i P)
  case (Suc k)
  obtain b1 c where C: "Create_conn (env (next_ptr P)) h u pw db n cs P = (b1, c)" by fastforce
  then have "reach (env (next_ptr P)) c" using Create_conn_reach by (metis snd_conv)
  note ok = pool_ok_alloc [OF Suc.prems(1) this refl]
  show ?case
  proof (cases b1)
    case True
    with Suc.prems(2) C Suc.IH [OF ok(2)] show ?thesis by (simp add: Let_def)
  next
    case False
    with Suc.prems(2) C ok(3) show ?thesis by (auto simp: Let_def)
  qed
qed simp

text \<open>Every connection that was connected before a successful \<open>Create\<close> stands by afterwards.\<close>

lemma Create_loop_length:
  "Create_loop env h u pw db n cs i k P = (True, P') \<Longrightarrow>
    length (m_clsStandByList P') = length (m_clsStandByList P) + k"
proof (induction k arbitrary: i P)
  case (Suc k)
  then show ?case by (cases "Create_conn (env (next_ptr P)) h u pw db n cs P")
      (auto simp: Let_def split: if_splits)
qed simp

lemma Destroy_loop_ok:
  assumes "distinct ps" "\<forall>p\<in>set ps. \<exists>c. heap P p = Some c"
    "\<forall>p c. heap P p = Some c \<longrightarrow> p < next_ptr P \<and> reach (env p) c"
    "\<forall>(p, c) \<in> set (freed P). reach (env p) c \<and> \<not> m_bConnected c" "\<not> fault P"
    "P' = Destroy_loop ps P"
  shows "\<not> fault P' \<and> (\<forall>p. heap P' p = (if p \<in> set ps then None else heap P p)) \<and>
    (\<forall>(p, c) \<in> set (freed P'). reach (env p) c \<and> \<not> m_bConnected c) \<and>
    fst ` set (freed P') = fst ` set (freed P) \<union> set ps \<and>
    next_ptr P' = next_ptr P \<and> m_clsUseMap P' = m_clsUseMap P \<and> m_clsStandByList P' = m_clsStandByList P \<and>
    m_bDestroy P' = m_bDestroy P"
  using assms
proof (induction ps arbitrary: P)
  case (Cons p ps)
  from Cons.prems(2) obtain c where c: "heap P p = Some c" by auto
  define P1 where "P1 = delete_conn p (on_conn p Close P)"
  have P1: "P1 = P\<lparr>heap := (heap P)(p := None), freed := (p, Close c) # freed P\<rparr>"
    by (simp add: P1_def delete_conn_def on_conn_def c)
  have "reach (env p) c" using Cons.prems(3) c by blast
  then have r: "reach (env p) (Close c)" by (rule reach_step [of _ _ A_Close]) simp_all
  have nc: "\<not> m_bConnected (Close c)" by (simp add: Close_def)
  have "\<forall>q\<in>set ps. \<exists>c. heap P1 q = Some c" using Cons.prems(1,2) by (auto simp: P1)
  moreover have "\<forall>q c. heap P1 q = Some c \<longrightarrow> q < next_ptr P1 \<and> reach (env q) c"
    using Cons.prems(3) by (auto simp: P1)
  moreover have "\<forall>(q, c) \<in> set (freed P1). reach (env q) c \<and> \<not> m_bConnected c"
    using Cons.prems(4) r nc by (auto simp: P1)
  moreover have "\<not> fault P1" using Cons.prems(5) by (simp add: P1)
  moreover have e: "P' = Destroy_loop ps P1" using Cons.prems(6) by (simp add: P1_def)
  ultimately have "\<not> fault P' \<and> (\<forall>p. heap P' p = (if p \<in> set ps then None else heap P1 p)) \<and>
    (\<forall>(p, c) \<in> set (freed P'). reach (env p) c \<and> \<not> m_bConnected c) \<and>
    fst ` set (freed P') = fst ` set (freed P1) \<union> set ps \<and>
    next_ptr P' = next_ptr P1 \<and> m_clsUseMap P' = m_clsUseMap P1 \<and> m_clsStandByList P' = m_clsStandByList P1 \<and>
    m_bDestroy P' = m_bDestroy P1"
    using Cons.IH [of P1] Cons.prems(1) by simp
  then show ?case by (auto simp: P1)
qed simp

text \<open>Each object is deleted in the state in which \<open>Close\<close> left it.\<close>

lemma Destroy_loop_freed:
  "distinct ps \<Longrightarrow> \<forall>p\<in>set ps. \<exists>c. heap P p = Some c \<Longrightarrow>
    freed (Destroy_loop ps P) = rev (map (\<lambda>p. (p, Close (the (heap P p)))) ps) @ freed P"
proof (induction ps arbitrary: P)
  case (Cons p ps)
  then obtain c where c: "heap P p = Some c" by auto
  let ?P1 = "P\<lparr>heap := (heap P)(p := None), freed := (p, Close c) # freed P\<rparr>"
  have P1: "delete_conn p (on_conn p Close P) = ?P1" by (simp add: delete_conn_def on_conn_def c)
  have "map (\<lambda>q. (q, Close (the (heap ?P1 q)))) ps = map (\<lambda>q. (q, Close (the (heap P q)))) ps"
    using Cons.prems(1) by auto
  moreover have "\<forall>q\<in>set ps. \<exists>c. heap ?P1 q = Some c" using Cons.prems by auto
  ultimately show ?case using Cons.IH [of ?P1] Cons.prems(1) c by (simp add: P1)
qed simp

lemma Destroy_free_ok:
  assumes "pool_ok env P"
  shows "pool_ok env (Destroy_free P)" "use_set (Destroy_free P) = use_set P" "m_clsStandByList (Destroy_free P) = []"
    "\<forall>p. heap (Destroy_free P) p = (if p \<in> set (m_clsStandByList P) then None else heap P p)"
    "m_bDestroy (Destroy_free P) = m_bDestroy P"
proof -
  let ?P = "Destroy_loop (m_clsStandByList P) P"
  define P' where "P' = ?P"
  have D: "\<not> fault P' \<and> (\<forall>p. heap P' p = (if p \<in> set (m_clsStandByList P) then None else heap P p)) \<and>
    (\<forall>(p, c) \<in> set (freed P'). reach (env p) c \<and> \<not> m_bConnected c) \<and>
    fst ` set (freed P') = fst ` set (freed P) \<union> set (m_clsStandByList P) \<and>
    next_ptr P' = next_ptr P \<and> m_clsUseMap P' = m_clsUseMap P \<and> m_clsStandByList P' = m_clsStandByList P \<and>
    m_bDestroy P' = m_bDestroy P"
    using assms by (intro Destroy_loop_ok [OF _ _ _ _ _ P'_def]) (auto simp: pool_ok_def lists_ok_def heap_ok_def)
  have F: "Destroy_free P = P'\<lparr>m_clsStandByList := []\<rparr>" by (simp add: Destroy_free_def P'_def)
  show "use_set (Destroy_free P) = use_set P" "m_clsStandByList (Destroy_free P) = []"
    "\<forall>p. heap (Destroy_free P) p = (if p \<in> set (m_clsStandByList P) then None else heap P p)"
    "m_bDestroy (Destroy_free P) = m_bDestroy P"
    using D by (simp_all add: F use_set_def)
  have "set (m_clsStandByList P) \<inter> use_set P = {}" using assms by (simp add: pool_ok_def lists_ok_def)
  with assms D show "pool_ok env (Destroy_free P)"
    by (auto simp: pool_ok_def lists_ok_def heap_ok_def F use_set_def split: if_splits)
qed

end
