(* ===== verification/DbPoolThreads.thy ===== *)
theory DbPoolThreads
  imports DbPoolSafe
begin

text \<open>
  The pool under threads, and the promises of its operations.
\<close>

subsection \<open>Threads\<close>

text \<open>Where a thread is: outside the pool; at the test of the loop of \<open>Select\<close>; before its
  critical section; holding a connection; after a failed \<open>Create\<close>; in the wait of \<open>Destroy\<close>
  after some rounds; before its last critical section; before the reset of \<open>m_bDestroy\<close>.\<close>

datatype tstate = T_idle | T_select bool | T_try bool | T_using nat
  | T_failed | T_wait nat | T_free | T_reset

type_synonym threads = "nat \<Rightarrow> tstate"

inductive pool_step :: "(nat \<Rightarrow> libmysql) \<Rightarrow> pool \<times> threads \<Rightarrow> pool \<times> threads \<Rightarrow> bool" for env where
  st_create: "ts t = T_idle \<Longrightarrow> 0 < k \<Longrightarrow> Create_loop env h u pw db n cs 0 k P = (b, P') \<Longrightarrow>
    pool_step env (P, ts) (P', ts(t := if b then T_idle else T_failed))"
| st_destroy: "ts t = T_idle \<or> ts t = T_failed \<Longrightarrow>
    pool_step env (P, ts) (P\<lparr>m_bDestroy := True\<rparr>, ts(t := T_wait 0))"
| st_wait: "ts t = T_wait i \<Longrightarrow> i < 500 \<Longrightarrow> m_clsUseMap P \<noteq> [] \<Longrightarrow> pool_step env (P, ts) (P, ts(t := T_wait (Suc i)))"
| st_waited: "ts t = T_wait i \<Longrightarrow> i = 500 \<or> m_clsUseMap P = [] \<Longrightarrow> pool_step env (P, ts) (P, ts(t := T_free))"
| st_free: "ts t = T_free \<Longrightarrow> pool_step env (P, ts) (Destroy_free P, ts(t := T_reset))"
| st_reset: "ts t = T_reset \<Longrightarrow> pool_step env (P, ts) (P\<lparr>m_bDestroy := False\<rparr>, ts(t := T_idle))"
| st_select: "ts t = T_idle \<Longrightarrow> \<not> m_bDestroy P \<Longrightarrow> pool_step env (P, ts) (P, ts(t := T_select b))"
| st_give_up: "ts t = T_select b \<Longrightarrow> m_bDestroy P \<Longrightarrow> pool_step env (P, ts) (P, ts(t := T_idle))"
| st_check: "ts t = T_select b \<Longrightarrow> \<not> m_bDestroy P \<Longrightarrow> pool_step env (P, ts) (P, ts(t := T_try b))"
| st_take: "ts t = T_try b \<Longrightarrow> Select_try P = (Some p, P') \<Longrightarrow> pool_step env (P, ts) (P', ts(t := T_using p))"
| st_empty: "ts t = T_try b \<Longrightarrow> Select_try P = (None, P') \<Longrightarrow>
    pool_step env (P, ts) (P', ts(t := if b then T_select b else T_idle))"
| st_use: "ts t = T_using p \<Longrightarrow> (\<And>c. heap P p = Some c \<Longrightarrow> reach (env p) c \<Longrightarrow> reach (env p) (f c)) \<Longrightarrow>
    pool_step env (P, ts) (on_conn p f P, ts)"
| st_release: "ts t = T_using p \<Longrightarrow> pool_step env (P, ts) (Release p P, ts(t := T_idle))"

inductive pool_reach :: "(nat \<Rightarrow> libmysql) \<Rightarrow> pool \<times> threads \<Rightarrow> bool" for env where
  init: "pool_reach env (CDbMySQLPool_new, \<lambda>_. T_idle)"
| step: "pool_reach env s \<Longrightarrow> pool_step env s s' \<Longrightarrow> pool_reach env s'"

definition threads_ok :: "pool \<Rightarrow> threads \<Rightarrow> bool" where
  "threads_ok P ts \<longleftrightarrow> (\<forall>t p. ts t = T_using p \<longrightarrow> p \<in> use_set P) \<and>
     (\<forall>t t' p. ts t = T_using p \<longrightarrow> ts t' = T_using p \<longrightarrow> t = t')"

lemma threads_ok_move:
  "threads_ok P ts \<Longrightarrow> (\<And>p. s \<noteq> T_using p) \<Longrightarrow> use_set P' = use_set P \<Longrightarrow> threads_ok P' (ts(t := s))"
  by (auto simp: threads_ok_def)

lemma pool_ok_flag [simp]: "pool_ok env (P\<lparr>m_bDestroy := b\<rparr>) = pool_ok env P"
    "use_set (P\<lparr>m_bDestroy := b\<rparr>) = use_set P"
  by (simp_all add: pool_ok_def lists_ok_def heap_ok_def use_set_def)

lemma pool_ok_new: "pool_ok env CDbMySQLPool_new"
  by (simp add: pool_ok_def lists_ok_def heap_ok_def use_set_def CDbMySQLPool_new_def map_inv_def)

lemma on_conn_ok:
  assumes "pool_ok env P" "p \<in> use_set P" "\<And>c. heap P p = Some c \<Longrightarrow> reach (env p) c \<Longrightarrow> reach (env p) (f c)"
  shows "pool_ok env (on_conn p f P)" "use_set (on_conn p f P) = use_set P"
    "set (m_clsStandByList (on_conn p f P)) = set (m_clsStandByList P)"
proof -
  have "heap P p \<noteq> None" using assms(1,2) unfolding pool_ok_def heap_ok_def by blast
  then obtain c where c: "heap P p = Some c" by blast
  then have r: "reach (env p) (f c)" using assms(1,3) by (auto simp: pool_ok_def heap_ok_def)
  show "use_set (on_conn p f P) = use_set P" "set (m_clsStandByList (on_conn p f P)) = set (m_clsStandByList P)"
    by (simp_all add: on_conn_def c use_set_def)
  show "pool_ok env (on_conn p f P)"
    using assms(1) c r by (auto simp: on_conn_def pool_ok_def lists_ok_def heap_ok_def use_set_def)
qed

lemma pool_step_ok:
  assumes "pool_step env (P, ts) (P', ts')" "pool_ok env P" "threads_ok P ts"
  shows "pool_ok env P' \<and> threads_ok P' ts'"
  using assms(1)
proof cases
  case (st_create t k h u pw db n cs b)
  from Create_loop_ok [OF assms(2) st_create(4)] assms(3) show ?thesis
    by (auto simp: st_create use_set_def intro!: threads_ok_move)
next
  case (st_free t)
  with assms Destroy_free_ok [OF assms(2)] show ?thesis by (auto intro!: threads_ok_move)
next
  case (st_take t b p)
  have l: "lists_ok P" using assms(2) by (simp add: pool_ok_def)
  note tk = pool.take_some [OF l st_take(3)]
  have "p \<notin> use_set P" using pool.taken_exclusive [OF l st_take(3)] .
  with tk assms(3) have "threads_ok P' ts'" by (auto simp: threads_ok_def st_take)
  with pool_ok_Select [OF assms(2) st_take(3)] show ?thesis by simp
next
  case (st_empty t b)
  have l: "lists_ok P" using assms(2) by (simp add: pool_ok_def)
  from pool.take_none [OF l st_empty(3)] assms show ?thesis by (auto simp: st_empty intro!: threads_ok_move)
next
  case (st_use t p f)
  have "p \<in> use_set P" using assms(3) st_use by (auto simp: threads_ok_def)
  with assms st_use on_conn_ok [OF assms(2) this, of f] show ?thesis by (simp add: threads_ok_def)
next
  case (st_release t p)
  have l: "lists_ok P" using assms(2) by (simp add: pool_ok_def)
  have p: "p \<in> use_set P" using assms(3) st_release by (auto simp: threads_ok_def)
  from pool.give_busy [OF l p] assms(3) st_release(3) have "threads_ok P' ts'"
    by (auto simp: threads_ok_def st_release)
  with pool_ok_Release [OF assms(2)] show ?thesis by (simp add: st_release)
qed (use assms in \<open>auto intro!: threads_ok_move\<close>)

lemma pool_reach_ok: "pool_reach env s \<Longrightarrow> pool_ok env (fst s) \<and> threads_ok (fst s) (snd s)"
proof (induction rule: pool_reach.induct)
  case init
  show ?case by (simp add: pool_ok_new threads_ok_def)
next
  case (step s s')
  then show ?case by (cases s; cases s') (auto dest!: pool_step_ok)
qed

subsection \<open>Borrowing\<close>

lemma map_erase_insert: "k \<notin> fst ` set m \<Longrightarrow> map_erase k (map_insert k v m) = m"
  by (induction k v m rule: map_insert.induct) auto

lemma map_of_insert_new: "k \<notin> fst ` set m \<Longrightarrow> map_of (map_insert k v m) k = Some v"
  by (induction k v m rule: map_insert.induct) auto

lemma Select_immediate:
  "m_clsStandByList P = p # ps \<Longrightarrow> \<not> m_bDestroy P \<Longrightarrow>
    Select others b P = Some (Some p, P\<lparr>m_clsStandByList := ps, m_clsUseMap := map_insert p p (m_clsUseMap P)\<rparr>)"
  by (simp add: Select_def, subst Select_loop.simps) (simp add: Select_try_def)

lemma with_conn_immediate:
  assumes ok: "pool_ok env P" and l: "m_clsStandByList P = p # ps" and d: "\<not> m_bDestroy P"
    and c: "heap P p = Some c" and op: "op (env p) c = Some (r, c')"
  shows "with_conn env others fail op P = Some (r, P\<lparr>m_clsStandByList := ps @ [p], heap := (heap P)(p \<mapsto> c')\<rparr>)"
proof -
  have "p \<notin> use_set P" "p \<noteq> 0" using ok l by (auto simp: pool_ok_def lists_ok_def)
  then show ?thesis
    by (simp add: with_conn_def Select_immediate [OF l d] c op CAutoRelease_dtor_def Release_def
        use_set_def map_of_insert_new map_erase_insert)
qed

lemma head_alive: "pool_ok env P \<Longrightarrow> m_clsStandByList P = p # ps \<Longrightarrow> \<exists>c. heap P p = Some c"
  unfolding pool_ok_def heap_ok_def by auto

text \<open>The pool after \<open>k\<close> rounds of waiting, and what ends the waiting.\<close>

primrec waited :: "(nat \<Rightarrow> pool \<Rightarrow> pool) \<Rightarrow> nat \<Rightarrow> pool \<Rightarrow> pool" where
  "waited others 0 P = P"
| "waited others (Suc k) P = others k (waited others k P)"

definition ready :: "pool \<Rightarrow> bool" where
  "ready P \<longleftrightarrow> m_bDestroy P \<or> m_clsStandByList P \<noteq> []"

text \<open>What a returning \<open>Select\<close> does to such a pool: on a destruction nothing, and else the connection that has been
  idle longest leaves the idle ones and is entered in the map of the used ones under itself.\<close>

definition Select_now :: "pool \<Rightarrow> nat option \<times> pool" where
  "Select_now P =
     (if m_bDestroy P then (None, P)
      else (Some (hd (m_clsStandByList P)), P\<lparr>m_clsStandByList := tl (m_clsStandByList P),
        m_clsUseMap := map_insert (hd (m_clsStandByList P)) (hd (m_clsStandByList P)) (m_clsUseMap P)\<rparr>))"

lemma Select_loop_ready:
  "ready P \<Longrightarrow> Select_loop others i True P = Some (Select_now P)"
  by (subst Select_loop.simps) (auto simp: ready_def Select_now_def Select_try_def split: list.splits)

lemma Select_loop_not_ready:
  "\<not> ready P \<Longrightarrow> Select_loop others i True P = Select_loop others (Suc i) True (others i P)"
  by (subst Select_loop.simps) (simp add: ready_def Select_try_def)

lemma Select_loop_first:
  assumes "ready (waited others n P)" and "\<And>k. k < n \<Longrightarrow> \<not> ready (waited others k P)" and "i \<le> n"
  shows "Select_loop others i True (waited others i P) = Some (Select_now (waited others n P))"
  using assms(3)
proof (induction rule: inc_induct)
  case base
  then show ?case using assms(1) by (rule Select_loop_ready)
next
  case (step k)
  then show ?case using Select_loop_not_ready [OF assms(2)] by simp
qed

lemma Select_loop_returns:
  assumes "Select_loop others i True (waited others i P) = Some r"
  shows "\<exists>k \<ge> i. ready (waited others k P)"
proof -
  have "b \<longrightarrow> (\<forall>P0. pl = waited o' i P0 \<longrightarrow> (\<exists>k \<ge> i. ready (waited o' k P0)))"
    if "Select_loop o' i b pl = Some r" for o' i b pl r
    using that
  proof (rule Select_loop.raw_induct [rotated, where P = "\<lambda>o' i b pl r. b \<longrightarrow> (\<forall>P0. pl = waited o' i P0 \<longrightarrow> (\<exists>k \<ge> i. ready (waited o' k P0)))"])
    fix loop o' i b and pl :: pool and r
    assume IH: "\<And>o' i b pl r. loop o' i b pl = Some r \<Longrightarrow> b \<longrightarrow> (\<forall>P0. pl = waited o' i P0 \<longrightarrow> (\<exists>k \<ge> i. ready (waited o' k P0)))"
      and r: "(if m_bDestroy pl then Some (None, pl)
        else let (r, pl) = Select_try pl in if r \<noteq> None \<or> \<not> b then Some (r, pl) else loop o' (Suc i) b (o' i pl)) = Some r"
    show "b \<longrightarrow> (\<forall>P0. pl = waited o' i P0 \<longrightarrow> (\<exists>k \<ge> i. ready (waited o' k P0)))"
    proof (intro impI allI)
      fix P0
      assume b: b and pl: "pl = waited o' i P0"
      show "\<exists>k \<ge> i. ready (waited o' k P0)"
      proof (cases "ready pl")
        case True
        then show ?thesis using pl by auto
      next
        case False
        then have "loop o' (Suc i) b (o' i pl) = Some r" using r b by (simp add: ready_def Select_try_def)
        from IH [OF this] b have "\<exists>k \<ge> Suc i. ready (waited o' k P0)" using pl by simp
        then show ?thesis using Suc_leD by blast
      qed
    qed
  qed
  from this [OF assms] show ?thesis by simp
qed

lemma Select_loop_never: "(\<And>k. \<not> ready (waited others k P)) \<Longrightarrow> Select_loop others 0 True P = None"
  using Select_loop_returns [of others 0 P] by (cases "Select_loop others 0 True P") auto

text \<open>A thread that nobody helps waits for ever.\<close>

lemma Select_loop_waits:
  assumes "m_clsStandByList P = []" "\<not> m_bDestroy P"
  shows "Select_loop (\<lambda>_ P. P) 0 True P = None"
proof -
  have "waited (\<lambda>_ P. P) k P = P" for k by (induction k) simp_all
  then show ?thesis using assms by (intro Select_loop_never) (simp add: ready_def)
qed

lemma Destroy_wait_idle: "m_clsUseMap P = [] \<Longrightarrow> Destroy_wait others i n P = P"
  by (cases n) simp_all

lemma disconnected_closed:
  "reach env c \<Longrightarrow> \<not> m_bConnected c \<Longrightarrow> closed_h (p_handle (pst env (calls c))) \<and> p_stmts (pst env (calls c)) = [] \<and>
    p_heap (pst env (calls c)) = 0 \<and> p_ok (pst env (calls c))"
  using reach_inv [of env c] by (auto simp: conn_inv_def conn_st_def proto_def)

subsection \<open>A pool of two connections\<close>

definition demo_env :: "nat \<Rightarrow> libmysql" where "demo_env = (\<lambda>_. demo_db)"

definition demo_create :: "bool \<times> pool" where
  "demo_create = Create_loop demo_env ''db'' ''u'' ''p'' ''test'' 3306 None 0 2 CDbMySQLPool_new"

definition demo_pool :: pool where "demo_pool = snd demo_create"

lemma demo_pool_eval:
  "fst demo_create" "m_clsStandByList demo_pool = [1, 2]" "m_clsUseMap demo_pool = []" "\<not> m_bDestroy demo_pool"
  by code_simp+

lemma demo_pool_reach: "pool_reach demo_env (demo_pool, \<lambda>_. T_idle)"
proof -
  have "Create_loop demo_env ''db'' ''u'' ''p'' ''test'' 3306 None 0 2 CDbMySQLPool_new = (True, demo_pool)"
    using demo_pool_eval(1) by (simp add: demo_pool_def prod_eq_iff flip: demo_create_def)
  from st_create [where ts = "\<lambda>_. T_idle" and t = 0, OF refl _ this]
  have "pool_step demo_env (CDbMySQLPool_new, \<lambda>_. T_idle) (demo_pool, (\<lambda>_. T_idle)(0 := T_idle))" by simp
  moreover have "(\<lambda>_. T_idle)(0 := T_idle) = (\<lambda>_ :: nat. T_idle)" by auto
  ultimately show ?thesis by (auto intro: step [OF init])
qed

definition demo_busy :: pool where "demo_busy = snd (Select_try demo_pool)"

lemma demo_busy_reach: "pool_reach demo_env (demo_busy, (\<lambda>_. T_idle)(0 := T_using 1))"
proof -
  let ?i = "\<lambda>_. T_idle"
  have "pool_reach demo_env (demo_pool, ?i(0 := T_select True))"
    by (rule step [OF demo_pool_reach st_select]) (simp_all add: demo_pool_eval)
  then have "pool_reach demo_env (demo_pool, (?i(0 := T_select True))(0 := T_try True))"
    by (rule step [OF _ st_check]) (simp_all add: demo_pool_eval)
  moreover have "Select_try demo_pool = (Some 1, demo_busy)"
    by (simp add: demo_busy_def Select_try_def demo_pool_eval)
  ultimately have "pool_reach demo_env (demo_busy, ((?i(0 := T_select True))(0 := T_try True))(0 := T_using 1))"
    by (intro step [OF _ st_take [where b = True]]) auto
  then show ?thesis by simp
qed

definition demo_down :: "nat \<Rightarrow> libmysql" where "demo_down = (\<lambda>_. demo_db\<lparr>rc := (\<lambda>_. 0)\<rparr>)"

subsection \<open>Properties\<close>

text \<open>C2: On every run of any number of threads that create, select, use, release and destroy in
  any interleaving, no thread uses a deleted connection, a connection that a thread holds is
  neither idle nor held by another thread, and every deleted connection had been closed with
  all its library resources released.\<close>

theorem pool_threads_safe:
  assumes "pool_reach env (P, ts)"
  shows "\<not> fault P \<and> distinct (m_clsStandByList P) \<and>
    (\<forall>t p. ts t = T_using p \<longrightarrow> heap P p \<noteq> None \<and> p \<notin> set (m_clsStandByList P) \<and> (\<forall>t'. ts t' = T_using p \<longrightarrow> t' = t)) \<and>
    (\<forall>(p, c) \<in> set (freed P). closed_h (p_handle (pst (env p) (calls c))) \<and> p_stmts (pst (env p) (calls c)) = [] \<and>
       p_heap (pst (env p) (calls c)) = 0)"
proof -
  from pool_reach_ok [OF assms] have l: "lists_ok P" and h: "heap_ok env P" and t: "threads_ok P ts"
    by (simp_all add: pool_ok_def)
  have 1: "ts t = T_using p \<Longrightarrow> p \<in> use_set P" for t p using t by (auto simp: threads_ok_def)
  then have "ts t = T_using p \<Longrightarrow> heap P p \<noteq> None \<and> p \<notin> set (m_clsStandByList P)" for t p
    using h l unfolding heap_ok_def lists_ok_def by blast
  moreover have "ts t = T_using p \<Longrightarrow> ts t' = T_using p \<Longrightarrow> t' = t" for t t' p
    using t unfolding threads_ok_def by blast
  moreover have "(p, c) \<in> set (freed P) \<Longrightarrow> reach (env p) c \<and> \<not> m_bConnected c" for p c
    using h by (auto simp: heap_ok_def)
  ultimately show ?thesis using h l disconnected_closed by (fastforce simp: heap_ok_def lists_ok_def)
qed

theorem pool_threads_safe_witness:
  "pool_reach demo_env (demo_busy, (\<lambda>_. T_idle)(0 := T_using 1)) \<and> heap demo_busy 1 \<noteq> None \<and>
   1 \<notin> set (m_clsStandByList demo_busy)"
  using pool_threads_safe [OF demo_busy_reach] demo_busy_reach by (metis fun_upd_same)



text \<open>The critical section in which \<open>Destroy\<close> deletes, from any state that keeps the invariant.\<close>

lemma Destroy_free_freed:
  assumes "pool_ok env P"
  shows "freed (Destroy_free P) = rev (map (\<lambda>p. (p, Close (the (heap P p)))) (m_clsStandByList P)) @ freed P"
proof -
  have "freed (Destroy_loop (m_clsStandByList P) P) = rev (map (\<lambda>p. (p, Close (the (heap P p)))) (m_clsStandByList P)) @ freed P"
    by (rule Destroy_loop_freed) (use assms in \<open>auto simp: pool_ok_def lists_ok_def heap_ok_def\<close>)
  then show ?thesis by (simp add: Destroy_free_def)
qed

lemma Destroy_loop_use: "m_clsUseMap (Destroy_loop ps P) = m_clsUseMap P"
  by (induction ps P rule: Destroy_loop.induct) (simp_all add: delete_conn_def on_conn_def split: option.split)

lemma Destroy_idle:
  assumes "pool_ok env P" "m_clsUseMap P = []"
  shows "pool_ok env (Destroy alone P) \<and> m_clsStandByList (Destroy alone P) = [] \<and> m_clsUseMap (Destroy alone P) = [] \<and>
    \<not> m_bDestroy (Destroy alone P) \<and> \<not> fault (Destroy alone P) \<and>
    (\<forall>p. heap (Destroy alone P) p = (if p \<in> set (m_clsStandByList P) then None else heap P p)) \<and>
    freed (Destroy alone P) = rev (map (\<lambda>p. (p, Close (the (heap P p)))) (m_clsStandByList P)) @ freed P"
proof -
  let ?P = "P\<lparr>m_bDestroy := True\<rparr>"
  have ok: "pool_ok env ?P" using assms(1) by simp
  have D: "Destroy alone P = (Destroy_free ?P)\<lparr>m_bDestroy := False\<rparr>"
    using assms(2) by (simp add: Destroy_def Destroy_wait_idle alone_def)
  have "pool_ok env (Destroy alone P)" using Destroy_free_ok(1) [OF ok] by (simp add: D)
  moreover have "\<not> fault (Destroy_free ?P)" using Destroy_free_ok(1) [OF ok] by (simp add: pool_ok_def heap_ok_def)
  ultimately show ?thesis using Destroy_free_ok(2-) [OF ok] Destroy_free_freed [OF ok] assms(2) by (simp add: D use_set_def)
qed

text \<open>A run in which a \<open>Select\<close> that has passed its test takes a connection after \<open>Destroy\<close> has seen that none is in
  use.\<close>

definition demo_race :: "pool \<times> threads" where
  "demo_race = (snd (Select_try (demo_pool\<lparr>m_bDestroy := True\<rparr>)), (\<lambda>_. T_idle)(0 := T_using 1, 1 := T_free))"

lemma demo_race_reach: "pool_reach demo_env demo_race"
proof -
  let ?i = "(\<lambda>_. T_idle) :: threads" and ?D = "demo_pool\<lparr>m_bDestroy := True\<rparr>"
  have "pool_reach demo_env (demo_pool, ?i(0 := T_select True))"
    by (rule step [OF demo_pool_reach st_select]) (simp_all add: demo_pool_eval)
  then have "pool_reach demo_env (demo_pool, (?i(0 := T_select True))(0 := T_try True))"
    by (rule step [OF _ st_check]) (simp_all add: demo_pool_eval)
  then have "pool_reach demo_env (?D, (?i(0 := T_try True))(1 := T_wait 0))"
    by (rule step) (use st_destroy [where t = 1 and ts = "?i(0 := T_try True)"] in simp)
  then have "pool_reach demo_env (?D, ((?i(0 := T_try True))(1 := T_wait 0))(1 := T_free))"
    by (rule step [OF _ st_waited]) (simp_all add: demo_pool_eval)
  moreover have "Select_try ?D = (Some 1, snd (Select_try ?D))" by (simp add: Select_try_def demo_pool_eval)
  ultimately have "pool_reach demo_env (snd (Select_try ?D), (((?i(0 := T_try True))(1 := T_wait 0))(1 := T_free))(0 := T_using 1))"
    by (intro step [OF _ st_take [where b = True]]) auto
  moreover have "(((?i(0 := T_try True))(1 := T_wait 0))(1 := T_free))(0 := T_using 1) = ?i(0 := T_using 1, 1 := T_free)" by auto
  ultimately show ?thesis by (simp add: demo_race_def)
qed

text \<open>C34: When \<open>Destroy\<close> runs its last critical section, on any run of any number of threads, every connection
  that is idle then is closed and deleted, in the order of the list, in the state in which \<open>Close\<close> leaves it; the list
  of idle connections is empty afterwards; no connection in use is touched, so the threads that use one (after
  the 500 rounds, or because a \<open>Select\<close> that had passed its test took it after the last look at the used ones) still
  have it; and no deleted object is used.\<close>

theorem destroy_releases_idle:
  assumes "pool_reach env (P, ts)" "ts t = T_free"
  shows "pool_step env (P, ts) (Destroy_free P, ts(t := T_reset)) \<and> m_clsStandByList (Destroy_free P) = [] \<and>
    m_clsUseMap (Destroy_free P) = m_clsUseMap P \<and> \<not> fault (Destroy_free P) \<and>
    (\<forall>p. heap (Destroy_free P) p = (if p \<in> set (m_clsStandByList P) then None else heap P p)) \<and>
    (\<forall>u p. ts u = T_using p \<longrightarrow> heap (Destroy_free P) p \<noteq> None \<and> heap (Destroy_free P) p = heap P p) \<and>
    freed (Destroy_free P) = rev (map (\<lambda>p. (p, Close (the (heap P p)))) (m_clsStandByList P)) @ freed P"
proof -
  have ok: "pool_ok env P" and t: "threads_ok P ts" using pool_reach_ok [OF assms(1)] by simp_all
  note D = Destroy_free_ok [OF ok]
  have "p \<notin> set (m_clsStandByList P) \<and> heap P p \<noteq> None" if "ts u = T_using p" for u p
    using ok t that unfolding pool_ok_def lists_ok_def heap_ok_def threads_ok_def by blast
  then have "ts u = T_using p \<longrightarrow> heap (Destroy_free P) p \<noteq> None \<and> heap (Destroy_free P) p = heap P p" for u p
    using D(4) by simp
  moreover have "m_clsUseMap (Destroy_free P) = m_clsUseMap P" by (simp add: Destroy_free_def Destroy_loop_use)
  moreover have "\<not> fault (Destroy_free P)" using D(1) by (simp add: pool_ok_def heap_ok_def)
  ultimately show ?thesis using D(3,4) Destroy_free_freed [OF ok] st_free [of ts t env P] assms(2) by blast
qed

theorem destroy_releases_idle_witness:
  "m_clsStandByList (fst demo_race) = [2] \<and> snd demo_race 0 = T_using 1 \<and> heap (Destroy_free (fst demo_race)) 1 \<noteq> None \<and>
   heap (Destroy_free (fst demo_race)) 2 = None \<and> m_clsStandByList (Destroy_free (fst demo_race)) = []"
proof -
  have l: "m_clsStandByList (fst demo_race) = [2]" "snd demo_race 0 = T_using 1" "snd demo_race 1 = T_free"
    by (simp_all add: demo_race_def Select_try_def demo_pool_eval)
  have "pool_reach demo_env (fst demo_race, snd demo_race)" using demo_race_reach by simp
  from destroy_releases_idle [OF this l(3)]
  have h: "\<forall>u p. snd demo_race u = T_using p \<longrightarrow> heap (Destroy_free (fst demo_race)) p \<noteq> None"
    and d: "\<forall>p. heap (Destroy_free (fst demo_race)) p = (if p \<in> set (m_clsStandByList (fst demo_race)) then None else heap (fst demo_race) p)"
    and e: "m_clsStandByList (Destroy_free (fst demo_race)) = []" by blast+
  have "heap (Destroy_free (fst demo_race)) 1 \<noteq> None" using h l(2) by blast
  moreover have "heap (Destroy_free (fst demo_race)) 2 = None" using d l(1) by simp
  ultimately show ?thesis using l e by blast
qed

text \<open>A successful \<open>Create\<close> adds exactly \<open>iPoolCount\<close> connected objects to the idle list.\<close>

theorem create_fills_pool:
  assumes "Create env others n h u pw db port cs P = (True, P')"
  shows "0 < n \<and> length (m_clsStandByList P') = length (m_clsStandByList P) + nat n"
  using assms Create_loop_length by (fastforce simp: Create_def split: if_splits prod.splits)

theorem create_fills_pool_witness:
  "length (m_clsStandByList (snd (Create demo_env (\<lambda>_ P. P) 2 ''db'' ''u'' ''p'' ''test'' 3306 None CDbMySQLPool_new))) = 2"
proof -
  let ?r = "Create demo_env (\<lambda>_ P. P) 2 ''db'' ''u'' ''p'' ''test'' 3306 None CDbMySQLPool_new"
  have "fst ?r" by code_simp
  then have "?r = (True, snd ?r)" by (simp add: prod_eq_iff)
  from create_fills_pool [OF this] show ?thesis by (simp add: CDbMySQLPool_new_def)
qed

text \<open>When the connection of the first object fails, \<open>Create\<close> returns false but the object
  stays in memory in no list of the pool: \<open>Destroy\<close> cannot delete it.\<close>

theorem create_failure_leaks:
  assumes "pool_reach env (P, ts)" "m_clsUseMap P = []" "0 < n"
    and "Create_conn (env (next_ptr P)) h u pw db port cs P = (False, c)"
  shows "\<exists>P'. Create env alone n h u pw db port cs P = (False, P') \<and> heap P' (next_ptr P) = Some c \<and>
    m_clsStandByList P' = [] \<and> m_clsUseMap P' = []"
proof -
  let ?l = "(LOG_ERROR, ''pclsDB->Connect error - index('' @ show_int 0 @ '')'')"
  define P1 where "P1 = P\<lparr>heap := (heap P)(next_ptr P \<mapsto> c), next_ptr := next_ptr P + 1\<rparr>
    \<lparr>pool_logs := ?l # pool_logs P, m_bDestroy := True\<rparr>"
  have ok: "pool_ok env P" using pool_reach_ok [OF assms(1)] by simp
  have r: "reach (env (next_ptr P)) c"
    using Create_conn_reach [of "env (next_ptr P)" h u pw db port cs P] assms(4) by simp
  have ok1: "pool_ok env P1"
    using pool_ok_alloc(3) [OF ok r refl, of "?l # pool_logs P"] by (simp add: P1_def)
  obtain k where k: "nat n = Suc k" using assms(3) by (cases "nat n") auto
  have "Create env alone n h u pw db port cs P = (False, (Destroy_free P1)\<lparr>m_bDestroy := False\<rparr>)"
    using assms k by (simp add: Create_def Destroy_def Destroy_wait_idle P1_def Let_def alone_def)
  moreover have "next_ptr P \<notin> set (m_clsStandByList P1)"
    using ok by (auto simp: P1_def pool_ok_def heap_ok_def)
  ultimately show ?thesis
    using Destroy_free_ok [OF ok1] assms(2) by (simp add: use_set_def P1_def)
qed

theorem create_failure_leaks_witness:
  "\<exists>P' c. Create demo_down alone 2 ''db'' ''u'' ''p'' ''test'' 3306 None CDbMySQLPool_new = (False, P') \<and>
    heap P' 1 = Some c \<and> m_clsStandByList P' = []"
proof -
  let ?c = "Create_conn (demo_down 1) ''db'' ''u'' ''p'' ''test'' 3306 None CDbMySQLPool_new"
  have n: "next_ptr CDbMySQLPool_new = 1" "m_clsUseMap CDbMySQLPool_new = []" by (simp_all add: CDbMySQLPool_new_def)
  have "fst ?c = False" by code_simp
  then have "?c = (False, snd ?c)" by (simp add: prod_eq_iff)
  with create_failure_leaks [OF init n(2), of 2 demo_down] show ?thesis
    unfolding n(1) by (metis zero_less_numeral)
qed

text \<open>C8: \<open>Select\<close> with waiting returns if and only if, at some round of waiting, the other threads (which act
  during the sleeps) have left an idle connection or a running destruction in the pool. It then returns at the first
  such round: false and an unchanged pool for a destruction, and otherwise the first connection of the idle list, which
  has left this list and is in the map of the used ones; nothing else changes. Otherwise it does not return.\<close>

theorem select_returns_when_ready:
  "Select others True P =
     (if \<exists>k. ready (waited others k P) then Some (Select_now (waited others (LEAST k. ready (waited others k P)) P)) else None)"
proof (cases "\<exists>k. ready (waited others k P)")
  case True
  then obtain n where n: "ready (waited others n P)" "\<And>k. k < n \<Longrightarrow> \<not> ready (waited others k P)" "(LEAST k. ready (waited others k P)) = n"
    by (metis LeastI_ex not_less_Least)
  have "Select others True P = Some (Select_now (waited others n P))"
    using Select_loop_first [OF n(1,2) le0] n(2) [of 0]
    by (cases n) (auto simp: Select_def Select_now_def ready_def)
  then show ?thesis using True n(3) by simp
next
  case False
  then have "\<not> m_bDestroy P" "Select_loop others 0 True P = None"
    using Select_loop_never [of others P] by (auto simp: ready_def dest: spec [of _ 0])
  then show ?thesis using False by (simp add: Select_def)
qed

text \<open>\<open>Select\<close> with waiting does not return on a pool without idle connections when no
  other thread changes it; in particular after a completed \<open>Destroy\<close>, which resets
  \<open>m_bDestroy\<close>.\<close>

theorem select_after_destroy_waits: "Select (\<lambda>_ P. P) True (Destroy alone P) = None"
proof -
  have "m_clsStandByList (Destroy alone P) = []" "\<not> m_bDestroy (Destroy alone P)"
    by (simp_all add: Destroy_def Destroy_free_def alone_def Let_def)
  then show ?thesis by (simp add: Select_def Select_loop_waits)
qed

end
