(* ===== verification/PoolDemo.thy ===== *)
theory PoolDemo
  imports DbPoolThreads
begin

text \<open>
  TestDbMySQLPool/TestDbMySQLPool.cpp: the program that shows the use of the library, one thread, a connection of its
  own and then a pool of two. \<open>env0\<close> is the client library of the connection, \<open>env\<close> of those of the pool.
\<close>

record CTestData =
  m_strId :: string
  m_strName :: string

text \<open>The callback; \<open>None\<close> after a row with a NULL column, whose assignment to a string C++ does not define.\<close>

definition FetchTest :: "CTestData list option \<Rightarrow> mysql_row \<Rightarrow> bool \<times> CTestData list option" where
  "FetchTest pclsList sttRow = (case (pclsList, sttRow) of
     (Some l, Some sId # Some sName # _) \<Rightarrow> (True, Some (l @ [\<lparr>m_strId = sId, m_strName = sName\<rparr>]))
   | _ \<Rightarrow> (False, None))"

text \<open>The first part: the result is false when the connection fails, with the lines printed and the connection.\<close>

definition test_connection ::
    "libmysql \<Rightarrow> cstring \<Rightarrow> cstring \<Rightarrow> cstring \<Rightarrow> cstring \<Rightarrow> int \<Rightarrow> cstring option \<Rightarrow> bool \<Rightarrow> ((bool \<times> string list) \<times> conn) option" where
  "test_connection env ip user pw db port pszPluginPath bSecureAuth =
     (let c = (case pszPluginPath of None \<Rightarrow> CDbMySQLConnection_new | Some d \<Rightarrow> SetPluginDir d CDbMySQLConnection_new);
          (b, c) = Connect env ip user pw db port None (SetSecureAuth bSecureAuth c)
      in if \<not> b then Some ((False, [''clsDB.Connect error'' @ [LF]]), c)
      else Option.bind (QueryOne_arg env ''SELECT password(?)'' ''1234'' 50 [] c) (\<lambda>((_, strRes), c).
           Option.bind (Query env ''SELECT id, name FROM test'' (Some []) FetchTest c) (\<lambda>((_, l), c).
           map_option (\<lambda>l. ((True, (''['' @ cstr strRes @ '']'' @ [LF]) #
             map (\<lambda>d. ''id('' @ cstr (m_strId d) @ '') name('' @ cstr (m_strName d) @ '')'' @ [LF]) l), Close c)) l)))"

text \<open>What is done with the connection borrowed in the block of \<open>CAutoRelease\<close>.\<close>

definition test_borrowed :: "libmysql \<Rightarrow> conn \<Rightarrow> (unit \<times> conn) option" where
  "test_borrowed env c =
     (let (_, c) = Execute env ''INSERT INTO test( name ) VALUES( 'name_2' )'' (SetLogLevel LOG_SQL1 c);
          (_, c) = Insert env ''INSERT INTO test( id, name ) VALUES( NULL, 'test' )'' True (SetLogLevel LOG_SQL2 c)
      in map_option (\<lambda>(_, c). ((), snd (Execute env ''INSERT INTO test( name ) VALUES( 'name_3' )'' (SetLogLevel LOG_SQL c))))
           (Execute_args env ''INSERT INTO test( id, name ) VALUES( ?, ? )'' 2 [Some ''3'', Some ''new_name''] (SetLogLevel LOG_SQL3 c)))"

text \<open>The second part; nobody else uses the pool. The result is false when \<open>Create\<close> fails.\<close>

definition test_pool ::
    "(nat \<Rightarrow> libmysql) \<Rightarrow> cstring \<Rightarrow> cstring \<Rightarrow> cstring \<Rightarrow> cstring \<Rightarrow> int \<Rightarrow> cstring option \<Rightarrow> bool \<Rightarrow> int \<Rightarrow> (bool \<times> pool) option" where
  "test_pool env ip user pw db port pszPluginPath bSecureAuth iCount =
     (let P = (case pszPluginPath of None \<Rightarrow> CDbMySQLPool_new | Some d \<Rightarrow> Pool_SetPluginDir d CDbMySQLPool_new);
          (b, P) = Create env alone 2 ip user pw db port None (Pool_SetSecureAuth bSecureAuth P)
      in if \<not> b then Some (False, P)
      else Option.bind (Pool_Execute env alone ''DELETE FROM test'' P) (\<lambda>(_, P).
           Option.bind (Pool_Insert env alone ''INSERT INTO test( name ) VALUES( 'name_1' )'' True P) (\<lambda>(_, P).
           Option.bind (Pool_QueryOne_int env alone ''SELECT count(*) FROM test'' iCount P) (\<lambda>(_, P).
           map_option (\<lambda>(_, P). (True, Destroy alone P)) (with_conn env alone () test_borrowed P)))))"

text \<open>\<open>main\<close>: the exit status and the lines printed; \<open>None\<close> also stands for the use of \<open>argv[4]\<close> when it is NULL.\<close>

definition test_main :: "libmysql \<Rightarrow> (nat \<Rightarrow> libmysql) \<Rightarrow> int \<Rightarrow> cstring list \<Rightarrow> (int \<times> string list) option" where
  "test_main env0 env iCount argv =
     (if length argv < 4
      then Some (0, [''[Usage] '' @ argv ! 0 @ '' {db ip} {db user id} {db password} {db name} {db port} {plugin path} {SecureAuthOff}'' @ [LF]])
      else if length argv = 4 then None
      else let port = (if length argv > 5 then atoi (argv ! 5) else 3306);
               pszPluginPath = (if length argv > 6 then Some (argv ! 6) else None);
               bSecureAuth = (length argv \<le> 7)
      in Option.bind (test_connection env0 (argv ! 1) (argv ! 2) (argv ! 3) (argv ! 4) port pszPluginPath bSecureAuth) (\<lambda>((b, outs), c).
         if \<not> b then Some (0, outs)
         else map_option (\<lambda>(b, P). if b then (0, outs) else (- 1, outs @ [''clsPool.Create() error'' @ [LF]]))
           (test_pool env (argv ! 1) (argv ! 2) (argv ! 3) (argv ! 4) port pszPluginPath bSecureAuth iCount)))"

subsection \<open>What the program leaves\<close>

text \<open>Nobody holds a connection, and every object is in the list of idle ones.\<close>

definition resting :: "(nat \<Rightarrow> libmysql) \<Rightarrow> pool \<Rightarrow> bool" where
  "resting env P \<longleftrightarrow> pool_ok env P \<and> m_clsUseMap P = [] \<and> \<not> m_bDestroy P \<and> m_clsStandByList P \<noteq> [] \<and>
     (\<forall>p. heap P p \<noteq> None \<longleftrightarrow> p \<in> set (m_clsStandByList P))"

lemma with_conn_resting:
  assumes "resting env P" and "with_conn env others fail op P = Some (r, P')"
    and op: "\<And>p c r c'. reach (env p) c \<Longrightarrow> op (env p) c = Some (r, c') \<Longrightarrow> reach (env p) c'"
  shows "resting env P' \<and> length (m_clsStandByList P') = length (m_clsStandByList P) \<and> freed P' = freed P"
proof -
  obtain p ps where l: "m_clsStandByList P = p # ps" using assms(1) by (auto simp: resting_def neq_Nil_conv)
  have ok: "pool_ok env P" and d: "\<not> m_bDestroy P" using assms(1) by (simp_all add: resting_def)
  obtain c where c: "heap P p = Some c" using head_alive [OF ok l] by blast
  obtain r' c' where o: "op (env p) c = Some (r', c')"
    using assms(2) c by (cases "op (env p) c") (auto simp: with_conn_def Select_immediate [OF l d])
  have P': "P' = P\<lparr>m_clsStandByList := ps @ [p], heap := (heap P)(p \<mapsto> c')\<rparr>"
    using assms(2) with_conn_immediate [where op = op and env = env and others = others and fail = fail, OF ok l d c o] by simp
  have "reach (env p) c" using ok c by (simp add: pool_ok_def heap_ok_def)
  then have "reach (env p) c'" using o by (rule op)
  then have "pool_ok env P'" using ok l unfolding P' pool_ok_def lists_ok_def heap_ok_def by (auto simp: use_set_def)
  then show ?thesis using assms(1) l unfolding P' resting_def by auto
qed

lemma reach_ops:
  assumes "reach env c"
  shows "reach env (snd (Execute env q c))" "reach env (snd (Insert env q b c))" "reach env (snd (QueryOne_int env q c))"
    "reach env (SetLogLevel l c)" "Execute_args env q n args c = Some r \<Longrightarrow> reach env (snd r)"
proof -
  show "reach env (snd (QueryOne_int env q c))"
    using reach_step [OF assms, of "A_QueryOne q"] by (simp add: QueryOne_int_def case_prod_beta)
qed (use reach_step [OF assms, of "A_Execute q"] reach_step [OF assms, of "A_Insert q b"] reach_step [OF assms, of "A_SetLogLevel l"]
    reach_step [OF assms, of "A_Execute_args q n args"] in simp_all)

lemma reach_results:
  "reach env c \<Longrightarrow> Execute env q c = (r, c') \<Longrightarrow> reach env c'" "reach env c \<Longrightarrow> Insert env q b c = (s, c') \<Longrightarrow> reach env c'"
  "reach env c \<Longrightarrow> QueryOne_int env q c = (t, c') \<Longrightarrow> reach env c'"
  using reach_ops by (metis snd_conv)+

lemma test_borrowed_reach: "reach env c \<Longrightarrow> test_borrowed env c = Some (r, c') \<Longrightarrow> reach env c'"
  by (auto simp: test_borrowed_def case_prod_beta Let_def intro!: reach_ops(1-4) dest!: reach_ops(5) [rotated])

lemma Create_loop_owned:
  "Create_loop env h u pw db n cs i k P = (True, P') \<Longrightarrow> (\<forall>p. heap P p \<noteq> None \<longleftrightarrow> p \<in> set (m_clsStandByList P)) \<Longrightarrow>
    (\<forall>p. heap P' p \<noteq> None \<longleftrightarrow> p \<in> set (m_clsStandByList P')) \<and> freed P' = freed P"
proof (induction k arbitrary: i P)
  case (Suc k)
  then show ?case by (cases "Create_conn (env (next_ptr P)) h u pw db n cs P") (fastforce simp: Let_def split: if_splits)
qed simp

lemma create_resting:
  assumes "Create env others 2 h u pw db port cs P = (True, P')" and "P = CDbMySQLPool_new\<lparr>pool_strPluginDir := d, pool_bSecureAuth := b\<rparr>"
  shows "resting env P' \<and> length (m_clsStandByList P') = 2 \<and> freed P' = []"
proof -
  have new: "m_clsUseMap P = []" "\<not> m_bDestroy P" "m_clsStandByList P = []" "heap P = Map.empty" "freed P = []"
    by (simp_all add: assms(2) CDbMySQLPool_new_def)
  have ok: "pool_ok env P"
    using pool_ok_new [of env] by (simp add: assms(2) pool_ok_def lists_ok_def heap_ok_def use_set_def)
  have C: "Create_loop env h u pw db port cs 0 2 P = (True, P')"
    using assms(1) by (auto simp: Create_def split: prod.splits if_splits)
  have "m_clsStandByList P' \<noteq> []" using Create_loop_length [OF C] by auto
  then show ?thesis
    using Create_loop_ok [OF ok C] Create_loop_length [OF C] Create_loop_owned [OF C] new by (simp add: resting_def)
qed

text \<open>When the second part succeeds, both connections of the pool have been closed and deleted, and nothing else was
  created.\<close>

lemma test_pool_releases:
  assumes "test_pool env ip user pw db port pl sec n = Some (True, P)"
  shows "heap P = Map.empty \<and> \<not> fault P \<and> length (freed P) = 2 \<and> (\<forall>(p, c) \<in> set (freed P). reach (env p) c \<and> \<not> m_bConnected c)"
proof -
  define P0 where "P0 = Pool_SetSecureAuth sec (case pl of None \<Rightarrow> CDbMySQLPool_new | Some d \<Rightarrow> Pool_SetPluginDir d CDbMySQLPool_new)"
  obtain P1 P2 P3 P4 P5 r2 r3 r4 r5 where C: "Create env alone 2 ip user pw db port None P0 = (True, P1)"
    and s: "Pool_Execute env alone ''DELETE FROM test'' P1 = Some (r2, P2)"
      "Pool_Insert env alone ''INSERT INTO test( name ) VALUES( 'name_1' )'' True P2 = Some (r3, P3)"
      "Pool_QueryOne_int env alone ''SELECT count(*) FROM test'' n P3 = Some (r4, P4)"
      "with_conn env alone () test_borrowed P4 = Some (r5, P5)" and P: "P = Destroy alone P5"
    using assms [unfolded test_pool_def Let_def, folded P0_def]
    by (auto simp: bind_eq_Some_conv split: prod.splits if_splits intro: that)
  have "P0 = CDbMySQLPool_new\<lparr>pool_strPluginDir := case pl of None \<Rightarrow> [] | Some d \<Rightarrow> d, pool_bSecureAuth := sec\<rparr>"
    by (simp add: P0_def Pool_SetSecureAuth_def Pool_SetPluginDir_def CDbMySQLPool_new_def split: option.split)
  note r1 = create_resting [OF C this]
  have r2: "resting env P2 \<and> length (m_clsStandByList P2) = 2 \<and> freed P2 = []"
    using with_conn_resting [OF _ s(1) [unfolded Pool_Execute_def]] r1 reach_results(1) by auto
  have r3: "resting env P3 \<and> length (m_clsStandByList P3) = 2 \<and> freed P3 = []"
    using with_conn_resting [OF _ s(2) [unfolded Pool_Insert_def]] r2 reach_results(2) by auto
  have r4: "resting env P4 \<and> length (m_clsStandByList P4) = 2 \<and> freed P4 = []"
    using with_conn_resting [OF _ s(3) [unfolded Pool_QueryOne_int_def]] r3 reach_results(3) by auto
  have r5: "resting env P5 \<and> length (m_clsStandByList P5) = 2 \<and> freed P5 = []"
    using with_conn_resting [OF _ s(4)] r4 test_borrowed_reach by auto
  then have "heap P p = None" for p
    using Destroy_idle [of env P5] unfolding P by (auto simp: resting_def)
  then show ?thesis using Destroy_idle [of env P5] r5 unfolding P by (auto simp: resting_def pool_ok_def heap_ok_def)
qed

text \<open>With three arguments the program passes the check of their number and uses \<open>argv[4]\<close>, which is NULL.\<close>

lemma test_main_null_argument: "length argv = 4 \<Longrightarrow> test_main env0 env n argv = None"
  by (simp add: test_main_def)

end
