(* ===== verification/DbThread.thy ===== *)
theory DbThread
  imports DbQueue DbConnectionSpec
begin

text \<open>
  DbMySQLPool/DbMySQLThread.cpp: the worker threads that take statements from the SQL queue
  and execute them on a connection of their own. \<open>StartThread\<close> (the creation of a system
  thread) is the parameter \<open>start_ok\<close>.
\<close>

subsection \<open>The worker\<close>

text \<open>The execution of a statement that was taken. One without arguments is passed to
  \<open>Execute( sql, true )\<close>: overload resolution selects the variadic
  \<open>Execute( const char *, int, ... )\<close> with an argument count of 1 and no arguments, so that
  the round is undefined (\<open>None\<close>) once the loop over the arguments is reached.\<close>

definition worker_exec :: "libmysql \<Rightarrow> CDbMySQLQueueData \<Rightarrow> conn \<Rightarrow> conn option" where
  "worker_exec env clsData c =
     (if m_clsArgList clsData = [] then map_option snd (Execute_args env (cstr (m_strSQL clsData)) 1 [] c)
      else Some (snd (Execute_list env (cstr (m_strSQL clsData)) (m_clsArgList clsData) c)))"

text \<open>One round of the loop.\<close>

definition worker_round :: "libmysql \<Rightarrow> conn \<times> CDbMySQLQueue \<Rightarrow> (conn \<times> CDbMySQLQueue) option" where
  "worker_round env s =
     (let (c, q) = s; (r, q) = Queue_Select False q q
      in case r of None \<Rightarrow> Some (c, q) | Some clsData \<Rightarrow> map_option (\<lambda>c. (c, q)) (worker_exec env clsData c))"

text \<open>The worker when \<open>gbStopThread\<close> is first seen at the test after \<open>n\<close> rounds; \<open>others i\<close> is what
  producers and other workers do to the queue before the next round. The connection is
  closed and deleted at the end.\<close>

fun DbMySQLThread :: "libmysql \<Rightarrow> (nat \<Rightarrow> CDbMySQLQueue \<Rightarrow> CDbMySQLQueue) \<Rightarrow> nat \<Rightarrow> conn \<times> CDbMySQLQueue \<Rightarrow> (conn \<times> CDbMySQLQueue) option" where
  "DbMySQLThread env others 0 (c, q) = Some (Close c, q)"
| "DbMySQLThread env others (Suc n) s =
     (case worker_round env s of None \<Rightarrow> None
      | Some (c, q) \<Rightarrow> DbMySQLThread env others n (c, others n q))"

subsection \<open>Starting and stopping\<close>

text \<open>The globals of the file; \<open>workers\<close> are the connections handed to started threads,
  \<open>lost\<close> those that a failed start leaves behind.\<close>

record thread_globals =
  gbStopThread :: bool
  giThreadCount :: int
  workers :: "conn list"
  lost :: "conn list"

definition StartDbMySQLThread_conn :: "bool \<Rightarrow> conn \<Rightarrow> thread_globals \<Rightarrow> bool \<times> thread_globals" where
  "StartDbMySQLThread_conn start_ok c G =
     (let G = G\<lparr>gbStopThread := False\<rparr>
      in if start_ok then (True, G\<lparr>workers := workers G @ [c]\<rparr>) else (False, G\<lparr>lost := lost G @ [c]\<rparr>))"

definition StopDbMySQLThread :: "thread_globals \<Rightarrow> thread_globals" where
  "StopDbMySQLThread G = G\<lparr>gbStopThread := True\<rparr>"

definition IsDbMySQLThreadRun :: "thread_globals \<Rightarrow> bool" where
  "IsDbMySQLThreadRun G \<longleftrightarrow> 0 < giThreadCount G"

text \<open>The loop of \<open>StartDbMySQLThread\<close> with \<open>n\<close> threads to go; the result is \<open>bError\<close>. The result of
  \<open>Connect\<close> is ignored.\<close>

fun Start_loop :: "(nat \<Rightarrow> libmysql) \<Rightarrow> (nat \<Rightarrow> bool) \<Rightarrow> cstring \<Rightarrow> cstring \<Rightarrow> cstring \<Rightarrow> cstring \<Rightarrow> int \<Rightarrow> cstring option \<Rightarrow> nat \<Rightarrow> nat \<Rightarrow> thread_globals \<Rightarrow> bool \<times> thread_globals" where
  "Start_loop env start_ok host user pw db port cs i 0 G = (False, G)"
| "Start_loop env start_ok host user pw db port cs i (Suc n) G =
     (let (_, c) = Connect (env i) host user pw db port cs CDbMySQLConnection_new;
          (b, G) = StartDbMySQLThread_conn (start_ok i) c G
      in if \<not> b then (True, G) else Start_loop env start_ok host user pw db port cs (Suc i) n G)"

definition StartDbMySQLThread where
  "StartDbMySQLThread env start_ok iThreadCount host user pw db port cs G =
     (let (bError, G) = Start_loop env start_ok host user pw db port cs 0 (nat iThreadCount) G
      in if bError then (True, StopDbMySQLThread G) else (True, G))"

text \<open>The life of the workers: not yet running, counted, finished. The counter changes under
  \<open>gclsMutex\<close>.\<close>

datatype phase = W_new | W_run | W_done

inductive phase_step :: "int \<times> phase list \<Rightarrow> int \<times> phase list \<Rightarrow> bool" where
  ph_start: "phase_step (n, ps) (n, ps @ [W_new])"
| ph_enter: "i < length ps \<Longrightarrow> ps ! i = W_new \<Longrightarrow> phase_step (n, ps) (n + 1, ps[i := W_run])"
| ph_leave: "i < length ps \<Longrightarrow> ps ! i = W_run \<Longrightarrow> phase_step (n, ps) (n - 1, ps[i := W_done])"

inductive phase_reach :: "int \<times> phase list \<Rightarrow> bool" where
  ph_init: "phase_reach (0, [])"
| ph_step: "phase_reach s \<Longrightarrow> phase_step s s' \<Longrightarrow> phase_reach s'"

lemma count_update:
  "i < length ps \<Longrightarrow> int (count_list (ps[i := p]) x) = int (count_list ps x) - of_bool (ps ! i = x) + of_bool (p = x)"
proof (induction ps arbitrary: i)
  case (Cons a ps)
  then show ?case by (cases i) auto
qed simp

lemma phase_count: "phase_reach s \<Longrightarrow> fst s = int (count_list (snd s) W_run)"
proof (induction rule: phase_reach.induct)
  case (ph_step s s')
  from ph_step(2) ph_step.IH show ?case by cases (auto simp: count_update)
qed simp

subsection \<open>The queue in order\<close>

definition run_item :: "libmysql \<Rightarrow> CDbMySQLQueueData \<Rightarrow> conn \<Rightarrow> conn" where
  "run_item env d c = snd (Execute_list env (cstr (m_strSQL d)) (m_clsArgList d) c)"

lemma DbMySQLThread_drains:
  "\<forall>d\<in>set (m_clsList q). m_clsArgList d \<noteq> [] \<Longrightarrow> length (m_clsList q) \<le> n \<Longrightarrow>
    \<exists>q'. DbMySQLThread env (\<lambda>_ q. q) n (c, q) = Some (Close (fold (run_item env) (m_clsList q) c), q') \<and> m_clsList q' = []"
proof (induction n arbitrary: c q)
  case (Suc n)
  show ?case
  proof (cases "m_clsList q")
    case Nil
    with Suc.IH [of q c] show ?thesis by (simp add: worker_round_def worker_exec_def Queue_Select_def)
  next
    case (Cons d ds)
    with Suc.IH [of "q\<lparr>m_clsList := ds\<rparr>" "run_item env d c"] Suc.prems show ?thesis
      by (simp add: worker_round_def worker_exec_def Queue_Select_def run_item_def)
  qed
qed simp

subsection \<open>Properties\<close>

text \<open>A worker that has time for all the statements of the queue executes them in the
  order of the queue, each with its arguments on the worker's connection, and then closes
  the connection; every statement must have arguments.\<close>

theorem worker_executes_in_order:
  assumes "\<forall>d\<in>set (m_clsList q). m_clsArgList d \<noteq> []" "length (m_clsList q) \<le> n"
  shows "\<exists>q'. DbMySQLThread env (\<lambda>_ q. q) n (c, q) = Some (Close (fold (run_item env) (m_clsList q) c), q') \<and>
    m_clsList q' = []"
  using DbMySQLThread_drains [OF assms] .

theorem worker_executes_in_order_witness:
  "let q = CDbMySQLQueue_new\<lparr>m_clsList := [\<lparr>m_strSQL = ''a ?'', m_clsArgList = [''1'']\<rparr>, \<lparr>m_strSQL = ''b ?'', m_clsArgList = [''2'']\<rparr>]\<rparr>
   in \<exists>q'. DbMySQLThread demo_db (\<lambda>_ q. q) 3 (demo_conn, q) = Some (Close (fold (run_item demo_db) (m_clsList q) demo_conn), q')"
proof -
  let ?q = "CDbMySQLQueue_new\<lparr>m_clsList := [\<lparr>m_strSQL = ''a ?'', m_clsArgList = [''1'']\<rparr>, \<lparr>m_strSQL = ''b ?'', m_clsArgList = [''2'']\<rparr>]\<rparr>"
  have "\<forall>d\<in>set (m_clsList ?q). m_clsArgList d \<noteq> []" "length (m_clsList ?q) \<le> 3" by simp_all
  from worker_executes_in_order [OF this, of demo_db demo_conn] show ?thesis unfolding Let_def by blast
qed

text \<open>A statement without arguments is never executed: once it is prepared, the worker reads
  a variadic argument that was not passed, and the round has no defined result.\<close>

theorem worker_plain_undefined:
  assumes "m_clsList q = d # ds" "m_clsArgList d = []" "fst (Prepare env (cstr (m_strSQL d)) c)"
  shows "worker_round env (c, q) = None"
  using assms by (cases "Prepare env (cstr (m_strSQL d)) c")
    (simp add: worker_round_def worker_exec_def Queue_Select_def Execute_args_def)

theorem worker_plain_undefined_witness:
  "worker_round demo_db (demo_conn, CDbMySQLQueue_new\<lparr>m_clsList := [\<lparr>m_strSQL = ''delete from t'', m_clsArgList = []\<rparr>]\<rparr>) = None"
proof -
  have "fst (Prepare demo_db (cstr ''delete from t'') demo_conn)" by code_simp
  then show ?thesis
    using worker_plain_undefined [of "CDbMySQLQueue_new\<lparr>m_clsList := [\<lparr>m_strSQL = ''delete from t'', m_clsArgList = []\<rparr>]\<rparr>"
        "\<lparr>m_strSQL = ''delete from t'', m_clsArgList = []\<rparr>" "[]" demo_db demo_conn] by simp
qed

text \<open>\<open>StartDbMySQLThread\<close> returns true in every case, also when a thread could not be started;
  then it has asked the started ones to stop, and the connection is lost.\<close>

theorem start_threads_result:
  "fst (StartDbMySQLThread env start_ok n h u pw db port cs G) \<and>
   (if \<exists>i<nat n. \<not> start_ok i then gbStopThread (snd (StartDbMySQLThread env start_ok n h u pw db port cs G))
    else length (workers (snd (StartDbMySQLThread env start_ok n h u pw db port cs G))) = length (workers G) + nat n)"
proof -
  have "(if \<exists>j<k. \<not> start_ok (i + j) then fst (Start_loop env start_ok h u pw db port cs i k G)
     else \<not> fst (Start_loop env start_ok h u pw db port cs i k G) \<and>
       length (workers (snd (Start_loop env start_ok h u pw db port cs i k G))) = length (workers G) + k)" for i k
  proof (induction k arbitrary: i G)
    case (Suc k)
    have e: "(\<exists>j<Suc k. \<not> start_ok (i + j)) \<longleftrightarrow> \<not> start_ok i \<or> (\<exists>j<k. \<not> start_ok (Suc i + j))"
      by (auto simp: Ex_less_Suc2)
    show ?case
      using Suc.IH [of "Suc i"] unfolding e
      by (cases "start_ok i") (auto simp: StartDbMySQLThread_conn_def Let_def case_prod_beta)
  qed simp
  from this [of "nat n" 0] show ?thesis
    by (auto simp: StartDbMySQLThread_def StopDbMySQLThread_def case_prod_beta split: if_splits)
qed

text \<open>\<open>giThreadCount\<close> counts the running workers, so that \<open>IsDbMySQLThreadRun\<close> is false exactly
  when none runs, for every interleaving of starts, entries and exits.\<close>

theorem thread_count_exact:
  assumes "phase_reach (giThreadCount G, ps)"
  shows "IsDbMySQLThreadRun G \<longleftrightarrow> W_run \<in> set ps"
  using phase_count [OF assms] by (simp add: IsDbMySQLThreadRun_def count_list_0_iff flip: neq0_conv)

theorem thread_count_exact_witness:
  "phase_reach (1, [W_run]) \<and> IsDbMySQLThreadRun \<lparr>gbStopThread = False, giThreadCount = 1, workers = [], lost = []\<rparr>"
proof -
  have "phase_reach (0, [W_new])" using ph_step [OF ph_init ph_start] by simp
  from ph_step [OF this ph_enter [of 0]] have r: "phase_reach (1, [W_run])" by simp
  then show ?thesis
    using thread_count_exact [of "\<lparr>gbStopThread = False, giThreadCount = 1, workers = [], lost = []\<rparr>" "[W_run]"] by simp
qed

end
