(* ===== verification/WorkerSystem.thy ===== *)
theory WorkerSystem
  imports DbThread
begin

text \<open>
  The queue and any number of workers together, for every interleaving with the threads that insert
  statements, start workers and stop them. A step is a critical section of the queue or of the counter, an access to
  \<open>gbStopThread\<close>, or the execution of a statement, which only the worker's own connection sees.
\<close>

text \<open>A worker: not yet running; before the test of the loop; before \<open>Select\<close>; with a statement that it took;
  stopped, with its connection closed; finished; in an execution that C++ does not define.\<close>

datatype wstate = WS_new | WS_loop | WS_try | WS_hold CDbMySQLQueueData | WS_closed | WS_gone | WS_undefined

text \<open>Ghost fields: the connections when the workers were started, the statements that the queue accepted, and
  who took which statement.\<close>

record wsys =
  ws_queue :: CDbMySQLQueue
  ws_stop :: bool
  ws_count :: int
  ws_threads :: "(wstate \<times> conn) list"
  ws_first :: "conn list"
  ws_accepted :: "CDbMySQLQueueData list"
  ws_taken :: "(nat \<times> CDbMySQLQueueData) list"

definition wsys_new :: wsys where
  "wsys_new = \<lparr>ws_queue = CDbMySQLQueue_new, ws_stop = False, ws_count = 0, ws_threads = [], ws_first = [],
     ws_accepted = [], ws_taken = []\<rparr>"

definition at :: "wsys \<Rightarrow> nat \<Rightarrow> wstate \<Rightarrow> conn \<Rightarrow> bool" where
  "at W t st c \<longleftrightarrow> t < length (ws_threads W) \<and> ws_threads W ! t = (st, c)"

definition move :: "nat \<Rightarrow> wstate \<Rightarrow> conn \<Rightarrow> wsys \<Rightarrow> wsys" where
  "move t st c W = W\<lparr>ws_threads := (ws_threads W)[t := (st, c)]\<rparr>"

inductive worker_step :: "(nat \<Rightarrow> libmysql) \<Rightarrow> wsys \<Rightarrow> wsys \<Rightarrow> bool" for env where
  ws_insert: "Insert_data d s (ws_queue W) = ((b, l), q) \<Longrightarrow>
    worker_step env W (W\<lparr>ws_queue := q, ws_accepted := ws_accepted W @ (if b then [d] else [])\<rparr>)"
| ws_start: "worker_step env W (W\<lparr>ws_stop := False, ws_threads := ws_threads W @ [(WS_new, c)], ws_first := ws_first W @ [c]\<rparr>)"
| ws_stops: "worker_step env W (W\<lparr>ws_stop := True\<rparr>)"
| ws_enter: "at W t WS_new c \<Longrightarrow> worker_step env W ((move t WS_loop c W)\<lparr>ws_count := ws_count W + 1\<rparr>)"
| ws_test: "at W t WS_loop c \<Longrightarrow> \<not> ws_stop W \<Longrightarrow> worker_step env W (move t WS_try c W)"
| ws_take: "at W t WS_try c \<Longrightarrow> Queue_Select False (ws_queue W) (ws_queue W) = (Some d, q) \<Longrightarrow>
    worker_step env W ((move t (WS_hold d) c W)\<lparr>ws_queue := q, ws_taken := ws_taken W @ [(t, d)]\<rparr>)"
| ws_empty: "at W t WS_try c \<Longrightarrow> Queue_Select False (ws_queue W) (ws_queue W) = (None, q) \<Longrightarrow>
    worker_step env W ((move t WS_loop c W)\<lparr>ws_queue := q\<rparr>)"
| ws_exec: "at W t (WS_hold d) c \<Longrightarrow> worker_exec (env t) d c = Some c' \<Longrightarrow> worker_step env W (move t WS_loop c' W)"
| ws_undefined: "at W t (WS_hold d) c \<Longrightarrow> worker_exec (env t) d c = None \<Longrightarrow> worker_step env W (move t WS_undefined c W)"
| ws_close: "at W t WS_loop c \<Longrightarrow> ws_stop W \<Longrightarrow> worker_step env W (move t WS_closed (Close c) W)"
| ws_leave: "at W t WS_closed c \<Longrightarrow> worker_step env W ((move t WS_gone c W)\<lparr>ws_count := ws_count W - 1\<rparr>)"

inductive worker_reach :: "(nat \<Rightarrow> libmysql) \<Rightarrow> wsys \<Rightarrow> bool" for env where
  wr_init: "worker_reach env wsys_new"
| wr_step: "worker_reach env W \<Longrightarrow> worker_step env W W' \<Longrightarrow> worker_reach env W'"

subsection \<open>The invariant\<close>

text \<open>The statements that worker \<open>t\<close> took, and their execution one after the other.\<close>

definition own :: "nat \<Rightarrow> (nat \<times> CDbMySQLQueueData) list \<Rightarrow> CDbMySQLQueueData list" where
  "own t taken = map snd (filter (\<lambda>p. fst p = t) taken)"

fun run_all :: "libmysql \<Rightarrow> CDbMySQLQueueData list \<Rightarrow> conn \<Rightarrow> conn option" where
  "run_all env [] c = Some c"
| "run_all env (d # ds) c = (case worker_exec env d c of None \<Rightarrow> None | Some c \<Rightarrow> run_all env ds c)"

text \<open>A worker's connection is its first connection after its statements in the order in which it took them,
  but for the one it holds.\<close>

fun worker_ok :: "libmysql \<Rightarrow> CDbMySQLQueueData list \<Rightarrow> conn \<Rightarrow> wstate \<times> conn \<Rightarrow> bool" where
  "worker_ok env ds c0 (WS_new, c) \<longleftrightarrow> ds = [] \<and> c = c0"
| "worker_ok env ds c0 (WS_loop, c) \<longleftrightarrow> run_all env ds c0 = Some c"
| "worker_ok env ds c0 (WS_try, c) \<longleftrightarrow> run_all env ds c0 = Some c"
| "worker_ok env ds c0 (WS_hold d, c) \<longleftrightarrow> ds \<noteq> [] \<and> last ds = d \<and> run_all env (butlast ds) c0 = Some c"
| "worker_ok env ds c0 (WS_closed, c) \<longleftrightarrow> (\<exists>c1. run_all env ds c0 = Some c1 \<and> c = Close c1)"
| "worker_ok env ds c0 (WS_gone, c) \<longleftrightarrow> (\<exists>c1. run_all env ds c0 = Some c1 \<and> c = Close c1)"
| "worker_ok env ds c0 (WS_undefined, c) \<longleftrightarrow> run_all env ds c0 = None"

definition counted :: "wstate \<times> conn \<Rightarrow> bool" where
  "counted p \<longleftrightarrow> fst p \<notin> {WS_new, WS_gone}"

definition workers_inv :: "(nat \<Rightarrow> libmysql) \<Rightarrow> wsys \<Rightarrow> bool" where
  "workers_inv env W \<longleftrightarrow>
     ws_accepted W = map snd (ws_taken W) @ m_clsList (ws_queue W) \<and>
     length (ws_first W) = length (ws_threads W) \<and> (\<forall>p \<in> set (ws_taken W). fst p < length (ws_threads W)) \<and>
     (\<forall>t < length (ws_threads W). worker_ok (env t) (own t (ws_taken W)) (ws_first W ! t) (ws_threads W ! t)) \<and>
     ws_count W = int (length (filter counted (ws_threads W)))"

lemma run_all_append: "run_all env (ds @ es) c = (case run_all env ds c of None \<Rightarrow> None | Some c \<Rightarrow> run_all env es c)"
  by (induction ds arbitrary: c) (auto split: option.split)

lemma run_all_snoc:
  "ds \<noteq> [] \<Longrightarrow> last ds = d \<Longrightarrow> run_all env (butlast ds) c0 = Some c \<Longrightarrow> run_all env ds c0 = worker_exec env d c"
  using run_all_append [of env "butlast ds" "[d]" c0] append_butlast_last_id [of ds] by (simp split: option.split)

lemma own_snoc: "own t (taken @ [(t', d)]) = own t taken @ (if t' = t then [d] else [])"
  by (simp add: own_def)

lemma count_move:
  "t < length ps \<Longrightarrow> int (length (filter f (ps[t := p]))) = int (length (filter f ps)) - of_bool (f (ps ! t)) + of_bool (f p)"
proof (induction ps arbitrary: t)
  case (Cons a ps)
  then show ?case by (cases t) auto
qed simp

text \<open>A worker moves on and nothing else changes.\<close>

lemma move_inv:
  assumes "workers_inv env W" and "at W t st c"
    and "worker_ok (env t) (own t (ws_taken W)) (ws_first W ! t) (st, c) \<Longrightarrow> worker_ok (env t) (own t (ws_taken W)) (ws_first W ! t) (st', c')"
    and "n = ws_count W - of_bool (counted (st, c)) + of_bool (counted (st', c'))"
  shows "workers_inv env ((move t st' c' W)\<lparr>ws_count := n\<rparr>)"
proof -
  have t: "t < length (ws_threads W)" "ws_threads W ! t = (st, c)" using assms(2) by (auto simp: at_def)
  then have "worker_ok (env t) (own t (ws_taken W)) (ws_first W ! t) (st, c)" using assms(1) by (auto simp: workers_inv_def)
  then show ?thesis
    using assms(1,3,4) t by (auto simp: workers_inv_def move_def count_move nth_list_update)
qed

lemma move_same_count:
  assumes "workers_inv env W" and "at W t st c"
    and "worker_ok (env t) (own t (ws_taken W)) (ws_first W ! t) (st, c) \<Longrightarrow> worker_ok (env t) (own t (ws_taken W)) (ws_first W ! t) (st', c')"
    and "counted (st, c) = counted (st', c')"
  shows "workers_inv env (move t st' c' W)"
proof -
  have "(move t st' c' W)\<lparr>ws_count := ws_count W\<rparr> = move t st' c' W" by (simp add: move_def)
  then show ?thesis using move_inv [OF assms(1-3), of "ws_count W"] assms(4) by simp
qed

lemma worker_step_inv:
  assumes "worker_step env W W'" and "workers_inv env W"
  shows "workers_inv env W'"
  using assms(1)
proof cases
  case (ws_insert d s b l q)
  then have "m_clsList q = m_clsList (ws_queue W) @ (if b then [d] else [])"
    by (auto simp: Insert_data_def Let_def split: if_splits)
  then show ?thesis using assms(2) ws_insert(1) by (simp add: workers_inv_def)
next
  case (ws_start c)
  have "own (length (ws_threads W)) (ws_taken W) = []"
    using assms(2) by (auto simp: workers_inv_def own_def filter_empty_conv)
  then show ?thesis using assms(2) ws_start by (auto simp: workers_inv_def nth_append less_Suc_eq counted_def)
next
  case ws_stops
  then show ?thesis using assms(2) by (simp add: workers_inv_def)
next
  case (ws_enter t c)
  show ?thesis unfolding ws_enter(1) by (rule move_inv [OF assms(2) ws_enter(2)]) (auto simp: counted_def)
next
  case (ws_test t c)
  show ?thesis unfolding ws_test(1) by (rule move_same_count [OF assms(2) ws_test(2)]) (auto simp: counted_def)
next
  case (ws_take t c d q)
  have l: "m_clsList (ws_queue W) = d # m_clsList q" using ws_take(3) by (auto simp: Queue_Select_def Let_def split: list.splits)
  have t: "t < length (ws_threads W)" "ws_threads W ! t = (WS_try, c)" using ws_take(2) by (auto simp: at_def)
  show ?thesis
    using assms(2) t l unfolding ws_take(1) workers_inv_def
    by (auto simp: move_def own_snoc nth_list_update count_move counted_def)
next
  case (ws_empty t c q)
  have "q = ws_queue W" using ws_empty(3) by (auto simp: Queue_Select_def Let_def split: list.splits)
  then have "W' = move t WS_loop c W" using ws_empty(1) by (simp add: move_def)
  then show ?thesis using move_same_count [OF assms(2) ws_empty(2), of WS_loop c] by (simp add: counted_def)
next
  case (ws_exec t d c c')
  show ?thesis unfolding ws_exec(1)
    by (rule move_same_count [OF assms(2) ws_exec(2)]) (use ws_exec(3) run_all_snoc in \<open>auto simp: counted_def\<close>)
next
  case (ws_undefined t d c)
  show ?thesis unfolding ws_undefined(1)
    by (rule move_same_count [OF assms(2) ws_undefined(2)]) (use ws_undefined(3) run_all_snoc in \<open>auto simp: counted_def\<close>)
next
  case (ws_close t c)
  show ?thesis unfolding ws_close(1) by (rule move_same_count [OF assms(2) ws_close(2)]) (auto simp: counted_def)
next
  case (ws_leave t c)
  show ?thesis unfolding ws_leave(1) by (rule move_inv [OF assms(2) ws_leave(2)]) (auto simp: counted_def)
qed

lemma worker_reach_inv: "worker_reach env W \<Longrightarrow> workers_inv env W"
proof (induction rule: worker_reach.induct)
  case wr_init
  show ?case by (simp add: workers_inv_def wsys_new_def CDbMySQLQueue_new_def)
qed (rule worker_step_inv)

subsection \<open>Properties\<close>

text \<open>Starting a worker resets \<open>gbStopThread\<close>: another worker that was asked to stop and has not looked yet goes
  on.\<close>

lemma restart_cancels_stop:
  assumes "at W t WS_loop c"
  shows "\<exists>W1 W2 W3. worker_step env W W1 \<and> ws_stop W1 \<and> worker_step env W1 W2 \<and> worker_step env W2 W3 \<and> at W3 t WS_try c"
proof -
  let ?W1 = "W\<lparr>ws_stop := True\<rparr>"
  let ?W2 = "?W1\<lparr>ws_stop := False, ws_threads := ws_threads ?W1 @ [(WS_new, c)], ws_first := ws_first ?W1 @ [c]\<rparr>"
  have "at ?W2 t WS_loop c" using assms by (simp add: at_def nth_append)
  then have "worker_step env ?W2 (move t WS_try c ?W2)" by (rule ws_test) simp
  moreover have "at (move t WS_try c ?W2) t WS_try c" using assms by (simp add: at_def move_def)
  ultimately show ?thesis using ws_stops ws_start [of env ?W1 c] by fastforce
qed

text \<open>C6: The workers share the queue. For every interleaving of inserting threads, workers, starts and stops: the
  accepted statements are those that were taken, in order, followed by those that wait, so that each goes to
  exactly one worker; a worker's connection has executed exactly its statements, in the order in which it took
  them, except the one it holds; when it has stopped, its connection is closed; and \<open>giThreadCount\<close> is the number
  of workers that have entered and not left.\<close>

theorem workers_share_queue:
  assumes "worker_reach env W"
  shows "ws_accepted W = map snd (ws_taken W) @ m_clsList (ws_queue W) \<and>
    (\<forall>t < length (ws_threads W). worker_ok (env t) (own t (ws_taken W)) (ws_first W ! t) (ws_threads W ! t)) \<and>
    ws_count W = int (length (filter counted (ws_threads W)))"
  using worker_reach_inv [OF assms] unfolding workers_inv_def by blast

definition demo_data :: CDbMySQLQueueData where
  "demo_data = \<lparr>m_strSQL = ''a ?'', m_clsArgList = [''1'']\<rparr>"

definition demo_sys :: wsys where
  "demo_sys = \<lparr>ws_queue = CDbMySQLQueue_new\<lparr>signals := 1\<rparr>, ws_stop = False, ws_count = 1,
     ws_threads = [(WS_loop, snd (Execute_list demo_db (cstr ''a ?'') [''1''] demo_conn))], ws_first = [demo_conn],
     ws_accepted = [demo_data], ws_taken = [(0, demo_data)]\<rparr>"

lemma demo_sys_reach: "worker_reach (\<lambda>_. demo_db) demo_sys"
proof -
  let ?c = demo_conn and ?env = "\<lambda>_ :: nat. demo_db"
  let ?q = "CDbMySQLQueue_new\<lparr>m_clsList := [demo_data], signals := 1\<rparr>"
  define W where "W st c q n acc tk = \<lparr>ws_queue = q, ws_stop = False, ws_count = n, ws_threads = [(st, c)], ws_first = [?c],
      ws_accepted = acc, ws_taken = tk\<rparr>" for st c q n acc tk
  note wr = wr_step [of ?env]
  have at: "at (W st c q n acc tk) 0 st c" for st c q n acc tk by (simp add: at_def W_def)
  have "worker_reach ?env (W WS_new ?c CDbMySQLQueue_new 0 [] [])"
    using wr [OF wr_init ws_start [of ?env wsys_new ?c]] by (simp add: W_def wsys_new_def)
  from wr [OF this ws_enter [OF at]] have "worker_reach ?env (W WS_loop ?c CDbMySQLQueue_new 1 [] [])"
    by (simp add: W_def move_def)
  moreover have "Insert_data demo_data [] (ws_queue (W WS_loop ?c CDbMySQLQueue_new 1 [] [])) = ((True, []), ?q)"
    by (simp add: W_def Insert_data_def CDbMySQLQueue_new_def)
  ultimately have "worker_reach ?env (W WS_loop ?c ?q 1 [demo_data] [])" using wr [OF _ ws_insert] by (fastforce simp: W_def)
  from wr [OF this ws_test [OF at]] have "worker_reach ?env (W WS_try ?c ?q 1 [demo_data] [])" by (simp add: W_def move_def)
  moreover have "Queue_Select False ?q ?q = (Some demo_data, CDbMySQLQueue_new\<lparr>signals := 1\<rparr>)"
    by (simp add: Queue_Select_def CDbMySQLQueue_new_def)
  ultimately have r: "worker_reach ?env (W (WS_hold demo_data) ?c (CDbMySQLQueue_new\<lparr>signals := 1\<rparr>) 1 [demo_data] [(0, demo_data)])"
    using wr [OF _ ws_take [OF at]] by (fastforce simp: W_def move_def)
  have "worker_exec demo_db demo_data ?c = Some (snd (Execute_list demo_db (cstr ''a ?'') [''1''] ?c))"
    by (simp add: worker_exec_def demo_data_def)
  from wr [OF r ws_exec [OF at this]] show ?thesis by (simp add: W_def move_def demo_sys_def)
qed

theorem workers_share_queue_witness:
  "worker_reach (\<lambda>_. demo_db) demo_sys \<and> ws_accepted demo_sys = map snd (ws_taken demo_sys) \<and>
   run_all demo_db [demo_data] demo_conn = Some (snd (ws_threads demo_sys ! 0))"
  using workers_share_queue [OF demo_sys_reach] demo_sys_reach by (simp add: demo_sys_def own_def CDbMySQLQueue_new_def)

end
