(* ===== verification/QueueWait.thy ===== *)
theory QueueWait
  imports DbQueue
begin

text \<open>
  Threads that wait in \<open>CDbMySQLQueue::Select( clsData, true )\<close> on the condition of \<open>CSipMutexSignal\<close>. The
  mutex makes the code between \<open>acquire\<close>, \<open>wait\<close> and \<open>release\<close> one step. As POSIX has it, \<open>signal\<close> wakes one of the
  threads that wait, if there is one, \<open>broadcast\<close> wakes all, a thread may also wake without either, and
  other threads may run before a woken thread has the mutex again.
\<close>

datatype qwait = Q_idle | Q_sleeping | Q_woken

type_synonym qsys = "CDbMySQLQueue \<times> (nat \<Rightarrow> qwait)"

text \<open>The steps of producers, of the consumers \<open>C\<close> that wait, of threads that take with \<open>bWait = false\<close>, and of \<open>Signal\<close>. An insertion signals when the counter
  \<open>signals\<close> grows.\<close>

inductive qw_step :: "nat set \<Rightarrow> qsys \<Rightarrow> qsys \<Rightarrow> bool" for C where
  qw_insert: "Insert_data d s q = (r, q') \<Longrightarrow> signals q' = signals q \<Longrightarrow> qw_step C (q, st) (q', st)"
| qw_insert_wake: "Insert_data d s q = (r, q') \<Longrightarrow> signals q' \<noteq> signals q \<Longrightarrow> st t = Q_sleeping \<Longrightarrow>
    qw_step C (q, st) (q', st(t := Q_woken))"
| qw_insert_none: "Insert_data d s q = (r, q') \<Longrightarrow> signals q' \<noteq> signals q \<Longrightarrow> (\<forall>t. st t \<noteq> Q_sleeping) \<Longrightarrow>
    qw_step C (q, st) (q', st)"
| qw_take: "t \<in> C \<Longrightarrow> st t = Q_idle \<Longrightarrow> m_clsList q \<noteq> [] \<Longrightarrow> Queue_Select True q q = (r, q') \<Longrightarrow> qw_step C (q, st) (q', st)"
| qw_poll: "Queue_Select False q q = (r, q') \<Longrightarrow> st t = Q_idle \<Longrightarrow> qw_step C (q, st) (q', st)"
| qw_sleep: "t \<in> C \<Longrightarrow> st t = Q_idle \<Longrightarrow> m_clsList q = [] \<Longrightarrow> qw_step C (q, st) (q, st(t := Q_sleeping))"
| qw_return: "st t = Q_woken \<Longrightarrow> Queue_Select True q q = (r, q') \<Longrightarrow> qw_step C (q, st) (q', st(t := Q_idle))"
| qw_broadcast: "qw_step C (q, st) (Signal q, \<lambda>t. if st t = Q_sleeping then Q_woken else st t)"
| qw_spurious: "st t = Q_sleeping \<Longrightarrow> qw_step C (q, st) (q, st(t := Q_woken))"

inductive qw_reach :: "nat set \<Rightarrow> qsys \<Rightarrow> bool" for C where
  qw_init: "qw_reach C (SetMaxSize n CDbMySQLQueue_new, \<lambda>_. Q_idle)"
| qw_next: "qw_reach C s \<Longrightarrow> qw_step C s s' \<Longrightarrow> qw_reach C s'"

subsection \<open>One consumer\<close>

lemma Insert_data_signals:
  "Insert_data d s q = (r, q') \<Longrightarrow> signals q' \<noteq> signals q \<or> m_clsList q' = m_clsList q \<or> m_clsList q \<noteq> []"
  by (auto simp: Insert_data_def Let_def split: if_splits)

lemma Queue_Select_empty: "Queue_Select b w q = (r, q') \<Longrightarrow> m_clsList q = [] \<Longrightarrow> w = q \<Longrightarrow> m_clsList q' = []"
  by (auto simp: Queue_Select_def Let_def split: list.splits)

lemma Insert_data_grows: "Insert_data d s q = (r, q') \<Longrightarrow> m_clsList q' = [] \<Longrightarrow> m_clsList q = []"
  by (auto simp: Insert_data_def Let_def split: if_splits)

definition one_inv :: "nat \<Rightarrow> qsys \<Rightarrow> bool" where
  "one_inv t = (\<lambda>(q, st). (st t = Q_sleeping \<longrightarrow> m_clsList q = []) \<and> (\<forall>u. u \<noteq> t \<longrightarrow> st u = Q_idle))"

lemma one_step: "qw_step {t} s s' \<Longrightarrow> one_inv t s \<Longrightarrow> one_inv t s'"
proof (induction rule: qw_step.induct)
  case (qw_insert d s q r q' st)
  then show ?case using Insert_data_signals [OF qw_insert(1)] by (auto simp: one_inv_def)
next
  case (qw_insert_wake d s q r q' st u)
  then have "u = t" by (auto simp: one_inv_def)
  then show ?case using qw_insert_wake by (auto simp: one_inv_def)
next
  case (qw_return st u q r q')
  then have "u = t" by (auto simp: one_inv_def)
  then show ?case using qw_return by (auto simp: one_inv_def)
next
  case (qw_spurious st u q)
  then have "u = t" by (auto simp: one_inv_def)
  then show ?case using qw_spurious by (auto simp: one_inv_def)
qed (auto simp: one_inv_def Signal_def dest: Queue_Select_empty [OF _ _ refl])

lemma one_reach: "qw_reach {t} s \<Longrightarrow> one_inv t s"
proof (induction rule: qw_reach.induct)
  case qw_init
  then show ?case by (simp add: one_inv_def CDbMySQLQueue_new_def SetMaxSize_def)
qed (rule one_step)

subsection \<open>Two consumers\<close>

text \<open>Queues without a limit.\<close>

definition held :: "CDbMySQLQueueData list \<Rightarrow> nat \<Rightarrow> CDbMySQLQueue" where
  "held l n = \<lparr>m_clsList = l, m_iMaxSize = 0, signals = n, broadcasts = 0\<rparr>"

lemma Insert_held: "Insert_data d s (held l n) = ((True, []), held (l @ [d]) (if l = [] then n + 1 else n))"
  by (simp add: held_def Insert_data_def)

abbreviation sleepers :: "nat set \<Rightarrow> nat \<Rightarrow> qwait" where
  "sleepers S \<equiv> \<lambda>t. if t \<in> S then Q_sleeping else Q_idle"

text \<open>Both consumers sleep; two statements arrive before the first consumer that was woken has the mutex.\<close>

lemma lost_wakeup: "qw_reach {1, 2} (held [d] 1, sleepers {2})"
proof -
  let ?C = "{1, 2} :: nat set"
  note nx = qw_next [of ?C]
  have "qw_reach ?C (held [] 0, sleepers {})" using qw_init [of ?C 0] by (simp add: held_def CDbMySQLQueue_new_def SetMaxSize_def)
  from nx [OF this qw_sleep [of 1]] have "qw_reach ?C (held [] 0, (sleepers {})(1 := Q_sleeping))" by (simp add: held_def)
  from nx [OF this qw_sleep [of 2]] have "qw_reach ?C (held [] 0, (sleepers {})(1 := Q_sleeping, 2 := Q_sleeping))"
    by (simp add: held_def)
  from nx [OF this qw_insert_wake [where t = 1, OF Insert_held]]
  have "qw_reach ?C (held [d] 1, (sleepers {})(1 := Q_woken, 2 := Q_sleeping))" by (simp add: held_def fun_upd_twist)
  from nx [OF this qw_insert [OF Insert_held]]
  have "qw_reach ?C (held [d, d] 1, (sleepers {})(1 := Q_woken, 2 := Q_sleeping))" by (simp add: held_def)
  moreover have "qw_step ?C (held [d, d] 1, (sleepers {})(1 := Q_woken, 2 := Q_sleeping))
      (held [d] 1, ((sleepers {})(1 := Q_woken, 2 := Q_sleeping))(1 := Q_idle))"
    by (rule qw_return [where r = "Some d"]) (simp_all add: Queue_Select_def held_def)
  ultimately have "qw_reach ?C (held [d] 1, ((sleepers {})(1 := Q_woken, 2 := Q_sleeping))(1 := Q_idle))" by (rule nx)
  moreover have "((sleepers {})(1 := Q_woken, 2 := Q_sleeping))(1 := Q_idle) = sleepers {2}" by auto
  ultimately show ?thesis by simp
qed

text \<open>From then on no insertion signals, since the list is never empty when a statement arrives.\<close>

lemma lost_wakeup_grows: "qw_reach {1, 2} (held (replicate (Suc n) d) 1, sleepers {2})"
proof (induction n)
  case 0
  then show ?case using lost_wakeup [of d] by simp
next
  case (Suc n)
  have "Insert_data d [] (held (replicate (Suc n) d) 1) = ((True, []), held (replicate (Suc (Suc n)) d) 1)"
    by (simp add: Insert_held replicate_append_same)
  from qw_next [OF Suc qw_insert [OF this]] show ?case by (simp add: held_def)
qed

text \<open>C7: Waiting in \<open>Select\<close> is sound for one consumer only. A single consumer sleeps only while the queue is empty. Of two
  consumers one can sleep for ever while statements pile up: \<open>Insert\<close> signals only when the list becomes one
  long, so a statement that arrives before the woken consumer has the mutex wakes nobody, and neither does any
  later one.\<close>

theorem queue_wakeups:
  "(qw_reach {t} (q, st) \<longrightarrow> st t = Q_sleeping \<longrightarrow> m_clsList q = []) \<and>
   (\<exists>q st. qw_reach {1, 2} (q, st) \<and> length (m_clsList q) = Suc n \<and> st 2 = Q_sleeping \<and> (\<forall>u. st u \<noteq> Q_woken))"
proof
  show "qw_reach {t} (q, st) \<longrightarrow> st t = Q_sleeping \<longrightarrow> m_clsList q = []"
    using one_reach [of t "(q, st)"] by (simp add: one_inv_def)
  have "length (m_clsList (held (replicate (Suc n) d) 1)) = Suc n" for d by (simp add: held_def)
  then show "\<exists>q st. qw_reach {1, 2} (q, st) \<and> length (m_clsList q) = Suc n \<and> st 2 = Q_sleeping \<and> (\<forall>u. st u \<noteq> Q_woken)"
    using lost_wakeup_grows [of n undefined] by (intro exI conjI) (assumption, simp_all)
qed

theorem queue_wakeups_witness:
  "qw_reach {1} (held [] 0, sleepers {1}) \<and> m_clsList (held [] 0) = [] \<and>
   (\<exists>q st. qw_reach {1, 2} (q, st) \<and> length (m_clsList q) = 3 \<and> st 2 = Q_sleeping)"
proof -
  have "qw_reach {1} (SetMaxSize 0 CDbMySQLQueue_new, (\<lambda>_. Q_idle)(1 := Q_sleeping))"
    by (rule qw_next [OF qw_init qw_sleep]) (simp_all add: CDbMySQLQueue_new_def SetMaxSize_def)
  then have "qw_reach {1} (held [] 0, sleepers {1})" by (simp add: held_def CDbMySQLQueue_new_def SetMaxSize_def fun_upd_def)
  then show ?thesis using queue_wakeups [of 1 "held [] 0" "sleepers {1}" 2] by (simp add: numeral_3_eq_3) blast
qed

end
