(* ===== verification/SipMutex.thy ===== *)
theory SipMutex
  imports DbPrelude
begin

text \<open>
  SipPlatform/SipMutex.cpp (the pthread branch): \<open>CSipMutex\<close> and \<open>CSipMutexSignal\<close>. \<open>m_sttMutex\<close> is the thread that
  holds the mutex, \<open>m_sttCond\<close> the set of threads that wait on the condition. \<open>None\<close> stands for a call that
  blocks in this state (\<open>acquire\<close>, the end of \<open>wait\<close>), or that POSIX does not define (\<open>release\<close>, \<open>wait\<close> by a thread that does
  not hold the mutex). The calls report no errors on an initialised mutex, so the results are true.
\<close>

record CSipMutex =
  m_sttMutex :: "nat option"

record CSipMutexSignal = CSipMutex +
  m_sttCond :: "nat set"

definition CSipMutex_new :: CSipMutex where
  "CSipMutex_new = \<lparr>m_sttMutex = None\<rparr>"

definition CSipMutexSignal_new :: CSipMutexSignal where
  "CSipMutexSignal_new = CSipMutex.extend CSipMutex_new \<lparr>m_sttCond = {}\<rparr>"

definition acquire :: "nat \<Rightarrow> 'a CSipMutex_scheme \<Rightarrow> (bool \<times> 'a CSipMutex_scheme) option" where
  "acquire t m = (if m_sttMutex m = None then Some (True, m\<lparr>m_sttMutex := Some t\<rparr>) else None)"

definition release :: "nat \<Rightarrow> 'a CSipMutex_scheme \<Rightarrow> (bool \<times> 'a CSipMutex_scheme) option" where
  "release t m = (if m_sttMutex m = Some t then Some (True, m\<lparr>m_sttMutex := None\<rparr>) else None)"

text \<open>\<open>wait\<close> gives up the mutex and starts to wait in one step; it returns once the thread was woken and has the
  mutex again.\<close>

definition wait_begin :: "nat \<Rightarrow> CSipMutexSignal \<Rightarrow> CSipMutexSignal option" where
  "wait_begin t m = map_option (\<lambda>(b, m). m\<lparr>m_sttCond := insert t (m_sttCond m)\<rparr>) (release t m)"

definition wait_end :: "nat \<Rightarrow> CSipMutexSignal \<Rightarrow> (bool \<times> CSipMutexSignal) option" where
  "wait_end t m = (if t \<in> m_sttCond m then None else acquire t m)"

definition wake :: "nat \<Rightarrow> CSipMutexSignal \<Rightarrow> CSipMutexSignal" where
  "wake t m = m\<lparr>m_sttCond := m_sttCond m - {t}\<rparr>"

text \<open>\<open>signal\<close> wakes one waiting thread, \<open>u\<close>, if there is one.\<close>

definition cond_signal :: "nat \<Rightarrow> CSipMutexSignal \<Rightarrow> (bool \<times> CSipMutexSignal) option" where
  "cond_signal u m = (if m_sttCond m = {} then Some (True, m) else if u \<in> m_sttCond m then Some (True, wake u m) else None)"

definition broadcast :: "CSipMutexSignal \<Rightarrow> bool \<times> CSipMutexSignal" where
  "broadcast m = (True, m\<lparr>m_sttCond := {}\<rparr>)"

lemma acquire_Some: "acquire t m = Some r \<longleftrightarrow> m_sttMutex m = None \<and> r = (True, m\<lparr>m_sttMutex := Some t\<rparr>)"
  by (auto simp: acquire_def)

lemma release_Some: "release t m = Some r \<longleftrightarrow> m_sttMutex m = Some t \<and> r = (True, m\<lparr>m_sttMutex := None\<rparr>)"
  by (auto simp: release_def)

lemma wait_begin_Some: "wait_begin t m = Some m' \<longleftrightarrow>
    m_sttMutex m = Some t \<and> m' = m\<lparr>m_sttMutex := None, m_sttCond := insert t (m_sttCond m)\<rparr>"
  by (auto simp: wait_begin_def release_def)

lemma wait_end_Some: "wait_end t m = Some r \<longleftrightarrow> t \<notin> m_sttCond m \<and> m_sttMutex m = None \<and> r = (True, m\<lparr>m_sttMutex := Some t\<rparr>)"
  by (auto simp: wait_end_def acquire_def)

lemma cond_signal_Some: "cond_signal u m = Some r \<longleftrightarrow>
    m_sttCond m = {} \<and> r = (True, m) \<or> u \<in> m_sttCond m \<and> r = (True, wake u m)"
  by (auto simp: cond_signal_def)

lemmas mutex_simps = acquire_Some release_Some wait_begin_Some wait_end_Some cond_signal_Some wake_def broadcast_def

end
