(* ===== verification/QueueMutex.thy ===== *)
theory QueueMutex
  imports QueueWait SipMutex
begin

text \<open>
  The statements of \<open>CDbMySQLQueue::Insert\<close>, \<open>Select\<close> and \<open>Signal\<close> one by one, with the mutex and the condition of \<open>m_clsMutex\<close>,
  for any number of threads. The theory shows that the mutex makes the critical sections the single steps that
  QueueWait and the other models take them for.
\<close>

subsection \<open>Threads\<close>

text \<open>The next statement of a thread, by the lines of DbMySQLQueue.cpp: outside; \<open>acquire\<close> of \<open>Insert\<close> (46); the test for a full
  queue (47); \<open>push_back\<close> (58); the test of the size (59); \<open>signal\<close> (61); \<open>acquire\<close> of \<open>Select\<close> (135); the test and the
  call of \<open>wait\<close> (136); inside \<open>wait\<close> (140); the test and \<open>pop_front\<close> (144), after a wait or without; \<open>release\<close> (64, 150).\<close>

datatype qpc = P_out
  | P_ins_acq CDbMySQLQueueData | P_ins_test CDbMySQLQueueData | P_ins_push CDbMySQLQueueData
  | P_ins_one CDbMySQLQueueData | P_ins_signal CDbMySQLQueueData
  | P_sel_acq bool | P_sel_test bool | P_wait | P_take bool bool | P_rel

type_synonym qfine = "CDbMySQLQueue \<times> CSipMutexSignal \<times> (nat \<Rightarrow> qpc)"

definition is_full :: "CDbMySQLQueue \<Rightarrow> bool" where
  "is_full q \<longleftrightarrow> m_iMaxSize q \<noteq> 0 \<and> i32 (int (length (m_clsList q))) \<ge> m_iMaxSize q"

inductive f_step :: "nat set \<Rightarrow> qfine \<Rightarrow> qfine \<Rightarrow> bool" for C where
  f_insert: "pc t = P_out \<Longrightarrow> f_step C (q, m, pc) (q, m, pc(t := P_ins_acq d))"
| f_ins_acq: "pc t = P_ins_acq d \<Longrightarrow> acquire t m = Some (b, m') \<Longrightarrow> f_step C (q, m, pc) (q, m', pc(t := P_ins_test d))"
| f_ins_full: "pc t = P_ins_test d \<Longrightarrow> is_full q \<Longrightarrow> f_step C (q, m, pc) (q, m, pc(t := P_rel))"
| f_ins_room: "pc t = P_ins_test d \<Longrightarrow> \<not> is_full q \<Longrightarrow> f_step C (q, m, pc) (q, m, pc(t := P_ins_push d))"
| f_ins_push: "pc t = P_ins_push d \<Longrightarrow>
    f_step C (q, m, pc) (q\<lparr>m_clsList := m_clsList q @ [d]\<rparr>, m, pc(t := P_ins_one d))"
| f_ins_more: "pc t = P_ins_one d \<Longrightarrow> length (m_clsList q) \<noteq> 1 \<Longrightarrow> f_step C (q, m, pc) (q, m, pc(t := P_rel))"
| f_ins_one: "pc t = P_ins_one d \<Longrightarrow> length (m_clsList q) = 1 \<Longrightarrow> f_step C (q, m, pc) (q, m, pc(t := P_ins_signal d))"
| f_ins_signal: "pc t = P_ins_signal d \<Longrightarrow> cond_signal u m = Some (b, m') \<Longrightarrow>
    f_step C (q, m, pc) (q\<lparr>signals := signals q + 1\<rparr>, m', pc(t := P_rel))"
| f_select: "pc t = P_out \<Longrightarrow> (w \<Longrightarrow> t \<in> C) \<Longrightarrow> f_step C (q, m, pc) (q, m, pc(t := P_sel_acq w))"
| f_sel_acq: "pc t = P_sel_acq w \<Longrightarrow> acquire t m = Some (b, m') \<Longrightarrow> f_step C (q, m, pc) (q, m', pc(t := P_sel_test w))"
| f_sel_wait: "pc t = P_sel_test True \<Longrightarrow> m_clsList q = [] \<Longrightarrow> wait_begin t m = Some m' \<Longrightarrow>
    f_step C (q, m, pc) (q, m', pc(t := P_wait))"
| f_sel_go: "pc t = P_sel_test w \<Longrightarrow> \<not> (w \<and> m_clsList q = []) \<Longrightarrow> f_step C (q, m, pc) (q, m, pc(t := P_take w False))"
| f_woken: "pc t = P_wait \<Longrightarrow> wait_end t m = Some (b, m') \<Longrightarrow> f_step C (q, m, pc) (q, m', pc(t := P_take True True))"
| f_take: "pc t = P_take w k \<Longrightarrow> m_clsList q = d # l \<Longrightarrow> f_step C (q, m, pc) (q\<lparr>m_clsList := l\<rparr>, m, pc(t := P_rel))"
| f_none: "pc t = P_take w k \<Longrightarrow> m_clsList q = [] \<Longrightarrow> f_step C (q, m, pc) (q, m, pc(t := P_rel))"
| f_rel: "pc t = P_rel \<Longrightarrow> release t m = Some (b, m') \<Longrightarrow> f_step C (q, m, pc) (q, m', pc(t := P_out))"
| f_broadcast: "pc t = P_out \<Longrightarrow> f_step C (q, m, pc) (Signal q, snd (broadcast m), pc)"
| f_spurious: "t \<in> m_sttCond m \<Longrightarrow> f_step C (q, m, pc) (q, wake t m, pc)"

inductive f_reach :: "nat set \<Rightarrow> qfine \<Rightarrow> bool" for C where
  f_init: "f_reach C (SetMaxSize n CDbMySQLQueue_new, CSipMutexSignal_new, \<lambda>_. P_out)"
| f_next: "f_reach C s \<Longrightarrow> f_step C s s' \<Longrightarrow> f_reach C s'"

subsection \<open>Mutual exclusion\<close>

fun in_section :: "qpc \<Rightarrow> bool" where
  "in_section P_out = False"
| "in_section (P_ins_acq d) = False"
| "in_section (P_sel_acq w) = False"
| "in_section P_wait = False"
| "in_section _ = True"

text \<open>What a thread knows at its next statement.\<close>

fun knows :: "nat set \<Rightarrow> CDbMySQLQueue \<Rightarrow> nat \<Rightarrow> qpc \<Rightarrow> bool" where
  "knows C q t (P_ins_push d) \<longleftrightarrow> \<not> is_full q"
| "knows C q t (P_ins_one d) \<longleftrightarrow>
    m_clsList q = butlast (m_clsList q) @ [d] \<and> \<not> is_full (q\<lparr>m_clsList := butlast (m_clsList q)\<rparr>)"
| "knows C q t (P_ins_signal d) \<longleftrightarrow> m_clsList q = [d] \<and> \<not> is_full (q\<lparr>m_clsList := []\<rparr>)"
| "knows C q t (P_sel_acq w) \<longleftrightarrow> (w \<longrightarrow> t \<in> C)"
| "knows C q t (P_sel_test w) \<longleftrightarrow> (w \<longrightarrow> t \<in> C)"
| "knows C q t (P_take w k) \<longleftrightarrow> (w \<and> \<not> k \<longrightarrow> t \<in> C \<and> m_clsList q \<noteq> [])"
| "knows C q t _ \<longleftrightarrow> True"

definition fine_inv :: "nat set \<Rightarrow> qfine \<Rightarrow> bool" where
  "fine_inv C = (\<lambda>(q, m, pc). (\<forall>t. in_section (pc t) \<longleftrightarrow> m_sttMutex m = Some t) \<and> (\<forall>t. knows C q t (pc t)) \<and>
     (\<forall>t \<in> m_sttCond m. pc t = P_wait))"

lemma fine_at:
  "fine_inv C (q, m, pc) \<Longrightarrow> in_section (pc t) = (m_sttMutex m = Some t) \<and> knows C q t (pc t) \<and>
    (t \<in> m_sttCond m \<longrightarrow> pc t = P_wait)"
  by (simp add: fine_inv_def)

lemma fine_pc:
  "fine_inv C (q, m, pc) \<Longrightarrow> pc t = p \<Longrightarrow> in_section p = (m_sttMutex m = Some t) \<and> knows C q t p \<and>
    (t \<in> m_sttCond m \<longrightarrow> p = P_wait)"
  by (auto simp: fine_inv_def)

text \<open>A thread that is outside knows nothing about the queue.\<close>

lemma knows_other: "\<not> in_section p \<Longrightarrow> knows C q t p = knows C q' t p"
  by (cases p) simp_all

text \<open>One thread moves; the others keep what they know because they are outside.\<close>

lemma fine_inv_move:
  assumes "fine_inv C (q, m, pc)" and "knows C q' t p"
    and "in_section (pc t)" and "in_section p" and "m_sttMutex m' = m_sttMutex m" and "m_sttCond m' \<subseteq> m_sttCond m"
  shows "fine_inv C (q', m', pc(t := p))"
proof -
  have "\<not> in_section (pc u)" if "u \<noteq> t" for u using assms(1,3) that by (auto simp: fine_inv_def)
  moreover have "t \<notin> m_sttCond m" using fine_at [OF assms(1), of t] assms(3) by auto
  moreover have "knows C q' u (pc u)" if "u \<noteq> t" for u
    using calculation(1) [OF that] knows_other [of "pc u" C q u q'] assms(1) by (simp add: fine_inv_def)
  ultimately show ?thesis using assms by (auto simp: fine_inv_def)
qed

lemma fine_inv_init: "fine_inv C (SetMaxSize n CDbMySQLQueue_new, CSipMutexSignal_new, \<lambda>_. P_out)"
  by (simp add: fine_inv_def CSipMutexSignal_new_def CSipMutex_new_def CSipMutex.defs)

lemma f_step_inv: "f_step C s s' \<Longrightarrow> fine_inv C s \<Longrightarrow> fine_inv C s'"
proof (induction rule: f_step.induct)
  case (f_broadcast pc t q m)
  have "knows C (Signal q) u p = knows C q u p" for u p
    by (cases p) (simp_all add: Signal_def is_full_def)
  with f_broadcast show ?case by (simp add: fine_inv_def mutex_simps)
next
  case (f_spurious t m q pc)
  then show ?case by (simp add: fine_inv_def mutex_simps)
qed ((frule (1) fine_pc, rule fine_inv_move, assumption; auto simp: mutex_simps length_Suc_conv; fail) |
     (frule (1) fine_pc, auto simp: fine_inv_def mutex_simps; fail))+

lemma f_reach_inv: "f_reach C s \<Longrightarrow> fine_inv C s"
  by (induction rule: f_reach.induct) (rule fine_inv_init, rule f_step_inv)

subsection \<open>Critical sections as single steps\<close>

text \<open>The queue and the threads as the other threads see them: an insertion counts from its last effect.\<close>

fun unfinished :: "qpc \<Rightarrow> bool" where
  "unfinished (P_ins_one d) = True"
| "unfinished (P_ins_signal d) = True"
| "unfinished _ = False"

fun waits :: "bool \<Rightarrow> qpc \<Rightarrow> qwait" where
  "waits b P_wait = (if b then Q_sleeping else Q_woken)"
| "waits b (P_take w k) = (if k then Q_woken else Q_idle)"
| "waits b _ = Q_idle"

definition seen_queue :: "CDbMySQLQueue \<Rightarrow> CSipMutexSignal \<Rightarrow> (nat \<Rightarrow> qpc) \<Rightarrow> CDbMySQLQueue" where
  "seen_queue q m pc = (case m_sttMutex m of None \<Rightarrow> q
     | Some t \<Rightarrow> if unfinished (pc t) then q\<lparr>m_clsList := butlast (m_clsList q)\<rparr> else q)"

definition seen_waits :: "CSipMutexSignal \<Rightarrow> (nat \<Rightarrow> qpc) \<Rightarrow> nat \<Rightarrow> qwait" where
  "seen_waits m pc t = waits (t \<in> m_sttCond m) (pc t)"

definition seen :: "qfine \<Rightarrow> qsys" where
  "seen = (\<lambda>(q, m, pc). (seen_queue q m pc, seen_waits m pc))"

lemma Insert_data_room: "\<not> is_full q \<Longrightarrow> Insert_data d [] q = ((True, []), q\<lparr>m_clsList := m_clsList q @ [d],
    signals := signals q + (if m_clsList q = [] then 1 else 0)\<rparr>)"
  by (simp add: Insert_data_def is_full_def)

lemma Queue_Select_some: "m_clsList q = d # l \<Longrightarrow> Queue_Select w q q = (Some d, q\<lparr>m_clsList := l\<rparr>)"
  by (simp add: Queue_Select_def)

lemma Queue_Select_none: "m_clsList q = [] \<Longrightarrow> Queue_Select w q q = (None, q)"
  by (simp add: Queue_Select_def)

lemma seen_waits_move:
  assumes "m_sttCond m' - {t} = m_sttCond m - {t}" and "waits (t \<in> m_sttCond m') p = r"
  shows "seen_waits m' (pc(t := p)) = (seen_waits m pc)(t := r)"
proof
  fix u
  have "u \<noteq> t \<Longrightarrow> u \<in> m_sttCond m' \<longleftrightarrow> u \<in> m_sttCond m" using assms(1) by blast
  then show "seen_waits m' (pc(t := p)) u = ((seen_waits m pc)(t := r)) u" using assms(2) by (simp add: seen_waits_def)
qed

text \<open>A step of thread \<open>t\<close> that the others do not see.\<close>

lemma seen_same:
  assumes "m_sttCond m' = m_sttCond m" and "waits (t \<in> m_sttCond m) p = waits (t \<in> m_sttCond m) (pc t)"
    and "seen_queue q' m' (pc(t := p)) = seen_queue q m pc"
  shows "seen (q', m', pc(t := p)) = seen (q, m, pc)"
proof -
  have "seen_waits m' (pc(t := p)) = (seen_waits m pc)(t := seen_waits m pc t)"
    using assms(1,2) by (intro seen_waits_move) (simp_all add: seen_waits_def)
  then show ?thesis using assms(3) by (simp add: seen_def)
qed

text \<open>A step of thread \<open>t\<close> that is one of the abstract system.\<close>

lemma seen_move:
  assumes "seen_queue q m pc = Q" and "seen_queue q' m' (pc(t := p)) = Q'"
    and "m_sttCond m' - {t} = m_sttCond m - {t}"
    and "qw_step C (Q, seen_waits m pc) (Q', (seen_waits m pc)(t := waits (t \<in> m_sttCond m') p))"
  shows "qw_step C (seen (q, m, pc)) (seen (q', m', pc(t := p)))"
  using assms(4) seen_waits_move [OF assms(3) refl] assms(1,2) by (simp add: seen_def)

lemma seen_keep:
  assumes "seen_queue q m pc = Q" and "seen_queue q' m (pc(t := p)) = Q'"
    and "waits (t \<in> m_sttCond m) p = waits (t \<in> m_sttCond m) (pc t)"
    and "qw_step C (Q, seen_waits m pc) (Q', seen_waits m pc)"
  shows "qw_step C (seen (q, m, pc)) (seen (q', m, pc(t := p)))"
proof (rule seen_move [OF assms(1,2) refl])
  have "(seen_waits m pc)(t := waits (t \<in> m_sttCond m) p) = seen_waits m pc" using assms(3) by (simp add: seen_waits_def fun_eq_iff)
  then show "qw_step C (Q, seen_waits m pc) (Q', (seen_waits m pc)(t := waits (t \<in> m_sttCond m) p))" using assms(4) by simp
qed

lemma not_sleeping: "u \<notin> m_sttCond m \<Longrightarrow> seen_waits m pc u \<noteq> Q_sleeping"
  by (cases "pc u") (simp_all add: seen_waits_def)

lemma sleeping: "fine_inv C (q, m, pc) \<Longrightarrow> u \<in> m_sttCond m \<Longrightarrow> seen_waits m pc u = Q_sleeping"
  using fine_at [of C q m pc u] by (simp add: seen_waits_def)

lemma seen_waits_wake: "fine_inv C (q, m, pc) \<Longrightarrow> u \<in> m_sttCond m \<Longrightarrow> seen_waits (wake u m) pc = (seen_waits m pc)(u := Q_woken)"
  using fine_at [of C q m pc u] by (auto simp: seen_waits_def wake_def fun_eq_iff)

lemma seen_waits_all: "seen_waits (snd (broadcast m)) pc = (\<lambda>t. if seen_waits m pc t = Q_sleeping then Q_woken else seen_waits m pc t)"
proof
  show "seen_waits (snd (broadcast m)) pc t = (if seen_waits m pc t = Q_sleeping then Q_woken else seen_waits m pc t)" for t
    by (cases "pc t") (simp_all add: seen_waits_def broadcast_def)
qed

text \<open>\<open>signal\<close> ends an insertion: one waiting thread is woken, or there is none.\<close>

lemma insert_signal_seen:
  assumes "pc t = P_ins_signal d" and "cond_signal u m = Some (b, m')" and inv: "fine_inv C (q, m, pc)"
  shows "qw_step C (seen (q, m, pc)) (seen (q\<lparr>signals := signals q + 1\<rparr>, m', pc(t := P_rel)))"
proof -
  let ?q = "q\<lparr>m_clsList := []\<rparr>" and ?q' = "q\<lparr>signals := signals q + 1\<rparr>" and ?pc = "pc(t := P_rel)"
  note t = fine_pc [OF inv assms(1)]
  have i: "Insert_data d [] ?q = ((True, []), ?q')" using t by (simp add: Insert_data_room)
  have q: "seen_queue q m pc = ?q" "seen_queue ?q' m' ?pc = ?q'"
    using t assms(1,2) by (auto simp: seen_queue_def mutex_simps)
  have w: "seen_waits m' ?pc = seen_waits m' pc" using t assms(1,2) by (auto simp: seen_waits_def fun_eq_iff)
  show ?thesis
  proof (cases "m_sttCond m = {}")
    case True
    then have "m' = m" using assms(2) by (simp add: mutex_simps)
    moreover have "\<forall>u. seen_waits m pc u \<noteq> Q_sleeping" using True not_sleeping by simp
    ultimately show ?thesis using qw_insert_none [OF i, of "seen_waits m pc" C] q w by (simp add: seen_def)
  next
    case False
    then have u: "u \<in> m_sttCond m" and m': "m' = wake u m" using assms(2) by (auto simp: cond_signal_Some)
    then show ?thesis using qw_insert_wake [OF i, of "seen_waits m pc" u C] q w sleeping [OF inv u]
        seen_waits_wake [OF inv u] by (simp add: seen_def)
  qed
qed

text \<open>The end of \<open>Select\<close>, after a wait or without.\<close>

lemma select_seen:
  assumes "pc t = P_take w k" and sel: "Queue_Select w q q = (r, q')" and inv: "fine_inv C (q, m, pc)"
    and "r = None \<longrightarrow> q' = q" and "r \<noteq> None \<longrightarrow> m_clsList q \<noteq> []"
  shows "seen (q', m, pc(t := P_rel)) = seen (q, m, pc) \<or> qw_step C (seen (q, m, pc)) (seen (q', m, pc(t := P_rel)))"
proof -
  note t = fine_pc [OF inv assms(1)]
  have q: "seen_queue q m pc = q" "seen_queue q' m (pc(t := P_rel)) = q'"
    using t assms(1) by (simp_all add: seen_queue_def)
  have s: "seen_waits m pc t = (if k then Q_woken else Q_idle)" using assms(1) by (simp add: seen_waits_def)
  have sel': "Queue_Select v q q = (r, q')" for v using sel by (auto simp: Queue_Select_def)
  show ?thesis
  proof (cases k)
    case True
    with s qw_return [OF _ sel', of "seen_waits m pc" t C] show ?thesis by (intro disjI2 seen_move [OF q]) simp_all
  next
    case False
    show ?thesis
    proof (cases r)
      case None
      with False assms(1,4) q show ?thesis by (intro disjI1 seen_same) simp_all
    next
      case (Some d)
      then have "qw_step C (q, seen_waits m pc) (q', seen_waits m pc)"
        using False s t assms(5) qw_poll [OF sel'] qw_take [OF _ _ _ sel', of t C "seen_waits m pc"] by (cases w) auto
      with False assms(1) show ?thesis by (intro disjI2 seen_keep [OF q]) simp_all
    qed
  qed
qed

lemma f_step_seen: "f_step C s s' \<Longrightarrow> fine_inv C s \<Longrightarrow> seen s' = seen s \<or> qw_step C (seen s) (seen s')"
proof (induction rule: f_step.induct)
  case (f_ins_more pc t d q m)
  note t = fine_at [OF f_ins_more(3), of t]
  let ?q = "q\<lparr>m_clsList := butlast (m_clsList q)\<rparr>"
  have k: "knows C q t (P_ins_one d)" using t f_ins_more(1) by simp
  have "butlast (m_clsList q) \<noteq> []" using k f_ins_more(2) by auto
  then have "Insert_data d [] ?q = ((True, []), q)" using k by (simp add: Insert_data_room)
  from qw_insert [OF this] show ?case using t f_ins_more(1)
    by (intro disjI2 seen_keep) (simp_all add: seen_queue_def)
next
  case (f_ins_signal pc t d u m b m' q)
  then show ?case using insert_signal_seen by blast
next
  case (f_sel_wait pc t q m m')
  note t = fine_at [OF f_sel_wait(4), of t]
  have "seen_waits m pc t = Q_idle" using f_sel_wait(1) by (simp add: seen_waits_def)
  then have "qw_step C (q, seen_waits m pc) (q, (seen_waits m pc)(t := Q_sleeping))" using t f_sel_wait(1,2) by (intro qw_sleep) auto
  then show ?case using t f_sel_wait(1,3) by (intro disjI2 seen_move [where Q = q and Q' = q]) (auto simp: seen_queue_def mutex_simps)
next
  case (f_take pc t w k q d l m)
  then show ?case using select_seen [OF f_take(1) Queue_Select_some [OF f_take(2)] f_take(3)] by simp
next
  case (f_none pc t w k q m)
  then show ?case using select_seen [OF f_none(1) Queue_Select_none [OF f_none(2)] f_none(3)] by simp
next
  case (f_broadcast pc t q m)
  have "seen_queue (Signal q) (snd (broadcast m)) pc = Signal (seen_queue q m pc)"
    by (auto simp: seen_queue_def Signal_def broadcast_def split: option.split)
  then show ?case using qw_broadcast [of C "seen_queue q m pc" "seen_waits m pc"] by (simp add: seen_def seen_waits_all)
next
  case (f_spurious t m q pc)
  from f_spurious have "seen_queue q (wake t m) pc = seen_queue q m pc" by (simp add: seen_queue_def wake_def)
  then show ?case using qw_spurious [of "seen_waits m pc" t, OF sleeping [OF f_spurious(2,1)]] seen_waits_wake [OF f_spurious(2,1)]
    by (simp add: seen_def)
qed (frule (1) fine_pc, rule disjI1, rule seen_same; auto simp: mutex_simps seen_queue_def split: option.split; fail)+

lemma seen_init: "seen (SetMaxSize n CDbMySQLQueue_new, CSipMutexSignal_new, \<lambda>_. P_out) = (SetMaxSize n CDbMySQLQueue_new, \<lambda>_. Q_idle)"
  by (simp add: seen_def seen_queue_def seen_waits_def fun_eq_iff CSipMutexSignal_new_def CSipMutex_new_def CSipMutex.defs)

lemma f_reach_seen: "f_reach C s \<Longrightarrow> qw_reach C (seen s)"
proof (induction rule: f_reach.induct)
  case (f_init n)
  show ?case by (simp add: seen_init qw_init)
next
  case (f_next s s')
  then show ?case using f_step_seen [OF f_next(2) f_reach_inv [OF f_next(1)]] qw_next by metis
qed

subsection \<open>Progress\<close>

text \<open>Steps that are still to come before the holder releases the mutex.\<close>

fun to_release :: "qpc \<Rightarrow> nat" where
  "to_release (P_ins_test d) = 5"
| "to_release (P_ins_push d) = 4"
| "to_release (P_ins_one d) = 3"
| "to_release (P_ins_signal d) = 2"
| "to_release (P_sel_test w) = 3"
| "to_release (P_take w k) = 2"
| "to_release P_rel = 1"
| "to_release _ = 0"

lemma in_section_moves:
  assumes "fine_inv C (q, m, pc)" and "m_sttMutex m = Some t"
  shows "\<exists>q' m' p. f_step C (q, m, pc) (q', m', pc(t := p)) \<and> to_release p < to_release (pc t)"
proof (cases "pc t")
  case (P_ins_test d)
  then show ?thesis using f_ins_full [of pc t d q C m] f_ins_room [of pc t d q C m] by (cases "is_full q") fastforce+
next
  case (P_ins_push d)
  then show ?thesis using P_ins_push f_ins_push [of pc t d C q m] by fastforce
next
  case (P_ins_one d)
  then show ?thesis using f_ins_more [of pc t d q C m] f_ins_one [of pc t d q C m]
    by (cases "length (m_clsList q) = 1") fastforce+
next
  case (P_ins_signal d)
  obtain u m' where "cond_signal u m = Some (True, m')" by (cases "m_sttCond m = {}") (auto simp: cond_signal_Some)
  then show ?thesis using f_ins_signal [of pc t d u m True m' C q] P_ins_signal by fastforce
next
  case (P_sel_test w)
  obtain m' where m': "wait_begin t m = Some m'" using assms(2) by (simp add: wait_begin_Some)
  show ?thesis
  proof (cases "w \<and> m_clsList q = []")
    case True
    then show ?thesis using f_sel_wait [of pc t q m m' C] m' P_sel_test by fastforce
  next
    case False
    then show ?thesis using f_sel_go [of pc t w q C m] P_sel_test by fastforce
  qed
next
  case (P_take w k)
  then show ?thesis using f_take [of pc t w k q _ _ C m] f_none [of pc t w k q C m] by (cases "m_clsList q") fastforce+
next
  case P_rel
  then show ?thesis using f_rel [of pc t m True _ C q] assms(2) by (fastforce simp: release_Some)
qed (use fine_at [OF assms(1), of t] assms(2) in auto)

text \<open>C5: The mutex makes the operations of the queue atomic. Whatever the order in which the threads run the single statements
  of \<open>Insert\<close>, \<open>Select\<close> and \<open>Signal\<close>: exactly the thread that holds the mutex is inside a critical section; what
  the threads see is a state of the system in which every critical section is one step (\<open>Insert_data\<close>,
  \<open>Queue_Select\<close>); and the holder can always go on towards its release, so the queue cannot deadlock.\<close>

theorem queue_sections_atomic:
  assumes "f_reach C (q, m, pc)"
  shows "(\<forall>t. in_section (pc t) \<longleftrightarrow> m_sttMutex m = Some t) \<and> qw_reach C (seen (q, m, pc)) \<and>
    (m_sttMutex m = Some t \<longrightarrow> (\<exists>q' m' p. f_step C (q, m, pc) (q', m', pc(t := p)) \<and> to_release p < to_release (pc t)))"
  using f_reach_inv [OF assms] f_reach_seen [OF assms] in_section_moves [OF f_reach_inv [OF assms], of t]
  by (auto simp: fine_inv_def)

theorem queue_sections_atomic_witness:
  "qw_reach {7} (seen (SetMaxSize 0 CDbMySQLQueue_new, \<lparr>m_sttMutex = None, m_sttCond = {7}\<rparr>, (\<lambda>_. P_out)(7 := P_wait))) \<and>
   seen (SetMaxSize 0 CDbMySQLQueue_new, \<lparr>m_sttMutex = None, m_sttCond = {7}\<rparr>, (\<lambda>_. P_out)(7 := P_wait)) =
     (SetMaxSize 0 CDbMySQLQueue_new, (\<lambda>_. Q_idle)(7 := Q_sleeping))"
proof -
  let ?q = "SetMaxSize 0 CDbMySQLQueue_new" and ?i = "\<lambda>_ :: nat. P_out"
  note fx = f_next [of "{7}"]
  from fx [OF f_init f_select [of _ 7 True]] have "f_reach {7} (?q, CSipMutexSignal_new, ?i(7 := P_sel_acq True))" by simp
  from fx [OF this f_sel_acq [of _ 7 True]] have "f_reach {7} (?q, \<lparr>m_sttMutex = Some 7, m_sttCond = {}\<rparr>, ?i(7 := P_sel_test True))"
    by (simp add: acquire_Some CSipMutexSignal_new_def CSipMutex_new_def CSipMutex.defs)
  from fx [OF this f_sel_wait [of _ 7]] have "f_reach {7} (?q, \<lparr>m_sttMutex = None, m_sttCond = {7}\<rparr>, ?i(7 := P_wait))"
    by (simp add: wait_begin_Some SetMaxSize_def CDbMySQLQueue_new_def)
  from queue_sections_atomic [OF this] show ?thesis
    by (simp add: seen_def seen_queue_def seen_waits_def fun_eq_iff)
qed

end
