(* ===== verification/StringMap.thy ===== *)
theory StringMap
  imports StdMap CRuntime
begin

text \<open>
  SipPlatform/StringMap.cpp: a \<open>std::map\<close> from strings to strings behind a mutex. Each
  method holds the mutex from its lookup to its last access, so it is one atomic operation
  on the map. The abstract contract is a partial function, and \<open>CStringMap_run\<close>
  refines the run of the same commands on it.
\<close>

type_synonym string_map = "(string, string) std_map"

definition CStringMap_Insert ::
    "cstring option \<Rightarrow> cstring option \<Rightarrow> string_map \<Rightarrow> bool \<times> string_map" where
  "CStringMap_Insert pszKey pszValue m =
     (case pszKey of None \<Rightarrow> (False, m)
      | Some key \<Rightarrow>
          let val = (case pszValue of None \<Rightarrow> '''' | Some v \<Rightarrow> v)
          in if map_of m key = None then (True, map_insert key val m) else (False, m))"

definition CStringMap_Has :: "cstring option \<Rightarrow> string_map \<Rightarrow> bool" where
  "CStringMap_Has pszKey m =
     (case pszKey of None \<Rightarrow> False | Some key \<Rightarrow> map_of m key \<noteq> None)"

definition CStringMap_Select :: "cstring option \<Rightarrow> string_map \<Rightarrow> bool \<times> string" where
  "CStringMap_Select pszKey m =
     (case pszKey of None \<Rightarrow> (False, [])
      | Some key \<Rightarrow> (case map_of m key of None \<Rightarrow> (False, []) | Some v \<Rightarrow> (True, v)))"

definition CStringMap_Delete :: "cstring option \<Rightarrow> string_map \<Rightarrow> bool \<times> string_map" where
  "CStringMap_Delete pszKey m =
     (case pszKey of None \<Rightarrow> (False, m)
      | Some key \<Rightarrow> if map_of m key \<noteq> None then (True, map_erase key m) else (False, m))"

definition CStringMap_GetCount :: "string_map \<Rightarrow> int" where
  "CStringMap_GetCount m = i32 (int (length m))"

definition CStringMap_DeleteAll :: "string_map \<Rightarrow> string_map" where
  "CStringMap_DeleteAll m = []"

subsection \<open>Runs of commands, and the abstract map they refine\<close>

datatype sm_cmd = SmInsert "cstring option" "cstring option" | SmHas "cstring option"
  | SmSelect "cstring option" | SmDelete "cstring option" | SmDeleteAll

datatype sm_res = SmBool bool | SmFound bool string | SmDone

fun CStringMap_step :: "sm_cmd \<Rightarrow> string_map \<Rightarrow> sm_res \<times> string_map" where
  "CStringMap_step (SmInsert k v) m = (let (b, m') = CStringMap_Insert k v m in (SmBool b, m'))"
| "CStringMap_step (SmHas k) m = (SmBool (CStringMap_Has k m), m)"
| "CStringMap_step (SmSelect k) m = (let (b, s) = CStringMap_Select k m in (SmFound b s, m))"
| "CStringMap_step (SmDelete k) m = (let (b, m') = CStringMap_Delete k m in (SmBool b, m'))"
| "CStringMap_step SmDeleteAll m = (SmDone, CStringMap_DeleteAll m)"

fun CStringMap_run :: "sm_cmd list \<Rightarrow> string_map \<Rightarrow> sm_res list \<times> string_map" where
  "CStringMap_run [] m = ([], m)"
| "CStringMap_run (c # cs) m =
     (let (r, m1) = CStringMap_step c m; (rs, m2) = CStringMap_run cs m1 in (r # rs, m2))"

text \<open>The contract: a null key is refused, the first value inserted under a key stays.\<close>

fun abs_step :: "sm_cmd \<Rightarrow> (string \<rightharpoonup> string) \<Rightarrow> sm_res \<times> (string \<rightharpoonup> string)" where
  "abs_step (SmInsert None v) f = (SmBool False, f)"
| "abs_step (SmInsert (Some k) v) f =
     (if k \<in> dom f then (SmBool False, f)
      else (SmBool True, f(k \<mapsto> (case v of None \<Rightarrow> '''' | Some x \<Rightarrow> x))))"
| "abs_step (SmHas k) f = (SmBool (k \<in> Some ` dom f), f)"
| "abs_step (SmSelect k) f =
     (case Option.bind k f of None \<Rightarrow> (SmFound False [], f) | Some v \<Rightarrow> (SmFound True v, f))"
| "abs_step (SmDelete None) f = (SmBool False, f)"
| "abs_step (SmDelete (Some k)) f = (SmBool (k \<in> dom f), f(k := None))"
| "abs_step SmDeleteAll f = (SmDone, Map.empty)"

fun abs_run :: "sm_cmd list \<Rightarrow> (string \<rightharpoonup> string) \<Rightarrow> sm_res list \<times> (string \<rightharpoonup> string)" where
  "abs_run [] f = ([], f)"
| "abs_run (c # cs) f = (let (r, f1) = abs_step c f; (rs, f2) = abs_run cs f1 in (r # rs, f2))"

lemmas CStringMap_defs = CStringMap_Insert_def CStringMap_Has_def CStringMap_Select_def
  CStringMap_Delete_def CStringMap_GetCount_def CStringMap_DeleteAll_def

lemma CStringMap_step_refines:
  assumes "map_inv m" and "CStringMap_step c m = (r, m')"
  shows "map_inv m' \<and> abs_step c (map_of m) = (r, map_of m')"
  using assms
  by (cases c)
    (auto simp: CStringMap_defs std.inv_insert std.find_insert std.inv_erase std.find_erase
       std.inv_empty Let_def domIff image_iff split: option.splits if_splits)

lemma CStringMap_run_refines:
  "map_inv m \<Longrightarrow> CStringMap_run cs m = (rs, m') \<Longrightarrow>
     map_inv m' \<and> abs_run cs (map_of m) = (rs, map_of m')"
proof (induction cs arbitrary: m rs)
  case (Cons c cs)
  obtain r m1 where s: "CStringMap_step c m = (r, m1)" by fastforce
  obtain rs' where t: "CStringMap_run cs m1 = (rs', m')" and rs: "rs = r # rs'"
    using Cons.prems(2) s by (auto split: prod.splits)
  from CStringMap_step_refines [OF Cons.prems(1) s] Cons.IH [OF _ t] rs show ?case by simp
qed simp

lemma CStringMap_GetCount_eq:
  "map_inv m \<Longrightarrow> length m < 2 ^ 31 \<Longrightarrow> CStringMap_GetCount m = int (card (dom (map_of m)))"
  by (simp add: CStringMap_GetCount_def std.count_find [symmetric] i32_nat_id)

end
