(* ===== verification/SqlInjection.thy ===== *)
theory SqlInjection
  imports StringUtility LogLevel
begin

text \<open>
  DbMySQLPool/DbCheckSqlInjection.cpp: the checks that refuse a value holding one of a list
  of characters, and the replacement of those characters by spaces. A check returns its
  verdict and the log event of the first forbidden character.
\<close>

fun CheckSql_loop :: "string \<Rightarrow> string \<Rightarrow> cstring \<Rightarrow> bool \<times> log_event list" where
  "CheckSql_loop func strValue [] = (True, [])"
| "CheckSql_loop func strValue (c # pszTest) =
     (if SearchStringChar strValue c
      then (False, [(LOG_ERROR, func @ '' value('' @ cstr strValue @ '') contain '' @ [c])])
      else CheckSql_loop func strValue pszTest)"

definition test_all :: cstring where
  "test_all = [CHR 0x27, DQUOTE, CHR ''/'', CHR 0x5C, CHR '';'', CHR '':'', SPACE, CHR ''+'', CHR ''-'']"

definition test_not_slash :: cstring where
  "test_not_slash = [CHR 0x27, DQUOTE, CHR 0x5C, CHR '';'', CHR '':'', SPACE, CHR ''+'', CHR ''-'']"

definition test_not_space :: cstring where
  "test_not_space = [CHR 0x27, DQUOTE, CHR ''/'', CHR 0x5C, CHR '';'', CHR '':'', CHR ''+'', CHR ''-'']"

definition test_not_minus :: cstring where
  "test_not_minus = [CHR 0x27, DQUOTE, CHR ''/'', CHR 0x5C, CHR '';'', CHR '':'', SPACE, CHR ''+'']"

definition DbCheckSqlInjection :: "string \<Rightarrow> bool \<times> log_event list" where
  "DbCheckSqlInjection v = CheckSql_loop ''DbCheckSqlInjection'' v test_all"

definition DbCheckSqlInjectionNotSlash :: "string \<Rightarrow> bool \<times> log_event list" where
  "DbCheckSqlInjectionNotSlash v = CheckSql_loop ''DbCheckSqlInjectionNotSlash'' v test_not_slash"

definition DbCheckSqlInjectionNotSpace :: "string \<Rightarrow> bool \<times> log_event list" where
  "DbCheckSqlInjectionNotSpace v = CheckSql_loop ''DbCheckSqlInjectionNotSpace'' v test_not_space"

definition DbCheckSqlInjectionNotMinus :: "string \<Rightarrow> bool \<times> log_event list" where
  "DbCheckSqlInjectionNotMinus v = CheckSql_loop ''DbCheckSqlInjectionNotMinus'' v test_not_minus"

text \<open>The replacement loop; \<open>None\<close> would be a call of \<open>ReplaceString\<close> that does not return.\<close>

fun ReplaceSql_loop :: "string \<Rightarrow> cstring \<Rightarrow> string option" where
  "ReplaceSql_loop strValue [] = Some strValue"
| "ReplaceSql_loop strValue (c # pszTest) =
     (case ReplaceStringChar strValue c SPACE of None \<Rightarrow> None
      | Some s \<Rightarrow> ReplaceSql_loop s pszTest)"

definition DbReplaceSqlInjectionNotSpace :: "string \<Rightarrow> string option" where
  "DbReplaceSqlInjectionNotSpace strValue =
     (if length strValue = 0 then Some strValue else ReplaceSql_loop strValue test_not_space)"

lemmas test_defs = test_all_def test_not_slash_def test_not_space_def test_not_minus_def

lemma CheckSql_loop_iff: "fst (CheckSql_loop f v ts) \<longleftrightarrow> set v \<inter> set ts = {}"
  by (induction f v ts rule: CheckSql_loop.induct) auto

lemma CheckSql_loop_log:
  "CheckSql_loop f v ts = (b, evs) \<Longrightarrow> if b then evs = [] else length evs = 1 \<and> fst (hd evs) = LOG_ERROR"
  by (induction f v ts rule: CheckSql_loop.induct) (auto split: if_splits)

lemma ReplaceSql_loop_map:
  "NUL \<notin> set ts \<Longrightarrow> SPACE \<notin> set ts \<Longrightarrow>
    ReplaceSql_loop v ts = Some (map (\<lambda>c. if c \<in> set ts then SPACE else c) v)"
proof (induction v ts rule: ReplaceSql_loop.induct)
  case (2 v c ts)
  have "ReplaceStringChar v c SPACE = Some (map (\<lambda>x. if x = c then SPACE else x) v)"
    using 2 by (intro ReplaceStringChar_map) auto
  with 2 show ?case by auto
qed (simp add: map_idI)

lemma test_not_space_chars: "NUL \<notin> set test_not_space" "SPACE \<notin> set test_not_space"
  by (simp_all add: test_not_space_def)

lemma DbReplace_eq:
  "DbReplaceSqlInjectionNotSpace v = Some (map (\<lambda>c. if c \<in> set test_not_space then SPACE else c) v)"
  by (simp add: DbReplaceSqlInjectionNotSpace_def ReplaceSql_loop_map [OF test_not_space_chars])

end
