(* ===== verification/TimeUtility.thy ===== *)
theory TimeUtility
  imports CRuntime
begin

text \<open>
  SipPlatform/TimeUtility.cpp and TimeString.cpp: the difference of two \<open>timeval\<close>s in
  milliseconds, the \<open>timespec\<close> of a sleep, and the fixed-width renderings of a broken-down
  time. The conversion of a \<open>time_t\<close> to local time depends on the time zone of the host:
  it is the parameter \<open>localtime\<close> of the functions that use it.
\<close>

record timeval =
  tv_sec :: int
  tv_usec :: int

text \<open>Division of C rounds toward zero.\<close>

definition c_div :: "int \<Rightarrow> int \<Rightarrow> int" where
  "c_div a b = sgn a * sgn b * (\<bar>a\<bar> div \<bar>b\<bar>)"

definition c_mod :: "int \<Rightarrow> int \<Rightarrow> int" where
  "c_mod a b = a - c_div a b * b"

text \<open>The first assignment to \<open>iRet\<close> and the compound one each convert a \<open>long\<close> to \<open>int\<close>.\<close>

definition DiffTimeval :: "timeval \<Rightarrow> timeval \<Rightarrow> int" where
  "DiffTimeval psttOld psttNew =
     (if tv_usec psttNew \<ge> tv_usec psttOld
      then i32 (i32 (c_div (tv_usec psttNew - tv_usec psttOld) 1000)
                + (tv_sec psttNew - tv_sec psttOld) * 1000)
      else i32 (i32 (1000 + c_div (tv_usec psttNew - tv_usec psttOld) 1000)
                + (tv_sec psttNew - tv_sec psttOld - 1) * 1000))"

record timespec =
  ts_sec :: int
  ts_nsec :: int

text \<open>The request that \<open>MiliSleep\<close> hands to \<open>nanosleep\<close>.\<close>

definition MiliSleep_req :: "int \<Rightarrow> timespec" where
  "MiliSleep_req iMiliSecond =
     \<lparr>ts_sec = c_div iMiliSecond 1000, ts_nsec = i32 (c_mod iMiliSecond 1000 * 1000000)\<rparr>"

definition GetCurrentMiliSecond :: "timeval \<Rightarrow> int" where
  "GetCurrentMiliSecond mtv = u64 (u64 (tv_sec mtv) * 1000 + u64 (tv_usec mtv) div 1000)"

definition exact_usec :: "timeval \<Rightarrow> timeval \<Rightarrow> int" where
  "exact_usec a b = (tv_sec b * 1000000 + tv_usec b) - (tv_sec a * 1000000 + tv_usec a)"

definition timeval_ok :: "timeval \<Rightarrow> bool" where
  "timeval_ok t \<longleftrightarrow> 0 \<le> tv_usec t \<and> tv_usec t < 1000000"

lemma c_div_pos: "0 \<le> a \<Longrightarrow> 0 < b \<Longrightarrow> c_div a b = a div b"
  by (cases "a = 0") (simp_all add: c_div_def)

lemma c_div_neg: "a < 0 \<Longrightarrow> 0 < b \<Longrightarrow> c_div a b = - ((- a) div b)"
  by (simp add: c_div_def)

text \<open>
  The result is the difference in milliseconds, rounded down when the microseconds grow and
  rounded up when they shrink: it is off by less than one millisecond.
\<close>

lemma DiffTimeval_eq:
  assumes "timeval_ok a" and "timeval_ok b" and "\<bar>tv_sec b - tv_sec a\<bar> < 2000000"
  shows "DiffTimeval a b = (if tv_usec b \<ge> tv_usec a then exact_usec a b div 1000
      else - ((- exact_usec a b) div 1000))"
proof -
  let ?s = "tv_sec b - tv_sec a" and ?u = "tv_usec b - tv_usec a"
  have e: "exact_usec a b = ?s * 1000 * 1000 + ?u" by (simp add: exact_usec_def algebra_simps)
  have u: "\<bar>?u\<bar> < 1000000" using assms by (auto simp: timeval_ok_def)
  show ?thesis
  proof (cases "tv_usec b \<ge> tv_usec a")
    case True
    then have q: "0 \<le> ?u div 1000" "?u div 1000 < 1000" using u by auto
    then have "i32 (?u div 1000) = ?u div 1000" by (simp add: i32_def)
    moreover have "in_i32 (?u div 1000 + ?s * 1000)" using q assms(3) by (simp add: in_i32_def) linarith
    moreover have "exact_usec a b div 1000 = ?s * 1000 + ?u div 1000"
      unfolding e by (subst div_mult_self3) auto
    ultimately show ?thesis using True by (simp add: DiffTimeval_def c_div_pos i32_id)
  next
    case False
    let ?v = "- ?u"
    have q: "0 \<le> ?v div 1000" "?v div 1000 < 1000" using u False by auto
    then have "i32 (1000 - ?v div 1000) = 1000 - ?v div 1000" by (simp add: i32_def)
    moreover have "in_i32 (1000 - ?v div 1000 + (?s - 1) * 1000)"
      using q assms(3) by (simp add: in_i32_def) linarith
    moreover have "- exact_usec a b = (- ?s * 1000) * 1000 + ?v" unfolding e by simp
    then have "(- exact_usec a b) div 1000 = - ?s * 1000 + ?v div 1000"
      by (simp only: div_mult_self3)
    ultimately show ?thesis using False by (simp add: DiffTimeval_def c_div_neg i32_id)
  qed
qed

lemma MiliSleep_req_ok:
  assumes "0 \<le> ms" and "ms < 2 ^ 31"
  shows "0 \<le> ts_nsec (MiliSleep_req ms) \<and> ts_nsec (MiliSleep_req ms) < 1000000000 \<and>
    ts_sec (MiliSleep_req ms) * 1000000000 + ts_nsec (MiliSleep_req ms) = ms * 1000000"
proof -
  have m: "c_mod ms 1000 = ms mod 1000"
    using assms(1) by (simp add: c_mod_def c_div_pos minus_div_mult_eq_mod)
  have b: "0 \<le> ms mod 1000" "ms mod 1000 < 1000" by auto
  then have "i32 (ms mod 1000 * 1000000) = ms mod 1000 * 1000000" by (simp add: i32_def)
  moreover have "ms div 1000 * 1000000000 + ms mod 1000 * 1000000 = ms * 1000000"
    using div_mult_mod_eq [of ms 1000] by linarith
  ultimately show ?thesis using assms(1) b by (simp add: MiliSleep_req_def m c_div_pos)
qed

subsection \<open>TimeString\<close>

record tm =
  tm_year :: int
  tm_mon :: int
  tm_mday :: int
  tm_hour :: int
  tm_min :: int
  tm_sec :: int

text \<open>\<open>%0wd\<close>: the sign counts towards the width.\<close>

definition pad_int :: "nat \<Rightarrow> int \<Rightarrow> string" where
  "pad_int w x = (if x < 0 then CHR ''-'' # pad_dec (w - 1) (nat (- x)) else pad_dec w (nat x))"

lemma pad_int_code [code]:
  "pad_int w x = (if x < 0 then CHR ''-'' # pad_dec (w - 1) (nat (- x))
     else let s = show_dec x in replicate (w - length s) (CHR ''0'') @ s)"
  using show_dec_nat [of "nat x"] by (cases "x < 0") (simp_all add: pad_int_def pad_dec_def Let_def)

definition DateTime_text :: "tm \<Rightarrow> string" where
  "DateTime_text t = pad_int 4 (tm_year t + 1900) @ pad_int 2 (tm_mon t + 1) @ pad_int 2 (tm_mday t) @
     pad_int 2 (tm_hour t) @ pad_int 2 (tm_min t) @ pad_int 2 (tm_sec t)"

definition Date_text :: "tm \<Rightarrow> string" where
  "Date_text t = pad_int 4 (tm_year t + 1900) @ pad_int 2 (tm_mon t + 1) @ pad_int 2 (tm_mday t)"

definition Time_text :: "tm \<Rightarrow> string" where
  "Time_text t = pad_int 2 (tm_hour t) @ pad_int 2 (tm_min t) @ pad_int 2 (tm_sec t)"

definition GetDateTimeString :: "(int \<Rightarrow> tm) \<Rightarrow> int \<Rightarrow> nat \<Rightarrow> cstring" where
  "GetDateTimeString localtime iTime iTimeSize = snprintf_buf iTimeSize (DateTime_text (localtime iTime))"

definition GetDateString :: "(int \<Rightarrow> tm) \<Rightarrow> int \<Rightarrow> nat \<Rightarrow> cstring" where
  "GetDateString localtime iTime iDateSize = snprintf_buf iDateSize (Date_text (localtime iTime))"

definition GetTimeString :: "(int \<Rightarrow> tm) \<Rightarrow> int \<Rightarrow> nat \<Rightarrow> cstring" where
  "GetTimeString localtime iTime iTimeSize = snprintf_buf iTimeSize (Time_text (localtime iTime))"

text \<open>What \<open>localtime\<close> promises of its result, for the years 0 to 9999 (a leap second makes 60).\<close>

definition tm_ok :: "tm \<Rightarrow> bool" where
  "tm_ok t \<longleftrightarrow> -1900 \<le> tm_year t \<and> tm_year t < 8100 \<and> 0 \<le> tm_mon t \<and> tm_mon t \<le> 11 \<and>
     1 \<le> tm_mday t \<and> tm_mday t \<le> 31 \<and> 0 \<le> tm_hour t \<and> tm_hour t \<le> 23 \<and>
     0 \<le> tm_min t \<and> tm_min t \<le> 59 \<and> 0 \<le> tm_sec t \<and> tm_sec t \<le> 60"

subsection \<open>Fixed-width decimals are ordered as their values\<close>

fun digits_w :: "nat \<Rightarrow> nat \<Rightarrow> string" where
  "digits_w 0 n = []"
| "digits_w (Suc w) n = digits_w w (n div 10) @ [digit_char (n mod 10)]"

lemma length_digits_w [simp]: "length (digits_w w n) = w"
  by (induction w n rule: digits_w.induct) auto

lemma digits_w_0: "digits_w w 0 = replicate w (CHR ''0'')"
proof (induction w)
  case (Suc w)
  have "digit_char 0 = CHR ''0''" by (simp add: digit_char_def char_of_def bit_iff_odd)
  with Suc show ?case by (simp add: replicate_append_same)
qed simp

lemma pad_dec_digits_w: "0 < w \<Longrightarrow> n < 10 ^ w \<Longrightarrow> pad_dec w n = digits_w w n"
proof (induction w arbitrary: n)
  case (Suc w)
  show ?case
  proof (cases "n < 10")
    case True
    then show ?thesis by (simp add: pad_dec_def show_nat.simps [of n] digits_w_0)
  next
    case False
    have d: "n div 10 < 10 ^ w" using Suc.prems by (simp add: less_mult_imp_div_less mult.commute)
    with False have w: "0 < w" by (cases w) auto
    from Suc.IH [OF w d] False show ?thesis by (simp add: pad_dec_def show_nat.simps [of n])
  qed
qed simp

lemma digits_w_less:
  "n < m \<Longrightarrow> m < 10 ^ w \<Longrightarrow> \<exists>p c d xs ys. digits_w w n = p @ c # xs \<and> digits_w w m = p @ d # ys \<and> c < d"
proof (induction w arbitrary: n m)
  case (Suc w)
  show ?case
  proof (cases "n div 10 = m div 10")
    case True
    with Suc.prems(1) have "n mod 10 < m mod 10"
      using div_mult_mod_eq [of n 10] div_mult_mod_eq [of m 10] by linarith
    then have c: "digit_char (n mod 10) < digit_char (m mod 10)"
      unfolding less_char_def by simp
    show ?thesis
      by (rule exI [of _ "digits_w w (n div 10)"], intro exI conjI) (use True c in simp_all)
  next
    case False
    then have "n div 10 < m div 10" using Suc.prems(1) div_le_mono [of n m 10] by linarith
    moreover have "m div 10 < 10 ^ w" using Suc.prems by (simp add: less_mult_imp_div_less mult.commute)
    ultimately obtain p c d xs ys where "digits_w w (n div 10) = p @ c # xs"
        "digits_w w (m div 10) = p @ d # ys" "c < d"
      using Suc.IH by blast
    then show ?thesis by auto
  qed
qed simp

lemma list_less_first_diff: "c < (d :: 'a :: order) \<Longrightarrow> p @ c # xs < p @ d # ys"
  by (induction p) auto

lemma digits_w_order:
  assumes "n < 10 ^ w" and "m < 10 ^ w"
  shows "digits_w w n @ s < digits_w w m @ t \<longleftrightarrow> n < m \<or> n = m \<and> s < t"
proof (cases n m rule: linorder_cases)
  case less
  then obtain p c d xs ys where "digits_w w n = p @ c # xs" "digits_w w m = p @ d # ys" "c < d"
    using digits_w_less assms by blast
  then show ?thesis using less by (simp add: list_less_first_diff)
next
  case equal
  have "u @ s < u @ t \<longleftrightarrow> s < t" for u :: string by (induction u) auto
  with equal show ?thesis by simp
next
  case greater
  then obtain p c d xs ys where "digits_w w m = p @ c # xs" "digits_w w n = p @ d # ys" "c < d"
    using digits_w_less assms by blast
  then have "digits_w w m @ t < digits_w w n @ s" by (simp add: list_less_first_diff)
  then show ?thesis using greater by auto
qed

lemma pad_int_digits_w: "0 < w \<Longrightarrow> 0 \<le> x \<Longrightarrow> x < 10 ^ w \<Longrightarrow> pad_int w x = digits_w w (nat x)"
  by (simp add: pad_int_def pad_dec_digits_w nat_less_iff)

lemma pad_int_order:
  assumes "0 < w" "0 \<le> x" "x < 10 ^ w" "0 \<le> y" "y < 10 ^ w"
  shows "pad_int w x @ s < pad_int w y @ t \<longleftrightarrow> x < y \<or> x = y \<and> s < t"
  using assms by (auto simp: pad_int_digits_w digits_w_order nat_less_iff eq_nat_nat_iff)

lemma length_pad_int: "0 < w \<Longrightarrow> 0 \<le> x \<Longrightarrow> x < 10 ^ w \<Longrightarrow> length (pad_int w x) = w"
  by (simp add: pad_int_digits_w)

definition tm_key :: "tm \<Rightarrow> int list" where
  "tm_key t = [tm_year t, tm_mon t, tm_mday t, tm_hour t, tm_min t, tm_sec t]"

lemma digits_w_isdigit: "c \<in> set (digits_w w n) \<Longrightarrow> isdigit_c c"
  by (induction w n rule: digits_w.induct) auto

lemma length_Date_text: "tm_ok t \<Longrightarrow> length (Date_text t) = 8"
  by (simp add: Date_text_def length_pad_int tm_ok_def)

lemma length_DateTime_text: "tm_ok t \<Longrightarrow> length (DateTime_text t) = 14"
  by (simp add: DateTime_text_def length_pad_int tm_ok_def)

lemma DateTime_text_order:
  assumes "tm_ok a" and "tm_ok b"
  shows "DateTime_text a < DateTime_text b \<longleftrightarrow> tm_key a < tm_key b"
proof -
  have p: "pad_int 2 x < pad_int 2 y \<longleftrightarrow> x < y" if "0 \<le> x" "x < 100" "0 \<le> y" "y < 100" for x y
    using pad_int_order [of 2 x y "[]" "[]"] that by simp
  show ?thesis
    using assms by (auto simp: DateTime_text_def tm_key_def pad_int_order p tm_ok_def)
qed

end
