(* ===== verification/MonitorString.thy ===== *)
theory MonitorString
  imports StringUtility TimeUtility
begin

text \<open>
  SipPlatform/MonitorString.cpp: a report is built in one buffer, a column ends with \<open>|\<close>, a
  row with a line feed. The state of \<open>CMonitorString\<close> is the buffer \<open>m_strBuf\<close>.
\<close>

definition MR_COL_SEP :: char where "MR_COL_SEP = CHR ''|''"
definition MR_ROW_SEP :: char where "MR_ROW_SEP = LF"

definition AddCol_str :: "string \<Rightarrow> string \<Rightarrow> string" where
  "AddCol_str buf v = buf @ v @ [MR_COL_SEP]"

definition AddCol_int :: "string \<Rightarrow> int \<Rightarrow> string" where
  "AddCol_int buf iValue = AddCol_str buf (snprintf_buf 21 (show_int iValue))"

definition AddCol_addr :: "string \<Rightarrow> string \<Rightarrow> int \<Rightarrow> string" where
  "AddCol_addr buf strIp iPort = AddCol_int (buf @ strIp @ '':'') iPort"

definition AddCol_time :: "(int \<Rightarrow> tm) \<Rightarrow> string \<Rightarrow> int \<Rightarrow> string" where
  "AddCol_time localtime buf iTime = AddCol_str buf (GetDateTimeString localtime iTime 21)"

definition AddRow_str :: "string \<Rightarrow> string \<Rightarrow> string" where
  "AddRow_str buf v = buf @ v @ [MR_ROW_SEP]"

definition AddRow_int :: "string \<Rightarrow> int \<Rightarrow> string" where
  "AddRow_int buf iValue = AddRow_str buf (snprintf_buf 21 (show_int iValue))"

definition AddRow_addr :: "string \<Rightarrow> string \<Rightarrow> int \<Rightarrow> string" where
  "AddRow_addr buf strIp iPort = AddRow_int (buf @ strIp @ '':'') iPort"

definition AddRow_time :: "(int \<Rightarrow> tm) \<Rightarrow> string \<Rightarrow> int \<Rightarrow> string" where
  "AddRow_time localtime buf iTime = AddRow_str buf (GetDateTimeString localtime iTime 21)"

definition MonitorString_Clear :: "string \<Rightarrow> string" where
  "MonitorString_Clear buf = []"

definition MonitorString_GetString :: "string \<Rightarrow> cstring" where
  "MonitorString_GetString buf = cstr buf"

definition MonitorString_GetLength :: "string \<Rightarrow> int" where
  "MonitorString_GetLength buf = i32 (int (length buf))"

subsection \<open>Reports: rows of typed cells\<close>

datatype cell = Text string | Num int | Addr string int | Time int

fun add_col :: "(int \<Rightarrow> tm) \<Rightarrow> string \<Rightarrow> cell \<Rightarrow> string" where
  "add_col lt buf (Text s) = AddCol_str buf s"
| "add_col lt buf (Num x) = AddCol_int buf x"
| "add_col lt buf (Addr ip p) = AddCol_addr buf ip p"
| "add_col lt buf (Time t) = AddCol_time lt buf t"

fun add_row :: "(int \<Rightarrow> tm) \<Rightarrow> string \<Rightarrow> cell \<Rightarrow> string" where
  "add_row lt buf (Text s) = AddRow_str buf s"
| "add_row lt buf (Num x) = AddRow_int buf x"
| "add_row lt buf (Addr ip p) = AddRow_addr buf ip p"
| "add_row lt buf (Time t) = AddRow_time lt buf t"

fun cell_text :: "(int \<Rightarrow> tm) \<Rightarrow> cell \<Rightarrow> string" where
  "cell_text lt (Text s) = s"
| "cell_text lt (Num x) = show_int x"
| "cell_text lt (Addr ip p) = ip @ '':'' @ show_int p"
| "cell_text lt (Time t) = DateTime_text (lt t)"

text \<open>Cells that survive: their text holds no separator and no NUL byte; numbers are
  \<open>int\<close>s, so that the 21-byte buffers suffice.\<close>

fun cell_ok :: "(int \<Rightarrow> tm) \<Rightarrow> cell \<Rightarrow> bool" where
  "cell_ok lt (Text s) = (MR_COL_SEP \<notin> set s \<and> MR_ROW_SEP \<notin> set s \<and> NUL \<notin> set s)"
| "cell_ok lt (Num x) = in_i32 x"
| "cell_ok lt (Addr ip p) = (MR_COL_SEP \<notin> set ip \<and> MR_ROW_SEP \<notin> set ip \<and> NUL \<notin> set ip \<and> in_i32 p)"
| "cell_ok lt (Time t) = tm_ok (lt t)"

text \<open>A row: every cell but the last is a column.\<close>

fun report_row :: "(int \<Rightarrow> tm) \<Rightarrow> string \<Rightarrow> cell list \<Rightarrow> string" where
  "report_row lt buf [] = buf"
| "report_row lt buf [c] = add_row lt buf c"
| "report_row lt buf (c # d # cs) = report_row lt (add_col lt buf c) (d # cs)"

definition report :: "(int \<Rightarrow> tm) \<Rightarrow> cell list list \<Rightarrow> string" where
  "report lt rows = foldl (report_row lt) [] rows"

lemmas AddCol_defs = AddCol_str_def AddCol_int_def AddCol_addr_def AddCol_time_def
lemmas AddRow_defs = AddRow_str_def AddRow_int_def AddRow_addr_def AddRow_time_def

lemma show_int_fits: "in_i32 x \<Longrightarrow> snprintf_buf 21 (show_int x) = show_int x"
proof (rule snprintf_buf_fits)
  assume "in_i32 x"
  then have "nat (- x) < 10 ^ Suc 10" "nat x < 10 ^ Suc 10"
    by (auto simp: in_i32_def nat_less_iff)
  from this [THEN length_show_nat_le] show "length (show_int x) < 21"
    by (simp add: show_int_def)
qed

lemma DateTime_text_isdigit: "tm_ok t \<Longrightarrow> c \<in> set (DateTime_text t) \<Longrightarrow> isdigit_c c"
  by (auto simp: DateTime_text_def tm_ok_def pad_int_digits_w digits_w_isdigit)

lemma add_col_eq: "cell_ok lt c \<Longrightarrow> add_col lt buf c = buf @ cell_text lt c @ [MR_COL_SEP]"
  by (cases c) (auto simp: AddCol_defs show_int_fits GetDateTimeString_def snprintf_buf_fits
      length_DateTime_text)

lemma add_row_eq: "cell_ok lt c \<Longrightarrow> add_row lt buf c = buf @ cell_text lt c @ [MR_ROW_SEP]"
  by (cases c) (auto simp: AddRow_defs show_int_fits GetDateTimeString_def snprintf_buf_fits
      length_DateTime_text)

lemma sep_not_digit: "\<not> isdigit_c MR_COL_SEP" "\<not> isdigit_c MR_ROW_SEP"
  by (simp_all add: isdigit_c_def MR_COL_SEP_def MR_ROW_SEP_def)

lemma sep_show_int: "MR_COL_SEP \<notin> set (show_int x)" "MR_ROW_SEP \<notin> set (show_int x)"
  using show_int_chars [of _ x] sep_not_digit by (force simp: MR_COL_SEP_def MR_ROW_SEP_def)+

lemma cell_text_ok:
  assumes "cell_ok lt c"
  shows "MR_COL_SEP \<notin> set (cell_text lt c)" "MR_ROW_SEP \<notin> set (cell_text lt c)" "NUL \<notin> set (cell_text lt c)"
proof -
  have n: "\<not> isdigit_c NUL" by (simp add: isdigit_c_def)
  have "NUL \<notin> set (show_int x)" for x using show_int_chars [of NUL x] n by force
  then show "MR_COL_SEP \<notin> set (cell_text lt c)" "MR_ROW_SEP \<notin> set (cell_text lt c)" "NUL \<notin> set (cell_text lt c)"
    using assms DateTime_text_isdigit sep_not_digit n
    by (cases c; auto simp: sep_show_int; auto simp: MR_COL_SEP_def MR_ROW_SEP_def)+
qed

lemma report_row_eq:
  "cs \<noteq> [] \<Longrightarrow> list_all (cell_ok lt) cs \<Longrightarrow>
    report_row lt buf cs = buf @ join_with MR_COL_SEP (map (cell_text lt) cs) @ [MR_ROW_SEP]"
  by (induction lt buf cs rule: report_row.induct) (auto simp: add_row_eq add_col_eq)

lemma report_eq:
  "(\<And>r. r \<in> set rows \<Longrightarrow> list_all (cell_ok lt) r) \<Longrightarrow>
    foldl (report_row lt) buf rows =
      buf @ concat (map (\<lambda>r. join_with MR_COL_SEP (map (cell_text lt) r) @ [MR_ROW_SEP]) (filter (\<lambda>r. r \<noteq> []) rows))"
  by (induction rows arbitrary: buf) (auto simp: report_row_eq)

lemma split_on_lines:
  "(\<And>x. x \<in> set xs \<Longrightarrow> c \<notin> set x) \<Longrightarrow> split_on c (concat (map (\<lambda>x. x @ [c]) xs)) = xs @ [[]]"
  by (induction xs) (auto simp: split_on_sep)

lemma set_join_with: "set (join_with c xs) \<subseteq> insert c (\<Union>x\<in>set xs. set x)"
  by (induction c xs rule: join_with.induct) auto

lemma join_with_eq_Nil: "join_with c xs = [] \<longleftrightarrow> xs = [] \<or> xs = [[]]"
  by (induction c xs rule: join_with.induct) auto

text \<open>Splitting the report at its separators gives back the texts of its cells that are not empty.\<close>

lemma report_split:
  assumes "\<And>r. r \<in> set rows \<Longrightarrow> list_all (cell_ok lt) r"
  shows "map (\<lambda>l. SplitString (cstr l) MR_COL_SEP) (SplitString (cstr (report lt rows)) MR_ROW_SEP) =
    map (\<lambda>r. filter (\<lambda>x. x \<noteq> []) (map (cell_text lt) r)) (filter (\<lambda>r. map (cell_text lt) r \<noteq> [] \<and> map (cell_text lt) r \<noteq> [[]]) rows)"
proof -
  let ?line = "\<lambda>r. join_with MR_COL_SEP (map (cell_text lt) r)" and ?rows = "filter (\<lambda>r. r \<noteq> []) rows"
  have line: "MR_ROW_SEP \<notin> set (?line r) \<and> NUL \<notin> set (?line r) \<and>
      SplitString (?line r) MR_COL_SEP = filter (\<lambda>x. x \<noteq> []) (map (cell_text lt) r)" if "r \<in> set ?rows" for r
  proof -
    from assms [of r] that have r: "r \<noteq> []" "\<And>c. c \<in> set r \<Longrightarrow> cell_ok lt c" by (auto simp: list_all_iff)
    have "MR_ROW_SEP \<notin> set (?line r) \<and> NUL \<notin> set (?line r)"
      using set_join_with [of MR_COL_SEP "map (cell_text lt) r"] cell_text_ok(2,3) [OF r(2)]
      by (auto simp: MR_COL_SEP_def MR_ROW_SEP_def)
    moreover have "split_on MR_COL_SEP (?line r) = map (cell_text lt) r"
      using r cell_text_ok(1) by (intro split_join) auto
    ultimately show ?thesis by (simp add: SplitString_eq)
  qed
  have rep: "report lt rows = concat (map (\<lambda>x. x @ [MR_ROW_SEP]) (map ?line ?rows))"
    using report_eq [of rows lt "[]"] assms by (simp add: report_def comp_def)
  have "NUL \<notin> set (report lt rows)" unfolding rep using line by (auto simp: MR_ROW_SEP_def)
  then have c: "cstr (report lt rows) = report lt rows" by simp
  have "split_on MR_ROW_SEP (report lt rows) = map ?line ?rows @ [[]]"
    unfolding rep by (rule split_on_lines) (use line in auto)
  then have s: "SplitString (report lt rows) MR_ROW_SEP = filter (\<lambda>x. x \<noteq> []) (map ?line ?rows)"
    by (simp add: SplitString_eq)
  have l: "map (\<lambda>l. SplitString (cstr l) MR_COL_SEP) (filter (\<lambda>x. x \<noteq> []) (map ?line rs)) =
      map (\<lambda>r. filter (\<lambda>x. x \<noteq> []) (map (cell_text lt) r)) (filter (\<lambda>r. map (cell_text lt) r \<noteq> [[]]) rs)"
    if "set rs \<subseteq> set ?rows" for rs
    using that line by (induction rs) (auto simp: join_with_eq_Nil)
  have "filter (\<lambda>r. map (cell_text lt) r \<noteq> [[]]) ?rows = filter (\<lambda>r. map (cell_text lt) r \<noteq> [] \<and> map (cell_text lt) r \<noteq> [[]]) rows"
    by (simp add: conj_commute)
  then show ?thesis using l [of ?rows] by (simp only: c s)
qed

end
