(* ===== verification/PlatformSpec.thy ===== *)
theory PlatformSpec
  imports StringMap SqlInjection DbSetData MonitorString
begin

text \<open>
  What the platform layer promises: strings, the string map, time texts and reports, and the
  column and SQL text helpers of DbMySQLPool that are built on them.
\<close>

subsection \<open>Strings\<close>

text \<open>C37: \<open>ReplaceString\<close> returns exactly when the search string is not empty, and its result
  is then the left-to-right replacement of the non-overlapping occurrences, whatever the
  replacement text holds (the search string included). With an empty search string the loop
  never ends.\<close>

theorem replace_string_returns:
  "ReplaceString s pszBefore pszAfter =
     (if pszBefore = [] then None else Some (replace_all pszBefore pszAfter s))"
  by (simp add: ReplaceString_replace_all ReplaceString_empty)

text \<open>\<open>SplitString\<close> undoes joining: a list of non-empty pieces without the separator is
  read back from its joined text, and splitting any text gives its non-empty pieces.\<close>

theorem split_string_join:
  assumes "xs \<noteq> []" and "\<And>x. x \<in> set xs \<Longrightarrow> c \<notin> set x \<and> x \<noteq> []"
  shows "SplitString (join_with c xs) c = xs \<and>
    SplitString t c = filter (\<lambda>x. x \<noteq> []) (split_on c t)"
  using assms by (simp add: SplitString_join SplitString_eq [of t])

theorem split_string_join_witness:
  "SplitString (join_with (CHR '','') [''ab'', ''c'']) (CHR '','') = [''ab'', ''c''] \<and>
     SplitString '',,a,,b'' (CHR '','') = filter (\<lambda>x. x \<noteq> []) (split_on (CHR '','') '',,a,,b'')"
  by (rule split_string_join) auto

text \<open>\<open>TrimString\<close> removes spaces and tabs at both ends and nothing else: the result is
  the text between two blank margins, neither of its ends is blank, and a second trim
  changes nothing.\<close>

theorem trim_string_margins:
  "(\<exists>l r. s = l @ TrimString s @ r \<and> list_all blank l \<and> list_all blank r) \<and>
   (TrimString s = [] \<or> (let u = TrimString s in (blank (hd u), blank (last u)) = (False, False))) \<and>
   TrimString (TrimString s) = TrimString s"
  using TrimString_decomp [of s] TrimString_ends [of s] TrimString_idem [of s]
  by (auto simp: Let_def)

text \<open>\<open>HexToString\<close> reads back the bytes that \<open>"%02x"\<close> printed, with or without the
  prefix \<open>0x\<close>; no byte of the result is indeterminate.\<close>

theorem hex_to_string_roundtrip:
  assumes "bs \<noteq> []"
  shows "HexToString (hex_text bs) = (True, map Some bs) \<and>
    HexToString (''0x'' @ hex_text bs) = (True, map Some bs)"
  using HexToString_hex_text [OF assms] by simp

theorem hex_to_string_roundtrip_witness:
  "HexToString (hex_text ''A~'') = (True, map Some ''A~'') \<and>
   HexToString (''0x'' @ hex_text ''A~'') = (True, map Some ''A~'')"
  by (rule hex_to_string_roundtrip) simp

subsection \<open>String map\<close>

text \<open>C36: Every run of commands on \<open>CStringMap\<close> gives the results of the same commands on a
  partial function from keys to values (a null key is refused, the first value inserted under
  a key stays until it is deleted), keeps the keys strictly sorted, and \<open>GetCount\<close> is then the
  number of keys.\<close>

theorem string_map_refines:
  assumes "CStringMap_run cs [] = (rs, m)" and "length m < 2 ^ 31"
  shows "abs_run cs Map.empty = (rs, map_of m) \<and> map_inv m \<and>
    CStringMap_GetCount m = int (card (dom (map_of m)))"
proof -
  from CStringMap_run_refines [OF _ assms(1)] std.inv_empty
  have "map_inv m" "abs_run cs (map_of []) = (rs, map_of m)" by auto
  then show ?thesis using CStringMap_GetCount_eq [OF _ assms(2)] by simp
qed

definition demo_cmds :: "sm_cmd list" where
  "demo_cmds = [SmInsert (Some ''b'') (Some ''2''), SmInsert (Some ''a'') None, SmInsert (Some ''b'') (Some ''9''),
     SmSelect (Some ''b''), SmInsert None None, SmDelete (Some ''a''), SmHas (Some ''a'')]"

lemma demo_cmds_run: "CStringMap_run demo_cmds [] =
  ([SmBool True, SmBool True, SmBool False, SmFound True ''2'', SmBool False, SmBool True, SmBool False], [(''b'', ''2'')])"
  by code_simp

theorem string_map_refines_witness:
  "abs_run demo_cmds Map.empty =
     ([SmBool True, SmBool True, SmBool False, SmFound True ''2'', SmBool False, SmBool True, SmBool False],
      map_of [(''b'', ''2'')]) \<and> map_inv [(''b'', ''2'')] \<and>
    CStringMap_GetCount [(''b'', ''2'')] = int (card (dom (map_of [(''b'', ''2'')])))"
  by (rule string_map_refines [OF demo_cmds_run]) simp

subsection \<open>SQL texts\<close>

lemma CheckSql_loop_event:
  "map fst (snd (CheckSql_loop f v ts)) = (if fst (CheckSql_loop f v ts) then [] else [LOG_ERROR])"
  by (induction f v ts rule: CheckSql_loop.induct) auto

text \<open>Each of the four SQL injection checks accepts exactly the values that hold none of
  its characters; it writes no log then and exactly one error log otherwise.\<close>

theorem sql_check_characters:
  "fst (DbCheckSqlInjection v) = (set v \<inter> set test_all = {}) \<and>
   fst (DbCheckSqlInjectionNotSlash v) = (set v \<inter> (set test_all - {CHR ''/''}) = {}) \<and>
   fst (DbCheckSqlInjectionNotSpace v) = (set v \<inter> (set test_all - {SPACE}) = {}) \<and>
   fst (DbCheckSqlInjectionNotMinus v) = (set v \<inter> (set test_all - {CHR ''-''}) = {}) \<and>
   (let logs = (\<lambda>(ok, evs). map fst evs = (if ok then [] else [LOG_ERROR]))
    in logs (DbCheckSqlInjection v) \<and> logs (DbCheckSqlInjectionNotSlash v) \<and>
       logs (DbCheckSqlInjectionNotSpace v) \<and> logs (DbCheckSqlInjectionNotMinus v))"
proof -
  have "set test_not_slash = set test_all - {CHR ''/''}" "set test_not_space = set test_all - {SPACE}"
    "set test_not_minus = set test_all - {CHR ''-''}"
    by (auto simp: test_defs)
  then show ?thesis
    by (simp add: DbCheckSqlInjection_def DbCheckSqlInjectionNotSlash_def DbCheckSqlInjectionNotSpace_def
        DbCheckSqlInjectionNotMinus_def CheckSql_loop_iff CheckSql_loop_event case_prod_beta)
qed

text \<open>C39: \<open>DbReplaceSqlInjectionNotSpace\<close> always returns; its result passes
  \<open>DbCheckSqlInjectionNotSpace\<close>, has the length of the value, and differs from it only where
  the value held a refused character. Replacing again changes nothing.\<close>

theorem sql_replace_passes_check:
  "\<exists>w. DbReplaceSqlInjectionNotSpace v = Some w \<and> DbCheckSqlInjectionNotSpace w = (True, []) \<and>
     list_all2 (\<lambda>a b. b = (if a \<in> set test_not_space then SPACE else a)) v w \<and>
     DbReplaceSqlInjectionNotSpace w = Some w"
proof -
  let ?f = "\<lambda>c. if c \<in> set test_not_space then SPACE else c"
  have "set (map ?f v) \<inter> set test_not_space = {}" using test_not_space_chars by auto
  then have "DbCheckSqlInjectionNotSpace (map ?f v) = (True, [])"
    using CheckSql_loop_iff [of "''DbCheckSqlInjectionNotSpace''" "map ?f v" test_not_space]
      CheckSql_loop_event [of "''DbCheckSqlInjectionNotSpace''" "map ?f v" test_not_space]
    by (simp add: DbCheckSqlInjectionNotSpace_def prod_eq_iff)
  moreover have "map ?f (map ?f v) = map ?f v" using test_not_space_chars by auto
  ultimately show ?thesis
    by (intro exI [of _ "map ?f v"]) (simp add: DbReplace_eq list_all2_conv_all_nth)
qed

text \<open>A fetched row is copied exactly: reading every column of a row that holds the texts
  of typed values with the \<open>DbSetData\<close> overload of each type, from the first column on, gives
  back the values, leaves the variables of NULL columns as they were and ends after the last
  column.\<close>

theorem set_data_reads_row:
  assumes "list_all2 (\<lambda>old v. case v of None \<Rightarrow> True | Some x \<Rightarrow> same_type old x \<and> col_ok x) olds vs"
  shows "fetch_cols (map (map_option col_text) vs) 0 olds =
    Some (int (length vs), map2 (\<lambda>old v. case v of None \<Rightarrow> old | Some x \<Rightarrow> x) olds vs)"
  using fetch_cols_text [OF assms, of "[]"] by simp

theorem set_data_reads_row_witness:
  "fetch_cols (map (map_option col_text) [Some (CInt (- 5)), None, Some (CString ''x'')]) 0
       [CInt 0, CUInt64 7, CString ''old''] =
     Some (int (length [Some (CInt (- 5)), None, Some (CString ''x'')]),
       map2 (\<lambda>old v. case v of None \<Rightarrow> old | Some x \<Rightarrow> x) [CInt 0, CUInt64 7, CString ''old'']
         [Some (CInt (- 5)), None, Some (CString ''x'')])"
  by (rule set_data_reads_row) (simp add: in_i32_def)

subsection \<open>Times and reports\<close>

text \<open>\<open>DiffTimeval\<close> is the difference of two time values in milliseconds, wrap-around free
  below 2,000,000 seconds: rounded down when the microseconds grow, rounded up when they
  shrink, so off by less than a millisecond.\<close>

theorem diff_timeval_exact:
  assumes "timeval_ok a" and "timeval_ok b" and "\<bar>tv_sec b - tv_sec a\<bar> < 2000000"
  shows "DiffTimeval a b = (if tv_usec b \<ge> tv_usec a then exact_usec a b div 1000
      else - ((- exact_usec a b) div 1000)) \<and> \<bar>DiffTimeval a b * 1000 - exact_usec a b\<bar> < 1000"
proof -
  have "\<bar>x div 1000 * 1000 - x\<bar> < 1000" for x :: int
    using div_mult_mod_eq [of x 1000] pos_mod_bound [of 1000 x] pos_mod_sign [of 1000 x] by linarith
  from this [of "exact_usec a b"] this [of "- exact_usec a b"] show ?thesis
    unfolding DiffTimeval_eq [OF assms] by (auto simp: algebra_simps)
qed

theorem diff_timeval_exact_witness:
  "let a = \<lparr>tv_sec = 10, tv_usec = 999500\<rparr>; b = \<lparr>tv_sec = 12, tv_usec = 100\<rparr>
   in DiffTimeval a b = 1001 \<and> \<bar>DiffTimeval a b * 1000 - exact_usec a b\<bar> < 1000"
  using diff_timeval_exact [of "\<lparr>tv_sec = 10, tv_usec = 999500\<rparr>" "\<lparr>tv_sec = 12, tv_usec = 100\<rparr>"]
  by (simp add: timeval_ok_def exact_usec_def Let_def)

text \<open>Time texts sort as the times they print: for broken-down times of the years 0 to
  9999, the texts of \<open>GetDateTimeString\<close> in a buffer of at least 15 bytes are complete,
  of 14 digits, and compare byte by byte exactly as year, month, day, hour, minute and second
  compare as numbers.\<close>

theorem date_time_text_order:
  assumes "tm_ok (localtime s)" and "tm_ok (localtime t)" and "15 \<le> n"
  shows "length (GetDateTimeString localtime s n) = 14 \<and>
    (GetDateTimeString localtime s n < GetDateTimeString localtime t n \<longleftrightarrow>
       tm_key (localtime s) < tm_key (localtime t))"
  using assms length_DateTime_text [OF assms(1)] length_DateTime_text [OF assms(2)]
  by (simp add: GetDateTimeString_def snprintf_buf_fits DateTime_text_order)

definition demo_time :: "int \<Rightarrow> tm" where
  "demo_time t = \<lparr>tm_year = 124, tm_mon = t mod 12, tm_mday = 9, tm_hour = 1, tm_min = 2, tm_sec = 3\<rparr>"

lemma demo_time_ok: "tm_ok (demo_time t)"
  using pos_mod_bound [of 12 t] pos_mod_sign [of 12 t] by (simp add: tm_ok_def demo_time_def)

theorem date_time_text_order_witness:
  "length (GetDateTimeString demo_time 8 15) = 14 \<and>
    (GetDateTimeString demo_time 8 15 < GetDateTimeString demo_time 9 15 \<longleftrightarrow>
       tm_key (demo_time 8) < tm_key (demo_time 9))"
  by (rule date_time_text_order) (simp_all add: demo_time_ok)

text \<open>C38: A monitoring report can be read back: splitting the C string of a report at the line feeds and each line at
  the column separators gives, row by row, the texts of the cells that are not empty, for rows of texts, numbers,
  addresses and times that hold no separator and no NUL byte; no buffer of the integer and time columns
  truncates. \<open>SplitString\<close> drops empty pieces: an empty cell is lost, so the cells behind it move to
  the left, and a row without cells, or with one empty cell only, disappears.\<close>

theorem monitor_report_roundtrip:
  assumes "\<And>r. r \<in> set rows \<Longrightarrow> list_all (cell_ok lt) r"
  shows "map (\<lambda>l. SplitString (cstr l) MR_COL_SEP) (SplitString (MonitorString_GetString (report lt rows)) MR_ROW_SEP) =
    map (\<lambda>r. filter (\<lambda>x. x \<noteq> []) (map (cell_text lt) r))
      (filter (\<lambda>r. map (cell_text lt) r \<noteq> [] \<and> map (cell_text lt) r \<noteq> [[]]) rows)"
  using assms unfolding MonitorString_GetString_def by (rule report_split)

theorem monitor_report_roundtrip_witness:
  "map (\<lambda>l. SplitString (cstr l) MR_COL_SEP)
     (SplitString (MonitorString_GetString (report demo_time [[Text ''a b'', Text [], Num (- 7)], [Text []], [Addr ''10.0.0.1'' 3306, Time 4]])) MR_ROW_SEP) =
    [[''a b'', ''-7''], [''10.0.0.1:3306'', cell_text demo_time (Time 4)]]"
proof -
  let ?rows = "[[Text ''a b'', Text [], Num (- 7)], [Text []], [Addr ''10.0.0.1'' 3306, Time 4]]"
  have n: "cell_text demo_time (Num (- 7)) = ''-7''" "cell_text demo_time (Addr ''10.0.0.1'' 3306) = ''10.0.0.1:3306''"
    "cell_text demo_time (Time 4) \<noteq> []" by code_simp+
  have "map (\<lambda>l. SplitString (cstr l) MR_COL_SEP) (SplitString (MonitorString_GetString (report demo_time ?rows)) MR_ROW_SEP) =
    map (\<lambda>r. filter (\<lambda>x. x \<noteq> []) (map (cell_text demo_time) r))
      (filter (\<lambda>r. map (cell_text demo_time) r \<noteq> [] \<and> map (cell_text demo_time) r \<noteq> [[]]) ?rows)"
    by (rule monitor_report_roundtrip) (auto simp: demo_time_ok in_i32_def MR_COL_SEP_def MR_ROW_SEP_def)
  then show ?thesis using n by (simp del: cell_text.simps(2-4))
qed

end
