(* ===== verification/XmlElement.thy ===== *)
theory XmlElement
  imports StdMap StringUtility
begin

text \<open>
  XmlParser/XmlElement.cpp without the parser and the printer: the element type and its
  accessors. The four fields of \<open>CXmlElement\<close> are the selectors of a recursive datatype. A
  \<open>CXmlElement *\<close> into the list of children is the position of the child. The \<open>Trim\<close>
  accessors change the stored text: they return the updated element. \<open>double\<close> values are
  a type \<open>'d\<close> with the parameters \<open>atof\<close> and \<open>format\<close> (the output of \<open>"%f"\<close>).
\<close>

datatype CXmlElement = XmlElement
  (m_strName: string) (m_strData: string)
  (m_clsAttributeMap: "(string \<times> string) list") (m_clsElementList: "CXmlElement list")

fun set_name :: "string \<Rightarrow> CXmlElement \<Rightarrow> CXmlElement" where
  "set_name n (XmlElement _ d a l) = XmlElement n d a l"

fun set_data :: "string \<Rightarrow> CXmlElement \<Rightarrow> CXmlElement" where
  "set_data d (XmlElement n _ a l) = XmlElement n d a l"

fun set_attrs :: "(string \<times> string) list \<Rightarrow> CXmlElement \<Rightarrow> CXmlElement" where
  "set_attrs a (XmlElement n d _ l) = XmlElement n d a l"

fun set_elems :: "CXmlElement list \<Rightarrow> CXmlElement \<Rightarrow> CXmlElement" where
  "set_elems l (XmlElement n d a _) = XmlElement n d a l"

lemma set_field_sel [simp]:
  "m_strName (set_name n e) = n" "m_strData (set_name n e) = m_strData e"
  "m_clsAttributeMap (set_name n e) = m_clsAttributeMap e" "m_clsElementList (set_name n e) = m_clsElementList e"
  "m_strName (set_data d e) = m_strName e" "m_strData (set_data d e) = d"
  "m_clsAttributeMap (set_data d e) = m_clsAttributeMap e" "m_clsElementList (set_data d e) = m_clsElementList e"
  "m_strName (set_attrs a e) = m_strName e" "m_strData (set_attrs a e) = m_strData e"
  "m_clsAttributeMap (set_attrs a e) = a" "m_clsElementList (set_attrs a e) = m_clsElementList e"
  "m_strName (set_elems l e) = m_strName e" "m_strData (set_elems l e) = m_strData e"
  "m_clsAttributeMap (set_elems l e) = m_clsAttributeMap e" "m_clsElementList (set_elems l e) = l"
  by (cases e; simp)+

subsection \<open>Construction and plain accessors\<close>

definition CXmlElement_Clear :: "CXmlElement \<Rightarrow> CXmlElement" where
  "CXmlElement_Clear e = set_elems [] (set_attrs [] (set_data [] (set_name [] e)))"

definition SetName :: "cstring \<Rightarrow> CXmlElement \<Rightarrow> CXmlElement" where
  "SetName pszName e = set_name pszName e"

definition SetData :: "cstring \<Rightarrow> CXmlElement \<Rightarrow> CXmlElement" where
  "SetData pszData e = set_data pszData e"

definition CXmlElement_new :: "cstring option \<Rightarrow> CXmlElement" where
  "CXmlElement_new pszName =
     (case pszName of None \<Rightarrow> XmlElement [] [] [] [] | Some n \<Rightarrow> SetName n (XmlElement [] [] [] []))"

definition GetName :: "CXmlElement \<Rightarrow> cstring" where "GetName e = cstr (m_strName e)"
definition GetData :: "CXmlElement \<Rightarrow> cstring" where "GetData e = cstr (m_strData e)"
definition IsDataEmpty :: "CXmlElement \<Rightarrow> bool" where "IsDataEmpty e \<longleftrightarrow> m_strData e = []"

definition GetElementList :: "CXmlElement \<Rightarrow> CXmlElement list" where
  "GetElementList e = m_clsElementList e"

definition GetBoolean :: "cstring \<Rightarrow> bool" where
  "GetBoolean pszData \<longleftrightarrow> strcasecmp_eq pszData ''true'' \<or> strcasecmp_eq pszData ''yes''"

subsection \<open>Attributes\<close>

definition SelectAttribute :: "cstring \<Rightarrow> CXmlElement \<Rightarrow> cstring option" where
  "SelectAttribute pszName e = map_option cstr (map_of (m_clsAttributeMap e) pszName)"

definition SelectAttributeTrim :: "cstring \<Rightarrow> CXmlElement \<Rightarrow> cstring option \<times> CXmlElement" where
  "SelectAttributeTrim pszName e =
     (case map_of (m_clsAttributeMap e) pszName of None \<Rightarrow> (None, e)
      | Some v \<Rightarrow> (Some (cstr (TrimString v)),
                  set_attrs (map_assign pszName (TrimString v) (m_clsAttributeMap e)) e))"

definition SelectAttribute_string :: "cstring \<Rightarrow> CXmlElement \<Rightarrow> bool \<times> string" where
  "SelectAttribute_string pszName e =
     (case map_of (m_clsAttributeMap e) pszName of None \<Rightarrow> (False, []) | Some v \<Rightarrow> (True, v))"

definition SelectAttributeTrim_string :: "cstring \<Rightarrow> CXmlElement \<Rightarrow> bool \<times> string" where
  "SelectAttributeTrim_string pszName e =
     (case map_of (m_clsAttributeMap e) pszName of None \<Rightarrow> (False, []) | Some v \<Rightarrow> (True, TrimString v))"

definition SelectAttribute_int :: "cstring \<Rightarrow> CXmlElement \<Rightarrow> (bool \<times> int) \<times> CXmlElement" where
  "SelectAttribute_int pszName e =
     (case SelectAttributeTrim pszName e of (Some v, e') \<Rightarrow> ((True, atoi v), e')
      | (None, e') \<Rightarrow> ((False, 0), e'))"

definition SelectAttribute_int64 :: "cstring \<Rightarrow> CXmlElement \<Rightarrow> (bool \<times> int) \<times> CXmlElement" where
  "SelectAttribute_int64 pszName e =
     (case SelectAttributeTrim pszName e of (Some v, e') \<Rightarrow> ((True, atoll v), e')
      | (None, e') \<Rightarrow> ((False, 0), e'))"

definition SelectAttribute_bool :: "cstring \<Rightarrow> CXmlElement \<Rightarrow> (bool \<times> bool) \<times> CXmlElement" where
  "SelectAttribute_bool pszName e =
     (case SelectAttributeTrim pszName e of (Some v, e') \<Rightarrow> ((True, GetBoolean v), e')
      | (None, e') \<Rightarrow> ((False, False), e'))"

definition SelectAttribute_double ::
    "(cstring \<Rightarrow> 'd::zero) \<Rightarrow> cstring \<Rightarrow> CXmlElement \<Rightarrow> (bool \<times> 'd) \<times> CXmlElement" where
  "SelectAttribute_double atof pszName e =
     (case SelectAttributeTrim pszName e of (Some v, e') \<Rightarrow> ((True, atof v), e')
      | (None, e') \<Rightarrow> ((False, 0), e'))"

definition InsertAttribute :: "cstring \<Rightarrow> cstring \<Rightarrow> CXmlElement \<Rightarrow> CXmlElement" where
  "InsertAttribute pszName pszValue e =
     (let m = m_clsAttributeMap e
      in set_attrs (if map_of m pszName = None then map_insert pszName pszValue m
                    else map_assign pszName pszValue m) e)"

definition InsertAttribute_string :: "cstring \<Rightarrow> string \<Rightarrow> CXmlElement \<Rightarrow> CXmlElement" where
  "InsertAttribute_string pszName strValue e = InsertAttribute pszName (cstr strValue) e"

definition InsertAttribute_int :: "cstring \<Rightarrow> int \<Rightarrow> CXmlElement \<Rightarrow> CXmlElement" where
  "InsertAttribute_int pszName iValue e = InsertAttribute pszName (snprintf_buf 11 (show_int iValue)) e"

definition InsertAttribute_int64 :: "cstring \<Rightarrow> int \<Rightarrow> CXmlElement \<Rightarrow> CXmlElement" where
  "InsertAttribute_int64 pszName iValue e = InsertAttribute pszName (snprintf_buf 21 (show_int iValue)) e"

definition InsertAttribute_bool :: "cstring \<Rightarrow> bool \<Rightarrow> CXmlElement \<Rightarrow> CXmlElement" where
  "InsertAttribute_bool pszName bValue e = InsertAttribute pszName (if bValue then ''true'' else ''false'') e"

definition InsertAttribute_double :: "('d \<Rightarrow> string) \<Rightarrow> cstring \<Rightarrow> 'd \<Rightarrow> CXmlElement \<Rightarrow> CXmlElement" where
  "InsertAttribute_double format pszName dbValue e =
     InsertAttribute pszName (cstr (snprintf_buf 51 (format dbValue))) e"

subsection \<open>Children\<close>

text \<open>The loops over \<open>m_clsElementList\<close>: \<open>pos\<close> is the position of the iterator.\<close>

fun SelectElement_loop :: "cstring \<Rightarrow> int \<Rightarrow> int \<Rightarrow> nat \<Rightarrow> CXmlElement list \<Rightarrow> nat option" where
  "SelectElement_loop pszName iIndex iCount pos [] = None"
| "SelectElement_loop pszName iIndex iCount pos (e # es) =
     (if pszName = cstr (m_strName e)
      then if iCount = iIndex then Some pos
           else SelectElement_loop pszName iIndex (iCount + 1) (Suc pos) es
      else SelectElement_loop pszName iIndex iCount (Suc pos) es)"

definition SelectElement :: "cstring \<Rightarrow> int \<Rightarrow> CXmlElement \<Rightarrow> nat option" where
  "SelectElement pszName iIndex e =
     (if iIndex < 0 then None else SelectElement_loop pszName iIndex 0 0 (m_clsElementList e))"

fun SelectIndex_loop :: "int \<Rightarrow> int \<Rightarrow> nat \<Rightarrow> CXmlElement list \<Rightarrow> nat option" where
  "SelectIndex_loop iIndex iCount pos [] = None"
| "SelectIndex_loop iIndex iCount pos (e # es) =
     (if iCount = iIndex then Some pos else SelectIndex_loop iIndex (iCount + 1) (Suc pos) es)"

definition SelectElement_index :: "int \<Rightarrow> CXmlElement \<Rightarrow> nat option" where
  "SelectElement_index iIndex e =
     (if iIndex < 0 then None else SelectIndex_loop iIndex 0 0 (m_clsElementList e))"

fun SelectList_loop :: "cstring \<Rightarrow> CXmlElement list \<Rightarrow> CXmlElement list \<Rightarrow> CXmlElement list" where
  "SelectList_loop pszName [] clsList = clsList"
| "SelectList_loop pszName (e # es) clsList =
     SelectList_loop pszName es (if pszName = cstr (m_strName e) then clsList @ [e] else clsList)"

definition SelectElementList :: "cstring \<Rightarrow> CXmlElement \<Rightarrow> bool \<times> CXmlElement list" where
  "SelectElementList pszName e =
     (let l = SelectList_loop pszName (m_clsElementList e) [] in (l \<noteq> [], l))"

definition GetElementData :: "cstring \<Rightarrow> int \<Rightarrow> CXmlElement \<Rightarrow> cstring option" where
  "GetElementData pszName iIndex e =
     map_option (\<lambda>p. cstr (m_strData (m_clsElementList e ! p))) (SelectElement pszName iIndex e)"

text \<open>Writing through a child pointer.\<close>

definition update_child :: "nat \<Rightarrow> (CXmlElement \<Rightarrow> CXmlElement) \<Rightarrow> CXmlElement \<Rightarrow> CXmlElement" where
  "update_child p f e = set_elems ((m_clsElementList e)[p := f (m_clsElementList e ! p)]) e"

definition GetElementDataTrim :: "cstring \<Rightarrow> int \<Rightarrow> CXmlElement \<Rightarrow> cstring option \<times> CXmlElement" where
  "GetElementDataTrim pszName iIndex e =
     (case SelectElement pszName iIndex e of None \<Rightarrow> (None, e)
      | Some p \<Rightarrow> let d = TrimString (m_strData (m_clsElementList e ! p))
                 in (Some (cstr d), update_child p (set_data d) e))"

definition SelectElementData_string :: "cstring \<Rightarrow> int \<Rightarrow> CXmlElement \<Rightarrow> bool \<times> string" where
  "SelectElementData_string pszName iIndex e =
     (case SelectElement pszName iIndex e of None \<Rightarrow> (False, [])
      | Some p \<Rightarrow> (True, m_strData (m_clsElementList e ! p)))"

definition SelectElementTrimData :: "cstring \<Rightarrow> int \<Rightarrow> CXmlElement \<Rightarrow> bool \<times> string" where
  "SelectElementTrimData pszName iIndex e =
     (case SelectElement pszName iIndex e of None \<Rightarrow> (False, [])
      | Some p \<Rightarrow> (True, TrimString (m_strData (m_clsElementList e ! p))))"

definition SelectElementData_int :: "cstring \<Rightarrow> int \<Rightarrow> CXmlElement \<Rightarrow> (bool \<times> int) \<times> CXmlElement" where
  "SelectElementData_int pszName iIndex e =
     (case GetElementDataTrim pszName iIndex e of (Some v, e') \<Rightarrow> ((True, atoi v), e')
      | (None, e') \<Rightarrow> ((False, 0), e'))"

definition SelectElementData_int64 :: "cstring \<Rightarrow> int \<Rightarrow> CXmlElement \<Rightarrow> (bool \<times> int) \<times> CXmlElement" where
  "SelectElementData_int64 pszName iIndex e =
     (case GetElementDataTrim pszName iIndex e of (Some v, e') \<Rightarrow> ((True, atoll v), e')
      | (None, e') \<Rightarrow> ((False, 0), e'))"

definition SelectElementData_bool :: "cstring \<Rightarrow> int \<Rightarrow> CXmlElement \<Rightarrow> (bool \<times> bool) \<times> CXmlElement" where
  "SelectElementData_bool pszName iIndex e =
     (case GetElementDataTrim pszName iIndex e of (Some v, e') \<Rightarrow> ((True, GetBoolean v), e')
      | (None, e') \<Rightarrow> ((False, False), e'))"

definition SelectElementData_double ::
    "(cstring \<Rightarrow> 'd::zero) \<Rightarrow> cstring \<Rightarrow> int \<Rightarrow> CXmlElement \<Rightarrow> (bool \<times> 'd) \<times> CXmlElement" where
  "SelectElementData_double atof pszName iIndex e =
     (case GetElementDataTrim pszName iIndex e of (Some v, e') \<Rightarrow> ((True, atof v), e')
      | (None, e') \<Rightarrow> ((False, 0), e'))"

definition InsertElement :: "CXmlElement \<Rightarrow> CXmlElement \<Rightarrow> CXmlElement" where
  "InsertElement c e = set_elems (m_clsElementList e @ [c]) e"

definition InsertElementData_element :: "cstring \<Rightarrow> CXmlElement \<Rightarrow> CXmlElement \<Rightarrow> CXmlElement" where
  "InsertElementData_element pszName c e =
     set_elems (m_clsElementList e @ [InsertElement c (CXmlElement_new (Some pszName))]) e"

definition InsertElementData :: "cstring \<Rightarrow> cstring option \<Rightarrow> CXmlElement \<Rightarrow> CXmlElement" where
  "InsertElementData pszName pszData e =
     (let c = CXmlElement_new (Some pszName);
          c' = (case pszData of None \<Rightarrow> c
                | Some d \<Rightarrow> if SearchString d ''<'' \<or> SearchString d ''>''
                            then set_data (''<![CDATA['' @ d @ '']]>'') c
                            else set_data d c)
      in set_elems (m_clsElementList e @ [c']) e)"

definition InsertElementData_string :: "cstring \<Rightarrow> string \<Rightarrow> CXmlElement \<Rightarrow> CXmlElement" where
  "InsertElementData_string pszName strData e = InsertElementData pszName (Some (cstr strData)) e"

definition InsertElementData_int :: "cstring \<Rightarrow> int \<Rightarrow> CXmlElement \<Rightarrow> CXmlElement" where
  "InsertElementData_int pszName iData e =
     InsertElementData pszName (Some (snprintf_buf 11 (show_int iData))) e"

definition InsertElementData_int64 :: "cstring \<Rightarrow> int \<Rightarrow> CXmlElement \<Rightarrow> CXmlElement" where
  "InsertElementData_int64 pszName iData e =
     InsertElementData pszName (Some (snprintf_buf 21 (show_int iData))) e"

definition InsertElementData_bool :: "cstring \<Rightarrow> bool \<Rightarrow> CXmlElement \<Rightarrow> CXmlElement" where
  "InsertElementData_bool pszName bData e =
     InsertElementData pszName (Some (if bData then ''true'' else ''false'')) e"

definition InsertElementData_double :: "('d \<Rightarrow> string) \<Rightarrow> cstring \<Rightarrow> 'd \<Rightarrow> CXmlElement \<Rightarrow> CXmlElement" where
  "InsertElementData_double format pszName dbData e =
     InsertElementData pszName (Some (cstr (snprintf_buf 51 (format dbData)))) e"

definition UpdateElementData :: "cstring \<Rightarrow> cstring \<Rightarrow> int \<Rightarrow> CXmlElement \<Rightarrow> bool \<times> CXmlElement" where
  "UpdateElementData pszName pszData iIndex e =
     (case SelectElement pszName iIndex e of None \<Rightarrow> (False, e)
      | Some p \<Rightarrow> (True, update_child p (SetData pszData) e))"

definition UpdateElementData_string :: "cstring \<Rightarrow> string \<Rightarrow> int \<Rightarrow> CXmlElement \<Rightarrow> bool \<times> CXmlElement" where
  "UpdateElementData_string pszName strData iIndex e = UpdateElementData pszName (cstr strData) iIndex e"

definition UpdateElementData_int :: "cstring \<Rightarrow> int \<Rightarrow> int \<Rightarrow> CXmlElement \<Rightarrow> bool \<times> CXmlElement" where
  "UpdateElementData_int pszName iData iIndex e =
     UpdateElementData pszName (snprintf_buf 11 (show_int iData)) iIndex e"

definition UpdateElementData_int64 :: "cstring \<Rightarrow> int \<Rightarrow> int \<Rightarrow> CXmlElement \<Rightarrow> bool \<times> CXmlElement" where
  "UpdateElementData_int64 pszName iData iIndex e =
     UpdateElementData pszName (snprintf_buf 21 (show_int iData)) iIndex e"

definition UpdateElementData_bool :: "cstring \<Rightarrow> bool \<Rightarrow> int \<Rightarrow> CXmlElement \<Rightarrow> bool \<times> CXmlElement" where
  "UpdateElementData_bool pszName bData iIndex e =
     UpdateElementData pszName (if bData then ''true'' else ''false'') iIndex e"

definition UpdateElementData_double ::
    "('d \<Rightarrow> string) \<Rightarrow> cstring \<Rightarrow> 'd \<Rightarrow> int \<Rightarrow> CXmlElement \<Rightarrow> bool \<times> CXmlElement" where
  "UpdateElementData_double format pszName dbData iIndex e =
     UpdateElementData pszName (cstr (snprintf_buf 51 (format dbData))) iIndex e"

end
