(* ===== verification/XmlElementSpec.thy ===== *)
theory XmlElementSpec
  imports XmlElement
begin

text \<open>
  What the accessors of \<open>CXmlElement\<close> promise: selection by name and index, attributes as a
  map, and what comes back when a value is inserted and selected again.
\<close>

subsection \<open>Selection\<close>

definition named :: "cstring \<Rightarrow> CXmlElement \<Rightarrow> bool" where
  "named n e \<longleftrightarrow> n = cstr (m_strName e)"

lemma SelectElement_loop_filter:
  "i \<le> k \<Longrightarrow> map_option (\<lambda>p. es ! (p - pos)) (SelectElement_loop n k i pos es) =
     (let fs = filter (named n) es in if nat (k - i) < length fs then Some (fs ! nat (k - i)) else None)"
proof (induction es arbitrary: i pos)
  case (Cons e es)
  have shift: "map_option (\<lambda>p. (e # es) ! (p - pos)) (SelectElement_loop n k i' (Suc pos) es) =
      map_option (\<lambda>p. es ! (p - Suc pos)) (SelectElement_loop n k i' (Suc pos) es)" for i'
  proof (rule option.map_cong0)
    fix p assume "p \<in> set_option (SelectElement_loop n k i' (Suc pos) es)"
    then have "SelectElement_loop n k i' (Suc pos) es = Some p" by simp
    then have "Suc pos \<le> p"
      by (induction n k i' "Suc pos" es arbitrary: pos rule: SelectElement_loop.induct)
        (force split: if_splits)+
    then have "p - pos = Suc (p - Suc pos)" by simp
    then show "(e # es) ! (p - pos) = es ! (p - Suc pos)" by simp
  qed
  show ?case
  proof (cases "named n e \<and> i \<noteq> k")
    case True
    then have "nat (k - i) = Suc (nat (k - (i + 1)))" using Cons.prems by linarith
    moreover have "map_option (\<lambda>p. (e # es) ! (p - pos)) (SelectElement_loop n k i pos (e # es)) =
        map_option (\<lambda>p. es ! (p - Suc pos)) (SelectElement_loop n k (i + 1) (Suc pos) es)"
      using True shift by (simp add: named_def)
    moreover have "i + 1 \<le> k" using True Cons.prems by simp
    ultimately show ?thesis using True Cons.IH [of "i + 1" "Suc pos"] by (simp only:) (simp add: Let_def)
  next
    case False
    then consider "named n e" "i = k" | "\<not> named n e" by blast
    then show ?thesis
    proof cases
      case 2
      then have "map_option (\<lambda>p. (e # es) ! (p - pos)) (SelectElement_loop n k i pos (e # es)) =
          map_option (\<lambda>p. es ! (p - Suc pos)) (SelectElement_loop n k i (Suc pos) es)"
        using shift by (simp add: named_def)
      with 2 Cons.prems Cons.IH [of i "Suc pos"] show ?thesis by (simp only:) (simp add: Let_def)
    qed (simp add: named_def)
  qed
qed simp

text \<open>The child that a selection points to.\<close>

definition selected :: "cstring \<Rightarrow> int \<Rightarrow> CXmlElement \<Rightarrow> CXmlElement option" where
  "selected n k e = map_option (\<lambda>p. m_clsElementList e ! p) (SelectElement n k e)"

lemma selected_eq: "selected n k e = (let fs = filter (named n) (m_clsElementList e)
    in if 0 \<le> k \<and> nat k < length fs then Some (fs ! nat k) else None)"
  using SelectElement_loop_filter [of 0 k "m_clsElementList e" 0 n]
  by (auto simp: selected_def SelectElement_def Let_def)

lemma GetElementData_selected: "GetElementData n k e = map_option (\<lambda>c. cstr (m_strData c)) (selected n k e)"
  by (simp add: GetElementData_def selected_def option.map_comp comp_def)

lemma SelectElement_Some_selected: "SelectElement n k e = Some p \<longleftrightarrow> SelectElement n k e = Some p \<and>
    selected n k e = Some (m_clsElementList e ! p)"
  by (auto simp: selected_def)

lemma GetElementDataTrim_eq: "fst (GetElementDataTrim n k e) =
    map_option (\<lambda>c. cstr (TrimString (m_strData c))) (selected n k e)"
  by (cases "SelectElement n k e") (simp_all add: GetElementDataTrim_def selected_def Let_def)

text \<open>Inserting a child with a name makes it the last of that name.\<close>

lemma selected_insert:
  assumes "m_clsElementList e' = m_clsElementList e @ [c]" "named n c"
  shows "selected n (int (length (filter (named n) (m_clsElementList e)))) e' = Some c"
  using assms by (simp add: selected_eq Let_def)

lemma named_new [simp]: "NUL \<notin> set n \<Longrightarrow> named n (set_data d (CXmlElement_new (Some n)))"
    "NUL \<notin> set n \<Longrightarrow> named n (CXmlElement_new (Some n))"
  by (simp_all add: named_def CXmlElement_new_def SetName_def)

text \<open>The number of children with a name: the index of the next one.\<close>

definition next_index :: "cstring \<Rightarrow> CXmlElement \<Rightarrow> int" where
  "next_index n e = int (length (filter (named n) (m_clsElementList e)))"

lemma InsertElementData_selected:
  assumes "NUL \<notin> set n" "\<not> (SearchString d ''<'' \<or> SearchString d ''>'')"
  shows "selected n (next_index n e) (InsertElementData n (Some d) e) = Some (set_data d (CXmlElement_new (Some n)))"
  unfolding next_index_def using assms by (intro selected_insert) (simp_all add: InsertElementData_def Let_def)

text \<open>The characters of a printed number are neither markup nor white space.\<close>

lemma int_chars: "c \<in> set t \<Longrightarrow> set t \<subseteq> set (show_int x) \<Longrightarrow> c \<noteq> CHR ''<'' \<and> c \<noteq> CHR ''>'' \<and> \<not> blank c"
proof -
  assume "c \<in> set t" "set t \<subseteq> set (show_int x)"
  then have "isdigit_c c \<or> c = CHR ''-''" using show_int_chars by blast
  then show ?thesis by (auto simp: blank_def isdigit_c_def)
qed

lemma int_text_plain: "set t \<subseteq> set (show_int x) \<Longrightarrow> \<not> (SearchString t ''<'' \<or> SearchString t ''>'')"
  using int_chars [of _ t x] by (auto simp: SearchString_def find_from_def find_sub_eq_None_char)

subsection \<open>Integers through the text buffers\<close>

lemma TrimString_int: "set t \<subseteq> set (show_int x) \<Longrightarrow> TrimString t = t"
  using int_chars [of "hd t" t x] int_chars [of "last t" t x] by (intro TrimString_fix) auto

lemma length_show_int_i64: "in_i64 x \<Longrightarrow> length (show_int x) < 21"
proof -
  assume x: "in_i64 x"
  have "nat \<bar>x\<bar> < 10 ^ Suc 18" using x by (auto simp: in_i64_def)
  from length_show_nat_le [OF this] show ?thesis by (auto simp: show_int_def split: if_splits)
qed

lemma snprintf_show_int64: "in_i64 x \<Longrightarrow> snprintf_buf 21 (show_int x) = show_int x"
  by (simp add: snprintf_buf_fits length_show_int_i64)

lemma length_show_int_i32: "in_i32 x \<Longrightarrow> - (10 ^ 9) < x \<Longrightarrow> length (show_int x) < 11"
proof -
  assume x: "in_i32 x" "- (10 ^ 9) < x"
  show ?thesis
  proof (cases "x < 0")
    case True
    then have "nat (- x) < 10 ^ Suc 8" using x by auto
    from length_show_nat_le [OF this] True show ?thesis by (simp add: show_int_def)
  next
    case False
    then have "nat x < 10 ^ Suc 9" using x by (auto simp: in_i32_def)
    from length_show_nat_le [OF this] False show ?thesis by (simp add: show_int_def)
  qed
qed

lemma snprintf_show_int: "in_i32 x \<Longrightarrow> - (10 ^ 9) < x \<Longrightarrow> snprintf_buf 11 (show_int x) = show_int x"
  by (simp add: snprintf_buf_fits length_show_int_i32)

text \<open>A number of eleven characters loses its last digit.\<close>

lemma show_nat_split: "10 \<le> n \<Longrightarrow> show_nat n = show_nat (n div 10) @ [digit_char (n mod 10)]"
  by (subst show_nat.simps) simp

lemma snprintf_show_int_truncated:
  assumes "in_i32 x" "x \<le> - (10 ^ 9)"
  shows "snprintf_buf 11 (show_int x) = show_int (- ((- x) div 10))"
proof -
  have n: "10 ^ 9 \<le> nat (- x)" "nat (- x) < 10 ^ Suc 9" using assms by (auto simp: in_i32_def)
  have l: "length (show_nat (nat (- x) div 10)) = 9"
  proof -
    have "10 ^ 8 \<le> nat (- x) div 10" "nat (- x) div 10 < 10 ^ Suc 8" using n by auto
    with length_show_nat_ge [of 8] length_show_nat_le [of _ 8] show ?thesis by fastforce
  qed
  have d: "nat (- x) div 10 = nat ((- x) div 10)" using assms by (simp add: nat_div_distrib)
  have "show_int x = CHR ''-'' # show_nat (nat (- x) div 10) @ [digit_char (nat (- x) mod 10)]"
    using assms n by (simp add: show_int_def show_nat_split)
  then have "snprintf_buf 11 (show_int x) = CHR ''-'' # show_nat (nat ((- x) div 10))"
    by (simp add: snprintf_buf_def l flip: d)
  moreover have "0 < (- x) div 10" using assms(2) by (simp add: pos_imp_zdiv_pos_iff)
  ultimately show ?thesis by (simp add: show_int_def)
qed

lemma cstr_int: "set t \<subseteq> set (show_int x) \<Longrightarrow> cstr t = t"
  using NUL_show_int by (intro cstr_id) blast

lemma InsertElementData_int_read:
  assumes "NUL \<notin> set n" "in_i32 y" "snprintf_buf 11 (show_int x) = show_int y"
  shows "fst (SelectElementData_int n (next_index n e) (InsertElementData_int n x e)) = (True, y)"
proof -
  have "set (show_int y) \<subseteq> set (show_int y)" by simp
  note y = int_text_plain [OF this] TrimString_int [OF this] cstr_int [OF this]
  from InsertElementData_selected [OF assms(1) y(1), of e]
  have "fst (GetElementDataTrim n (next_index n e) (InsertElementData_int n x e)) = Some (show_int y)"
    using y by (simp add: GetElementDataTrim_eq InsertElementData_int_def assms(3))
  then show ?thesis
    by (cases "GetElementDataTrim n (next_index n e) (InsertElementData_int n x e)")
      (simp add: SelectElementData_int_def atoi_show_int assms(2))
qed

subsection \<open>Properties\<close>

text \<open>\<open>SelectElement( name, k )\<close> points to the child number \<open>k\<close> among the children with
  that name, in document order, and is NULL exactly if there are not so many.\<close>

theorem select_element_kth:
  "map_option (\<lambda>p. m_clsElementList e ! p) (SelectElement n k e) =
   (let fs = filter (named n) (m_clsElementList e) in if 0 \<le> k \<and> nat k < length fs then Some (fs ! nat k) else None)"
  using selected_eq [of n k e] by (simp add: selected_def)

text \<open>The attributes of an element form a map in which \<open>InsertAttribute\<close> sets one name:
  selecting that name gives the new value, every other name keeps its own; the stored list
  stays strictly sorted.\<close>

theorem attribute_update:
  assumes "map_inv (m_clsAttributeMap e)"
  shows "SelectAttribute m (InsertAttribute n v e) = (if m = n then Some (cstr v) else SelectAttribute m e) \<and>
    map_inv (m_clsAttributeMap (InsertAttribute n v e))"
  using std.upsert [OF assms, of n v] std.inv_upsert [OF assms, of n v]
  by (simp add: SelectAttribute_def InsertAttribute_def Let_def)

theorem attribute_update_witness:
  "SelectAttribute ''b'' (InsertAttribute ''a'' ''1'' (XmlElement ''e'' [] [(''a'', ''0''), (''b'', ''2'')] [])) = Some ''2''"
proof -
  let ?e = "XmlElement ''e'' [] [(''a'', ''0''), (''b'', ''2'')] []"
  have i: "map_inv (m_clsAttributeMap ?e)" by code_simp
  have "SelectAttribute ''b'' ?e = Some ''2''" by code_simp
  with attribute_update [OF i, of "''b''" "''a''" "''1''"] show ?thesis by simp
qed

text \<open>An \<open>int\<close> inserted as element data and selected again comes back unchanged if it is
  greater than \<open>- 10^9\<close>; below, the buffer of eleven bytes drops the last digit and the value
  read is \<open>- (|x| div 10)\<close>.\<close>

theorem element_int_roundtrip:
  assumes "NUL \<notin> set n" "in_i32 x"
  shows "fst (SelectElementData_int n (next_index n e) (InsertElementData_int n x e)) =
    (True, if - (10 ^ 9) < x then x else - ((- x) div 10))"
proof (cases "- (10 ^ 9) < x")
  case True
  with assms InsertElementData_int_read [OF assms(1,2) snprintf_show_int] show ?thesis by simp
next
  case False
  then have "in_i32 (- ((- x) div 10))" using assms(2) by (auto simp: in_i32_def)
  from InsertElementData_int_read [OF assms(1) this snprintf_show_int_truncated] False assms(2)
  show ?thesis by simp
qed

theorem element_int_roundtrip_witness:
  "fst (SelectElementData_int ''n'' 0 (InsertElementData_int ''n'' (- 2147483648) (XmlElement ''e'' [] [] []))) = (True, - 214748364)"
  using element_int_roundtrip [of "''n''" "- 2147483648" "XmlElement ''e'' [] [] []"]
  by (simp add: in_i32_def next_index_def)

text \<open>An \<open>int64_t\<close> inserted as element data always comes back unchanged.\<close>

theorem element_int64_roundtrip:
  assumes "NUL \<notin> set n" "in_i64 x"
  shows "fst (SelectElementData_int64 n (next_index n e) (InsertElementData_int64 n x e)) = (True, x)"
proof -
  have "set (show_int x) \<subseteq> set (show_int x)" by simp
  note y = int_text_plain [OF this] TrimString_int [OF this] cstr_int [OF this]
  from InsertElementData_selected [OF assms(1) y(1), of e]
  have "fst (GetElementDataTrim n (next_index n e) (InsertElementData_int64 n x e)) = Some (show_int x)"
    using y by (simp add: GetElementDataTrim_eq InsertElementData_int64_def snprintf_show_int64 assms(2))
  then show ?thesis
    by (cases "GetElementDataTrim n (next_index n e) (InsertElementData_int64 n x e)")
      (simp add: SelectElementData_int64_def atoll_show_int assms(2))
qed

theorem element_int64_roundtrip_witness:
  "fst (SelectElementData_int64 ''n'' 0 (InsertElementData_int64 ''n'' (- 9223372036854775808) (XmlElement ''e'' [] [] []))) =
   (True, - 9223372036854775808)"
  using element_int64_roundtrip [of "''n''" "- 9223372036854775808" "XmlElement ''e'' [] [] []"]
  by (simp add: in_i64_def next_index_def)

end
