(* ===== verification/XmlParse.thy ===== *)
theory XmlParse
  imports XmlElement LogLevel
begin

text \<open>
  \<open>CXmlElement::Parse\<close> of XmlParser/XmlElement.cpp: one pass over the text with a state per
  character and a recursive call per child. \<open>parse_step\<close> is the body of the loop; the loop
  itself adds the \<open>++iPos\<close>. A text is its first \<open>iTextLen\<close> bytes, followed in memory by a
  terminator (\<open>at0\<close>).
\<close>

datatype xtype = XML_ELEMENT_NULL | XML_ELEMENT_NAME | XML_ELEMENT_ATTR | XML_ELEMENT_DATA
  | XML_ELEMENT_NAME_END | XML_ELEMENT_DATA_PARSE | XML_ELEMENT_COMMENT | XML_ELEMENT_CDATA
  | XML_ELEMENT_DECLARATION

text \<open>The locals of \<open>Parse\<close> and the element under construction.\<close>

record xp =
  x_pos :: nat
  x_start :: int
  x_type :: xtype
  x_old :: xtype
  x_sname :: string
  x_sval :: string
  x_elem :: CXmlElement

definition xinit :: xp where
  "xinit = \<lparr>x_pos = 0, x_start = - 1, x_type = XML_ELEMENT_NULL, x_old = XML_ELEMENT_NULL,
     x_sname = [], x_sval = [], x_elem = XmlElement [] [] [] []\<rparr>"

text \<open>How one round ends: with the next round, with \<open>break\<close>, with \<open>return -1\<close>, with the parse of a
  child at the current position, or with a range that is not inside the text (\<open>Oob\<close>).\<close>

datatype xact = Next xp | Stop xp | Fail log_event | Child xp | Oob

text \<open>\<open>append( pszText + iStartPos, iPos - iStartPos )\<close>\<close>

definition get_range :: "string \<Rightarrow> int \<Rightarrow> nat \<Rightarrow> string option" where
  "get_range t a b = (if 0 \<le> a \<and> nat a \<le> b \<and> b \<le> length t then Some (slice t (nat a) b) else None)"

definition xblank :: "char \<Rightarrow> bool" where
  "xblank c \<longleftrightarrow> c = SPACE \<or> c = TAB \<or> c = CHR ''/'' \<or> c = CR \<or> c = LF"

text \<open>\<open>!strncmp( pszText + a, s, n )\<close>\<close>

definition at_text :: "string \<Rightarrow> nat \<Rightarrow> string \<Rightarrow> nat \<Rightarrow> bool" where
  "at_text t a s n \<longleftrightarrow> strncmp_eq (cstr (drop a t)) s n"

definition append_name :: "string \<Rightarrow> CXmlElement \<Rightarrow> CXmlElement" where
  "append_name s e = set_name (m_strName e @ s) e"

definition append_data :: "string \<Rightarrow> CXmlElement \<Rightarrow> CXmlElement" where
  "append_data s e = set_data (m_strData e @ s) e"

definition parse_blank :: "string \<Rightarrow> xp \<Rightarrow> xact" where
  "parse_blank t s =
     (if x_type s = XML_ELEMENT_NAME
      then case get_range t (x_start s) (x_pos s) of None \<Rightarrow> Oob
        | Some n \<Rightarrow> Next (s\<lparr>x_elem := append_name n (x_elem s), x_type := XML_ELEMENT_ATTR, x_start := - 1,
                          x_sname := [], x_sval := []\<rparr>)
      else Next s)"

definition parse_cdata :: "string \<Rightarrow> xp \<Rightarrow> xact" where
  "parse_cdata t s =
     (let p = x_pos s
      in if t ! p = CHR '']'' \<and> p + 3 < length t \<and> at_text t (p + 1) '']>'' 2
         then case get_range t (x_start s) p of None \<Rightarrow> Oob
           | Some d \<Rightarrow> Next (s\<lparr>x_elem := append_data d (x_elem s), x_type := XML_ELEMENT_DATA,
                             x_pos := p + 2, x_start := int p + 3\<rparr>)
         else Next s)"

text \<open>The end tag: \<open>s\<close> has the data before it.\<close>

definition parse_end_tag :: "string \<Rightarrow> xp \<Rightarrow> xact" where
  "parse_end_tag t s =
     (let p = x_pos s; name = m_strName (x_elem s); iLen = length name
      in if length t < p + 2 + iLen + 1
         then Fail (LOG_ERROR, ''end tag is not correct for start tag('' @ cstr name @ '')'')
         else if at_text t (p + 2) (cstr name) iLen
         then Next (s\<lparr>x_type := XML_ELEMENT_NAME_END, x_pos := p + iLen + 1\<rparr>)
         else Fail (LOG_ERROR, ''end tag('' @ take iLen (cstr (drop (p + 2) t)) @
                '') is not correct for start tag('' @ cstr name @ '')''))"

definition parse_lt :: "string \<Rightarrow> xp \<Rightarrow> xact" where
  "parse_lt t s =
     (let p = x_pos s
      in if p + 4 < length t \<and> at_text t (p + 1) ''!--'' 3
         then Next (s\<lparr>x_old := x_type s, x_type := XML_ELEMENT_COMMENT\<rparr>)
      else if p + 9 < length t \<and> at_text t (p + 1) ''![CDATA['' 8
         then let cdata = (\<lambda>s. Next (s\<lparr>x_old := x_type s, x_type := XML_ELEMENT_CDATA, x_start := int p + 9\<rparr>))
              in if x_type s = XML_ELEMENT_DATA
                 then case get_range t (x_start s) p of None \<Rightarrow> Oob
                   | Some d \<Rightarrow> cdata (s\<lparr>x_elem := append_data d (x_elem s)\<rparr>)
                 else cdata s
      else if p + 1 < length t \<and> (t ! (p + 1) = CHR ''?'' \<or> t ! (p + 1) = CHR ''!'')
         then Next (s\<lparr>x_old := x_type s, x_type := XML_ELEMENT_DECLARATION\<rparr>)
      else if x_type s = XML_ELEMENT_NULL
         then Next (s\<lparr>x_type := XML_ELEMENT_NAME, x_start := int p + 1\<rparr>)
      else if at0 t (p + 1) = CHR ''/''
         then if x_type s = XML_ELEMENT_DATA
              then case get_range t (x_start s) p of None \<Rightarrow> Oob
                | Some d \<Rightarrow> parse_end_tag t (s\<lparr>x_elem := append_data d (x_elem s)\<rparr>)
              else parse_end_tag t s
      else Child s)"

definition parse_gt :: "string \<Rightarrow> xp \<Rightarrow> xact" where
  "parse_gt t s =
     (let p = x_pos s; data = (\<lambda>s. Next (s\<lparr>x_type := XML_ELEMENT_DATA, x_start := int p + 1\<rparr>))
      in if x_type s = XML_ELEMENT_NAME
         then case get_range t (x_start s) p of None \<Rightarrow> Oob
           | Some n \<Rightarrow> data (s\<lparr>x_elem := append_name n (x_elem s)\<rparr>)
      else if x_type s = XML_ELEMENT_NAME_END then Stop (s\<lparr>x_pos := p + 1\<rparr>)
      else if p < 2
         then Fail (LOG_ERROR, ''iPos('' @ show_int (int p) @ '') < 2 : pszText[iPos]('' @ cstr (drop p t) @ '')'')
      else if t ! (p - 1) = CHR ''/'' then Stop (s\<lparr>x_pos := p + 1\<rparr>)
      else data s)"

definition parse_attr :: "string \<Rightarrow> xp \<Rightarrow> xact" where
  "parse_attr t s =
     (let p = x_pos s
      in if x_start s = - 1 then Next (s\<lparr>x_start := int p\<rparr>)
      else if t ! p = CHR ''='' \<and> x_sname s = []
         then if at0 t (p + 1) \<noteq> DQUOTE
              then Fail (LOG_ERROR, ''iPos('' @ show_int (int p) @ ''+1) != '' @ [CHR 0x27, DQUOTE, CHR 0x27] @
                     '' : pszText[iPos]('' @ cstr (drop p t) @ '')'')
              else (case get_range t (x_start s) p of None \<Rightarrow> Oob
                | Some n \<Rightarrow> Next (s\<lparr>x_sname := x_sname s @ n, x_pos := p + 1, x_start := int p + 2\<rparr>))
      else if t ! p = DQUOTE
         then case get_range t (x_start s) p of None \<Rightarrow> Oob
           | Some v \<Rightarrow> Next (s\<lparr>x_elem := set_attrs (map_insert (x_sname s) (x_sval s @ v) (m_clsAttributeMap (x_elem s))) (x_elem s),
                             x_sname := [], x_sval := [], x_start := - 1\<rparr>)
      else Next s)"

definition parse_step :: "string \<Rightarrow> xp \<Rightarrow> xact" where
  "parse_step t s =
     (let p = x_pos s; c = t ! p
      in if x_type s = XML_ELEMENT_COMMENT
         then if c = CHR ''-'' \<and> p + 3 < length t \<and> at_text t (p + 1) ''->'' 2
              then Next (s\<lparr>x_pos := p + 2, x_type := x_old s\<rparr>) else Next s
      else if x_type s = XML_ELEMENT_DECLARATION
         then Next (if c = CHR ''>'' then s\<lparr>x_type := XML_ELEMENT_NULL\<rparr> else s)
      else if xblank c then parse_blank t s
      else if x_type s = XML_ELEMENT_CDATA then parse_cdata t s
      else if c = CHR ''<'' then parse_lt t s
      else if c = CHR ''>'' then parse_gt t s
      else if x_type s = XML_ELEMENT_ATTR then parse_attr t s
      else Next s)"

datatype xres = POk nat CXmlElement | PErr log_event | POob

definition x_next :: "xp \<Rightarrow> xp" where
  "x_next s = s\<lparr>x_pos := x_pos s + 1\<rparr>"

text \<open>After a child of \<open>n\<close> bytes: \<open>iPos += n - 1\<close>, and the \<open>++iPos\<close> of the loop.\<close>

definition add_child :: "nat \<Rightarrow> CXmlElement \<Rightarrow> xp \<Rightarrow> xp" where
  "add_child n e s = s\<lparr>x_elem := set_elems (m_clsElementList (x_elem s) @ [e]) (x_elem s),
     x_type := XML_ELEMENT_DATA_PARSE, x_pos := x_pos s + n\<rparr>"

function (sequential, domintros) parse_loop :: "string \<Rightarrow> xp \<Rightarrow> xres" where
  "parse_loop t s =
     (if length t \<le> x_pos s then POk (x_pos s) (x_elem s)
      else case parse_step t s of
          Next s' \<Rightarrow> parse_loop t (x_next s')
        | Stop s' \<Rightarrow> POk (x_pos s') (x_elem s')
        | Fail ev \<Rightarrow> PErr ev
        | Oob \<Rightarrow> POob
        | Child s' \<Rightarrow>
            (case parse_loop (drop (x_pos s) t) xinit of
                POk n e \<Rightarrow> parse_loop t (add_child n e s')
              | PErr ev \<Rightarrow> PErr ev
              | POob \<Rightarrow> POob))"
  by pat_completeness auto

subsection \<open>Progress and termination\<close>

lemmas parse_defs = parse_blank_def parse_cdata_def parse_lt_def parse_gt_def parse_attr_def parse_end_tag_def

lemma parse_step_Next: "parse_step t s = Next s' \<Longrightarrow> x_pos s \<le> x_pos s'"
  by (auto simp: parse_step_def parse_defs Let_def split: if_splits option.splits)

lemma parse_step_Stop: "parse_step t s = Stop s' \<Longrightarrow> x_pos s' = x_pos s + 1"
  by (auto simp: parse_step_def parse_defs Let_def split: if_splits option.splits)

lemma parse_step_Child: "parse_step t s = Child s' \<Longrightarrow> s' = s \<and> x_type s \<noteq> XML_ELEMENT_NULL"
  by (auto simp: parse_step_def parse_defs Let_def split: if_splits option.splits)

lemma parse_loop_progress:
  "parse_loop_dom (t, s) \<Longrightarrow> parse_loop t s = POk n e \<Longrightarrow> x_pos s < length t \<Longrightarrow> x_pos s < n"
proof (induction t s arbitrary: n e rule: parse_loop.pinduct)
  case (1 t s)
  note un = "1.prems"(1) [unfolded parse_loop.psimps [OF "1.hyps"]]
  have at_end: "parse_loop t u = POk (x_pos u) (x_elem u)" if "length t \<le> x_pos u" for u
  proof -
    have "parse_loop_dom (t, u)" by (rule parse_loop.domintros) (use that in auto)
    with that show ?thesis by (simp add: parse_loop.psimps)
  qed
  have next_pos: "parse_loop t u = POk n e \<Longrightarrow> x_pos s < x_pos u \<Longrightarrow>
      (x_pos u < length t \<Longrightarrow> x_pos u < n) \<Longrightarrow> x_pos s < n" for u
    by (cases "x_pos u < length t") (use at_end [of u] in auto)
  show ?case
  proof (cases "parse_step t s")
    case (Next s')
    with un "1.prems"(2) have "parse_loop t (x_next s') = POk n e" by simp
    moreover have "x_pos s < x_pos (x_next s')" using parse_step_Next [OF Next] by (simp add: x_next_def)
    ultimately show ?thesis
      using "1.IH"(1) [OF _ Next] "1.prems"(2) by (intro next_pos [of "x_next s'"]) auto
  next
    case (Stop s')
    with un "1.prems"(2) parse_step_Stop [OF Stop] show ?thesis by simp
  next
    case (Child s')
    with parse_step_Child have s: "s' = s" "x_type s \<noteq> XML_ELEMENT_NULL" by blast+
    show ?thesis
    proof (cases "parse_loop (drop (x_pos s) t) xinit")
      case (POk m c)
      then have m: "0 < m" using "1.IH"(2) [OF _ Child] "1.prems"(2) by (simp add: xinit_def)
      from Child POk un "1.prems"(2) have "parse_loop t (add_child m c s') = POk n e" by simp
      with m s(1) show ?thesis
        using "1.IH"(3) [OF _ Child POk] "1.prems"(2)
        by (intro next_pos [of "add_child m c s'"]) (auto simp: add_child_def)
    qed (use Child un "1.prems"(2) in auto)
  qed (use un "1.prems"(2) in auto)
qed

termination parse_loop
proof (relation "measures [\<lambda>(t, s). length t - x_pos s, \<lambda>(t, s). of_bool (x_type s \<noteq> XML_ELEMENT_NULL)]", goal_cases)
  case 1
  show ?case by simp
next
  case (2 t s s')
  then have "x_pos s \<le> x_pos s'" "x_pos s < length t" using parse_step_Next [of t s s'] by auto
  then have "length t - Suc (x_pos s') < length t - x_pos s" by linarith
  then show ?case by (simp add: x_next_def)
next
  case (3 t s s')
  with parse_step_Child [of t s s'] show ?case by (auto simp: xinit_def)
next
  case (4 t s s' n e)
  then have "0 < n" using parse_loop_progress [of "drop (x_pos s) t" xinit n e] by (simp add: xinit_def)
  with 4 parse_step_Child [of t s s'] show ?case by (auto simp: add_child_def)
qed

declare parse_loop.simps [simp del]

text \<open>\<open>Parse\<close>: the number of bytes consumed and the element, or the error.\<close>

definition Parse :: "string \<Rightarrow> xres" where
  "Parse t = parse_loop t xinit"

definition Parse_string :: "string \<Rightarrow> xres" where
  "Parse_string strText = Parse (take (nat (i32 (int (length strText)))) strText)"

text \<open>\<open>fgets\<close> with a buffer of \<open>n + 1\<close> bytes until the end of the file: the contents of the buffer
  after each call, up to and with a line feed, or \<open>n\<close> bytes.\<close>

function fgets_all :: "nat \<Rightarrow> string \<Rightarrow> string list" where
  "fgets_all n t =
     (if t = [] \<or> n = 0 then []
      else let k = min n (length (takeWhile (\<lambda>c. c \<noteq> LF) t) + 1) in take k t # fgets_all n (drop k t))"
  by pat_completeness auto
termination fgets_all
  by (relation "measure (length \<circ> snd)") auto

declare fgets_all.simps [simp del]

text \<open>\<open>ParseFile\<close> on the contents of the file (\<open>None\<close>: it cannot be opened): the element, or false with
  the error that \<open>Parse\<close> logged. A NUL byte hides the rest of its line.\<close>

definition ParseFile :: "string option \<Rightarrow> (log_event list + CXmlElement) option" where
  "ParseFile fd = (case fd of None \<Rightarrow> Some (Inl [])
     | Some t \<Rightarrow> (case Parse_string (concat (map cstr (fgets_all 1022 t))) of
          POk n e \<Rightarrow> Some (Inr e) | PErr ev \<Rightarrow> Some (Inl [ev]) | POob \<Rightarrow> None))"

text \<open>The int that \<open>Parse\<close> returns.\<close>

fun parse_result :: "xres \<Rightarrow> int option" where
  "parse_result (POk n e) = Some (int n)"
| "parse_result (PErr ev) = Some (- 1)"
| "parse_result POob = None"

lemma parse_loop_Next: "x_pos s < length t \<Longrightarrow> parse_step t s = Next s' \<Longrightarrow> parse_loop t s = parse_loop t (x_next s')"
  by (subst parse_loop.simps) simp

lemma parse_loop_Stop: "x_pos s < length t \<Longrightarrow> parse_step t s = Stop s' \<Longrightarrow> parse_loop t s = POk (x_pos s') (x_elem s')"
  by (subst parse_loop.simps) simp

lemma parse_loop_Child: "x_pos s < length t \<Longrightarrow> parse_step t s = Child s \<Longrightarrow>
    parse_loop (drop (x_pos s) t) xinit = POk n e \<Longrightarrow> parse_loop t s = parse_loop t (add_child n e s)"
  by (subst parse_loop.simps) simp

subsection \<open>Every range is inside the text\<close>

definition start_ok :: "string \<Rightarrow> xp \<Rightarrow> xtype \<Rightarrow> bool" where
  "start_ok t s ty = (case ty of
     XML_ELEMENT_NAME \<Rightarrow> 0 \<le> x_start s \<and> x_start s \<le> int (x_pos s)
   | XML_ELEMENT_DATA \<Rightarrow> 0 \<le> x_start s \<and> x_start s \<le> int (x_pos s)
   | XML_ELEMENT_ATTR \<Rightarrow> x_start s = - 1 \<or> 0 \<le> x_start s \<and> x_start s \<le> int (x_pos s)
   | XML_ELEMENT_CDATA \<Rightarrow> 0 \<le> x_start s \<and> (\<forall>j. x_pos s \<le> j \<and> int j < x_start s \<longrightarrow> t ! j \<noteq> CHR '']'')
   | _ \<Rightarrow> True)"

definition xinv :: "string \<Rightarrow> xp \<Rightarrow> bool" where
  "xinv t s \<longleftrightarrow> start_ok t s (x_type s) \<and> (x_type s = XML_ELEMENT_COMMENT \<longrightarrow> start_ok t s (x_old s))"

lemma start_ok_next: "start_ok t s ty \<Longrightarrow> x_start s' = x_start s \<Longrightarrow> x_pos s \<le> x_pos s' \<Longrightarrow> start_ok t s' ty"
  by (auto simp: start_ok_def split: xtype.splits)

lemma get_range_ok: "0 \<le> a \<Longrightarrow> a \<le> int b \<Longrightarrow> b < length t \<Longrightarrow> get_range t a b \<noteq> None"
  by (simp add: get_range_def)

lemma length_cstr_le: "length (cstr u) \<le> length u"
  by (simp add: cstr_def length_takeWhile_le)

lemma at_text_nth:
  assumes "at_text t a s n" "n \<le> length s" "j < n"
  shows "a + j < length t \<and> t ! (a + j) = s ! j"
proof -
  let ?u = "drop a t"
  from assms(1) have e: "take n (cstr ?u) = take n s" by (simp add: at_text_def strncmp_eq_def)
  then have "length (take n (cstr ?u)) = n" using assms(2) by simp
  then have l: "n \<le> length (cstr ?u)" by simp
  then have lt: "n \<le> length t - a" using length_cstr_le [of ?u] by simp
  have "cstr ?u ! j = ?u ! j" using l assms(3) by (simp add: cstr_def takeWhile_nth)
  moreover have "cstr ?u ! j = s ! j" using e assms(3) by (metis nth_take)
  ultimately show ?thesis using lt assms(3) by simp
qed

text \<open>One round keeps the invariant and stays inside the text.\<close>

definition act_ok :: "string \<Rightarrow> xact \<Rightarrow> bool" where
  "act_ok t a = (case a of Next s' \<Rightarrow> xinv t (x_next s') | Oob \<Rightarrow> False | _ \<Rightarrow> True)"

lemma act_ok_simps [simp]:
  "act_ok t (Next s) = xinv t (x_next s)" "act_ok t (Stop s)" "act_ok t (Fail ev)" "act_ok t (Child s)" "\<not> act_ok t Oob"
  by (simp_all add: act_ok_def)

lemma start_ok_other [simp]: "start_ok t s XML_ELEMENT_COMMENT" "start_ok t s XML_ELEMENT_NULL"
    "start_ok t s XML_ELEMENT_DECLARATION" "start_ok t s XML_ELEMENT_DATA_PARSE" "start_ok t s XML_ELEMENT_NAME_END"
  by (simp_all add: start_ok_def)

lemma act_ok_same: "xinv t s \<Longrightarrow> xinv t (x_next s)"
  using start_ok_next [of t s _ "x_next s"] by (simp add: xinv_def x_next_def)

lemma at0_DQUOTE: "at0 t i = DQUOTE \<Longrightarrow> i < length t"
  by (auto simp: at0_def split: if_splits)

lemma parse_blank_ok:
  assumes "xinv t s" "x_pos s < length t"
  shows "act_ok t (parse_blank t s)"
proof (cases "x_type s = XML_ELEMENT_NAME")
  case True
  with assms get_range_ok [of "x_start s" "x_pos s" t] show ?thesis
    by (auto simp: parse_blank_def xinv_def start_ok_def x_next_def)
qed (simp add: parse_blank_def act_ok_same assms)

lemma parse_cdata_ok:
  assumes "xinv t s" "x_pos s < length t" "x_type s = XML_ELEMENT_CDATA"
  shows "act_ok t (parse_cdata t s)"
proof (cases "t ! x_pos s = CHR '']'' \<and> x_pos s + 3 < length t \<and> at_text t (x_pos s + 1) '']>'' 2")
  case True
  with assms have "0 \<le> x_start s" "x_start s \<le> int (x_pos s)" by (fastforce simp: xinv_def start_ok_def)+
  with get_range_ok [OF _ _ assms(2)] obtain d where "get_range t (x_start s) (x_pos s) = Some d" by blast
  with True show ?thesis by (simp add: parse_cdata_def Let_def xinv_def start_ok_def x_next_def)
qed (use act_ok_same assms(1) in \<open>auto simp: parse_cdata_def Let_def\<close>)

lemma parse_end_tag_ok: "act_ok t (parse_end_tag t s)"
  by (simp add: parse_end_tag_def Let_def xinv_def start_ok_def x_next_def)

lemma cdata_start_ok:
  assumes "x_pos s + 9 < length t" "at_text t (x_pos s + 1) ''![CDATA['' 8" "t ! x_pos s = CHR ''<''"
  shows "xinv t (x_next (s\<lparr>x_old := o', x_type := XML_ELEMENT_CDATA, x_start := int (x_pos s) + 9\<rparr>))"
proof -
  have "t ! j \<noteq> CHR '']''" if "x_pos s + 1 \<le> j" "j < x_pos s + 9" for j
  proof -
    define i where "i = j - (x_pos s + 1)"
    have i: "i < 8" "j = x_pos s + 1 + i" using that by (auto simp: i_def)
    from at_text_nth [OF assms(2) _ i(1)] have "t ! j = ''![CDATA['' ! i" by (simp add: i)
    moreover have "i \<in> {0,1,2,3,4,5,6,7}" using i(1) by auto
    ultimately show ?thesis by auto
  qed
  then show ?thesis by (auto simp: xinv_def start_ok_def x_next_def)
qed

lemma parse_lt_ok:
  assumes i: "xinv t s" and p: "x_pos s < length t" and c: "t ! x_pos s = CHR ''<''"
    and ty: "x_type s \<noteq> XML_ELEMENT_COMMENT"
  shows "act_ok t (parse_lt t s)"
proof -
  let ?comment = "x_pos s + 4 < length t \<and> at_text t (x_pos s + 1) ''!--'' 3"
  let ?cdata = "x_pos s + 9 < length t \<and> at_text t (x_pos s + 1) ''![CDATA['' 8"
  have d: "x_type s = XML_ELEMENT_DATA \<Longrightarrow> get_range t (x_start s) (x_pos s) \<noteq> None"
    using i p by (intro get_range_ok) (auto simp: xinv_def start_ok_def)
  have m: "start_ok t (x_next s) (x_type s)" using i by (auto simp: xinv_def x_next_def intro: start_ok_next)
  consider "?comment" | "\<not> ?comment" "?cdata" | "\<not> ?comment" "\<not> ?cdata" by blast
  then show ?thesis
  proof cases
    case 1
    then have "parse_lt t s = Next (s\<lparr>x_old := x_type s, x_type := XML_ELEMENT_COMMENT\<rparr>)" by (simp add: parse_lt_def Let_def)
    with m show ?thesis by (auto simp: xinv_def x_next_def start_ok_def split: xtype.splits)
  next
    case 2
    then show ?thesis
      using d cdata_start_ok [OF _ _ c] cdata_start_ok [of "s\<lparr>x_elem := e\<rparr>" t for e] c
      by (auto simp: parse_lt_def Let_def)
  next
    case 3
    then show ?thesis
      using d parse_end_tag_ok by (auto simp: parse_lt_def Let_def xinv_def start_ok_def x_next_def)
  qed
qed

lemma parse_gt_ok:
  assumes "xinv t s" "x_pos s < length t"
  shows "act_ok t (parse_gt t s)"
proof (cases "x_type s = XML_ELEMENT_NAME")
  case True
  with assms get_range_ok [of "x_start s" "x_pos s" t] show ?thesis
    by (auto simp: parse_gt_def Let_def xinv_def start_ok_def x_next_def)
qed (simp add: parse_gt_def Let_def xinv_def start_ok_def x_next_def)

lemma parse_attr_ok:
  assumes "xinv t s" "x_pos s < length t" "x_type s = XML_ELEMENT_ATTR"
  shows "act_ok t (parse_attr t s)"
proof (cases "x_start s = - 1")
  case False
  with assms get_range_ok [of "x_start s" "x_pos s" t] show ?thesis
    by (auto simp: parse_attr_def Let_def xinv_def start_ok_def x_next_def)
qed (use assms in \<open>simp add: parse_attr_def xinv_def start_ok_def x_next_def\<close>)

lemma parse_step_ok:
  assumes "xinv t s" "x_pos s < length t"
  shows "act_ok t (parse_step t s)"
proof (cases "x_type s")
  case XML_ELEMENT_COMMENT
  have "xinv t (x_next (s\<lparr>x_pos := x_pos s + 2, x_type := x_old s\<rparr>))"
    using assms(1) XML_ELEMENT_COMMENT
      start_ok_next [of t s "x_old s" "x_next (s\<lparr>x_pos := x_pos s + 2, x_type := x_old s\<rparr>)"]
    by (simp add: xinv_def x_next_def)
  with XML_ELEMENT_COMMENT act_ok_same [OF assms(1)] show ?thesis by (simp add: parse_step_def Let_def)
next
  case XML_ELEMENT_DECLARATION
  then show ?thesis by (simp add: parse_step_def Let_def xinv_def start_ok_def x_next_def)
qed (use assms parse_blank_ok parse_cdata_ok parse_lt_ok parse_gt_ok parse_attr_ok act_ok_same in
    \<open>simp_all add: parse_step_def Let_def\<close>)

lemma parse_loop_in_bounds: "xinv t s \<Longrightarrow> parse_loop t s \<noteq> POob"
proof (induction t s rule: parse_loop.induct)
  case (1 t s)
  show ?case
  proof (cases "length t \<le> x_pos s")
    case False
    with parse_step_ok [OF "1.prems"] have a: "act_ok t (parse_step t s)" by simp
    show ?thesis
    proof (cases "parse_step t s")
      case (Next s')
      with False a "1.IH"(1) [OF False Next] show ?thesis by (subst parse_loop.simps) simp
    next
      case (Child s')
      then have "s' = s" using parse_step_Child by blast
      have c: "parse_loop (drop (x_pos s) t) xinit \<noteq> POob"
        using "1.IH"(2) [OF False Child] by (simp add: xinv_def start_ok_def xinit_def)
      show ?thesis
      proof (cases "parse_loop (drop (x_pos s) t) xinit")
        case (POk n e)
        with False Child "1.IH"(3) [OF False Child POk] show ?thesis
          by (subst parse_loop.simps) (simp add: xinv_def start_ok_def add_child_def)
      qed (use False Child c in \<open>subst parse_loop.simps, simp\<close>)+
    qed (use False a in \<open>subst parse_loop.simps, simp\<close>)+
  qed (subst parse_loop.simps, simp)
qed

lemma Parse_in_bounds: "Parse t \<noteq> POob"
  unfolding Parse_def by (rule parse_loop_in_bounds) (simp add: xinv_def start_ok_def xinit_def)

text \<open>What is consumed is a non-empty part of a non-empty text.\<close>

lemma parse_parts_Next:
  assumes "x_pos s < length t"
  shows "parse_blank t s = Next s' \<Longrightarrow> x_pos s' < length t" "parse_cdata t s = Next s' \<Longrightarrow> x_pos s' < length t"
    "parse_end_tag t s = Next s' \<Longrightarrow> x_pos s' < length t" "parse_gt t s = Next s' \<Longrightarrow> x_pos s' < length t"
    "parse_attr t s = Next s' \<Longrightarrow> x_pos s' < length t"
  using assms by (auto simp: parse_blank_def parse_cdata_def parse_end_tag_def parse_gt_def parse_attr_def Let_def
      split: if_splits option.splits dest!: at0_DQUOTE)

lemma parse_lt_Next:
  assumes "x_pos s < length t" "parse_lt t s = Next s'"
  shows "x_pos s' < length t"
proof -
  have "parse_end_tag t (s\<lparr>x_elem := d\<rparr>) = Next s' \<Longrightarrow> x_pos s' < length t" for d
    using assms(1) parse_parts_Next(3) [of "s\<lparr>x_elem := d\<rparr>" t s'] by simp
  with assms parse_parts_Next(3) [of s t s'] show ?thesis
    by (auto simp: parse_lt_def Let_def split: if_splits option.splits)
qed

lemma parse_step_Next_lt:
  assumes "x_pos s < length t" "parse_step t s = Next s'"
  shows "x_pos s' < length t"
  using assms parse_parts_Next [OF assms(1)] parse_lt_Next [OF assms(1)]
  by (auto simp: parse_step_def Let_def split: if_splits)

lemma parse_loop_le: "parse_loop t s = POk n e \<Longrightarrow> x_pos s \<le> length t \<Longrightarrow> n \<le> length t"
proof (induction t s arbitrary: n e rule: parse_loop.induct)
  case (1 t s)
  note un = "1.prems"(1) [unfolded parse_loop.simps [of t s]]
  show ?case
  proof (cases "length t \<le> x_pos s")
    case True
    with un "1.prems"(2) show ?thesis by simp
  next
    case False
    show ?thesis
    proof (cases "parse_step t s")
      case (Next s')
      have "x_pos (x_next s') \<le> length t"
        using parse_step_Next_lt [OF _ Next] False by (simp add: x_next_def)
      with Next False un "1.IH"(1) [OF False Next] show ?thesis by simp
    next
      case (Stop s')
      with False un parse_step_Stop [OF Stop] show ?thesis by simp
    next
      case (Child s')
      then have s: "s' = s" using parse_step_Child by blast
      show ?thesis
      proof (cases "parse_loop (drop (x_pos s) t) xinit")
        case (POk m c)
        have "m \<le> length t - x_pos s" using "1.IH"(2) [OF False Child POk] False by (simp add: xinit_def)
        then have "x_pos (add_child m c s') \<le> length t" using False s by (simp add: add_child_def)
        with Child POk False un "1.IH"(3) [OF False Child POk] show ?thesis by simp
      next
        case (PErr ev)
        with Child False un show ?thesis by simp
      next
        case POob
        with Child False un show ?thesis by simp
      qed
    next
      case (Fail ev)
      with False un show ?thesis by simp
    next
      case Oob
      with False un show ?thesis by simp
    qed
  qed
qed

end
