(* ===== verification/XmlPrint.thy ===== *)
theory XmlPrint
  imports XmlParse
begin

text \<open>
  The two \<open>CXmlElement::ToString\<close> of XmlParser/XmlElement.cpp: the one that appends to a
  \<open>std::string\<close>, and the one that prints with \<open>snprintf\<close> into a buffer of the caller.
\<close>

subsection \<open>Printing to a string\<close>

fun ToString_attrs :: "string \<Rightarrow> (string \<times> string) list \<Rightarrow> string" where
  "ToString_attrs strText [] = strText"
| "ToString_attrs strText ((k, v) # m) =
     ToString_attrs (strText @ [SPACE] @ k @ [CHR ''='', DQUOTE] @ v @ [DQUOTE]) m"

definition tabs :: "bool \<Rightarrow> nat \<Rightarrow> string" where
  "tabs bUseTab iDepth = (if bUseTab then replicate iDepth TAB else [])"

fun ToString :: "string \<Rightarrow> bool \<Rightarrow> nat \<Rightarrow> CXmlElement \<Rightarrow> string"
  and ToString_list :: "string \<Rightarrow> bool \<Rightarrow> nat \<Rightarrow> CXmlElement list \<Rightarrow> string" where
  "ToString strText bUseTab iDepth (XmlElement name data attrs elems) =
     (let strText = ToString_attrs (strText @ tabs bUseTab iDepth @ ''<'' @ name) attrs
      in if data \<noteq> [] then strText @ ''>'' @ data @ ''</'' @ name @ ''>'' @ [LF]
         else if elems \<noteq> []
         then ToString_list (strText @ ''>'' @ [LF]) bUseTab (iDepth + 1) elems @
              tabs bUseTab iDepth @ ''</'' @ name @ ''>'' @ [LF]
         else strText @ ''/>'' @ [LF])"
| "ToString_list strText bUseTab iDepth [] = strText"
| "ToString_list strText bUseTab iDepth (e # es) =
     ToString_list (ToString strText bUseTab iDepth e) bUseTab iDepth es"

text \<open>\<open>WriteFile\<close>: the result and what the file then holds; \<open>opened\<close> tells whether \<open>fopen\<close> succeeds.\<close>

definition WriteFile :: "bool \<Rightarrow> bool \<Rightarrow> CXmlElement \<Rightarrow> bool \<times> string option" where
  "WriteFile opened bUseTab e = (if \<not> opened then (False, None) else (True, Some (ToString [] bUseTab 0 e)))"

text \<open>The printed parts, without the accumulator.\<close>

definition attr_text :: "(string \<times> string) list \<Rightarrow> string" where
  "attr_text m = concat (map (\<lambda>(k, v). [SPACE] @ k @ [CHR ''='', DQUOTE] @ v @ [DQUOTE]) m)"

lemma ToString_attrs_eq: "ToString_attrs s m = s @ attr_text m"
  by (induction s m rule: ToString_attrs.induct) (simp_all add: attr_text_def)

text \<open>\<open>body_text\<close> is the element from its \<open><\<close> to its last \<open>>\<close>.\<close>

fun body_text :: "bool \<Rightarrow> nat \<Rightarrow> CXmlElement \<Rightarrow> string"
  and list_text :: "bool \<Rightarrow> nat \<Rightarrow> CXmlElement list \<Rightarrow> string" where
  "body_text tab d (XmlElement name data attrs elems) = ''<'' @ name @ attr_text attrs @
     (if data \<noteq> [] then ''>'' @ data @ ''</'' @ name @ ''>''
      else if elems \<noteq> [] then ''>'' @ [LF] @ list_text tab (d + 1) elems @ tabs tab d @ ''</'' @ name @ ''>''
      else ''/>'')"
| "list_text tab d [] = []"
| "list_text tab d (e # es) = tabs tab d @ body_text tab d e @ [LF] @ list_text tab d es"

lemma ToString_eq: "ToString s tab d e = s @ tabs tab d @ body_text tab d e @ [LF]"
  and ToString_list_eq: "ToString_list s tab d es = s @ list_text tab d es"
  by (induction s tab d e and s tab d es rule: ToString_ToString_list.induct)
    (auto simp: ToString_attrs_eq Let_def)

subsection \<open>Printing to a buffer\<close>

text \<open>\<open>snprintf( mem + off, size, ... )\<close> whose complete output is \<open>text\<close>: \<open>size\<close> is converted to
  \<open>size_t\<close>; at most \<open>size - 1\<close> bytes and a terminator are written. \<open>None\<close>: a write outside
  the buffer.\<close>

definition snprintf_at :: "string \<Rightarrow> nat \<Rightarrow> int \<Rightarrow> string \<Rightarrow> string option" where
  "snprintf_at mem off iSize text =
     (let n = nat (u64 iSize); w = take (n - 1) text @ [NUL]
      in if n = 0 then Some mem
         else if off + length w \<le> length mem then Some (take off mem @ w @ drop (off + length w) mem)
         else None)"

text \<open>\<open>iLen += snprintf( pszText + iLen, iSize, ... )\<close>; \<open>off\<close> is the position of \<open>pszText\<close>.\<close>

definition put :: "nat \<Rightarrow> int \<Rightarrow> string \<Rightarrow> nat \<times> string \<Rightarrow> (nat \<times> string) option" where
  "put off iSize text st = (let (iLen, mem) = st
     in map_option (\<lambda>m. (iLen + length text, m)) (snprintf_at mem (off + iLen) iSize text))"

fun put_tabs :: "nat \<Rightarrow> nat \<Rightarrow> int \<Rightarrow> nat \<times> string \<Rightarrow> (nat \<times> string) option" where
  "put_tabs 0 off iTextSize st = Some st"
| "put_tabs (Suc k) off iTextSize st = Option.bind (put off iTextSize [TAB] st) (put_tabs k off iTextSize)"

fun put_attrs :: "(string \<times> string) list \<Rightarrow> nat \<Rightarrow> int \<Rightarrow> nat \<times> string \<Rightarrow> (nat \<times> string) option" where
  "put_attrs [] off iTextSize st = Some st"
| "put_attrs ((k, v) # m) off iTextSize st =
     Option.bind (put off (iTextSize - int (fst st)) ([SPACE] @ cstr k @ [CHR ''='', DQUOTE] @ cstr v @ [DQUOTE]) st)
       (put_attrs m off iTextSize)"

fun ToString_buf :: "bool \<Rightarrow> nat \<Rightarrow> CXmlElement \<Rightarrow> nat \<Rightarrow> int \<Rightarrow> string \<Rightarrow> (nat \<times> string) option"
  and ToString_bufs :: "bool \<Rightarrow> nat \<Rightarrow> CXmlElement list \<Rightarrow> nat \<Rightarrow> int \<Rightarrow> nat \<times> string \<Rightarrow> (nat \<times> string) option" where
  "ToString_buf bUseTab iDepth (XmlElement name data attrs elems) off iTextSize mem =
     Option.bind (put_tabs (length (tabs bUseTab iDepth)) off iTextSize (0, mem)) (\<lambda>st.
     Option.bind (put off iTextSize (''<'' @ cstr name) st) (\<lambda>st.
     Option.bind (put_attrs attrs off iTextSize st) (\<lambda>st.
     if data \<noteq> []
     then put off (iTextSize - int (fst st)) (''>'' @ cstr data @ ''</'' @ cstr name @ ''>'' @ [LF]) st
     else if elems \<noteq> []
     then Option.bind (put off (iTextSize - int (fst st)) (''>'' @ [LF]) st) (\<lambda>st.
          Option.bind (ToString_bufs bUseTab (iDepth + 1) elems off iTextSize st) (\<lambda>st.
          Option.bind (put_tabs (length (tabs bUseTab iDepth)) off iTextSize st) (\<lambda>st.
          put off (iTextSize - int (fst st)) (''</'' @ cstr name @ ''>'' @ [LF]) st)))
     else put off (iTextSize - int (fst st)) (''/>'' @ [LF]) st)))"
| "ToString_bufs bUseTab iDepth [] off iTextSize st = Some st"
| "ToString_bufs bUseTab iDepth (e # es) off iTextSize st =
     Option.bind (ToString_buf bUseTab iDepth e (off + fst st) (iTextSize - int (fst st)) (snd st)) (\<lambda>(n, mem).
       ToString_bufs bUseTab iDepth es off iTextSize (fst st + n, mem))"

text \<open>\<open>wrote off mem s st\<close>: the text \<open>s\<close> stands at \<open>off\<close>, everything before it is unchanged.\<close>

definition wrote :: "nat \<Rightarrow> string \<Rightarrow> string \<Rightarrow> nat \<times> string \<Rightarrow> bool" where
  "wrote off mem s st \<longleftrightarrow> fst st = length s \<and> length (snd st) = length mem \<and> take (off + length s) (snd st) = take off mem @ s"

lemma wrote_init: "off \<le> length mem \<Longrightarrow> wrote off mem [] (0, mem)"
  by (simp add: wrote_def)

lemma put_wrote:
  assumes w: "wrote off mem s st" and f: "off + length s + length text < length mem" and n: "int (length text) < iSize" "iSize < 2 ^ 64"
  shows "\<exists>st'. put off iSize text st = Some st' \<and> wrote off mem (s @ text) st'"
proof -
  obtain iLen m where st: "st = (iLen, m)" by fastforce
  with w have i: "iLen = length s" "length m = length mem" "take (off + length s) m = take off mem @ s"
    by (simp_all add: wrote_def)
  have u: "nat (u64 iSize) = nat iSize" using n by (simp add: u64_def)
  have t: "take (nat iSize - 1) text = text" using n by simp
  let ?m = "take (off + iLen) m @ (text @ [NUL]) @ drop (off + iLen + Suc (length text)) m"
  have "snprintf_at m (off + iLen) iSize text = Some ?m"
    using f n i by (simp add: snprintf_at_def u t Let_def)
  moreover have "wrote off mem (s @ text) (iLen + length text, ?m)"
    using f i by (cases mem) (simp_all add: wrote_def min_def)
  ultimately show ?thesis by (simp add: put_def st)
qed

lemma put_tabs_wrote:
  assumes "wrote off mem s st" "off + length s + k < length mem" "1 < iSize" "iSize < 2 ^ 64"
  shows "\<exists>st'. put_tabs k off iSize st = Some st' \<and> wrote off mem (s @ replicate k TAB) st'"
  using assms
proof (induction k arbitrary: s st)
  case (Suc k)
  from put_wrote [OF Suc.prems(1), of "[TAB]" iSize] Suc.prems obtain st1 where
    1: "put off iSize [TAB] st = Some st1" "wrote off mem (s @ [TAB]) st1" by auto
  from Suc.IH [OF 1(2)] Suc.prems 1(1) show ?case by auto
qed simp

lemma put_attrs_wrote:
  assumes "wrote off mem s st" "off + length s + length (attr_text m) < length mem"
    "int (length s + length (attr_text m)) < iSize" "iSize < 2 ^ 64"
    "\<forall>(k, v)\<in>set m. NUL \<notin> set k \<and> NUL \<notin> set v"
  shows "\<exists>st'. put_attrs m off iSize st = Some st' \<and> wrote off mem (s @ attr_text m) st'"
  using assms
proof (induction m arbitrary: s st)
  case (Cons a m)
  obtain k v where a: "a = (k, v)" by fastforce
  let ?t = "[SPACE] @ k @ [CHR ''='', DQUOTE] @ v @ [DQUOTE]"
  have at: "attr_text ((k, v) # m) = ?t @ attr_text m" by (simp add: attr_text_def)
  note pr = Cons.prems [unfolded a]
  have f: "fst st = length s" using pr(1) by (simp add: wrote_def)
  have "int (length ?t) < iSize - int (length s)" "iSize - int (length s) < 2 ^ 64"
    using pr(3,4) unfolding at by simp_all
  with put_wrote [OF pr(1), of ?t "iSize - int (length s)"] pr(2) obtain st1 where
    1: "put off (iSize - int (length s)) ?t st = Some st1" "wrote off mem (s @ ?t) st1" unfolding at by auto
  from pr(5) have nf: "cstr k = k" "cstr v = v" "\<forall>(k, v)\<in>set m. NUL \<notin> set k \<and> NUL \<notin> set v"
    by auto
  have "\<exists>st'. put_attrs m off iSize st1 = Some st' \<and> wrote off mem ((s @ ?t) @ attr_text m) st'"
    using pr by (intro Cons.IH [OF 1(2) _ _ _ nf(3)]) (simp_all add: at)
  with 1(1) f nf show ?case by (simp add: a at)
qed (simp add: attr_text_def)

text \<open>Texts without NUL bytes: \<open>%s\<close> prints them completely.\<close>

fun nul_free :: "CXmlElement \<Rightarrow> bool" where
  "nul_free (XmlElement name data attrs elems) \<longleftrightarrow> NUL \<notin> set name \<and> NUL \<notin> set data \<and>
     (\<forall>(k, v)\<in>set attrs. NUL \<notin> set k \<and> NUL \<notin> set v) \<and> (\<forall>e\<in>set elems. nul_free e)"

lemma bind_some: "(\<exists>y. x = Some y \<and> P y) \<Longrightarrow> (\<And>y. P y \<Longrightarrow> \<exists>z. f y = Some z \<and> Q z) \<Longrightarrow> \<exists>z. Option.bind x f = Some z \<and> Q z"
  by auto

lemma put_rest:
  assumes "wrote off mem s st" "off + length s + length text < length mem" "int (length s + length text) < iSize" "iSize < 2 ^ 64"
  shows "\<exists>st'. put off (iSize - int (fst st)) text st = Some st' \<and> wrote off mem (s @ text) st'"
proof -
  have "fst st = length s" using assms(1) by (simp add: wrote_def)
  then show ?thesis using assms by (intro put_wrote) auto
qed

lemma tabs_eq: "tabs b d = replicate (length (tabs b d)) TAB"
  by (simp add: tabs_def)

text \<open>The children of an element and its end tag, when the children print \<open>l\<close>.\<close>

lemma children_wrote:
  assumes w: "wrote off mem b st"
    and kids: "\<And>st. wrote off mem (b @ ''>'' @ [LF]) st \<Longrightarrow> \<exists>st'. ToString_bufs tab (d + 1) elems off iSize st = Some st' \<and>
      wrote off mem ((b @ ''>'' @ [LF]) @ l) st'"
    and room: "off + length b + 2 + length l + length (tabs tab d) + length name + 4 < length mem"
      "int (length b) + 2 + int (length l) + int (length (tabs tab d)) + int (length name) + 4 < iSize" "iSize < 2 ^ 64"
  shows "\<exists>st'. Option.bind (put off (iSize - int (fst st)) (''>'' @ [LF]) st) (\<lambda>st.
      Option.bind (ToString_bufs tab (d + 1) elems off iSize st) (\<lambda>st.
      Option.bind (put_tabs (length (tabs tab d)) off iSize st) (\<lambda>st.
      put off (iSize - int (fst st)) (''</'' @ name @ ''>'' @ [LF]) st))) = Some st' \<and>
    wrote off mem ((((b @ ''>'' @ [LF]) @ l) @ tabs tab d) @ ''</'' @ name @ ''>'' @ [LF]) st'"
proof (rule bind_some [where P = "wrote off mem (b @ ''>'' @ [LF])"], goal_cases)
  case 1
  show ?case using put_rest [OF w, of "''>'' @ [LF]" iSize] room by simp
next
  case (2 st1)
  show ?case
  proof (rule bind_some [OF kids [OF 2]], rule bind_some [where P = "wrote off mem (((b @ ''>'' @ [LF]) @ l) @ tabs tab d)"], goal_cases)
    case (1 st2)
    then show ?case using put_tabs_wrote [OF 1, of "length (tabs tab d)" iSize] room by (simp flip: tabs_eq)
  next
    case (2 st2 st3)
    show ?case using put_rest [OF 2(2), of "''</'' @ name @ ''>'' @ [LF]" iSize] room by simp
  qed
qed

lemma ToString_buf_wrote:
  "nul_free e \<Longrightarrow> off + length (tabs tab d @ body_text tab d e @ [LF]) < length mem \<Longrightarrow>
    int (length (tabs tab d @ body_text tab d e @ [LF])) < iSize \<Longrightarrow> iSize < 2 ^ 64 \<Longrightarrow>
    \<exists>st. ToString_buf tab d e off iSize mem = Some st \<and> wrote off mem (tabs tab d @ body_text tab d e @ [LF]) st"
  and ToString_bufs_wrote:
  "\<forall>e\<in>set es. nul_free e \<Longrightarrow> wrote off mem0 s st \<Longrightarrow> off + length s + length (list_text tab d es) < length mem0 \<Longrightarrow>
    int (length s + length (list_text tab d es)) < iSize \<Longrightarrow> iSize < 2 ^ 64 \<Longrightarrow>
    \<exists>st'. ToString_bufs tab d es off iSize st = Some st' \<and> wrote off mem0 (s @ list_text tab d es) st'"
proof (induction tab d e and tab d es arbitrary: off iSize mem and off iSize mem0 s st rule: body_text_list_text.induct)
  case (1 tab d name data attrs elems)
  let ?t = "tabs tab d" and ?a = "attr_text attrs"
  let ?h = "?t @ ''<'' @ name" let ?b = "?h @ ?a"
  have nf: "cstr name = name" "cstr data = data" "\<forall>(k, v)\<in>set attrs. NUL \<notin> set k \<and> NUL \<notin> set v" "\<forall>e\<in>set elems. nul_free e"
    using "1.prems"(1) by auto
  have len: "length (?t @ body_text tab d (XmlElement name data attrs elems) @ [LF]) =
      length ?b + (if data \<noteq> [] then length data + length name + 5
        else if elems \<noteq> [] then length (list_text tab (d + 1) elems) + length ?t + length name + 6 else 3)"
    by simp
  have fits: "off + length ?b + 2 < length mem" "int (length ?b) + 2 < iSize" "iSize < 2 ^ 64"
    using "1.prems"(2-4) unfolding len by (auto split: if_splits)
  have P1: "\<exists>st. put_tabs (length ?t) off iSize (0, mem) = Some st \<and> wrote off mem ?t st"
    using put_tabs_wrote [of off mem "[]" "(0, mem)" "length ?t" iSize] fits by (simp add: wrote_init flip: tabs_eq)
  have P2: "\<exists>st'. put off iSize (''<'' @ cstr name) st = Some st' \<and> wrote off mem ?h st'" if "wrote off mem ?t st" for st
    using put_wrote [OF that, of "''<'' @ name" iSize] fits by (simp add: nf)
  have P3: "\<exists>st'. put_attrs attrs off iSize st = Some st' \<and> wrote off mem ?b st'" if "wrote off mem ?h st" for st
    using put_attrs_wrote [OF that, of attrs iSize] fits nf by simp
  have P4: "\<exists>st'. (if data \<noteq> []
     then put off (iSize - int (fst st)) (''>'' @ cstr data @ ''</'' @ cstr name @ ''>'' @ [LF]) st
     else if elems \<noteq> []
     then Option.bind (put off (iSize - int (fst st)) (''>'' @ [LF]) st) (\<lambda>st.
          Option.bind (ToString_bufs tab (d + 1) elems off iSize st) (\<lambda>st.
          Option.bind (put_tabs (length ?t) off iSize st) (\<lambda>st.
          put off (iSize - int (fst st)) (''</'' @ cstr name @ ''>'' @ [LF]) st)))
     else put off (iSize - int (fst st)) (''/>'' @ [LF]) st) = Some st' \<and>
     wrote off mem (?t @ body_text tab d (XmlElement name data attrs elems) @ [LF]) st'" if w: "wrote off mem ?b st" for st
  proof -
    consider "data \<noteq> []" | "data = []" "elems = []" | "data = []" "elems \<noteq> []" by blast
    then show ?thesis
    proof cases
      case 1
      with put_rest [OF w, of "''>'' @ data @ ''</'' @ name @ ''>'' @ [LF]" iSize] "1.prems"(2-4)
      show ?thesis unfolding len nf by simp
    next
      case 2
      with put_rest [OF w, of "''/>'' @ [LF]" iSize] "1.prems"(2-4) show ?thesis unfolding len by simp
    next
      case 3
      let ?l = "list_text tab (d + 1) elems"
      have room: "off + length ?b + 2 + length ?l + length ?t + length name + 4 < length mem"
        "int (length ?b) + 2 + int (length ?l) + int (length ?t) + int (length name) + 4 < iSize"
        using 3 "1.prems"(2,3) unfolding len by simp_all
      have "\<exists>st'. ToString_bufs tab (d + 1) elems off iSize st = Some st' \<and> wrote off mem ((?b @ ''>'' @ [LF]) @ ?l) st'"
        if "wrote off mem (?b @ ''>'' @ [LF]) st" for st
        using "1.IH" [OF _ _ nf(4) that, of iSize] 3 room fits by simp
      from children_wrote [OF w this room fits(3)] have "\<exists>st'. Option.bind (put off (iSize - int (fst st)) (''>'' @ [LF]) st) (\<lambda>st.
          Option.bind (ToString_bufs tab (d + 1) elems off iSize st) (\<lambda>st.
          Option.bind (put_tabs (length ?t) off iSize st) (\<lambda>st.
          put off (iSize - int (fst st)) (''</'' @ cstr name @ ''>'' @ [LF]) st))) = Some st' \<and>
        wrote off mem ((((?b @ ''>'' @ [LF]) @ ?l) @ ?t) @ ''</'' @ name @ ''>'' @ [LF]) st'" unfolding nf .
      with 3 show ?thesis by simp
    qed
  qed
  show ?case
    unfolding ToString_buf.simps
    by (rule bind_some [OF P1], rule bind_some [OF P2], assumption, rule bind_some [OF P3], assumption, rule P4)
next
  case (2 tab d)
  then show ?case by auto
next
  case (3 tab d e es)
  let ?t = "tabs tab d @ body_text tab d e @ [LF]"
  have l: "list_text tab d (e # es) = ?t @ list_text tab d es" by simp
  obtain iLen m where st: "st = (iLen, m)" by fastforce
  have w: "iLen = length s" "length m = length mem0" "take (off + length s) m = take off mem0 @ s"
    using "3.prems"(2) by (simp_all add: wrote_def st)
  have "\<exists>st. ToString_buf tab d e (off + iLen) (iSize - int iLen) m = Some st \<and> wrote (off + iLen) m ?t st"
    using "3.prems" w unfolding l by (intro "3.IH"(1)) auto
  then obtain n m' where b: "ToString_buf tab d e (off + iLen) (iSize - int iLen) m = Some (n, m')"
    "wrote (off + iLen) m ?t (n, m')" by auto
  then have w': "wrote off mem0 (s @ ?t) (iLen + n, m')" using w by (simp add: wrote_def add.assoc)
  have "\<exists>st'. ToString_bufs tab d es off iSize (iLen + n, m') = Some st' \<and> wrote off mem0 ((s @ ?t) @ list_text tab d es) st'"
    using "3.prems" unfolding l by (intro "3.IH"(2) [OF _ w']) auto
  with b(1) show ?case by (simp add: st)
qed

end
