(* ===== verification/XmlRoundTrip.thy ===== *)
theory XmlRoundTrip
  imports XmlPrint
begin

text \<open>
  Parsing what was printed. \<open>wf_xml\<close> says which elements the printed form can represent;
  \<open>unwrapped\<close> is what comes back: the same element, with the text of a CDATA section in the
  place of the section.
\<close>

subsection \<open>Printable elements\<close>

definition wf_name :: "string \<Rightarrow> bool" where
  "wf_name n \<longleftrightarrow> n \<noteq> [] \<and> (\<forall>c\<in>set n. \<not> xblank c \<and> c \<noteq> CHR ''<'' \<and> c \<noteq> CHR ''>'' \<and> c \<noteq> NUL) \<and>
     hd n \<noteq> CHR ''?'' \<and> hd n \<noteq> CHR ''!''"

definition wf_key :: "string \<Rightarrow> bool" where
  "wf_key k \<longleftrightarrow> k \<noteq> [] \<and> (\<forall>c\<in>set k. \<not> xblank c \<and> c \<noteq> CHR ''<'' \<and> c \<noteq> CHR ''>'' \<and> c \<noteq> CHR ''='' \<and> c \<noteq> DQUOTE)"

definition wf_val :: "string \<Rightarrow> bool" where
  "wf_val v \<longleftrightarrow> (\<forall>c\<in>set v. c \<noteq> CHR ''<'' \<and> c \<noteq> CHR ''>'' \<and> c \<noteq> DQUOTE)"

definition plain :: "string \<Rightarrow> bool" where
  "plain d \<longleftrightarrow> (\<forall>c\<in>set d. c \<noteq> CHR ''<'' \<and> c \<noteq> CHR ''>'')"

definition cdata :: "string \<Rightarrow> string" where
  "cdata d = ''<![CDATA['' @ d @ '']]>''"

text \<open>The text inside a CDATA section.\<close>

definition cdata_of :: "string \<Rightarrow> string option" where
  "cdata_of s = (if 12 \<le> length s \<and> s = cdata (take (length s - 12) (drop 9 s)) then Some (take (length s - 12) (drop 9 s)) else None)"

lemma cdata_of_cdata [simp]: "cdata_of (cdata d) = Some d"
  by (simp add: cdata_of_def cdata_def)

lemma cdata_of_Some: "cdata_of s = Some d \<longleftrightarrow> s = cdata d"
  by (auto simp: cdata_of_def split: if_splits) (auto simp: cdata_def)

definition wf_data :: "string \<Rightarrow> bool" where
  "wf_data d = (case cdata_of d of Some x \<Rightarrow> find_sub '']]>'' x = None | None \<Rightarrow> plain d)"

definition unwrap :: "string \<Rightarrow> string" where
  "unwrap d = (case cdata_of d of Some x \<Rightarrow> x | None \<Rightarrow> d)"

fun wf_xml :: "CXmlElement \<Rightarrow> bool" where
  "wf_xml (XmlElement name data attrs elems) \<longleftrightarrow> wf_name name \<and> wf_data data \<and> (data = [] \<or> elems = []) \<and>
     map_inv attrs \<and> (\<forall>(k, v)\<in>set attrs. wf_key k \<and> wf_val v) \<and> (\<forall>e\<in>set elems. wf_xml e)"

fun unwrapped :: "CXmlElement \<Rightarrow> CXmlElement" where
  "unwrapped (XmlElement name data attrs elems) = XmlElement name (unwrap data) attrs (map unwrapped elems)"

subsection \<open>Runs of the parser\<close>

text \<open>Characters that the state skips.\<close>

definition inert :: "xp \<Rightarrow> char \<Rightarrow> bool" where
  "inert s c \<longleftrightarrow> (case x_type s of
     XML_ELEMENT_NULL \<Rightarrow> c \<noteq> CHR ''<'' \<and> c \<noteq> CHR ''>''
   | XML_ELEMENT_DATA \<Rightarrow> c \<noteq> CHR ''<'' \<and> c \<noteq> CHR ''>''
   | XML_ELEMENT_DATA_PARSE \<Rightarrow> c \<noteq> CHR ''<'' \<and> c \<noteq> CHR ''>''
   | XML_ELEMENT_NAME \<Rightarrow> \<not> xblank c \<and> c \<noteq> CHR ''<'' \<and> c \<noteq> CHR ''>''
   | XML_ELEMENT_ATTR \<Rightarrow> xblank c \<or> x_start s \<noteq> - 1 \<and> c \<noteq> CHR ''<'' \<and> c \<noteq> CHR ''>'' \<and> c \<noteq> DQUOTE \<and>
       (c = CHR ''='' \<longrightarrow> x_sname s \<noteq> [])
   | _ \<Rightarrow> False)"

lemma inert_step: "inert s (t ! x_pos s) \<Longrightarrow> parse_step t s = Next s"
  by (auto simp: inert_def parse_step_def parse_blank_def parse_attr_def Let_def split: xtype.splits)

lemma inert_pos [simp]: "inert (s\<lparr>x_pos := p\<rparr>) c = inert s c"
  by (cases "x_type s") (simp_all add: inert_def)

lemma run_inert:
  "x_pos s = length pre \<Longrightarrow> \<forall>c\<in>set blk. inert s c \<Longrightarrow>
    parse_loop (pre @ blk @ post) s = parse_loop (pre @ blk @ post) (s\<lparr>x_pos := length pre + length blk\<rparr>)"
proof (induction blk arbitrary: pre s)
  case (Cons c blk)
  let ?t = "pre @ (c # blk) @ post"
  have "parse_step ?t s = Next s" using Cons.prems by (intro inert_step) (simp add: nth_append)
  then have "parse_loop ?t s = parse_loop ?t (x_next s)"
    using Cons.prems(1) by (intro parse_loop_Next) auto
  also have "\<dots> = parse_loop ?t ((x_next s)\<lparr>x_pos := length (pre @ [c]) + length blk\<rparr>)"
    using Cons.IH [of "x_next s" "pre @ [c]"] Cons.prems by (simp add: x_next_def)
  finally show ?case by (simp add: x_next_def)
next
  case Nil
  then have "s\<lparr>x_pos := length pre\<rparr> = s" by simp
  then show ?case by simp
qed

text \<open>A single step.\<close>

lemma run_Next:
  "parse_step t s = Next s' \<Longrightarrow> x_pos s < length t \<Longrightarrow> x_next s' = s'' \<Longrightarrow> parse_loop t s = parse_loop t s''"
  using parse_loop_Next by blast

lemma at_text_prefix: "NUL \<notin> set s \<Longrightarrow> a = length pre \<Longrightarrow> n = length s \<Longrightarrow> at_text (pre @ s @ post) a s n"
  by (simp add: at_text_def strncmp_eq_def cstr_append)

lemma not_at_text: "t ! (a + j) \<noteq> s ! j \<Longrightarrow> j < n \<Longrightarrow> n \<le> length s \<Longrightarrow> \<not> at_text t a s n"
  using at_text_nth by blast

text \<open>\<open><\<close> before a character that starts no comment, section or declaration.\<close>

lemma lt_plain:
  assumes "x_pos s = length pre" "c \<noteq> CHR ''?''" "c \<noteq> CHR ''!''" "t = pre @ CHR ''<'' # c # post"
    "x_type s \<noteq> XML_ELEMENT_COMMENT" "x_type s \<noteq> XML_ELEMENT_DECLARATION" "x_type s \<noteq> XML_ELEMENT_CDATA"
  shows "parse_step t s =
    (if x_type s = XML_ELEMENT_NULL then Next (s\<lparr>x_type := XML_ELEMENT_NAME, x_start := int (length pre) + 1\<rparr>)
     else if c = CHR ''/'' then
       (if x_type s = XML_ELEMENT_DATA
        then case get_range t (x_start s) (x_pos s) of None \<Rightarrow> Oob
          | Some d \<Rightarrow> parse_end_tag t (s\<lparr>x_elem := append_data d (x_elem s)\<rparr>)
        else parse_end_tag t s)
     else Child s)"
proof -
  have c: "t ! Suc (length pre) = c" "t ! length pre = CHR ''<''" "at0 t (Suc (length pre)) = c"
    using assms(4) by (simp_all add: nth_append at0_def)
  have "\<not> at_text t (x_pos s + 1) ''!--'' 3" "\<not> at_text t (x_pos s + 1) ''![CDATA['' 8"
    using assms(1,3) c(1) not_at_text [of t "Suc (length pre)" 0 "''!--''" 3]
      not_at_text [of t "Suc (length pre)" 0 "''![CDATA[''" 8] by simp_all
  moreover have "\<not> xblank (CHR ''<'')" by (simp add: xblank_def)
  ultimately show ?thesis
    using assms(1,2,3,5,6,7) c by (cases "c = CHR ''/''") (simp_all add: parse_step_def parse_lt_def Let_def)
qed

text \<open>The end tag.\<close>

lemma run_end_tag:
  assumes pos: "x_pos s = length pre" and n: "wf_name name" "m_strName (x_elem s) = name"
    and ty: "x_type s = XML_ELEMENT_DATA \<and> 0 \<le> x_start s \<and> x_start s \<le> int (length pre) \<or> x_type s = XML_ELEMENT_DATA_PARSE"
  shows "parse_loop (pre @ ''</'' @ name @ ''>'' @ post) s = POk (length pre + length name + 3)
    (if x_type s = XML_ELEMENT_DATA then append_data (slice pre (nat (x_start s)) (length pre)) (x_elem s) else x_elem s)"
proof -
  let ?t = "pre @ ''</'' @ name @ ''>'' @ post"
  define e where "e = (if x_type s = XML_ELEMENT_DATA then append_data (slice pre (nat (x_start s)) (length pre)) (x_elem s) else x_elem s)"
  have nul: "NUL \<notin> set name" using n(1) by (auto simp: wf_name_def)
  have en: "m_strName e = name" using n(2) by (simp add: e_def append_data_def)
  have rg: "get_range ?t (x_start s) (x_pos s) = Some (slice pre (nat (x_start s)) (length pre))" if "x_type s = XML_ELEMENT_DATA"
    using ty that pos by (auto simp: get_range_def slice_def nat_le_iff)
  define s1 where "s1 = s\<lparr>x_elem := e, x_type := XML_ELEMENT_NAME_END, x_pos := length pre + length name + 1\<rparr>"
  have "at_text ?t (length pre + 2) name (length name)"
    using at_text_prefix [OF nul, of "length pre + 2" "pre @ ''</''" "length name" "''>'' @ post"] by simp
  then have et: "parse_end_tag ?t (s\<lparr>x_elem := e\<rparr>) = Next s1"
    using pos en nul by (simp add: parse_end_tag_def s1_def Let_def)
  have "parse_step ?t s = Next s1"
    using lt_plain [OF pos, of "CHR ''/''" ?t "name @ ''>'' @ post"] ty et rg
    by (auto simp: e_def)
  then have "parse_loop ?t s = parse_loop ?t (x_next s1)"
    using pos by (intro parse_loop_Next) simp_all
  also have "\<dots> = POk (length pre + length name + 3) e"
  proof -
    have c: "?t ! x_pos (x_next s1) = CHR ''>''"
      by (simp add: s1_def x_next_def nth_append)
    have "parse_step ?t (x_next s1) = Stop ((x_next s1)\<lparr>x_pos := length pre + length name + 3\<rparr>)"
      using c by (simp add: parse_step_def parse_gt_def Let_def s1_def x_next_def xblank_def)
    from parse_loop_Stop [OF _ this] show ?thesis by (simp add: s1_def x_next_def)
  qed
  finally show ?thesis by (simp add: e_def)
qed

subsection \<open>The start tag\<close>

text \<open>An attribute in its quotes, after white space.\<close>

definition attr_state :: "nat \<Rightarrow> CXmlElement \<Rightarrow> xp" where
  "attr_state p e = \<lparr>x_pos = p, x_start = - 1, x_type = XML_ELEMENT_ATTR, x_old = XML_ELEMENT_NULL,
     x_sname = [], x_sval = [], x_elem = e\<rparr>"

definition add_attr :: "string \<times> string \<Rightarrow> CXmlElement \<Rightarrow> CXmlElement" where
  "add_attr kv e = set_attrs (map_insert (fst kv) (snd kv) (m_clsAttributeMap e)) e"

lemma run_attr:
  assumes k: "wf_key k" and v: "wf_val v"
  shows "parse_loop (pre @ (k @ [CHR ''='', DQUOTE] @ v @ [DQUOTE]) @ post) (attr_state (length pre) e) =
    parse_loop (pre @ (k @ [CHR ''='', DQUOTE] @ v @ [DQUOTE]) @ post)
      (attr_state (length pre + length k + length v + 3) (add_attr (k, v) e))"
proof -
  let ?t = "pre @ (k @ [CHR ''='', DQUOTE] @ v @ [DQUOTE]) @ post"
  obtain c ks where kc: "k = c # ks" using k by (cases k) (auto simp: wf_key_def)
  define s1 where "s1 = attr_state (length pre) e"
  define s2 where "s2 = s1\<lparr>x_start := int (length pre), x_pos := length pre + 1\<rparr>"
  define s3 where "s3 = s2\<lparr>x_pos := length pre + length k\<rparr>"
  define s4 where "s4 = s3\<lparr>x_sname := k, x_pos := length pre + length k + 2, x_start := int (length pre + length k) + 2\<rparr>"
  define s5 where "s5 = s4\<lparr>x_pos := length pre + length k + 2 + length v\<rparr>"
  have 1: "parse_loop ?t s1 = parse_loop ?t s2"
  proof -
    have "?t ! length pre = c" by (simp add: kc)
    with k have "parse_step ?t s1 = Next (s1\<lparr>x_start := int (length pre)\<rparr>)"
      by (simp add: kc parse_step_def parse_attr_def s1_def attr_state_def wf_key_def Let_def)
    then show ?thesis
      by (rule run_Next) (simp_all add: s1_def attr_state_def kc s2_def x_next_def)
  qed
  have 2: "parse_loop ?t s2 = parse_loop ?t s3"
    using run_inert [of s2 "pre @ [c]" ks "[CHR ''='', DQUOTE] @ v @ [DQUOTE] @ post"] k
    by (simp add: kc s2_def s3_def s1_def attr_state_def inert_def wf_key_def)
  have 3: "parse_loop ?t s3 = parse_loop ?t s4"
  proof -
    have c: "?t ! (length pre + length k) = CHR ''=''" "at0 ?t (Suc (length pre + length k)) = DQUOTE"
      by (simp_all add: nth_append at0_def)
    have g: "get_range ?t (int (length pre)) (length pre + length k) = Some k"
      by (simp add: get_range_def slice_append_mid)
    have "parse_step ?t s3 = Next (s3\<lparr>x_sname := k, x_pos := length pre + length k + 1, x_start := int (length pre + length k) + 2\<rparr>)"
      using c g k by (simp add: kc parse_step_def parse_attr_def s3_def s2_def s1_def attr_state_def Let_def xblank_def)
    then show ?thesis
      by (rule run_Next) (simp_all add: s4_def s3_def s2_def s1_def x_next_def attr_state_def)
  qed
  have 4: "parse_loop ?t s4 = parse_loop ?t s5"
    using run_inert [of s4 "pre @ k @ [CHR ''='', DQUOTE]" v "[DQUOTE] @ post"] v k
    by (simp add: s5_def s4_def s3_def s2_def s1_def attr_state_def inert_def wf_val_def wf_key_def)
  have 5: "parse_loop ?t s5 = parse_loop ?t (attr_state (length pre + length k + length v + 3) (add_attr (k, v) e))"
  proof -
    have c: "?t ! (length pre + length k + 2 + length v) = DQUOTE"
      by (simp add: nth_append)
    have g: "get_range ?t (int (length pre + length k) + 2) (length pre + length k + 2 + length v) = Some v"
      using slice_append_mid' [of "length pre + length k + 2" "pre @ k @ [CHR ''='', DQUOTE]" "length pre + length k + 2 + length v" v "[DQUOTE] @ post"]
      by (simp add: get_range_def nat_add_distrib)
    have "parse_step ?t s5 = Next (s5\<lparr>x_elem := add_attr (k, v) e, x_sname := [], x_sval := [], x_start := - 1\<rparr>)"
      using c g k by (simp add: parse_step_def parse_attr_def s5_def s4_def s3_def s2_def s1_def attr_state_def Let_def xblank_def
          add_attr_def wf_key_def)
    then show ?thesis
      by (rule run_Next) (simp_all add: s5_def s4_def s3_def s2_def s1_def x_next_def attr_state_def)
  qed
  show ?thesis using 1 2 3 4 5 by (simp only: s1_def)
qed

lemma run_attrs:
  assumes "\<forall>(k, v)\<in>set m. wf_key k \<and> wf_val v"
  shows "parse_loop (pre @ attr_text m @ post) (attr_state (length pre) e) =
    parse_loop (pre @ attr_text m @ post) (attr_state (length (pre @ attr_text m)) (fold add_attr m e))"
  using assms
proof (induction m arbitrary: pre e)
  case (Cons a m)
  obtain k v where a: "a = (k, v)" by fastforce
  let ?x = "k @ [CHR ''='', DQUOTE] @ v @ [DQUOTE]"
  let ?t = "(pre @ [SPACE]) @ ?x @ (attr_text m @ post)"
  have t: "pre @ attr_text (a # m) @ post = ?t" by (simp add: attr_text_def a)
  have "parse_loop ?t (attr_state (length pre) e) = parse_loop ?t (attr_state (length (pre @ [SPACE])) e)"
    using run_inert [of "attr_state (length pre) e" pre "[SPACE]" "?x @ attr_text m @ post"]
    by (simp add: attr_state_def inert_def xblank_def)
  also have "\<dots> = parse_loop ?t (attr_state (length (pre @ [SPACE] @ ?x)) (add_attr (k, v) e))"
    using run_attr [of k v "pre @ [SPACE]" "attr_text m @ post" e] Cons.prems by (simp add: a eval_nat_numeral add.assoc)
  also have "\<dots> = parse_loop ?t (attr_state (length ((pre @ [SPACE] @ ?x) @ attr_text m)) (fold add_attr m (add_attr (k, v) e)))"
    using Cons.IH [of "pre @ [SPACE] @ ?x" "add_attr (k, v) e"] Cons.prems by simp
  finally show ?case unfolding t by (simp add: a attr_text_def)
qed (simp add: attr_text_def)

text \<open>The attributes of a printed element come back as they were.\<close>

lemma fold_add_attr:
  "sorted_wrt (<) (map fst (m_clsAttributeMap e @ m)) \<Longrightarrow>
    fold add_attr m e = set_attrs (m_clsAttributeMap e @ m) e"
proof (induction m arbitrary: e)
  case (Cons a m)
  have "map_insert (fst a) (snd a) (m_clsAttributeMap e) = m_clsAttributeMap e @ [(fst a, snd a)]"
    using Cons.prems by (intro map_insert_append) (auto simp: sorted_wrt_append)
  then have "add_attr a e = set_attrs (m_clsAttributeMap e @ [a]) e" by (simp add: add_attr_def)
  with Cons.IH [of "add_attr a e"] Cons.prems show ?case by (cases e) simp
next
  case Nil
  then show ?case by (cases e) simp
qed

definition start_text :: "string \<Rightarrow> (string \<times> string) list \<Rightarrow> string" where
  "start_text name attrs = ''<'' @ name @ attr_text attrs"

definition name_state :: "string \<Rightarrow> xp" where
  "name_state name = \<lparr>x_pos = 1 + length name, x_start = 1, x_type = XML_ELEMENT_NAME, x_old = XML_ELEMENT_NULL,
     x_sname = [], x_sval = [], x_elem = XmlElement [] [] [] []\<rparr>"

lemma run_name:
  assumes "wf_name name"
  shows "parse_loop (''<'' @ name @ post) xinit = parse_loop (''<'' @ name @ post) (name_state name)"
proof -
  let ?t = "''<'' @ name @ post"
  obtain c cs where n: "name = c # cs" "c \<noteq> CHR ''?''" "c \<noteq> CHR ''!''" using assms by (cases name) (auto simp: wf_name_def)
  let ?s = "xinit\<lparr>x_type := XML_ELEMENT_NAME, x_start := 1\<rparr>"
  have "parse_step ?t xinit = Next ?s"
    using lt_plain [of xinit "[]" c ?t "cs @ post"] n by (simp add: xinit_def)
  then have "parse_loop ?t xinit = parse_loop ?t (x_next ?s)"
    by (intro parse_loop_Next) (simp_all add: xinit_def)
  also have "\<dots> = parse_loop ?t (name_state name)"
    using run_inert [of "x_next ?s" "''<''" name post] assms
    by (simp add: x_next_def xinit_def inert_def wf_name_def name_state_def)
  finally show ?thesis .
qed

lemma name_range: "get_range (''<'' @ name @ post) 1 (1 + length name) = Some name"
  using slice_append_mid [of "''<''" name post] by (simp add: get_range_def)

text \<open>With attributes, the white space after the name ends the name.\<close>

lemma run_start_attrs:
  assumes "wf_name name" "map_inv attrs" "\<forall>(k, v)\<in>set attrs. wf_key k \<and> wf_val v" "attrs \<noteq> []"
  shows "parse_loop (start_text name attrs @ post) xinit =
    parse_loop (start_text name attrs @ post) (attr_state (length (start_text name attrs)) (XmlElement name [] attrs []))"
proof -
  let ?t = "start_text name attrs @ post"
  obtain k v m where a: "attrs = (k, v) # m" using assms(4) by (metis list.exhaust surj_pair)
  have kv: "wf_key k" "wf_val v" "\<forall>(k, v)\<in>set m. wf_key k \<and> wf_val v" using assms(3) by (auto simp: a)
  let ?x = "k @ [CHR ''='', DQUOTE] @ v @ [DQUOTE]"
  let ?pre = "''<'' @ name @ [SPACE]"
  let ?e = "XmlElement name [] [] []"
  have t: "?t = ''<'' @ name @ (SPACE # ?x @ attr_text m @ post)" by (simp add: start_text_def a attr_text_def)
  have "parse_loop ?t xinit = parse_loop ?t (name_state name)"
    unfolding t by (rule run_name [OF assms(1)])
  also have "\<dots> = parse_loop ?t (attr_state (length ?pre) ?e)"
  proof -
    have "?t ! x_pos (name_state name) = SPACE" by (simp add: t name_state_def nth_append)
    then have "parse_step ?t (name_state name) =
        Next ((name_state name)\<lparr>x_elem := ?e, x_type := XML_ELEMENT_ATTR, x_start := - 1, x_sname := [], x_sval := []\<rparr>)"
      using name_range [of name "SPACE # ?x @ attr_text m @ post"]
      by (simp add: parse_step_def parse_blank_def name_state_def xblank_def t append_name_def Let_def)
    then show ?thesis
      by (rule run_Next) (simp_all add: name_state_def x_next_def attr_state_def start_text_def a attr_text_def)
  qed
  also have "\<dots> = parse_loop ?t (attr_state (length (?pre @ ?x)) (add_attr (k, v) ?e))"
    unfolding t using run_attr [OF kv(1,2), of ?pre "attr_text m @ post" ?e] by (simp add: eval_nat_numeral add.assoc)
  also have "\<dots> = parse_loop ?t (attr_state (length ((?pre @ ?x) @ attr_text m)) (fold add_attr m (add_attr (k, v) ?e)))"
    unfolding t using run_attrs [OF kv(3), of "?pre @ ?x" post "add_attr (k, v) ?e"] by simp
  also have "fold add_attr m (add_attr (k, v) ?e) = fold add_attr attrs ?e" by (simp add: a)
  also have "\<dots> = XmlElement name [] attrs []"
    using assms(2) by (subst fold_add_attr) (simp_all add: map_inv_def)
  finally show ?thesis by (simp add: start_text_def a attr_text_def)
qed

definition wf_attrs :: "(string \<times> string) list \<Rightarrow> bool" where
  "wf_attrs attrs \<longleftrightarrow> map_inv attrs \<and> (\<forall>(k, v)\<in>set attrs. wf_key k \<and> wf_val v)"

lemma nat_one_int [simp]: "nat (1 + int n) = Suc n" "nat (int n + 1) = Suc n"
    "nat (1 + (int n + int m)) = Suc (n + m)"
  by linarith+

lemma set_elems_twice [simp]: "set_elems l (set_elems l' e) = set_elems l e"
  by (cases e) simp

lemma tabs_0 [simp]: "tabs b 0 = []"
  by (simp add: tabs_def)

lemma parse_loop_total: "parse_loop_dom (t, s)"
  by (induction t s rule: parse_loop.induct) (rule parse_loop.domintros; blast)

definition data_state :: "nat \<Rightarrow> CXmlElement \<Rightarrow> xp" where
  "data_state p e = \<lparr>x_pos = p, x_start = int p, x_type = XML_ELEMENT_DATA, x_old = XML_ELEMENT_NULL,
     x_sname = [], x_sval = [], x_elem = e\<rparr>"

lemma start_text_last: "attrs \<noteq> [] \<Longrightarrow> \<exists>u. start_text name attrs = u @ [DQUOTE] \<and> 2 \<le> length u"
proof -
  assume "attrs \<noteq> []"
  then obtain m k v where a: "attrs = m @ [(k, v)]" by (metis rev_exhaust surj_pair)
  have "start_text name attrs = (''<'' @ name @ attr_text m @ [SPACE] @ k @ [CHR ''='', DQUOTE] @ v) @ [DQUOTE]"
    by (simp add: start_text_def a attr_text_def)
  then show ?thesis by (intro exI conjI) (assumption, simp)
qed

lemma run_start_open:
  assumes n: "wf_name name" and a: "wf_attrs attrs"
  shows "parse_loop (start_text name attrs @ ''>'' @ post) xinit =
    parse_loop (start_text name attrs @ ''>'' @ post) (data_state (length (start_text name attrs) + 1) (XmlElement name [] attrs []))"
proof (cases "attrs = []")
  case True
  let ?t = "''<'' @ name @ (CHR ''>'' # post)"
  have t: "start_text name attrs @ ''>'' @ post = ?t" "length (start_text name attrs) = 1 + length name"
    by (simp_all add: start_text_def True attr_text_def)
  have "?t ! x_pos (name_state name) = CHR ''>''" by (simp add: name_state_def nth_append)
  then have "parse_step ?t (name_state name) =
      Next ((name_state name)\<lparr>x_elem := XmlElement name [] [] [], x_type := XML_ELEMENT_DATA, x_start := int (1 + length name) + 1\<rparr>)"
    using name_range [of name "CHR ''>'' # post"]
    by (simp add: parse_step_def parse_gt_def name_state_def xblank_def append_name_def Let_def)
  then have "parse_loop ?t (name_state name) = parse_loop ?t (data_state (1 + length name + 1) (XmlElement name [] [] []))"
    by (rule run_Next) (simp_all add: name_state_def x_next_def data_state_def)
  with run_name [OF n, of "CHR ''>'' # post"] show ?thesis by (simp add: True start_text_def attr_text_def)
next
  case False
  let ?t = "start_text name attrs @ ''>'' @ post"
  let ?e = "XmlElement name [] attrs []"
  let ?p = "length (start_text name attrs)"
  obtain u where u: "start_text name attrs = u @ [DQUOTE]" "2 \<le> length u" using start_text_last [OF False] by blast
  have c: "?t ! ?p = CHR ''>''" "?t ! (?p - 1) = DQUOTE" by (simp_all add: u nth_append)
  have "parse_step ?t (attr_state ?p ?e) = Next ((attr_state ?p ?e)\<lparr>x_type := XML_ELEMENT_DATA, x_start := int ?p + 1\<rparr>)"
    using c u(2) by (auto simp: parse_step_def parse_gt_def attr_state_def xblank_def Let_def u(1))
  then have "parse_loop ?t (attr_state ?p ?e) = parse_loop ?t (data_state (?p + 1) ?e)"
    by (rule run_Next) (simp_all add: attr_state_def x_next_def data_state_def)
  with run_start_attrs [OF n _ _ False, of "''>'' @ post"] a show ?thesis by (simp add: wf_attrs_def)
qed

lemma run_start_close:
  assumes n: "wf_name name" and a: "wf_attrs attrs"
  shows "parse_loop (start_text name attrs @ ''/>'' @ post) xinit =
    POk (length (start_text name attrs) + 2) (XmlElement name [] attrs [])"
proof -
  let ?t = "start_text name attrs @ ''/>'' @ post"
  let ?e = "XmlElement name [] attrs []"
  let ?p = "length (start_text name attrs)"
  have p: "start_text name attrs \<noteq> []" by (simp add: start_text_def)
  have "parse_loop ?t xinit = parse_loop ?t (attr_state (?p + 1) ?e)"
  proof (cases "attrs = []")
    case True
    let ?u = "''<'' @ name @ (CHR ''/'' # CHR ''>'' # post)"
    have t: "?t = ?u" "?p = 1 + length name" by (simp_all add: start_text_def True attr_text_def)
    have "?u ! x_pos (name_state name) = CHR ''/''" by (simp add: name_state_def nth_append)
    then have "parse_step ?u (name_state name) =
        Next ((name_state name)\<lparr>x_elem := ?e, x_type := XML_ELEMENT_ATTR, x_start := - 1, x_sname := [], x_sval := []\<rparr>)"
      using name_range [of name "CHR ''/'' # CHR ''>'' # post"]
      by (simp add: parse_step_def parse_blank_def name_state_def xblank_def append_name_def Let_def True)
    then have "parse_loop ?u (name_state name) = parse_loop ?u (attr_state (1 + length name + 1) ?e)"
      by (rule run_Next) (simp_all add: name_state_def x_next_def attr_state_def)
    with run_name [OF n, of "CHR ''/'' # CHR ''>'' # post"] show ?thesis unfolding t by simp
  next
    case False
    have "parse_loop ?t (attr_state ?p ?e) = parse_loop ?t (attr_state (?p + 1) ?e)"
      using run_inert [of "attr_state ?p ?e" "start_text name attrs" "''/''" "''>'' @ post"]
      by (simp add: attr_state_def inert_def xblank_def)
    with run_start_attrs [OF n _ _ False, of "''/>'' @ post"] a show ?thesis by (simp add: wf_attrs_def)
  qed
  also have "\<dots> = POk (?p + 2) ?e"
  proof -
    have c: "?t ! (?p + 1) = CHR ''>''" "?t ! ?p = CHR ''/''" by (simp_all add: nth_append)
    have "parse_step ?t (attr_state (?p + 1) ?e) = Stop ((attr_state (?p + 1) ?e)\<lparr>x_pos := ?p + 2\<rparr>)"
      using c p by (simp add: parse_step_def parse_gt_def attr_state_def xblank_def Let_def)
    from parse_loop_Stop [OF _ this] show ?thesis by (simp add: attr_state_def)
  qed
  finally show ?thesis .
qed

subsection \<open>Data\<close>

lemma run_plain_data:
  assumes n: "wf_name name" and a: "wf_attrs attrs" and d: "plain data"
  shows "parse_loop (start_text name attrs @ ''>'' @ data @ ''</'' @ name @ ''>'' @ post) xinit =
    POk (length (start_text name attrs) + length data + length name + 4) (XmlElement name data attrs [])"
proof -
  let ?pre = "start_text name attrs @ ''>''"
  let ?e = "XmlElement name [] attrs []"
  let ?t = "?pre @ data @ ''</'' @ name @ ''>'' @ post"
  let ?s = "(data_state (length ?pre) ?e)\<lparr>x_pos := length ?pre + length data\<rparr>"
  have "parse_loop ?t xinit = parse_loop ?t (data_state (length ?pre) ?e)"
    using run_start_open [OF n a, of "data @ ''</'' @ name @ ''>'' @ post"] by simp
  also have "\<dots> = parse_loop ?t ?s"
    using d by (intro run_inert) (simp_all add: data_state_def inert_def plain_def)
  also have "\<dots> = parse_loop ((?pre @ data) @ ''</'' @ name @ ''>'' @ post) ?s" by simp
  also have "\<dots> = POk (length (?pre @ data) + length name + 3) (XmlElement name data attrs [])"
    using run_end_tag [of ?s "?pre @ data" name post] n
    by (simp add: data_state_def append_data_def slice_def)
  finally show ?thesis by simp
qed

text \<open>Inside a CDATA section only the end marker counts.\<close>

lemma run_cdata_skip:
  assumes "x_pos s = length pre" "x_type s = XML_ELEMENT_CDATA"
    and "\<forall>j<length blk. \<not> prefix '']]>'' (drop j (blk @ post))"
  shows "parse_loop (pre @ blk @ post) s = parse_loop (pre @ blk @ post) (s\<lparr>x_pos := length pre + length blk\<rparr>)"
  using assms
proof (induction blk arbitrary: pre s)
  case Nil
  then have "s\<lparr>x_pos := length pre\<rparr> = s" by simp
  then show ?case by simp
next
  case (Cons c blk)
  let ?t = "pre @ (c # blk) @ post"
  have "\<not> (c = CHR '']'' \<and> at_text ?t (length pre + 1) '']>'' 2)"
  proof
    assume h: "c = CHR '']'' \<and> at_text ?t (length pre + 1) '']>'' 2"
    have "take 2 (cstr (blk @ post)) = '']>''" using h by (simp add: at_text_def strncmp_eq_def)
    then obtain r where "cstr (blk @ post) = '']>'' @ r" by (metis append_take_drop_id)
    moreover obtain r' where "blk @ post = cstr (blk @ post) @ r'" by (metis cstr_def takeWhile_dropWhile_id)
    ultimately have "blk @ post = '']>'' @ r @ r'" by (metis append.assoc)
    then have "prefix '']]>'' (drop 0 ((c # blk) @ post))" using h by simp
    with Cons.prems(3) show False by blast
  qed
  then have "parse_step ?t s = Next s"
    using Cons.prems(1,2) by (auto simp: parse_step_def parse_blank_def parse_cdata_def Let_def)
  then have "parse_loop ?t s = parse_loop ?t (x_next s)"
    using Cons.prems(1) by (intro parse_loop_Next) auto
  also have "\<dots> = parse_loop ?t ((x_next s)\<lparr>x_pos := length (pre @ [c]) + length blk\<rparr>)"
  proof -
    have "\<forall>j<length blk. \<not> prefix '']]>'' (drop j (blk @ post))"
    proof (intro allI impI)
      fix j assume "j < length blk"
      with Cons.prems(3) have "\<not> prefix '']]>'' (drop (Suc j) ((c # blk) @ post))" by (metis length_Cons Suc_less_eq)
      then show "\<not> prefix '']]>'' (drop j (blk @ post))" by simp
    qed
    with Cons.IH [of "x_next s" "pre @ [c]"] Cons.prems(1,2) show ?thesis by (simp add: x_next_def)
  qed
  finally show ?case by (simp add: x_next_def)
qed

text \<open>The end marker does not start earlier than behind the text.\<close>

lemma no_early_end:
  assumes "find_sub '']]>'' d = None" "j < length d"
  shows "\<not> prefix '']]>'' (drop j (d @ '']]>'' @ post))"
proof
  assume p: "prefix '']]>'' (drop j (d @ '']]>'' @ post))"
  from assms(1) have nf: "\<not> prefix '']]>'' (drop j d)" using find_sub_None assms(2) by (metis less_imp_le_nat)
  obtain a r where d: "drop j d = a # r" using assms(2) by (metis Cons_nth_drop_Suc)
  have "drop j (d @ '']]>'' @ post) = (a # r) @ '']]>'' @ post" using assms(2) d by simp
  with p have "prefix '']]>'' ((a # r) @ '']]>'' @ post)" by (simp only:)
  then show False
  proof (cases r)
    case (Cons b r')
    with \<open>prefix '']]>'' ((a # r) @ '']]>'' @ post)\<close> nf d show ?thesis by (cases r') auto
  qed simp
qed

lemma drop_plus: "length a = n \<Longrightarrow> drop (n + i) (a @ b) = drop i b"
  by simp

text \<open>The text of a CDATA section: the state behind its first character, and the element it is for.\<close>

abbreviation cdata_state :: "nat \<Rightarrow> string \<Rightarrow> (string \<times> string) list \<Rightarrow> xp" where
  "cdata_state p name attrs \<equiv> \<lparr>x_pos = p + 1, x_start = int p + 9, x_type = XML_ELEMENT_CDATA, x_old = XML_ELEMENT_DATA,
     x_sname = [], x_sval = [], x_elem = XmlElement name [] attrs []\<rparr>"

lemma cdata_opens:
  fixes d pre fin
  defines "t \<equiv> pre @ cdata d @ fin" and "p \<equiv> length pre"
  shows "parse_loop t (data_state p (XmlElement name [] attrs [])) = parse_loop t (cdata_state p name attrs)"
proof -
  let ?s = "data_state p (XmlElement name [] attrs [])"
  have c: "t ! p = CHR ''<''" by (simp add: t_def p_def cdata_def nth_append)
  have "t ! (p + 1 + 1) \<noteq> ''!--'' ! 1" by (simp add: t_def p_def cdata_def nth_append)
  then have nc: "\<not> at_text t (p + 1) ''!--'' 3" by (rule not_at_text) simp_all
  have "at_text ((pre @ ''<'') @ ''![CDATA['' @ (d @ '']]>'' @ fin)) (p + 1) ''![CDATA['' 8"
    by (rule at_text_prefix) (simp_all add: p_def)
  then have cd: "at_text t (p + 1) ''![CDATA['' 8" by (simp add: t_def cdata_def)
  have l: "p + 9 < length t" by (simp add: t_def p_def cdata_def)
  then have g: "get_range t (int p) p = Some []" by (simp add: get_range_def)
  have b: "t ! Suc p = CHR ''!''" by (simp add: t_def p_def cdata_def nth_append)
  have "parse_step t ?s = Next (?s\<lparr>x_elem := XmlElement name [] attrs [], x_old := XML_ELEMENT_DATA,
      x_type := XML_ELEMENT_CDATA, x_start := int p + 9\<rparr>)"
    using c b nc cd g l by (simp add: parse_step_def parse_lt_def data_state_def xblank_def append_data_def Let_def)
  then show ?thesis by (rule run_Next) (use l in \<open>simp_all add: data_state_def x_next_def\<close>)
qed

lemma cdata_runs:
  fixes d pre fin
  defines "t \<equiv> pre @ cdata d @ fin" and "p \<equiv> length pre"
  assumes d: "find_sub '']]>'' d = None"
  shows "parse_loop t (cdata_state p name attrs) = parse_loop t ((cdata_state p name attrs)\<lparr>x_pos := p + 9 + length d\<rparr>)"
proof -
  let ?blk = "''![CDATA['' @ d"
  have "\<not> prefix '']]>'' (drop j (?blk @ '']]>'' @ fin))" if "j < length ?blk" for j
  proof (cases "j < 8")
    case True
    then have "j \<in> {0,1,2,3,4,5,6,7}" by auto
    then show ?thesis by auto
  next
    case False
    then obtain i where i: "j = 8 + i" using le_Suc_ex linorder_not_less by blast
    have "drop (8 + i) (''![CDATA['' @ d @ '']]>'' @ fin) = drop i (d @ '']]>'' @ fin)"
      by (rule drop_plus) simp
    moreover have "?blk @ '']]>'' @ fin = ''![CDATA['' @ d @ '']]>'' @ fin" by simp
    moreover have "i < length d" using that i by simp
    ultimately show ?thesis using no_early_end [OF d, of i fin] unfolding i by metis
  qed
  with run_cdata_skip [of "cdata_state p name attrs" "pre @ ''<''" ?blk "'']]>'' @ fin"]
  have "parse_loop ((pre @ ''<'') @ ?blk @ '']]>'' @ fin) (cdata_state p name attrs) = parse_loop ((pre @ ''<'') @ ?blk @ '']]>'' @ fin)
      ((cdata_state p name attrs)\<lparr>x_pos := length (pre @ ''<'') + length ?blk\<rparr>)"
    by (simp add: p_def)
  moreover have "(pre @ ''<'') @ ?blk @ '']]>'' @ fin = t" by (simp add: t_def cdata_def)
  moreover have "length (pre @ ''<'') + length ?blk = p + 9 + length d" by (simp add: p_def)
  ultimately show ?thesis by metis
qed

lemma cdata_closes:
  fixes d pre fin
  defines "t \<equiv> pre @ cdata d @ fin" and "p \<equiv> length pre"
  assumes "fin \<noteq> []"
  shows "parse_loop t ((cdata_state p name attrs)\<lparr>x_pos := p + 9 + length d\<rparr>) =
    parse_loop t \<lparr>x_pos = p + length (cdata d), x_start = int (p + length (cdata d)), x_type = XML_ELEMENT_DATA,
      x_old = XML_ELEMENT_DATA, x_sname = [], x_sval = [], x_elem = XmlElement name d attrs []\<rparr>"
proof -
  let ?s = "(cdata_state p name attrs)\<lparr>x_pos := p + 9 + length d\<rparr>"
  have c: "t ! (p + 9 + length d) = CHR '']''" by (simp add: t_def p_def cdata_def nth_append)
  have "at_text ((pre @ ''<![CDATA['' @ d @ '']'') @ '']>'' @ fin) (p + 9 + length d + 1) '']>'' 2"
    by (rule at_text_prefix) (simp_all add: p_def)
  then have cd: "at_text t (p + 9 + length d + 1) '']>'' 2" by (simp add: t_def cdata_def)
  have g: "get_range t (int p + 9) (p + 9 + length d) = Some d"
    using slice_append_mid' [of "p + 9" "pre @ ''<![CDATA[''" "p + 9 + length d" d "'']]>'' @ fin"]
    by (simp add: get_range_def t_def p_def cdata_def nat_add_distrib)
  have l: "p + 12 + length d < length t" using assms by (simp add: t_def p_def cdata_def)
  have "parse_step t ?s = Next (?s\<lparr>x_elem := XmlElement name d attrs [], x_type := XML_ELEMENT_DATA,
      x_pos := p + 9 + length d + 2, x_start := int (p + 9 + length d) + 3\<rparr>)"
    using c cd g l by (simp add: parse_step_def parse_cdata_def xblank_def append_data_def Let_def)
  then show ?thesis by (rule run_Next) (use l in \<open>simp_all add: x_next_def cdata_def\<close>)
qed

lemma run_cdata:
  assumes n: "wf_name name" and a: "wf_attrs attrs" and d: "find_sub '']]>'' d = None"
  shows "parse_loop (start_text name attrs @ ''>'' @ cdata d @ ''</'' @ name @ ''>'' @ post) xinit =
    POk (length (start_text name attrs) + length (cdata d) + length name + 4) (XmlElement name d attrs [])"
proof -
  let ?pre = "start_text name attrs @ ''>''" and ?fin = "''</'' @ name @ ''>'' @ post"
  let ?t = "?pre @ cdata d @ ?fin" and ?p = "length (start_text name attrs @ ''>'')"
  have "parse_loop ?t xinit = parse_loop ?t (data_state ?p (XmlElement name [] attrs []))"
    using run_start_open [OF n a, of "cdata d @ ?fin"] by simp
  note open_run = trans [OF this cdata_opens]
  note trans [OF open_run trans [OF cdata_runs [OF d] cdata_closes [of ?fin]]]
  moreover have "parse_loop ((?pre @ cdata d) @ ?fin) \<lparr>x_pos = ?p + length (cdata d), x_start = int (?p + length (cdata d)),
      x_type = XML_ELEMENT_DATA, x_old = XML_ELEMENT_DATA, x_sname = [], x_sval = [], x_elem = XmlElement name d attrs []\<rparr> =
      POk (length (?pre @ cdata d) + length name + 3) (XmlElement name d attrs [])"
    using n by (intro trans [OF run_end_tag [of _ "?pre @ cdata d" name post]]) (simp_all add: append_data_def)
  ultimately show ?thesis by simp
qed

subsection \<open>Children\<close>

lemma tabs_inert: "x_type s = XML_ELEMENT_DATA \<or> x_type s = XML_ELEMENT_DATA_PARSE \<Longrightarrow> \<forall>c\<in>set (tabs b d). inert s c"
  by (auto simp: tabs_def inert_def)

lemma body_text_head: "wf_xml e \<Longrightarrow> \<exists>c r. body_text tab d e = CHR ''<'' # c # r \<and> c \<noteq> CHR ''?'' \<and> c \<noteq> CHR ''!'' \<and> c \<noteq> CHR ''/''"
proof -
  assume w: "wf_xml e"
  obtain name data attrs elems where e: "e = XmlElement name data attrs elems" by (cases e)
  with w obtain c cs where "name = c # cs" "c \<noteq> CHR ''?''" "c \<noteq> CHR ''!''" "\<not> xblank c"
    by (cases name) (auto simp: wf_name_def)
  then show ?thesis unfolding e by (auto simp: xblank_def)
qed

text \<open>The state behind the children \<open>es\<close>, from a state in the data of the parent.\<close>

definition after_list :: "nat \<Rightarrow> CXmlElement list \<Rightarrow> xp \<Rightarrow> xp" where
  "after_list p es s = (if es = [] then s\<lparr>x_pos := p\<rparr>
     else s\<lparr>x_pos := p, x_type := XML_ELEMENT_DATA_PARSE,
            x_elem := set_elems (m_clsElementList (x_elem s) @ es) (x_elem s)\<rparr>)"

lemma run_list:
  assumes child: "\<And>e post. e \<in> set es \<Longrightarrow> wf_xml e \<Longrightarrow>
      parse_loop (body_text tab d e @ post) xinit = POk (length (body_text tab d e)) (unwrapped e)"
    and "\<forall>e\<in>set es. wf_xml e" "x_pos s = length pre" "x_type s = XML_ELEMENT_DATA \<or> x_type s = XML_ELEMENT_DATA_PARSE"
  shows "parse_loop (pre @ list_text tab d es @ post) s =
    parse_loop (pre @ list_text tab d es @ post) (after_list (length (pre @ list_text tab d es)) (map unwrapped es) s)"
  using assms
proof (induction es arbitrary: pre s)
  case Nil
  then have "s\<lparr>x_pos := length pre\<rparr> = s" by simp
  then show ?case by (simp add: after_list_def)
next
  case (Cons e es)
  let ?b = "body_text tab d e" and ?l = "list_text tab d es"
  let ?t = "pre @ tabs tab d @ ?b @ [LF] @ ?l @ post"
  let ?p = "length (pre @ tabs tab d)"
  have we: "wf_xml e" using Cons.prems(2) by simp
  obtain c r where b: "?b = CHR ''<'' # c # r" "c \<noteq> CHR ''?''" "c \<noteq> CHR ''!''" "c \<noteq> CHR ''/''"
    using body_text_head [OF we] by blast
  define s1 where "s1 = s\<lparr>x_pos := ?p\<rparr>"
  define s2 where "s2 = add_child (length ?b) (unwrapped e) s1"
  define s3 where "s3 = s2\<lparr>x_pos := length (pre @ tabs tab d @ ?b @ [LF])\<rparr>"
  have "parse_loop ?t s = parse_loop ?t s1"
    using run_inert [OF Cons.prems(3) tabs_inert [OF Cons.prems(4)], of tab d "?b @ [LF] @ ?l @ post"]
    by (simp add: s1_def)
  also have "\<dots> = parse_loop ?t s2"
  proof -
    have "parse_step ?t s1 = Child s1"
      using lt_plain [of s1 "pre @ tabs tab d" c ?t "r @ [LF] @ ?l @ post"] b Cons.prems(4)
      by (auto simp: s1_def)
    moreover have "parse_loop (drop (x_pos s1) ?t) xinit = POk (length ?b) (unwrapped e)"
      using Cons.prems(1) [of e "[LF] @ ?l @ post"] we by (simp add: s1_def)
    ultimately show ?thesis
      unfolding s2_def by (intro parse_loop_Child) (simp_all add: s1_def b(1))
  qed
  also have "\<dots> = parse_loop ?t s3"
    using run_inert [of s2 "pre @ tabs tab d @ ?b" "[LF]" "?l @ post"]
    by (simp add: s3_def s2_def s1_def add_child_def inert_def add.assoc)
  also have "\<dots> = parse_loop ?t (after_list (length ((pre @ tabs tab d @ ?b @ [LF]) @ ?l)) (map unwrapped es) s3)"
    using Cons.IH [of s3 "pre @ tabs tab d @ ?b @ [LF]"] Cons.prems(1,2)
    by (simp add: s3_def s2_def s1_def add_child_def)
  also have "after_list (length ((pre @ tabs tab d @ ?b @ [LF]) @ ?l)) (map unwrapped es) s3 =
      after_list (length (pre @ list_text tab d (e # es))) (map unwrapped (e # es)) s"
    by (simp add: after_list_def s3_def s2_def s1_def add_child_def)
  finally show ?case by simp
qed

lemma run_children:
  assumes n: "wf_name name" and a: "wf_attrs attrs" and w: "\<forall>e\<in>set es. wf_xml e" and ne: "es \<noteq> []"
    and child: "\<And>e post. e \<in> set es \<Longrightarrow> wf_xml e \<Longrightarrow>
      parse_loop (body_text tab (Suc d) e @ post) xinit = POk (length (body_text tab (Suc d) e)) (unwrapped e)"
  shows "parse_loop (start_text name attrs @ ''>'' @ [LF] @ list_text tab (Suc d) es @ tabs tab d @ ''</'' @ name @ ''>'' @ post) xinit =
    POk (length (start_text name attrs @ ''>'' @ [LF] @ list_text tab (Suc d) es @ tabs tab d @ ''</'' @ name @ ''>''))
      (XmlElement name [] attrs (map unwrapped es))"
proof -
  let ?pre = "start_text name attrs @ ''>''" and ?l = "list_text tab (Suc d) es" and ?e = "XmlElement name [] attrs []"
  let ?t = "?pre @ [LF] @ ?l @ tabs tab d @ ''</'' @ name @ ''>'' @ post"
  define s0 where "s0 = data_state (length ?pre) ?e"
  define s1 where "s1 = s0\<lparr>x_pos := length (?pre @ [LF])\<rparr>"
  define s2 where "s2 = after_list (length ((?pre @ [LF]) @ ?l)) (map unwrapped es) s1"
  define s3 where "s3 = s2\<lparr>x_pos := length ((?pre @ [LF]) @ ?l @ tabs tab d)\<rparr>"
  have ty: "x_type s1 = XML_ELEMENT_DATA" "x_type s2 = XML_ELEMENT_DATA_PARSE" "x_type s3 = XML_ELEMENT_DATA_PARSE"
    "x_elem s3 = XmlElement name [] attrs (map unwrapped es)" "x_pos s2 = length ((?pre @ [LF]) @ ?l)"
    using ne by (simp_all add: s3_def s2_def s1_def s0_def data_state_def after_list_def)
  have "parse_loop ?t xinit = parse_loop ?t s0"
    using run_start_open [OF n a, of "[LF] @ ?l @ tabs tab d @ ''</'' @ name @ ''>'' @ post"] by (simp add: s0_def)
  also have "\<dots> = parse_loop ?t s1"
    using run_inert [of s0 ?pre "[LF]" "?l @ tabs tab d @ ''</'' @ name @ ''>'' @ post"]
    by (simp add: s1_def s0_def data_state_def inert_def)
  also have "\<dots> = parse_loop ?t s2"
    using run_list [OF child w, of s1 "?pre @ [LF]" "tabs tab d @ ''</'' @ name @ ''>'' @ post"] ty(1)
    by (simp add: s2_def) (simp add: s1_def)
  also have "\<dots> = parse_loop ?t s3"
    using run_inert [OF ty(5) tabs_inert, of tab d "''</'' @ name @ ''>'' @ post"] ty(2)
    by (simp add: s3_def add.assoc)
  also have "\<dots> = POk (length (((?pre @ [LF]) @ ?l @ tabs tab d) @ ''</'' @ name @ ''>'')) (XmlElement name [] attrs (map unwrapped es))"
    using run_end_tag [of s3 "(?pre @ [LF]) @ ?l @ tabs tab d" name post] n ty by (simp add: s3_def)
  finally show ?thesis by simp
qed

lemma cdata_of_Nil [simp]: "cdata_of [] = None"
  by (simp add: cdata_of_def)

lemma parse_body:
  "wf_xml e \<Longrightarrow> parse_loop (body_text tab d e @ post) xinit = POk (length (body_text tab d e)) (unwrapped e)"
proof (induction e arbitrary: d post)
  case (XmlElement name data attrs elems)
  have n: "wf_name name" and a: "wf_attrs attrs" and da: "wf_data data" and x: "data = [] \<or> elems = []"
    and w: "\<forall>e\<in>set elems. wf_xml e" using XmlElement.prems by (auto simp: wf_attrs_def)
  have start: "CHR ''<'' # name @ attr_text attrs @ r = start_text name attrs @ r" for r
    by (simp add: start_text_def)
  consider "data \<noteq> []" "elems = []" "cdata_of data = None" | u where "data \<noteq> []" "elems = []" "cdata_of data = Some u"
    | "data = []" "elems \<noteq> []" | "data = []" "elems = []" using x by fastforce
  then show ?case
  proof cases
    case 1
    with da have "plain data" by (simp add: wf_data_def)
    with run_plain_data [OF n a this, of post] 1 show ?thesis by (simp add: start unwrap_def, (simp add: start_text_def)?)
  next
    case 2
    with da have "find_sub '']]>'' u = None" "data = cdata u" by (simp_all add: wf_data_def cdata_of_Some)
    with run_cdata [OF n a, of u post] 2 show ?thesis by (simp add: start unwrap_def, (simp add: start_text_def)?)
  next
    case 3
    have "parse_loop (body_text tab (Suc d) e @ post) xinit = POk (length (body_text tab (Suc d) e)) (unwrapped e)"
      if "e \<in> set elems" "wf_xml e" for e post
      using XmlElement.IH [OF that(1,2), of "Suc d" post] .
    from run_children [OF n a w 3(2) this, where post = post] 3 show ?thesis
      by (simp add: start unwrap_def, (simp add: start_text_def)?)
  next
    case 4
    with run_start_close [OF n a, of post] show ?thesis by (simp add: start unwrap_def, (simp add: start_text_def)?)
  qed
qed

subsection \<open>Properties\<close>

text \<open>C29: For every text, well formed or not, \<open>Parse\<close> terminates and never reads or copies a range
  that is not inside the text. It returns the number of consumed bytes, which is at most the
  length of the text, and 0 only for the empty text, or fails (returns -1) on a text that is
  not empty.\<close>

theorem parse_in_bounds:
  "case Parse t of
     POk n e \<Rightarrow> n \<le> length t \<and> (n = 0) = (t = []) \<and> parse_result (Parse t) = Some (int n)
   | PErr ev \<Rightarrow> t \<noteq> [] \<and> parse_result (Parse t) = Some (- 1)
   | POob \<Rightarrow> False"
proof (cases "Parse t")
  case (POk n e)
  then have "n \<le> length t" using parse_loop_le [of t xinit n e] by (simp add: Parse_def xinit_def)
  moreover have "t = [] \<or> 0 < n"
    using POk parse_loop_progress [OF parse_loop_total, of t xinit n e] by (cases t) (simp_all add: Parse_def xinit_def)
  ultimately show ?thesis using POk by auto
next
  case (PErr ev)
  then show ?thesis by (cases t) (simp_all add: Parse_def xinit_def parse_loop.simps [of "[]"])
next
  case POob
  then show ?thesis using Parse_in_bounds [of t] by simp
qed

text \<open>A file is read in pieces of a line or 1022 bytes.\<close>

lemma concat_fgets_all: "0 < n \<Longrightarrow> concat (fgets_all n t) = t"
proof (induction n t rule: fgets_all.induct)
  case (1 n t)
  then show ?case by (subst fgets_all.simps) (auto simp: Let_def)
qed

lemma map_cstr_pieces: "NUL \<notin> set (concat ts) \<Longrightarrow> concat (map cstr ts) = concat ts"
  by (induction ts) simp_all

lemma tabs_nul [simp]: "NUL \<notin> set (tabs tab d)"
  by (simp add: tabs_def)

lemma nul_free_text:
  "nul_free e \<Longrightarrow> NUL \<notin> set (body_text tab d e)"
  "\<forall>e\<in>set es. nul_free e \<Longrightarrow> NUL \<notin> set (list_text tab d es)"
  by (induction tab d e and tab d es rule: body_text_list_text.induct) (auto simp: attr_text_def)

lemma ParseFile_written:
  assumes "nul_free e" and "length (ToString [] tab 0 e) < 2 ^ 31" and "Parse (ToString [] tab 0 e) = POk n e'"
  shows "ParseFile (snd (WriteFile True tab e)) = Some (Inr e')"
proof -
  have "NUL \<notin> set (ToString [] tab 0 e)" using nul_free_text(1) [OF assms(1)] by (simp add: ToString_eq)
  then have "concat (map cstr (fgets_all 1022 (ToString [] tab 0 e))) = ToString [] tab 0 e"
    using concat_fgets_all [of 1022 "ToString [] tab 0 e"] by (subst map_cstr_pieces) simp_all
  then show ?thesis using assms(2,3) by (simp add: ParseFile_def WriteFile_def Parse_string_def i32_nat_id)
qed

text \<open>The printable elements: what the names, keys, values and texts that are printed must be.
  \<open>ToString\<close> prints the children of an element only when it has no text (\<open>if( m_strData.empty() ==
  false ) ... else if( m_clsElementList.empty() == false )\<close>), so nothing is asked of the children of an
  element with text; \<open>printed\<close> is the element without them.\<close>

fun printable :: "CXmlElement \<Rightarrow> bool" where
  "printable (XmlElement name data attrs elems) \<longleftrightarrow> wf_name name \<and> wf_data data \<and> map_inv attrs \<and>
     (\<forall>(k, v)\<in>set attrs. wf_key k \<and> wf_val v) \<and> (data = [] \<longrightarrow> (\<forall>e\<in>set elems. printable e))"

fun printed :: "CXmlElement \<Rightarrow> CXmlElement" where
  "printed (XmlElement name data attrs elems) =
     XmlElement name data attrs (if data = [] then map printed elems else [])"

lemma printed_text:
  "body_text tab d (printed e) = body_text tab d e"
  "list_text tab d (map printed es) = list_text tab d es"
  by (induction tab d e and tab d es rule: body_text_list_text.induct) simp_all

lemma printed_wf: "printable e \<Longrightarrow> wf_xml (printed e)"
  by (induction e) auto



text \<open>C33: \<open>ToString\<close> into a buffer whose size is given correctly and exceeds the printed text writes
  inside the buffer, leaves the printed text of the string form in it, and returns its length.\<close>

theorem to_string_buffer:
  assumes "nul_free e" "length (ToString [] tab d e) < length mem" "length mem < 2 ^ 31"
  shows "\<exists>mem'. ToString_buf tab d e 0 (int (length mem)) mem = Some (length (ToString [] tab d e), mem') \<and>
    length mem' = length mem \<and> take (length (ToString [] tab d e)) mem' = ToString [] tab d e"
proof -
  have "\<exists>st. ToString_buf tab d e 0 (int (length mem)) mem = Some st \<and> wrote 0 mem (tabs tab d @ body_text tab d e @ [LF]) st"
    using assms by (intro ToString_buf_wrote) (simp_all add: ToString_eq)
  then show ?thesis by (auto simp: wrote_def ToString_eq)
qed

theorem to_string_buffer_witness:
  "\<exists>mem'. ToString_buf False 0 (XmlElement ''a'' ''1'' [] []) 0 10 (replicate 10 NUL) = Some (9, mem')"
proof -
  have "nul_free (XmlElement ''a'' ''1'' [] [])" "length (ToString [] False 0 (XmlElement ''a'' ''1'' [] [])) = 9" by code_simp+
  with to_string_buffer [of "XmlElement ''a'' ''1'' [] []" False 0 "replicate 10 NUL"] show ?thesis by auto
qed

text \<open>C40: When the name alone does not fit, the buffer form of \<open>ToString\<close> writes outside the buffer: the
  size left becomes negative, and \<open>snprintf\<close> takes it as a huge \<open>size_t\<close>.\<close>

theorem to_string_buffer_overflows:
  assumes "NUL \<notin> set name" "0 < length mem" "length mem < 1 + length name" "length name < 2 ^ 31"
  shows "ToString_buf tab 0 (XmlElement name [] [] []) 0 (int (length mem)) mem = None"
proof -
  let ?n = "int (length mem)"
  have u: "nat (u64 ?n) = length mem" using assms by (simp add: u64_def)
  let ?m = "take (length mem - 1) (''<'' @ name) @ [NUL]"
  have l: "length ?m = length mem" using assms by (cases mem) simp_all
  then have "put 0 ?n (''<'' @ cstr name) (0, mem) = Some (Suc (length name), ?m)"
    using assms by (simp add: put_def snprintf_at_def u Let_def)
  moreover have "put 0 (?n - int (Suc (length name))) (''/>'' @ [LF]) (Suc (length name), ?m) = None"
  proof -
    have "u64 (?n - int (Suc (length name))) = 2 ^ 64 + ?n - int (Suc (length name))"
      using assms by (simp add: u64_def) (subst mod_add_self2 [symmetric], simp)
    then show ?thesis using l assms by (simp add: put_def snprintf_at_def Let_def)
  qed
  ultimately show ?thesis by simp
qed

theorem to_string_buffer_overflows_witness:
  "ToString_buf False 0 (XmlElement ''ab'' [] [] []) 0 2 (replicate 2 NUL) = None"
  using to_string_buffer_overflows [of "''ab''" "replicate 2 NUL" False] by simp

end
