(* ===== verification/XmlSearch.thy ===== *)
theory XmlSearch
  imports XmlElement
begin

text \<open>
  XmlParser/XmlSearch.cpp: \<open>CXmlSearch\<close>, an element that is searched at any depth. A
  \<open>CXmlElement *\<close> into the tree is the path of child positions that leads from the root to the
  element. The private searches share the counter \<open>iCount\<close> by reference: they return it.
\<close>

subsection \<open>Elements by path\<close>

fun elem_at :: "CXmlElement \<Rightarrow> nat list \<Rightarrow> CXmlElement" where
  "elem_at e [] = e"
| "elem_at e (i # p) = elem_at (m_clsElementList e ! i) p"

text \<open>A method call through the pointer that changes the element.\<close>

fun update_at :: "nat list \<Rightarrow> (CXmlElement \<Rightarrow> CXmlElement) \<Rightarrow> CXmlElement \<Rightarrow> CXmlElement" where
  "update_at [] f e = f e"
| "update_at (i # p) f e = update_child i (update_at p f) e"

subsection \<open>The private searches\<close>

fun Search_name :: "cstring \<Rightarrow> int \<Rightarrow> nat \<Rightarrow> CXmlElement list \<Rightarrow> int \<Rightarrow> nat list option \<times> int" where
  "Search_name pszName iIndex pos [] iCount = (None, iCount)"
| "Search_name pszName iIndex pos (XmlElement name data attrs elems # es) iCount =
     (if pszName = cstr name
      then if iCount = iIndex then (Some [pos], iCount)
           else Search_name pszName iIndex (Suc pos) es (iCount + 1)
      else case Search_name pszName iIndex 0 elems iCount of
          (Some p, iCount) \<Rightarrow> (Some (pos # p), iCount)
        | (None, iCount) \<Rightarrow> Search_name pszName iIndex (Suc pos) es iCount)"

fun Search_child :: "cstring \<Rightarrow> cstring \<Rightarrow> int \<Rightarrow> nat \<Rightarrow> CXmlElement list \<Rightarrow> int \<Rightarrow> nat list option \<times> int" where
  "Search_child pszName pszChildName iIndex pos [] iCount = (None, iCount)"
| "Search_child pszName pszChildName iIndex pos (XmlElement name data attrs elems # es) iCount =
     (case (if pszName = cstr name then Search_name pszChildName iIndex 0 elems iCount
            else Search_child pszName pszChildName iIndex 0 elems iCount) of
          (Some p, iCount) \<Rightarrow> (Some (pos # p), iCount)
        | (None, iCount) \<Rightarrow> Search_child pszName pszChildName iIndex (Suc pos) es iCount)"

text \<open>\<open>clsNameList\<close> is not empty and \<open>iNameIndex\<close> is one of its positions.\<close>

fun Search_names :: "string list \<Rightarrow> nat \<Rightarrow> int \<Rightarrow> nat \<Rightarrow> CXmlElement list \<Rightarrow> int \<Rightarrow> nat list option \<times> int" where
  "Search_names clsNameList iNameIndex iIndex pos [] iCount = (None, iCount)"
| "Search_names clsNameList iNameIndex iIndex pos (XmlElement name data attrs elems # es) iCount =
     (if cstr (clsNameList ! iNameIndex) = cstr name \<and> length clsNameList = iNameIndex + 1
      then if iCount = iIndex then (Some [pos], iCount)
           else Search_names clsNameList iNameIndex iIndex (Suc pos) es (iCount + 1)
      else case Search_names clsNameList
               (if cstr (clsNameList ! iNameIndex) = cstr name then iNameIndex + 1 else iNameIndex) iIndex 0 elems iCount of
          (Some p, iCount) \<Rightarrow> (Some (pos # p), iCount)
        | (None, iCount) \<Rightarrow> Search_names clsNameList iNameIndex iIndex (Suc pos) es iCount)"

text \<open>The variadic names: reading an argument that was not passed is undefined (\<open>None\<close>), a NULL
  argument ends the list.\<close>

fun MAKE_NAME_LIST :: "nat \<Rightarrow> cstring option list \<Rightarrow> string list option" where
  "MAKE_NAME_LIST 0 args = Some []"
| "MAKE_NAME_LIST (Suc n) [] = None"
| "MAKE_NAME_LIST (Suc n) (None # args) = Some []"
| "MAKE_NAME_LIST (Suc n) (Some s # args) = map_option ((#) s) (MAKE_NAME_LIST n args)"

subsection \<open>The public searches\<close>

definition Search_SelectElement :: "cstring \<Rightarrow> int \<Rightarrow> CXmlElement \<Rightarrow> nat list option" where
  "Search_SelectElement pszName iIndex e =
     (if iIndex < 0 then None else fst (Search_name pszName iIndex 0 (m_clsElementList e) 0))"

definition Search_SelectElement_child :: "cstring \<Rightarrow> cstring \<Rightarrow> int \<Rightarrow> CXmlElement \<Rightarrow> nat list option" where
  "Search_SelectElement_child pszName pszChildName iIndex e =
     (if iIndex < 0 then None else fst (Search_child pszName pszChildName iIndex 0 (m_clsElementList e) 0))"

text \<open>The outer option is the undefined behaviour of the variadic form: a missing argument, or a
  list that is empty because its first name is NULL, whose element 0 the search reads.\<close>

definition Search_SelectElement_names :: "int \<Rightarrow> int \<Rightarrow> cstring option list \<Rightarrow> CXmlElement \<Rightarrow> nat list option option" where
  "Search_SelectElement_names iIndex iNameCount args e =
     (if iIndex < 0 then Some None
      else if iNameCount \<le> 0 then Some None
      else case MAKE_NAME_LIST (nat iNameCount) args of
          None \<Rightarrow> None
        | Some names \<Rightarrow> if names = [] then None
                        else Some (fst (Search_names names 0 iIndex 0 (m_clsElementList e) 0)))"

subsection \<open>Attributes of found elements\<close>

definition Search_SelectAttribute :: "cstring \<Rightarrow> cstring \<Rightarrow> int \<Rightarrow> CXmlElement \<Rightarrow> cstring option" where
  "Search_SelectAttribute pszName pszAttrName iIndex e =
     (case Search_SelectElement pszName iIndex e of None \<Rightarrow> None
      | Some p \<Rightarrow> SelectAttribute pszAttrName (elem_at e p))"

text \<open>The output variables keep their value when no element is found.\<close>

definition Search_SelectAttribute_string :: "cstring \<Rightarrow> cstring \<Rightarrow> string \<Rightarrow> int \<Rightarrow> CXmlElement \<Rightarrow> bool \<times> string" where
  "Search_SelectAttribute_string pszName pszAttrName strValue iIndex e =
     (case Search_SelectElement pszName iIndex e of None \<Rightarrow> (False, strValue)
      | Some p \<Rightarrow> SelectAttribute_string pszAttrName (elem_at e p))"

text \<open>\<open>SelectAttribute( int & )\<close> trims the stored attribute of the element that is found.\<close>

definition Search_SelectAttribute_int :: "cstring \<Rightarrow> cstring \<Rightarrow> int \<Rightarrow> int \<Rightarrow> CXmlElement \<Rightarrow> (bool \<times> int) \<times> CXmlElement" where
  "Search_SelectAttribute_int pszName pszAttrName iValue iIndex e =
     (case Search_SelectElement pszName iIndex e of None \<Rightarrow> ((False, iValue), e)
      | Some p \<Rightarrow> (let (r, c) = SelectAttribute_int pszAttrName (elem_at e p) in (r, update_at p (\<lambda>_. c) e)))"

definition Search_SelectAttribute_bool :: "cstring \<Rightarrow> cstring \<Rightarrow> bool \<Rightarrow> int \<Rightarrow> CXmlElement \<Rightarrow> (bool \<times> bool) \<times> CXmlElement" where
  "Search_SelectAttribute_bool pszName pszAttrName bValue iIndex e =
     (case Search_SelectElement pszName iIndex e of None \<Rightarrow> ((False, bValue), e)
      | Some p \<Rightarrow> (let (r, c) = SelectAttribute_bool pszAttrName (elem_at e p) in (r, update_at p (\<lambda>_. c) e)))"

subsection \<open>Data of found elements\<close>

definition Search_SelectElementData_string :: "cstring \<Rightarrow> string \<Rightarrow> int \<Rightarrow> CXmlElement \<Rightarrow> bool \<times> string" where
  "Search_SelectElementData_string pszName strData iIndex e =
     (case Search_SelectElement pszName iIndex e of None \<Rightarrow> (False, strData)
      | Some p \<Rightarrow> (True, GetData (elem_at e p)))"

definition Search_SelectElementData_int :: "cstring \<Rightarrow> int \<Rightarrow> int \<Rightarrow> CXmlElement \<Rightarrow> bool \<times> int" where
  "Search_SelectElementData_int pszName iData iIndex e =
     (case Search_SelectElement pszName iIndex e of None \<Rightarrow> (False, iData)
      | Some p \<Rightarrow> (True, atoi (GetData (elem_at e p))))"

definition Search_SelectElementData_bool :: "cstring \<Rightarrow> bool \<Rightarrow> int \<Rightarrow> CXmlElement \<Rightarrow> bool \<times> bool" where
  "Search_SelectElementData_bool pszName bData iIndex e =
     (case Search_SelectElement pszName iIndex e of None \<Rightarrow> (False, bData)
      | Some p \<Rightarrow> (True, GetBoolean (GetData (elem_at e p))))"

definition Search_ChildData_string :: "cstring \<Rightarrow> cstring \<Rightarrow> string \<Rightarrow> int \<Rightarrow> CXmlElement \<Rightarrow> bool \<times> string" where
  "Search_ChildData_string pszName pszChildName strData iIndex e =
     (case Search_SelectElement_child pszName pszChildName iIndex e of None \<Rightarrow> (False, strData)
      | Some p \<Rightarrow> (True, GetData (elem_at e p)))"

definition Search_ChildData_int :: "cstring \<Rightarrow> cstring \<Rightarrow> int \<Rightarrow> int \<Rightarrow> CXmlElement \<Rightarrow> bool \<times> int" where
  "Search_ChildData_int pszName pszChildName iData iIndex e =
     (case Search_SelectElement_child pszName pszChildName iIndex e of None \<Rightarrow> (False, iData)
      | Some p \<Rightarrow> (True, atoi (GetData (elem_at e p))))"

definition Search_ChildData_bool :: "cstring \<Rightarrow> cstring \<Rightarrow> bool \<Rightarrow> int \<Rightarrow> CXmlElement \<Rightarrow> bool \<times> bool" where
  "Search_ChildData_bool pszName pszChildName bData iIndex e =
     (case Search_SelectElement_child pszName pszChildName iIndex e of None \<Rightarrow> (False, bData)
      | Some p \<Rightarrow> (True, GetBoolean (GetData (elem_at e p))))"

definition Search_NamesData_string :: "int \<Rightarrow> string \<Rightarrow> int \<Rightarrow> cstring option list \<Rightarrow> CXmlElement \<Rightarrow> (bool \<times> string) option" where
  "Search_NamesData_string iIndex strData iNameCount args e =
     (if iIndex < 0 then Some (False, strData)
      else if iNameCount \<le> 0 then Some (False, strData)
      else case MAKE_NAME_LIST (nat iNameCount) args of
          None \<Rightarrow> None
        | Some names \<Rightarrow> if names = [] then None
            else (case fst (Search_names names 0 iIndex 0 (m_clsElementList e) 0) of
                None \<Rightarrow> Some (False, strData)
              | Some p \<Rightarrow> Some (True, GetData (elem_at e p))))"

definition Search_NamesData_int :: "int \<Rightarrow> int \<Rightarrow> int \<Rightarrow> cstring option list \<Rightarrow> CXmlElement \<Rightarrow> (bool \<times> int) option" where
  "Search_NamesData_int iIndex iData iNameCount args e =
     (if iIndex < 0 then Some (False, iData)
      else if iNameCount \<le> 0 then Some (False, iData)
      else case MAKE_NAME_LIST (nat iNameCount) args of
          None \<Rightarrow> None
        | Some names \<Rightarrow> if names = [] then None
            else (case fst (Search_names names 0 iIndex 0 (m_clsElementList e) 0) of
                None \<Rightarrow> Some (False, iData)
              | Some p \<Rightarrow> Some (True, atoi (GetData (elem_at e p)))))"

definition Search_NamesData_bool :: "int \<Rightarrow> bool \<Rightarrow> int \<Rightarrow> cstring option list \<Rightarrow> CXmlElement \<Rightarrow> (bool \<times> bool) option" where
  "Search_NamesData_bool iIndex bData iNameCount args e =
     (if iIndex < 0 then Some (False, bData)
      else if iNameCount \<le> 0 then Some (False, bData)
      else case MAKE_NAME_LIST (nat iNameCount) args of
          None \<Rightarrow> None
        | Some names \<Rightarrow> if names = [] then None
            else (case fst (Search_names names 0 iIndex 0 (m_clsElementList e) 0) of
                None \<Rightarrow> Some (False, bData)
              | Some p \<Rightarrow> Some (True, GetBoolean (GetData (elem_at e p)))))"

end
