(* ===== verification/XmlSearchSpec.thy ===== *)
theory XmlSearchSpec
  imports XmlSearch
begin

text \<open>
  What the searches of \<open>CXmlSearch\<close> find. The abstract description is the set of paths that
  spell the list of names (\<open>is_hit\<close>): each name is met at the first element on the way that
  has it. \<open>hits\<close> lists them in document order, which is the lexicographic order of paths.
\<close>

fun is_hit :: "string list \<Rightarrow> CXmlElement list \<Rightarrow> nat list \<Rightarrow> bool" where
  "is_hit ns es [] = False"
| "is_hit [] es (i # p) = False"
| "is_hit (n # ns) es (i # p) =
     (i < length es \<and>
      (if cstr n = GetName (es ! i)
       then (if ns = [] then p = [] else is_hit ns (m_clsElementList (es ! i)) p)
       else is_hit (n # ns) (m_clsElementList (es ! i)) p))"

text \<open>The paths that \<open>Search_names\<close> meets from position \<open>pos\<close> on.\<close>

fun hits :: "string list \<Rightarrow> nat \<Rightarrow> nat \<Rightarrow> CXmlElement list \<Rightarrow> nat list list" where
  "hits names k pos [] = []"
| "hits names k pos (XmlElement name data attrs elems # es) =
     (if cstr (names ! k) = cstr name \<and> length names = k + 1 then [[pos]]
      else map ((#) pos) (hits names (if cstr (names ! k) = cstr name then k + 1 else k) 0 elems)) @
     hits names k (Suc pos) es"

subsection \<open>The counter\<close>

text \<open>A search with the counter at \<open>iCount\<close> takes the hit number \<open>iIndex - iCount\<close>, or
  passes all of them and has counted them.\<close>

definition take_hit :: "int \<Rightarrow> nat list list \<Rightarrow> int \<Rightarrow> nat list option \<times> int" where
  "take_hit iIndex hs iCount =
     (if nat (iIndex - iCount) < length hs then (Some (hs ! nat (iIndex - iCount)), iIndex)
      else (None, iCount + int (length hs)))"

lemma take_hit_Nil [simp]: "take_hit i [] c = (None, c)"
  by (simp add: take_hit_def)

lemma take_hit_Cons:
  assumes "c \<le> i"
  shows "take_hit i (h # hs) c = (if c = i then (Some h, i) else take_hit i hs (c + 1))"
proof (cases "c = i")
  case False
  then have "nat (i - c) = Suc (nat (i - (c + 1)))" using assms by linarith
  with False show ?thesis by (simp add: take_hit_def)
qed (simp add: take_hit_def)

lemma take_hit_append:
  "c \<le> i \<Longrightarrow> take_hit i (hs @ hs') c =
    (case take_hit i hs c of (Some p, c) \<Rightarrow> (Some p, c) | (None, c) \<Rightarrow> take_hit i hs' c)"
  by (induction hs arbitrary: c) (auto simp: take_hit_Cons)

lemma take_hit_map:
  "take_hit i (map f hs) c = (case take_hit i hs c of (Some p, c) \<Rightarrow> (Some (f p), c) | (None, c) \<Rightarrow> (None, c))"
  by (simp add: take_hit_def)

lemma take_hit_le: "take_hit i hs c = (None, c') \<Longrightarrow> c \<le> i \<Longrightarrow> c' \<le> i"
  by (auto simp: take_hit_def split: if_splits)

lemma Search_names_take_hit:
  "c \<le> i \<Longrightarrow> Search_names names k i pos es c = take_hit i (hits names k pos es) c"
proof (induction names k i pos es c rule: Search_names.induct)
  case (2 names k i pos name data attrs elems es c)
  show ?case
  proof (cases "cstr (names ! k) = cstr name \<and> length names = k + 1")
    case True
    with "2.IH"(1) [OF True] "2.prems" show ?thesis by (auto simp: take_hit_Cons)
  next
    case False
    let ?k = "if cstr (names ! k) = cstr name then k + 1 else k"
    have 1: "Search_names names ?k i 0 elems c = take_hit i (hits names ?k 0 elems) c"
      using "2.IH"(2) [OF False] "2.prems" by blast
    have 2: "Search_names names k i (Suc pos) es c' = take_hit i (hits names k (Suc pos) es) c'"
      if "take_hit i (hits names ?k 0 elems) c = (None, c')" for c'
      using "2.IH"(3) [OF False _ refl] 1 that take_hit_le [OF that "2.prems"] by auto
    have "Search_names names k i pos (XmlElement name data attrs elems # es) c =
        (case take_hit i (hits names ?k 0 elems) c of
          (Some p, c) \<Rightarrow> (Some (pos # p), c) | (None, c) \<Rightarrow> Search_names names k i (Suc pos) es c)"
      by (simp only: Search_names.simps False if_False 1)
    also have "\<dots> = take_hit i (hits names k pos (XmlElement name data attrs elems # es)) c"
      using 2 by (simp only: hits.simps False if_False take_hit_append [OF "2.prems"] take_hit_map)
        (auto split: prod.splits option.splits)
    finally show ?thesis .
  qed
qed simp

subsection \<open>The hits are the paths that spell the names, in document order\<close>

lemma is_hit_later [simp]: "is_hit (n # ns) (e # es) (Suc i # q) = is_hit (n # ns) es (i # q)"
  by simp

lemma is_hit_first:
  "is_hit (n # ns) (XmlElement name data attrs elems # es) (0 # q) =
    (if cstr n = cstr name then (if ns = [] then q = [] else is_hit ns elems q) else is_hit (n # ns) elems q)"
  by (simp add: GetName_def)

lemma is_hit_Cons: "is_hit ns es p \<Longrightarrow> \<exists>i q. p = i # q"
  by (cases p) auto

lemma ex_nat_split: "(\<exists>i. Q i) \<longleftrightarrow> Q (0 :: nat) \<or> (\<exists>i. Q (Suc i))"
  by (metis not0_implies_Suc)

lemma hits_iff:
  "k < length names \<Longrightarrow> p \<in> set (hits names k pos es) \<longleftrightarrow>
    (\<exists>i q. p = (pos + i) # q \<and> is_hit (drop k names) es (i # q))"
proof (induction names k pos es arbitrary: p rule: hits.induct)
  case (1 names k pos)
  show ?case by (cases "drop k names") simp_all
next
  case (2 names k pos name data attrs elems es)
  let ?e = "XmlElement name data attrs elems" and ?n = "names ! k"
  let ?last = "cstr ?n = cstr name \<and> length names = k + 1"
  let ?k = "if cstr ?n = cstr name then k + 1 else k"
  obtain ns where ns: "ns = drop (Suc k) names" and d: "drop k names = ?n # ns"
    using Cons_nth_drop_Suc [OF "2.prems"] by metis
  have last: "ns = [] \<longleftrightarrow> length names = k + 1" using "2.prems" by (auto simp: ns)
  have here: "p \<in> set (if ?last then [[pos]] else map ((#) pos) (hits names ?k 0 elems)) \<longleftrightarrow>
      (\<exists>q. p = pos # q \<and> is_hit (drop k names) (?e # es) (0 # q))" for p
  proof (cases ?last)
    case True
    then have "?n # ns = ?n # []" and n: "cstr ?n = cstr name" using last by simp_all
    then have "is_hit (drop k names) (?e # es) (0 # q) \<longleftrightarrow> q = []" for q
      by (simp only: d is_hit_first n if_True simp_thms list.inject)
    then show ?thesis unfolding if_P [OF True] by simp
  next
    case False
    then have k: "?k < length names" using "2.prems" by auto
    have "q \<in> set (hits names ?k 0 elems) \<longleftrightarrow> is_hit (drop ?k names) elems q" for q
      using "2.IH"(1) [OF False k, of q] is_hit_Cons [of "drop ?k names" elems q] by auto
    moreover have "is_hit (drop k names) (?e # es) (0 # q) = is_hit (drop ?k names) elems q" for q
      by (cases "cstr ?n = cstr name") (use False last in \<open>simp_all add: d is_hit_first flip: ns del: is_hit.simps\<close>)
    ultimately show ?thesis unfolding if_not_P [OF False] by auto
  qed
  have rest: "p \<in> set (hits names k (Suc pos) es) \<longleftrightarrow>
      (\<exists>i q. p = (pos + Suc i) # q \<and> is_hit (drop k names) (?e # es) (Suc i # q))" for p
    using "2.IH"(2) [OF "2.prems", of p] unfolding d is_hit_later by simp
  have "p \<in> set (hits names k pos (?e # es)) \<longleftrightarrow>
      p \<in> set (if ?last then [[pos]] else map ((#) pos) (hits names ?k 0 elems)) \<or> p \<in> set (hits names k (Suc pos) es)"
    by (simp only: hits.simps set_append Un_iff)
  also have "\<dots> \<longleftrightarrow> (\<exists>q. p = (pos + 0) # q \<and> is_hit (drop k names) (?e # es) (0 # q)) \<or>
      (\<exists>i q. p = (pos + Suc i) # q \<and> is_hit (drop k names) (?e # es) (Suc i # q))"
    by (simp only: here rest add_0_right)
  also have "\<dots> \<longleftrightarrow> (\<exists>i q. p = (pos + i) # q \<and> is_hit (drop k names) (?e # es) (i # q))"
    by (rule ex_nat_split [symmetric])
  finally show ?case .
qed

lemma hits_pos: "p \<in> set (hits names k pos es) \<Longrightarrow> \<exists>i q. p = i # q \<and> pos \<le> i"
proof (induction names k pos es arbitrary: p rule: hits.induct)
  case (2 names k pos name data attrs elems es)
  show ?case
  proof (cases "p \<in> set (hits names k (Suc pos) es)")
    case True
    from "2.IH"(2) [OF this] show ?thesis by (blast dest: Suc_leD)
  next
    case False
    with "2.prems" show ?thesis by (auto split: if_splits)
  qed
qed simp

lemma hits_sorted: "sorted_wrt (<) (hits names k pos es)"
proof (induction names k pos es rule: hits.induct)
  case (2 names k pos name data attrs elems es)
  let ?last = "cstr (names ! k) = cstr name \<and> length names = k + 1"
  let ?k = "if cstr (names ! k) = cstr name then k + 1 else k"
  let ?here = "if ?last then [[pos]] else map ((#) pos) (hits names ?k 0 elems)"
  have "sorted_wrt (<) ?here"
    using "2.IH"(1) by (cases ?last) (simp_all add: sorted_wrt_map)
  moreover have "p < q" if "p \<in> set ?here" "q \<in> set (hits names k (Suc pos) es)" for p q
    using that hits_pos [of q names k "Suc pos" es] by (auto split: if_splits)
  ultimately show ?case using "2.IH"(2) by (simp only: hits.simps sorted_wrt_append) blast
qed simp

text \<open>C28: The search for a list of names finds the hits in document order: \<open>SelectElement( k, names )\<close>
  is the path number \<open>k\<close> among all paths of the tree that spell the names, each name met at the
  first element on the way that has it, and NULL exactly when there are at most \<open>k\<close> such paths.\<close>

theorem search_names_document_order:
  assumes "MAKE_NAME_LIST (nat n) args = Some names" "names \<noteq> []" "0 < n" "0 \<le> k"
  shows "\<exists>hs. sorted_wrt (<) hs \<and> set hs = {p. is_hit names (m_clsElementList e) p} \<and>
    Search_SelectElement_names k n args e = Some (if nat k < length hs then Some (hs ! nat k) else None)"
proof -
  let ?hs = "hits names 0 0 (m_clsElementList e)"
  have "p \<in> set ?hs \<longleftrightarrow> is_hit names (m_clsElementList e) p" for p
    using hits_iff [of 0 names p 0] assms(2) is_hit_Cons [of names "m_clsElementList e" p] by auto
  moreover have "Search_SelectElement_names k n args e = Some (fst (take_hit k ?hs 0))"
    using assms by (simp add: Search_SelectElement_names_def Search_names_take_hit)
  ultimately show ?thesis
    using hits_sorted [of names 0 0 "m_clsElementList e"] by (intro exI [of _ ?hs]) (auto simp: take_hit_def)
qed

definition demo_tree :: CXmlElement where
  "demo_tree = XmlElement ''r'' [] []
     [XmlElement ''a'' [] [] [XmlElement ''x'' [] [] [XmlElement ''b'' ''1'' [] []], XmlElement ''b'' ''2'' [] []],
      XmlElement ''b'' ''0'' [] [],
      XmlElement ''c'' [] [] [XmlElement ''a'' [] [] [XmlElement ''b'' ''3'' [] []]]]"

theorem search_names_document_order_witness:
  "Search_SelectElement_names 2 2 [Some ''a'', Some ''b''] demo_tree = Some (Some [2, 0, 0]) \<and>
   (\<exists>hs. sorted_wrt (<) hs \<and> set hs = {p. is_hit [''a'', ''b''] (m_clsElementList demo_tree) p} \<and>
     Search_SelectElement_names 2 2 [Some ''a'', Some ''b''] demo_tree =
       Some (if nat 2 < length hs then Some (hs ! nat 2) else None))"
proof -
  have m: "MAKE_NAME_LIST (nat 2) [Some ''a'', Some ''b''] = Some [''a'', ''b'']" by code_simp
  have "Search_SelectElement_names 2 2 [Some ''a'', Some ''b''] demo_tree = Some (Some [2, 0, 0])" by code_simp
  with search_names_document_order [OF m, of 2 demo_tree] show ?thesis by simp
qed

subsection \<open>One search for all\<close>

lemma Search_names_single:
  "Search_names [n] 0 i pos es c = Search_name (cstr n) i pos es c"
proof (induction "cstr n" i pos es c rule: Search_name.induct)
  case (2 i pos name data attrs elems es c)
  then show ?case by (auto split: prod.splits option.splits)
qed simp

lemma Search_names_second: "Search_names [n, m] (Suc 0) i pos es c = Search_name (cstr m) i pos es c"
proof (induction "cstr m" i pos es c rule: Search_name.induct)
  case (2 i pos name data attrs elems es c)
  then show ?case by (auto split: prod.splits option.splits)
qed simp

lemma Search_names_pair:
  "Search_names [n, m] 0 i pos es c = Search_child (cstr n) (cstr m) i pos es c"
proof (induction "cstr n" "cstr m" i pos es c rule: Search_child.induct)
  case (2 i pos name data attrs elems es c)
  show ?case
  proof (cases "cstr n = cstr name")
    case True
    then show ?thesis using "2.hyps" by (auto simp: Search_names_second split: prod.splits option.splits)
  next
    case False
    then show ?thesis using "2.hyps" by (auto split: prod.splits option.splits)
  qed
qed simp

text \<open>The three search routines agree: searching for one name, or for a name and a child name, is
  searching for the list of one or two names.\<close>

theorem search_routines_agree:
  "Some (Search_SelectElement (cstr n) k e) = Search_SelectElement_names k 1 [Some n] e \<and>
   Some (Search_SelectElement_child (cstr n) (cstr m) k e) = Search_SelectElement_names k 2 [Some n, Some m] e"
  by (simp add: Search_SelectElement_def Search_SelectElement_child_def Search_SelectElement_names_def
      Search_names_single Search_names_pair eval_nat_numeral)

end
