(* ===== verification/SipMd5.thy ===== *)
theory SipMd5
  imports CRuntime "HOL-Library.Word"
begin

unbundle bit_operations_syntax

text \<open>
  SipPlatform/SipMd5.cpp: the MD5 digest. \<open>UINT4\<close> is a 32-bit word, whose \<open>+\<close> wraps as in C,
  \<open>unsigned char\<close> an 8-bit word. Lengths and indices of type \<open>unsigned int\<close> are natural numbers
  below \<open>2 ^ 32\<close>, with the wrap-around written out where a sum can reach it.
\<close>

type_synonym UINT4 = "32 word"
type_synonym byte = "8 word"
type_synonym md5_state = "UINT4 \<times> UINT4 \<times> UINT4 \<times> UINT4"

record MD5_CTX =
  md5_st :: md5_state
  count0 :: UINT4
  count1 :: UINT4
  md5_buffer :: "byte list"

subsection \<open>The basic functions\<close>

abbreviation (input) S11 :: nat where "S11 \<equiv> 7"
abbreviation (input) S12 :: nat where "S12 \<equiv> 12"
abbreviation (input) S13 :: nat where "S13 \<equiv> 17"
abbreviation (input) S14 :: nat where "S14 \<equiv> 22"
abbreviation (input) S21 :: nat where "S21 \<equiv> 5"
abbreviation (input) S22 :: nat where "S22 \<equiv> 9"
abbreviation (input) S23 :: nat where "S23 \<equiv> 14"
abbreviation (input) S24 :: nat where "S24 \<equiv> 20"
abbreviation (input) S31 :: nat where "S31 \<equiv> 4"
abbreviation (input) S32 :: nat where "S32 \<equiv> 11"
abbreviation (input) S33 :: nat where "S33 \<equiv> 16"
abbreviation (input) S34 :: nat where "S34 \<equiv> 23"
abbreviation (input) S41 :: nat where "S41 \<equiv> 6"
abbreviation (input) S42 :: nat where "S42 \<equiv> 10"
abbreviation (input) S43 :: nat where "S43 \<equiv> 15"
abbreviation (input) S44 :: nat where "S44 \<equiv> 21"

definition PADDING :: "byte list" where
  "PADDING = 0x80 # replicate 63 0"

definition MD5_F :: "UINT4 \<Rightarrow> UINT4 \<Rightarrow> UINT4 \<Rightarrow> UINT4" where "MD5_F x y z = (x AND y) OR (NOT x AND z)"
definition MD5_G :: "UINT4 \<Rightarrow> UINT4 \<Rightarrow> UINT4 \<Rightarrow> UINT4" where "MD5_G x y z = (x AND z) OR (y AND NOT z)"
definition MD5_H :: "UINT4 \<Rightarrow> UINT4 \<Rightarrow> UINT4 \<Rightarrow> UINT4" where "MD5_H x y z = (x XOR y) XOR z"
definition MD5_I :: "UINT4 \<Rightarrow> UINT4 \<Rightarrow> UINT4 \<Rightarrow> UINT4" where "MD5_I x y z = y XOR (x OR NOT z)"

definition ROTATE_LEFT :: "UINT4 \<Rightarrow> nat \<Rightarrow> UINT4" where
  "ROTATE_LEFT x n = push_bit n x OR drop_bit (32 - n) x"

definition FF :: "UINT4 \<Rightarrow> UINT4 \<Rightarrow> UINT4 \<Rightarrow> UINT4 \<Rightarrow> UINT4 \<Rightarrow> nat \<Rightarrow> UINT4 \<Rightarrow> UINT4" where
  "FF a b c d x s ac = (let a = a + (MD5_F b c d + x + ac); a = ROTATE_LEFT a s in a + b)"
definition GG :: "UINT4 \<Rightarrow> UINT4 \<Rightarrow> UINT4 \<Rightarrow> UINT4 \<Rightarrow> UINT4 \<Rightarrow> nat \<Rightarrow> UINT4 \<Rightarrow> UINT4" where
  "GG a b c d x s ac = (let a = a + (MD5_G b c d + x + ac); a = ROTATE_LEFT a s in a + b)"
definition HH :: "UINT4 \<Rightarrow> UINT4 \<Rightarrow> UINT4 \<Rightarrow> UINT4 \<Rightarrow> UINT4 \<Rightarrow> nat \<Rightarrow> UINT4 \<Rightarrow> UINT4" where
  "HH a b c d x s ac = (let a = a + (MD5_H b c d + x + ac); a = ROTATE_LEFT a s in a + b)"
definition II :: "UINT4 \<Rightarrow> UINT4 \<Rightarrow> UINT4 \<Rightarrow> UINT4 \<Rightarrow> UINT4 \<Rightarrow> nat \<Rightarrow> UINT4 \<Rightarrow> UINT4" where
  "II a b c d x s ac = (let a = a + (MD5_I b c d + x + ac); a = ROTATE_LEFT a s in a + b)"

text \<open>One word of \<open>Encode\<close> and of \<open>Decode\<close>, and the loops over \<open>len div 4\<close> words.\<close>

definition Encode4 :: "UINT4 \<Rightarrow> byte list" where
  "Encode4 w = [ucast (w AND 0xff), ucast (drop_bit 8 w AND 0xff), ucast (drop_bit 16 w AND 0xff), ucast (drop_bit 24 w AND 0xff)]"

definition Encode :: "UINT4 list \<Rightarrow> nat \<Rightarrow> byte list" where
  "Encode input len = concat (map Encode4 (take (len div 4) input))"

definition Decode4 :: "byte list \<Rightarrow> nat \<Rightarrow> UINT4" where
  "Decode4 input j = ((ucast (input ! j) OR push_bit 8 (ucast (input ! (j + 1)))) OR
     push_bit 16 (ucast (input ! (j + 2)))) OR push_bit 24 (ucast (input ! (j + 3)))"

definition Decode :: "byte list \<Rightarrow> nat \<Rightarrow> UINT4 list" where
  "Decode input len = map (\<lambda>i. Decode4 input (4 * i)) [0..<len div 4]"

definition MD5_memcpy :: "byte list \<Rightarrow> nat \<Rightarrow> byte list \<Rightarrow> nat \<Rightarrow> byte list" where
  "MD5_memcpy output off input len = take off output @ take len input @ drop (off + len) output"

subsection \<open>The transformation of one block\<close>

definition MD5Transform :: "md5_state \<Rightarrow> byte list \<Rightarrow> md5_state" where
  "MD5Transform state block =
     (let (s0, s1, s2, s3) = state; x = Decode block 64; a = s0; b = s1; c = s2; d = s3;
          a = FF a b c d (x ! 0) S11 0xd76aa478;
          d = FF d a b c (x ! 1) S12 0xe8c7b756;
          c = FF c d a b (x ! 2) S13 0x242070db;
          b = FF b c d a (x ! 3) S14 0xc1bdceee;
          a = FF a b c d (x ! 4) S11 0xf57c0faf;
          d = FF d a b c (x ! 5) S12 0x4787c62a;
          c = FF c d a b (x ! 6) S13 0xa8304613;
          b = FF b c d a (x ! 7) S14 0xfd469501;
          a = FF a b c d (x ! 8) S11 0x698098d8;
          d = FF d a b c (x ! 9) S12 0x8b44f7af;
          c = FF c d a b (x ! 10) S13 0xffff5bb1;
          b = FF b c d a (x ! 11) S14 0x895cd7be;
          a = FF a b c d (x ! 12) S11 0x6b901122;
          d = FF d a b c (x ! 13) S12 0xfd987193;
          c = FF c d a b (x ! 14) S13 0xa679438e;
          b = FF b c d a (x ! 15) S14 0x49b40821;
          a = GG a b c d (x ! 1) S21 0xf61e2562;
          d = GG d a b c (x ! 6) S22 0xc040b340;
          c = GG c d a b (x ! 11) S23 0x265e5a51;
          b = GG b c d a (x ! 0) S24 0xe9b6c7aa;
          a = GG a b c d (x ! 5) S21 0xd62f105d;
          d = GG d a b c (x ! 10) S22 0x2441453;
          c = GG c d a b (x ! 15) S23 0xd8a1e681;
          b = GG b c d a (x ! 4) S24 0xe7d3fbc8;
          a = GG a b c d (x ! 9) S21 0x21e1cde6;
          d = GG d a b c (x ! 14) S22 0xc33707d6;
          c = GG c d a b (x ! 3) S23 0xf4d50d87;
          b = GG b c d a (x ! 8) S24 0x455a14ed;
          a = GG a b c d (x ! 13) S21 0xa9e3e905;
          d = GG d a b c (x ! 2) S22 0xfcefa3f8;
          c = GG c d a b (x ! 7) S23 0x676f02d9;
          b = GG b c d a (x ! 12) S24 0x8d2a4c8a;
          a = HH a b c d (x ! 5) S31 0xfffa3942;
          d = HH d a b c (x ! 8) S32 0x8771f681;
          c = HH c d a b (x ! 11) S33 0x6d9d6122;
          b = HH b c d a (x ! 14) S34 0xfde5380c;
          a = HH a b c d (x ! 1) S31 0xa4beea44;
          d = HH d a b c (x ! 4) S32 0x4bdecfa9;
          c = HH c d a b (x ! 7) S33 0xf6bb4b60;
          b = HH b c d a (x ! 10) S34 0xbebfbc70;
          a = HH a b c d (x ! 13) S31 0x289b7ec6;
          d = HH d a b c (x ! 0) S32 0xeaa127fa;
          c = HH c d a b (x ! 3) S33 0xd4ef3085;
          b = HH b c d a (x ! 6) S34 0x4881d05;
          a = HH a b c d (x ! 9) S31 0xd9d4d039;
          d = HH d a b c (x ! 12) S32 0xe6db99e5;
          c = HH c d a b (x ! 15) S33 0x1fa27cf8;
          b = HH b c d a (x ! 2) S34 0xc4ac5665;
          a = II a b c d (x ! 0) S41 0xf4292244;
          d = II d a b c (x ! 7) S42 0x432aff97;
          c = II c d a b (x ! 14) S43 0xab9423a7;
          b = II b c d a (x ! 5) S44 0xfc93a039;
          a = II a b c d (x ! 12) S41 0x655b59c3;
          d = II d a b c (x ! 3) S42 0x8f0ccc92;
          c = II c d a b (x ! 10) S43 0xffeff47d;
          b = II b c d a (x ! 1) S44 0x85845dd1;
          a = II a b c d (x ! 8) S41 0x6fa87e4f;
          d = II d a b c (x ! 15) S42 0xfe2ce6e0;
          c = II c d a b (x ! 6) S43 0xa3014314;
          b = II b c d a (x ! 13) S44 0x4e0811a1;
          a = II a b c d (x ! 4) S41 0xf7537e82;
          d = II d a b c (x ! 11) S42 0xbd3af235;
          c = II c d a b (x ! 2) S43 0x2ad7d2bb;
          b = II b c d a (x ! 9) S44 0xeb86d391
      in (s0 + a, s1 + b, s2 + c, s3 + d))"

subsection \<open>The digest of a message\<close>

definition MD5Init :: MD5_CTX where
  "MD5Init = \<lparr>md5_st = (0x67452301, 0xefcdab89, 0x98badcfe, 0x10325476), count0 = 0, count1 = 0,
     md5_buffer = replicate 64 0\<rparr>"

text \<open>The loop over whole blocks; \<open>i + 63\<close> is an \<open>unsigned int\<close>. \<open>None\<close>: a block outside the
  input is read.\<close>

function Update_loop :: "byte list \<Rightarrow> nat \<Rightarrow> nat \<Rightarrow> md5_state \<Rightarrow> (md5_state \<times> nat) option" where
  "Update_loop input inputLen i state =
     (if u32 (int i + 63) < int inputLen
      then if i + 64 \<le> length input
           then Update_loop input inputLen (i + 64) (MD5Transform state (DbPrelude.slice input i (i + 64)))
           else None
      else Some (state, i))"
  by pat_completeness auto
termination Update_loop
  by (relation "measure (\<lambda>(t, n, i, s). length t - i)") auto

declare Update_loop.simps [simp del]

definition MD5Update :: "MD5_CTX \<Rightarrow> byte list \<Rightarrow> nat \<Rightarrow> MD5_CTX option" where
  "MD5Update context input inputLen =
     (let index = unat (drop_bit 3 (count0 context) AND 0x3F);
          bits = push_bit 3 (word_of_nat inputLen) :: UINT4;
          c0 = count0 context + bits;
          c1 = (if c0 < bits then count1 context + 1 else count1 context);
          c1 = c1 + drop_bit 29 (word_of_nat inputLen);
          context = context\<lparr>count0 := c0, count1 := c1\<rparr>;
          partLen = 64 - index
      in if partLen \<le> inputLen
         then let buffer = MD5_memcpy (md5_buffer context) index input partLen;
                  state = MD5Transform (md5_st context) buffer
              in map_option (\<lambda>(state, i). context\<lparr>md5_st := state,
                     md5_buffer := MD5_memcpy buffer 0 (drop i input) (inputLen - i)\<rparr>)
                   (Update_loop input inputLen partLen state)
         else Some (context\<lparr>md5_buffer := MD5_memcpy (md5_buffer context) index input inputLen\<rparr>))"

definition MD5Final :: "MD5_CTX \<Rightarrow> byte list option" where
  "MD5Final context =
     (let bits = Encode [count0 context, count1 context] 8;
          index = unat (drop_bit 3 (count0 context) AND 0x3f);
          padLen = (if index < 56 then 56 - index else 120 - index)
      in case MD5Update context PADDING padLen of None \<Rightarrow> None
         | Some context \<Rightarrow>
             (case MD5Update context bits 8 of None \<Rightarrow> None
              | Some context \<Rightarrow> (let (a, b, c, d) = md5_st context in Some (Encode [a, b, c, d] 16))))"

definition bytes_of :: "cstring \<Rightarrow> byte list" where
  "bytes_of s = map (\<lambda>c. word_of_nat (of_char c)) s"

text \<open>\<open>iLen\<close> is \<open>strlen\<close> converted to \<open>unsigned int\<close>.\<close>

definition SipMd5Byte :: "cstring \<Rightarrow> byte list option" where
  "SipMd5Byte pszPlainText =
     Option.bind (MD5Update MD5Init (bytes_of pszPlainText) (nat (u32 (int (length pszPlainText))))) MD5Final"

definition SipMd5String :: "cstring \<Rightarrow> cstring option" where
  "SipMd5String pszPlainText =
     map_option (\<lambda>digest. concat (map (\<lambda>b. show_hex2 (unat b)) digest))
       (Option.bind (MD5Update MD5Init (bytes_of pszPlainText) (nat (u32 (int (length pszPlainText))))) MD5Final)"

end
