(* ===== verification/Rfc1321.thy ===== *)
theory Rfc1321
  imports "HOL-Library.Word"
begin

unbundle bit_operations_syntax

text \<open>
  The MD5 algorithm as RFC 1321 describes it, on its own: no definition here comes from the sources. Bytes and
  words are read and written as numbers in base 256, low-order byte first; the round functions are the
  conditionals that the RFC explains them by; the constants are its table; one step serves all four rounds. The
  digests of the test suite of the RFC (section A.5) are evaluated from it.
\<close>

subsection \<open>Words and bytes\<close>

definition le_word :: "8 word list \<Rightarrow> 32 word" where
  "le_word bs = word_of_nat (foldr (\<lambda>b n. unat b + 256 * n) bs 0)"

definition le_bytes :: "32 word \<Rightarrow> 8 word list" where
  "le_bytes w = map (\<lambda>k. word_of_nat (unat w div 256 ^ k)) [0..<4]"

definition block_words :: "8 word list \<Rightarrow> 32 word list" where
  "block_words block = map (\<lambda>i. le_word (take 4 (drop (4 * i) block))) [0..<16]"

text \<open>Section 3.3: the four words of the buffer, by their bytes.\<close>

definition md5_start :: "32 word \<times> 32 word \<times> 32 word \<times> 32 word" where
  "md5_start = (le_word [0x01, 0x23, 0x45, 0x67], le_word [0x89, 0xab, 0xcd, 0xef],
     le_word [0xfe, 0xdc, 0xba, 0x98], le_word [0x76, 0x54, 0x32, 0x10])"

subsection \<open>The steps\<close>

text \<open>Section 3.4, the functions of the four rounds.\<close>

definition md5_fun :: "nat \<Rightarrow> 32 word \<Rightarrow> 32 word \<Rightarrow> 32 word \<Rightarrow> 32 word" where
  "md5_fun i x y z = [(x AND y) OR (NOT x AND z), (x AND z) OR (y AND NOT z), x XOR y XOR z, y XOR (x OR NOT z)] ! (i div 16)"

text \<open>The table T: the integer parts of 4294967296 times the absolute sine of 1 to 64.\<close>

definition md5_K :: "32 word list" where
  "md5_K = [0xd76aa478, 0xe8c7b756, 0x242070db, 0xc1bdceee, 0xf57c0faf, 0x4787c62a,
     0xa8304613, 0xfd469501, 0x698098d8, 0x8b44f7af, 0xffff5bb1, 0x895cd7be,
     0x6b901122, 0xfd987193, 0xa679438e, 0x49b40821, 0xf61e2562, 0xc040b340,
     0x265e5a51, 0xe9b6c7aa, 0xd62f105d, 0x2441453, 0xd8a1e681, 0xe7d3fbc8,
     0x21e1cde6, 0xc33707d6, 0xf4d50d87, 0x455a14ed, 0xa9e3e905, 0xfcefa3f8,
     0x676f02d9, 0x8d2a4c8a, 0xfffa3942, 0x8771f681, 0x6d9d6122, 0xfde5380c,
     0xa4beea44, 0x4bdecfa9, 0xf6bb4b60, 0xbebfbc70, 0x289b7ec6, 0xeaa127fa,
     0xd4ef3085, 0x4881d05, 0xd9d4d039, 0xe6db99e5, 0x1fa27cf8, 0xc4ac5665,
     0xf4292244, 0x432aff97, 0xab9423a7, 0xfc93a039, 0x655b59c3, 0x8f0ccc92,
     0xffeff47d, 0x85845dd1, 0x6fa87e4f, 0xfe2ce6e0, 0xa3014314, 0x4e0811a1,
     0xf7537e82, 0xbd3af235, 0x2ad7d2bb, 0xeb86d391]"

definition md5_shift :: "nat \<Rightarrow> nat" where
  "md5_shift i = [[7, 12, 17, 22], [5, 9, 14, 20], [4, 11, 16, 23], [6, 10, 15, 21]] ! (i div 16) ! (i mod 4)"

definition md5_word :: "nat \<Rightarrow> nat" where
  "md5_word i = [i, 5 * i + 1, 3 * i + 5, 7 * i] ! (i div 16) mod 16"

definition md5_new :: "32 word list \<Rightarrow> nat \<Rightarrow> 32 word \<Rightarrow> 32 word \<Rightarrow> 32 word \<Rightarrow> 32 word \<Rightarrow> 32 word" where
  "md5_new x i a b c d = b + word_rotl (md5_shift i) (a + md5_fun i b c d + x ! md5_word i + md5_K ! i)"

type_synonym md5_abcd = "32 word \<times> 32 word \<times> 32 word \<times> 32 word"

definition md5_step :: "32 word list \<Rightarrow> md5_abcd \<Rightarrow> nat \<Rightarrow> md5_abcd" where
  "md5_step x st i = (let (a, b, c, d) = st in (d, md5_new x i a b c d, b, c))"

fun add_state :: "md5_abcd \<Rightarrow> md5_abcd \<Rightarrow> md5_abcd" where
  "add_state (a, b, c, d) (a', b', c', d') = (a + a', b + b', c + c', d + d')"

definition md5_block :: "md5_abcd \<Rightarrow> 8 word list \<Rightarrow> md5_abcd" where
  "md5_block st block = add_state st (foldl (md5_step (block_words block)) st [0..<64])"

subsection \<open>The digest of a message\<close>

text \<open>Sections 3.1 and 3.2: padding with a one bit and zeros to 56 modulo 64, and the length in bits as 64 bits.\<close>

definition md5_length :: "nat \<Rightarrow> 8 word list" where
  "md5_length n = map (\<lambda>k. word_of_nat (8 * n div 256 ^ k)) [0..<8]"

definition md5_pad :: "8 word list \<Rightarrow> 8 word list" where
  "md5_pad m = m @ 0x80 # replicate ((119 - length m mod 64) mod 64) 0 @ md5_length (length m)"

fun blocks64 :: "8 word list \<Rightarrow> 8 word list list" where
  "blocks64 bs = (if length bs < 64 then [] else take 64 bs # blocks64 (drop 64 bs))"

declare blocks64.simps [simp del]

definition md5 :: "8 word list \<Rightarrow> 8 word list" where
  "md5 m = (let (a, b, c, d) = foldl md5_block md5_start (blocks64 (md5_pad m)) in concat (map le_bytes [a, b, c, d]))"

subsection \<open>The test suite\<close>

lemma word_rotl_shifts: "n < 32 \<Longrightarrow> word_rotl n (x :: 32 word) = push_bit n x OR drop_bit (32 - n) x"
proof (rule bit_word_eqI)
  fix i assume n: "n < 32" and i: "i < LENGTH(32)"
  show "bit (word_rotl n x) i = bit (push_bit n x OR drop_bit (32 - n) x) i"
  proof (cases "n \<le> i")
    case True
    then have "(i + (32 - n)) mod 32 = i - n" using n i by (simp add: mod_if)
    moreover have "\<not> bit x (32 - n + i)" using True n bit_imp_le_length [of x "32 - n + i"] by auto
    ultimately show ?thesis using True n i
      by (simp add: bit_word_rotl_iff bit_or_iff bit_push_bit_iff bit_drop_bit_eq)
  next
    case False
    then have j: "(i + (32 - n mod 32)) mod 32 = 32 - n + i" using n by (simp add: mod_if) linarith
    have "bit (push_bit n x OR drop_bit (32 - n) x) i = bit x (32 - n + i)"
      using False by (simp add: bit_or_iff bit_push_bit_iff bit_drop_bit_eq)
    moreover have "bit (word_rotl n x) i = bit x ((i + (32 - n mod 32)) mod 32)"
      using i by (simp add: bit_word_rotl_iff)
    ultimately show ?thesis unfolding j by simp
  qed
qed

lemma upt_4: "[0..<4] = [0,1,2,3]"
  by code_simp

lemma upt_8: "[0..<8] = [0,1,2,3,4,5,6,7]"
  by code_simp

lemma upt_16: "[0..<16] = [0,1,2,3,4,5,6,7,8,9,10,11,12,13,14,15]"
  by code_simp

lemma upt_64: "[0..<64] = [0,1,2,3,4,5,6,7,8,9,10,11,12,13,14,15,16,17,18,19,20,21,22,23,24,25,26,27,28,29,30,31,
    32,33,34,35,36,37,38,39,40,41,42,43,44,45,46,47,48,49,50,51,52,53,54,55,56,57,58,59,60,61,62,63]"
  by code_simp

lemma md5_steps:
  "md5_step x (a, b, c, d) 0 = (d, b + word_rotl 7 (a + ((b AND c) OR (NOT b AND d)) + x ! 0 + 0xd76aa478), b, c)"
  "md5_step x (a, b, c, d) 1 = (d, b + word_rotl 12 (a + ((b AND c) OR (NOT b AND d)) + x ! 1 + 0xe8c7b756), b, c)"
  "md5_step x (a, b, c, d) 2 = (d, b + word_rotl 17 (a + ((b AND c) OR (NOT b AND d)) + x ! 2 + 0x242070db), b, c)"
  "md5_step x (a, b, c, d) 3 = (d, b + word_rotl 22 (a + ((b AND c) OR (NOT b AND d)) + x ! 3 + 0xc1bdceee), b, c)"
  "md5_step x (a, b, c, d) 4 = (d, b + word_rotl 7 (a + ((b AND c) OR (NOT b AND d)) + x ! 4 + 0xf57c0faf), b, c)"
  "md5_step x (a, b, c, d) 5 = (d, b + word_rotl 12 (a + ((b AND c) OR (NOT b AND d)) + x ! 5 + 0x4787c62a), b, c)"
  "md5_step x (a, b, c, d) 6 = (d, b + word_rotl 17 (a + ((b AND c) OR (NOT b AND d)) + x ! 6 + 0xa8304613), b, c)"
  "md5_step x (a, b, c, d) 7 = (d, b + word_rotl 22 (a + ((b AND c) OR (NOT b AND d)) + x ! 7 + 0xfd469501), b, c)"
  "md5_step x (a, b, c, d) 8 = (d, b + word_rotl 7 (a + ((b AND c) OR (NOT b AND d)) + x ! 8 + 0x698098d8), b, c)"
  "md5_step x (a, b, c, d) 9 = (d, b + word_rotl 12 (a + ((b AND c) OR (NOT b AND d)) + x ! 9 + 0x8b44f7af), b, c)"
  "md5_step x (a, b, c, d) 10 = (d, b + word_rotl 17 (a + ((b AND c) OR (NOT b AND d)) + x ! 10 + 0xffff5bb1), b, c)"
  "md5_step x (a, b, c, d) 11 = (d, b + word_rotl 22 (a + ((b AND c) OR (NOT b AND d)) + x ! 11 + 0x895cd7be), b, c)"
  "md5_step x (a, b, c, d) 12 = (d, b + word_rotl 7 (a + ((b AND c) OR (NOT b AND d)) + x ! 12 + 0x6b901122), b, c)"
  "md5_step x (a, b, c, d) 13 = (d, b + word_rotl 12 (a + ((b AND c) OR (NOT b AND d)) + x ! 13 + 0xfd987193), b, c)"
  "md5_step x (a, b, c, d) 14 = (d, b + word_rotl 17 (a + ((b AND c) OR (NOT b AND d)) + x ! 14 + 0xa679438e), b, c)"
  "md5_step x (a, b, c, d) 15 = (d, b + word_rotl 22 (a + ((b AND c) OR (NOT b AND d)) + x ! 15 + 0x49b40821), b, c)"
  "md5_step x (a, b, c, d) 16 = (d, b + word_rotl 5 (a + ((b AND d) OR (c AND NOT d)) + x ! 1 + 0xf61e2562), b, c)"
  "md5_step x (a, b, c, d) 17 = (d, b + word_rotl 9 (a + ((b AND d) OR (c AND NOT d)) + x ! 6 + 0xc040b340), b, c)"
  "md5_step x (a, b, c, d) 18 = (d, b + word_rotl 14 (a + ((b AND d) OR (c AND NOT d)) + x ! 11 + 0x265e5a51), b, c)"
  "md5_step x (a, b, c, d) 19 = (d, b + word_rotl 20 (a + ((b AND d) OR (c AND NOT d)) + x ! 0 + 0xe9b6c7aa), b, c)"
  "md5_step x (a, b, c, d) 20 = (d, b + word_rotl 5 (a + ((b AND d) OR (c AND NOT d)) + x ! 5 + 0xd62f105d), b, c)"
  "md5_step x (a, b, c, d) 21 = (d, b + word_rotl 9 (a + ((b AND d) OR (c AND NOT d)) + x ! 10 + 0x2441453), b, c)"
  "md5_step x (a, b, c, d) 22 = (d, b + word_rotl 14 (a + ((b AND d) OR (c AND NOT d)) + x ! 15 + 0xd8a1e681), b, c)"
  "md5_step x (a, b, c, d) 23 = (d, b + word_rotl 20 (a + ((b AND d) OR (c AND NOT d)) + x ! 4 + 0xe7d3fbc8), b, c)"
  "md5_step x (a, b, c, d) 24 = (d, b + word_rotl 5 (a + ((b AND d) OR (c AND NOT d)) + x ! 9 + 0x21e1cde6), b, c)"
  "md5_step x (a, b, c, d) 25 = (d, b + word_rotl 9 (a + ((b AND d) OR (c AND NOT d)) + x ! 14 + 0xc33707d6), b, c)"
  "md5_step x (a, b, c, d) 26 = (d, b + word_rotl 14 (a + ((b AND d) OR (c AND NOT d)) + x ! 3 + 0xf4d50d87), b, c)"
  "md5_step x (a, b, c, d) 27 = (d, b + word_rotl 20 (a + ((b AND d) OR (c AND NOT d)) + x ! 8 + 0x455a14ed), b, c)"
  "md5_step x (a, b, c, d) 28 = (d, b + word_rotl 5 (a + ((b AND d) OR (c AND NOT d)) + x ! 13 + 0xa9e3e905), b, c)"
  "md5_step x (a, b, c, d) 29 = (d, b + word_rotl 9 (a + ((b AND d) OR (c AND NOT d)) + x ! 2 + 0xfcefa3f8), b, c)"
  "md5_step x (a, b, c, d) 30 = (d, b + word_rotl 14 (a + ((b AND d) OR (c AND NOT d)) + x ! 7 + 0x676f02d9), b, c)"
  "md5_step x (a, b, c, d) 31 = (d, b + word_rotl 20 (a + ((b AND d) OR (c AND NOT d)) + x ! 12 + 0x8d2a4c8a), b, c)"
  "md5_step x (a, b, c, d) 32 = (d, b + word_rotl 4 (a + (b XOR c XOR d) + x ! 5 + 0xfffa3942), b, c)"
  "md5_step x (a, b, c, d) 33 = (d, b + word_rotl 11 (a + (b XOR c XOR d) + x ! 8 + 0x8771f681), b, c)"
  "md5_step x (a, b, c, d) 34 = (d, b + word_rotl 16 (a + (b XOR c XOR d) + x ! 11 + 0x6d9d6122), b, c)"
  "md5_step x (a, b, c, d) 35 = (d, b + word_rotl 23 (a + (b XOR c XOR d) + x ! 14 + 0xfde5380c), b, c)"
  "md5_step x (a, b, c, d) 36 = (d, b + word_rotl 4 (a + (b XOR c XOR d) + x ! 1 + 0xa4beea44), b, c)"
  "md5_step x (a, b, c, d) 37 = (d, b + word_rotl 11 (a + (b XOR c XOR d) + x ! 4 + 0x4bdecfa9), b, c)"
  "md5_step x (a, b, c, d) 38 = (d, b + word_rotl 16 (a + (b XOR c XOR d) + x ! 7 + 0xf6bb4b60), b, c)"
  "md5_step x (a, b, c, d) 39 = (d, b + word_rotl 23 (a + (b XOR c XOR d) + x ! 10 + 0xbebfbc70), b, c)"
  "md5_step x (a, b, c, d) 40 = (d, b + word_rotl 4 (a + (b XOR c XOR d) + x ! 13 + 0x289b7ec6), b, c)"
  "md5_step x (a, b, c, d) 41 = (d, b + word_rotl 11 (a + (b XOR c XOR d) + x ! 0 + 0xeaa127fa), b, c)"
  "md5_step x (a, b, c, d) 42 = (d, b + word_rotl 16 (a + (b XOR c XOR d) + x ! 3 + 0xd4ef3085), b, c)"
  "md5_step x (a, b, c, d) 43 = (d, b + word_rotl 23 (a + (b XOR c XOR d) + x ! 6 + 0x4881d05), b, c)"
  "md5_step x (a, b, c, d) 44 = (d, b + word_rotl 4 (a + (b XOR c XOR d) + x ! 9 + 0xd9d4d039), b, c)"
  "md5_step x (a, b, c, d) 45 = (d, b + word_rotl 11 (a + (b XOR c XOR d) + x ! 12 + 0xe6db99e5), b, c)"
  "md5_step x (a, b, c, d) 46 = (d, b + word_rotl 16 (a + (b XOR c XOR d) + x ! 15 + 0x1fa27cf8), b, c)"
  "md5_step x (a, b, c, d) 47 = (d, b + word_rotl 23 (a + (b XOR c XOR d) + x ! 2 + 0xc4ac5665), b, c)"
  "md5_step x (a, b, c, d) 48 = (d, b + word_rotl 6 (a + (c XOR (b OR NOT d)) + x ! 0 + 0xf4292244), b, c)"
  "md5_step x (a, b, c, d) 49 = (d, b + word_rotl 10 (a + (c XOR (b OR NOT d)) + x ! 7 + 0x432aff97), b, c)"
  "md5_step x (a, b, c, d) 50 = (d, b + word_rotl 15 (a + (c XOR (b OR NOT d)) + x ! 14 + 0xab9423a7), b, c)"
  "md5_step x (a, b, c, d) 51 = (d, b + word_rotl 21 (a + (c XOR (b OR NOT d)) + x ! 5 + 0xfc93a039), b, c)"
  "md5_step x (a, b, c, d) 52 = (d, b + word_rotl 6 (a + (c XOR (b OR NOT d)) + x ! 12 + 0x655b59c3), b, c)"
  "md5_step x (a, b, c, d) 53 = (d, b + word_rotl 10 (a + (c XOR (b OR NOT d)) + x ! 3 + 0x8f0ccc92), b, c)"
  "md5_step x (a, b, c, d) 54 = (d, b + word_rotl 15 (a + (c XOR (b OR NOT d)) + x ! 10 + 0xffeff47d), b, c)"
  "md5_step x (a, b, c, d) 55 = (d, b + word_rotl 21 (a + (c XOR (b OR NOT d)) + x ! 1 + 0x85845dd1), b, c)"
  "md5_step x (a, b, c, d) 56 = (d, b + word_rotl 6 (a + (c XOR (b OR NOT d)) + x ! 8 + 0x6fa87e4f), b, c)"
  "md5_step x (a, b, c, d) 57 = (d, b + word_rotl 10 (a + (c XOR (b OR NOT d)) + x ! 15 + 0xfe2ce6e0), b, c)"
  "md5_step x (a, b, c, d) 58 = (d, b + word_rotl 15 (a + (c XOR (b OR NOT d)) + x ! 6 + 0xa3014314), b, c)"
  "md5_step x (a, b, c, d) 59 = (d, b + word_rotl 21 (a + (c XOR (b OR NOT d)) + x ! 13 + 0x4e0811a1), b, c)"
  "md5_step x (a, b, c, d) 60 = (d, b + word_rotl 6 (a + (c XOR (b OR NOT d)) + x ! 4 + 0xf7537e82), b, c)"
  "md5_step x (a, b, c, d) 61 = (d, b + word_rotl 10 (a + (c XOR (b OR NOT d)) + x ! 11 + 0xbd3af235), b, c)"
  "md5_step x (a, b, c, d) 62 = (d, b + word_rotl 15 (a + (c XOR (b OR NOT d)) + x ! 2 + 0x2ad7d2bb), b, c)"
  "md5_step x (a, b, c, d) 63 = (d, b + word_rotl 21 (a + (c XOR (b OR NOT d)) + x ! 9 + 0xeb86d391), b, c)"
  by (simp_all add: md5_step_def md5_new_def md5_shift_def md5_word_def md5_fun_def md5_K_def)

lemma replicate_52: "replicate 52 x = [x, x, x, x, x, x, x, x, x, x, x, x, x, x, x, x, x, x, x, x, x, x, x, x, x, x, x, x, x, x, x, x, x, x, x, x, x, x, x, x, x, x, x, x, x, x, x, x, x, x, x, x]"
  by (simp add: numeral_eq_Suc)

definition abc_block :: "8 word list" where
  "abc_block = [0x61, 0x62, 0x63, 0x80, 0, 0, 0, 0, 0, 0, 0, 0, 0, 0, 0, 0, 0, 0, 0, 0, 0, 0, 0, 0, 0, 0, 0, 0, 0,
      0, 0, 0, 0, 0, 0, 0, 0, 0, 0, 0, 0, 0, 0, 0, 0, 0, 0, 0, 0, 0, 0, 0, 0, 0, 0, 0, 24, 0, 0, 0, 0, 0,
      0, 0]"

lemma abc_blocks: "blocks64 (md5_pad [0x61, 0x62, 0x63]) = [abc_block]"
proof -
  have "md5_pad [0x61, 0x62, 0x63] = abc_block"
    by (simp add: md5_pad_def md5_length_def upt_8 abc_block_def replicate_52)
  moreover have "length abc_block = 64" by (simp add: abc_block_def)
  ultimately show ?thesis by (simp add: blocks64.simps)
qed

lemma abc_words: "block_words abc_block = [0x80636261, 0, 0, 0, 0, 0, 0, 0, 0, 0, 0, 0, 0, 0, 24, 0]"
  by (simp add: block_words_def le_word_def upt_16 abc_block_def)

lemma abc_steps: "foldl (md5_step [0x80636261, 0, 0, 0, 0, 0, 0, 0, 0, 0, 0, 0, 0, 0, 24, 0])
    (0x67452301, 0xefcdab89, 0x98badcfe, 0x10325476) [0..<64] = (0x310ade8f, 0xc08226b3, 0xe484b9d8, 0x624d8cb2)"
  unfolding upt_64 by (simp add: md5_steps [unfolded One_nat_def] word_rotl_shifts)

lemma md5_start_words: "md5_start = (0x67452301, 0xefcdab89, 0x98badcfe, 0x10325476)"
  by (simp add: md5_start_def le_word_def)

text \<open>The digest of the text "abc" in the test suite.\<close>

lemma md5_abc: "md5 [0x61, 0x62, 0x63] =
    [0x90, 0x01, 0x50, 0x98, 0x3c, 0xd2, 0x4f, 0xb0, 0xd6, 0x96, 0x3f, 0x7d, 0x28, 0xe1, 0x7f, 0x72]"
  unfolding md5_def abc_blocks md5_start_words
  by (simp add: md5_block_def abc_words abc_steps le_bytes_def upt_4)

end
