(* ===== verification/SipMd5Spec.thy ===== *)
theory SipMd5Spec
  imports SipMd5 Rfc1321
begin

text \<open>
  SipMd5 against the algorithm of RFC 1321 in theory Rfc1321, which shares no definition with the code. The code
  buffers partial blocks, counts bits in two 32-bit halves, shifts and masks bytes, and unrolls the rounds.
\<close>

subsection \<open>Bytes and words\<close>

lemma unat_of_nat32: "unat (word_of_nat n :: UINT4) = n mod 2 ^ 32"
  by (simp add: unat_of_nat take_bit_eq_mod)

lemma byte_of_word: "(ucast (drop_bit k (word_of_nat c :: UINT4) AND 0xff) :: byte) = word_of_nat (c div 2 ^ k)"
  if "k + 8 \<le> 32"
proof (rule bit_word_eqI)
  fix i assume i: "i < LENGTH(8)"
  moreover have "bit (0xff :: UINT4) i \<longleftrightarrow> i < 8"
    using i bit_mask_iff [of 8 i, where 'a = UINT4] by (simp add: mask_eq_exp_minus_1 possible_bit_def)
  moreover have "bit (c div 2 ^ k) i = bit c (k + i)" by (simp flip: drop_bit_eq_div add: bit_drop_bit_eq)
  ultimately show "bit (ucast (drop_bit k (word_of_nat c :: UINT4) AND 0xff) :: byte) i = bit (word_of_nat (c div 2 ^ k) :: byte) i"
    using that by (simp add: bit_ucast_iff bit_and_iff bit_drop_bit_eq bit_of_nat_iff possible_bit_def)
qed

lemma Encode4_le_bytes: "Encode4 w = le_bytes w"
  using byte_of_word [of 0 "unat w"] byte_of_word [of 8 "unat w"] byte_of_word [of 16 "unat w"] byte_of_word [of 24 "unat w"]
  by (simp add: Encode4_def le_bytes_def upt_4)

text \<open>Bytes in different places of a word.\<close>

lemma byte_bits: "bit (ucast (b :: byte) :: UINT4) i \<Longrightarrow> i < 8"
  by (auto simp: bit_ucast_iff dest: bit_imp_le_length)

lemma byte_place: "bit (push_bit k (ucast (b :: byte)) :: UINT4) i \<Longrightarrow> k \<le> i \<and> i < k + 8"
  by (auto simp: bit_push_bit_iff dest!: byte_bits)

lemma or_bytes:
  fixes a b c d :: byte
  shows "((ucast a OR push_bit 8 (ucast b)) OR push_bit 16 (ucast c)) OR push_bit 24 (ucast d) =
    (ucast a + push_bit 8 (ucast b) + push_bit 16 (ucast c) + push_bit 24 (ucast d) :: UINT4)"
proof -
  have 1: "ucast a + push_bit 8 (ucast b) = (ucast a OR push_bit 8 (ucast b) :: UINT4)"
    by (intro disjunctive_add_eq_or bit_eqI) (auto simp: bit_and_iff dest!: byte_bits byte_place)
  have 2: "(ucast a OR push_bit 8 (ucast b)) + push_bit 16 (ucast c) = ((ucast a OR push_bit 8 (ucast b)) OR push_bit 16 (ucast c) :: UINT4)"
    by (intro disjunctive_add_eq_or bit_eqI) (auto simp: bit_and_iff bit_or_iff dest!: byte_bits byte_place)
  have 3: "((ucast a OR push_bit 8 (ucast b)) OR push_bit 16 (ucast c)) + push_bit 24 (ucast d) =
      (((ucast a OR push_bit 8 (ucast b)) OR push_bit 16 (ucast c)) OR push_bit 24 (ucast d) :: UINT4)"
    by (intro disjunctive_add_eq_or bit_eqI) (auto simp: bit_and_iff bit_or_iff dest!: byte_bits byte_place)
  show ?thesis unfolding 1 2 3 ..
qed

lemma Decode4_le_word:
  assumes "j + 4 \<le> length bs"
  shows "Decode4 bs j = le_word (take 4 (drop j bs))"
proof -
  have "take 4 (drop j bs) = [bs ! j, bs ! (j + 1), bs ! (j + 2), bs ! (j + 3)]"
    using assms by (intro nth_equalityI) (auto simp: less_Suc_eq numeral_eq_Suc)
  moreover have "ucast (b :: byte) = (word_of_nat (unat b) :: UINT4)" for b by (simp add: unsigned_of_nat)
  ultimately show ?thesis unfolding Decode4_def or_bytes by (simp add: le_word_def push_bit_eq_mult algebra_simps)
qed

lemma Decode_block: "length block = 64 \<Longrightarrow> Decode block 64 = block_words block"
  by (auto simp: Decode_def block_words_def Decode4_le_word)

lemma MD5Init_start: "md5_st MD5Init = md5_start"
  by (simp add: MD5Init_def md5_start_words)

subsection \<open>The unrolled rounds\<close>

lemma ROTATE_LEFT_rotl: "n < 32 \<Longrightarrow> ROTATE_LEFT x n = word_rotl n x"
  by (simp add: ROTATE_LEFT_def word_rotl_shifts)

lemma round_step:
  "s < 32 \<Longrightarrow> FF a b c d x s k = b + word_rotl s (a + MD5_F b c d + x + k)"
  "s < 32 \<Longrightarrow> GG a b c d x s k = b + word_rotl s (a + MD5_G b c d + x + k)"
  "s < 32 \<Longrightarrow> HH a b c d x s k = b + word_rotl s (a + MD5_H b c d + x + k)"
  "s < 32 \<Longrightarrow> II a b c d x s k = b + word_rotl s (a + MD5_I b c d + x + k)"
  by (simp_all add: FF_def GG_def HH_def II_def ROTATE_LEFT_rotl ac_simps)

lemma foldl_md5_step:
  "foldl (md5_step x) (a, b, c, d) (i # is) = (let t = md5_new x i a b c d in foldl (md5_step x) (d, t, b, c) is)"
  by (simp add: md5_step_def)

text \<open>The table entries of the 64 steps, as the source writes them.\<close>

lemma md5_new_steps:
  "md5_new x 0 a b c d = FF a b c d (x ! 0) S11 0xd76aa478"
  "md5_new x 1 a b c d = FF a b c d (x ! 1) S12 0xe8c7b756"
  "md5_new x 2 a b c d = FF a b c d (x ! 2) S13 0x242070db"
  "md5_new x 3 a b c d = FF a b c d (x ! 3) S14 0xc1bdceee"
  "md5_new x 4 a b c d = FF a b c d (x ! 4) S11 0xf57c0faf"
  "md5_new x 5 a b c d = FF a b c d (x ! 5) S12 0x4787c62a"
  "md5_new x 6 a b c d = FF a b c d (x ! 6) S13 0xa8304613"
  "md5_new x 7 a b c d = FF a b c d (x ! 7) S14 0xfd469501"
  "md5_new x 8 a b c d = FF a b c d (x ! 8) S11 0x698098d8"
  "md5_new x 9 a b c d = FF a b c d (x ! 9) S12 0x8b44f7af"
  "md5_new x 10 a b c d = FF a b c d (x ! 10) S13 0xffff5bb1"
  "md5_new x 11 a b c d = FF a b c d (x ! 11) S14 0x895cd7be"
  "md5_new x 12 a b c d = FF a b c d (x ! 12) S11 0x6b901122"
  "md5_new x 13 a b c d = FF a b c d (x ! 13) S12 0xfd987193"
  "md5_new x 14 a b c d = FF a b c d (x ! 14) S13 0xa679438e"
  "md5_new x 15 a b c d = FF a b c d (x ! 15) S14 0x49b40821"
  "md5_new x 16 a b c d = GG a b c d (x ! 1) S21 0xf61e2562"
  "md5_new x 17 a b c d = GG a b c d (x ! 6) S22 0xc040b340"
  "md5_new x 18 a b c d = GG a b c d (x ! 11) S23 0x265e5a51"
  "md5_new x 19 a b c d = GG a b c d (x ! 0) S24 0xe9b6c7aa"
  "md5_new x 20 a b c d = GG a b c d (x ! 5) S21 0xd62f105d"
  "md5_new x 21 a b c d = GG a b c d (x ! 10) S22 0x2441453"
  "md5_new x 22 a b c d = GG a b c d (x ! 15) S23 0xd8a1e681"
  "md5_new x 23 a b c d = GG a b c d (x ! 4) S24 0xe7d3fbc8"
  "md5_new x 24 a b c d = GG a b c d (x ! 9) S21 0x21e1cde6"
  "md5_new x 25 a b c d = GG a b c d (x ! 14) S22 0xc33707d6"
  "md5_new x 26 a b c d = GG a b c d (x ! 3) S23 0xf4d50d87"
  "md5_new x 27 a b c d = GG a b c d (x ! 8) S24 0x455a14ed"
  "md5_new x 28 a b c d = GG a b c d (x ! 13) S21 0xa9e3e905"
  "md5_new x 29 a b c d = GG a b c d (x ! 2) S22 0xfcefa3f8"
  "md5_new x 30 a b c d = GG a b c d (x ! 7) S23 0x676f02d9"
  "md5_new x 31 a b c d = GG a b c d (x ! 12) S24 0x8d2a4c8a"
  "md5_new x 32 a b c d = HH a b c d (x ! 5) S31 0xfffa3942"
  "md5_new x 33 a b c d = HH a b c d (x ! 8) S32 0x8771f681"
  "md5_new x 34 a b c d = HH a b c d (x ! 11) S33 0x6d9d6122"
  "md5_new x 35 a b c d = HH a b c d (x ! 14) S34 0xfde5380c"
  "md5_new x 36 a b c d = HH a b c d (x ! 1) S31 0xa4beea44"
  "md5_new x 37 a b c d = HH a b c d (x ! 4) S32 0x4bdecfa9"
  "md5_new x 38 a b c d = HH a b c d (x ! 7) S33 0xf6bb4b60"
  "md5_new x 39 a b c d = HH a b c d (x ! 10) S34 0xbebfbc70"
  "md5_new x 40 a b c d = HH a b c d (x ! 13) S31 0x289b7ec6"
  "md5_new x 41 a b c d = HH a b c d (x ! 0) S32 0xeaa127fa"
  "md5_new x 42 a b c d = HH a b c d (x ! 3) S33 0xd4ef3085"
  "md5_new x 43 a b c d = HH a b c d (x ! 6) S34 0x4881d05"
  "md5_new x 44 a b c d = HH a b c d (x ! 9) S31 0xd9d4d039"
  "md5_new x 45 a b c d = HH a b c d (x ! 12) S32 0xe6db99e5"
  "md5_new x 46 a b c d = HH a b c d (x ! 15) S33 0x1fa27cf8"
  "md5_new x 47 a b c d = HH a b c d (x ! 2) S34 0xc4ac5665"
  "md5_new x 48 a b c d = II a b c d (x ! 0) S41 0xf4292244"
  "md5_new x 49 a b c d = II a b c d (x ! 7) S42 0x432aff97"
  "md5_new x 50 a b c d = II a b c d (x ! 14) S43 0xab9423a7"
  "md5_new x 51 a b c d = II a b c d (x ! 5) S44 0xfc93a039"
  "md5_new x 52 a b c d = II a b c d (x ! 12) S41 0x655b59c3"
  "md5_new x 53 a b c d = II a b c d (x ! 3) S42 0x8f0ccc92"
  "md5_new x 54 a b c d = II a b c d (x ! 10) S43 0xffeff47d"
  "md5_new x 55 a b c d = II a b c d (x ! 1) S44 0x85845dd1"
  "md5_new x 56 a b c d = II a b c d (x ! 8) S41 0x6fa87e4f"
  "md5_new x 57 a b c d = II a b c d (x ! 15) S42 0xfe2ce6e0"
  "md5_new x 58 a b c d = II a b c d (x ! 6) S43 0xa3014314"
  "md5_new x 59 a b c d = II a b c d (x ! 13) S44 0x4e0811a1"
  "md5_new x 60 a b c d = II a b c d (x ! 4) S41 0xf7537e82"
  "md5_new x 61 a b c d = II a b c d (x ! 11) S42 0xbd3af235"
  "md5_new x 62 a b c d = II a b c d (x ! 2) S43 0x2ad7d2bb"
  "md5_new x 63 a b c d = II a b c d (x ! 9) S44 0xeb86d391"
  by (simp_all add: md5_new_def md5_shift_def md5_fun_def md5_word_def md5_K_def round_step MD5_F_def MD5_G_def MD5_H_def MD5_I_def xor.assoc)

lemma add_state_Let: "add_state s (let t = e in f t) = (let t = e in add_state s (f t))"
  by (simp add: Let_def)

lemma MD5Transform_md5_block:
  assumes "length block = 64"
  shows "MD5Transform st block = md5_block st block"
proof -
  obtain a b c d where st: "st = (a, b, c, d)" by (cases st)
  show ?thesis
    unfolding st md5_block_def MD5Transform_def upt_64 Decode_block [OF assms]
    by (simp only: foldl_md5_step md5_new_steps foldl.simps(1) add_state_Let add_state.simps Let_def [of "(a, b, c, d)"]
        prod.case Let_def [of a] Let_def [of b] Let_def [of c] Let_def [of d] Let_def [of "block_words block"])
qed

subsection \<open>Blocks\<close>

lemma blocks64_short [simp]: "length b < 64 \<Longrightarrow> blocks64 b = []"
  by (simp add: blocks64.simps)

lemma blocks64_one: "length b = 64 \<Longrightarrow> blocks64 (b @ r) = b # blocks64 r"
  by (subst blocks64.simps) simp

lemma blocks64_append: "length a mod 64 = 0 \<Longrightarrow> blocks64 (a @ b) = blocks64 a @ blocks64 b"
proof (induction a rule: blocks64.induct)
  case (1 a)
  show ?case
  proof (cases "length a < 64")
    case True
    with 1 have "a = []" by simp
    then show ?thesis by simp
  next
    case False
    have "(length a - 64) mod 64 = 0" using "1.prems" False by (simp add: le_mod_geq [symmetric] not_less)
    then have "blocks64 (drop 64 a @ b) = blocks64 (drop 64 a) @ blocks64 b" using "1.IH" False by simp
    moreover have "blocks64 (a @ b) = blocks64 (take 64 a @ drop 64 a @ b)" by (simp flip: append.assoc)
    ultimately show ?thesis using False blocks64_one [of "take 64 a" "drop 64 a @ b"]
      by (simp add: blocks64.simps [of a])
  qed
qed

text \<open>The full blocks of a message.\<close>

definition full :: "byte list \<Rightarrow> byte list" where "full m = take (64 * (length m div 64)) m"
definition rest :: "byte list \<Rightarrow> byte list" where "rest m = drop (64 * (length m div 64)) m"

lemma full_rest: "full m @ rest m = m" "length (full m) mod 64 = 0" "length (rest m) = length m mod 64"
  using times_div_less_eq_dividend [of 64 "length m"]
  by (simp_all add: full_def rest_def min_absorb2 minus_mult_div_eq_mod)

lemma blocks64_full: "blocks64 (m @ b) = blocks64 (full m) @ blocks64 (rest m @ b)"
  using blocks64_append [of "full m" "rest m @ b"] full_rest [of m] by (metis append.assoc)

lemma blocks64_full_eq: "blocks64 (full m) = blocks64 m"
  using blocks64_full [of m "[]"] full_rest [of m] by simp

lemma Update_loop_blocks:
  assumes "i \<le> n" "n \<le> length input" "n < 2 ^ 32" "n + 63 < 2 ^ 32 \<or> i mod 64 = 0"
  shows "Update_loop input n i st =
    Some (foldl md5_block st (blocks64 (DbPrelude.slice input i n)), i + 64 * ((n - i) div 64))"
  using assms
proof (induction input n i st rule: Update_loop.induct)
  case (1 input n i st)
  have "i + 63 < 2 ^ 32"
  proof (rule ccontr)
    assume "\<not> i + 63 < 2 ^ 32"
    with "1.prems" have i: "i mod 64 = 0" "2 ^ 32 - 64 < i" "i < 2 ^ 32" by auto
    then obtain k where "i = 64 * k" by (auto simp: mod_eq_0_iff_dvd dvd_def)
    with i show False by simp
  qed
  then have u: "u32 (int i + 63) = int (i + 63)" by (simp add: u32_def)
  have l: "length (DbPrelude.slice input i n) = n - i" using "1.prems" by (simp add: length_slice)
  show ?case
  proof (cases "i + 63 < n")
    case True
    have s: "DbPrelude.slice input i n = DbPrelude.slice input i (i + 64) @ DbPrelude.slice input (i + 64) n"
      using True by (intro slice_split) auto
    have l64: "length (DbPrelude.slice input i (i + 64)) = 64" using True "1.prems" by (simp add: length_slice)
    have "(n - i) div 64 = Suc ((n - (i + 64)) div 64)" using True by (simp add: le_div_geq)
    moreover have "Update_loop input n (i + 64) (MD5Transform st (DbPrelude.slice input i (i + 64))) =
      Some (foldl md5_block (MD5Transform st (DbPrelude.slice input i (i + 64))) (blocks64 (DbPrelude.slice input (i + 64) n)),
        i + 64 + 64 * ((n - (i + 64)) div 64))"
      using True u "1.prems" by (intro "1.IH") auto
    ultimately show ?thesis using True "1.prems" u
      by (simp add: Update_loop.simps [of _ _ i] s blocks64_one [OF l64] MD5Transform_md5_block [OF l64])
  next
    case False
    then show ?thesis using u l by (simp add: Update_loop.simps [of _ _ i])
  qed
qed


subsection \<open>The running context\<close>

definition ctx_of :: "MD5_CTX \<Rightarrow> byte list \<Rightarrow> bool" where
  "ctx_of ctx m \<longleftrightarrow> md5_st ctx = foldl md5_block md5_start (blocks64 m) \<and>
     count0 ctx = word_of_nat (8 * length m) \<and> count1 ctx = word_of_nat (8 * length m div 2 ^ 32) \<and>
     length (md5_buffer ctx) = 64 \<and> take (length m mod 64) (md5_buffer ctx) = rest m"

lemma md5_index: "unat (drop_bit 3 (word_of_nat (8 * n) :: UINT4) AND 0x3F) = n mod 64"
proof -
  have "unat (drop_bit 3 (word_of_nat (8 * n) :: UINT4) AND mask 6) = (8 * n mod 2 ^ 32) div 2 ^ 3 mod 2 ^ 6"
    by (simp only: take_bit_eq_mask [symmetric] unsigned_take_bit_eq unat_drop_bit_eq unat_of_nat32 take_bit_eq_mod [where 'a = nat] drop_bit_eq_div [where 'a = nat])
  also have "\<dots> = n mod 2 ^ 29 mod 2 ^ 6"
    using mod_mult_mult1 [of 8 n "2 ^ 29"] by simp
  also have "\<dots> = n mod 64"
    by (subst mod_mod_cancel) simp_all
  finally show ?thesis by (simp add: mask_eq_exp_minus_1)
qed

lemma carry:
  assumes "a < k" "b < (k :: nat)"
  shows "(a + b) mod k < b \<longleftrightarrow> k \<le> a + b" and "(a + b) div k = (if k \<le> a + b then 1 else 0)"
proof -
  have "(a + b) mod k = (if k \<le> a + b then a + b - k else a + b) \<and> (a + b) div k = (if k \<le> a + b then 1 else 0)"
  proof (cases "k \<le> a + b")
    case True
    then show ?thesis using assms le_mod_geq [of k "a + b"] le_div_geq [of k "a + b"] by simp
  qed simp
  then show "(a + b) mod k < b \<longleftrightarrow> k \<le> a + b" "(a + b) div k = (if k \<le> a + b then 1 else 0)"
    using assms by auto
qed

lemma md5_count:
  assumes "n < 2 ^ 32"
  shows "(word_of_nat (8 * m) :: UINT4) + push_bit 3 (word_of_nat n) = word_of_nat (8 * (m + n))"
    and "(if (word_of_nat (8 * m) :: UINT4) + push_bit 3 (word_of_nat n) < push_bit 3 (word_of_nat n)
          then (word_of_nat (8 * m div 2 ^ 32) :: UINT4) + 1 else word_of_nat (8 * m div 2 ^ 32)) + drop_bit 29 (word_of_nat n) =
        word_of_nat (8 * (m + n) div 2 ^ 32)"
proof -
  let ?B = "push_bit 3 (word_of_nat n :: UINT4)" and ?A = "word_of_nat (8 * m) :: UINT4"
  have B: "?B = word_of_nat (8 * n)" by (simp add: push_bit_eq_mult mult.commute)
  show s: "?A + ?B = word_of_nat (8 * (m + n))" unfolding B by (simp add: algebra_simps flip: of_nat_add of_nat_mult)
  have d: "drop_bit 29 (word_of_nat n :: UINT4) = word_of_nat (n div 2 ^ 29)"
  proof (rule word_unat_eq_iff [THEN iffD2])
    have "n div 2 ^ 29 < 2 ^ 32" using assms by (simp add: div_less_mono less_mult_imp_div_less)
    then show "unat (drop_bit 29 (word_of_nat n :: UINT4)) = unat (word_of_nat (n div 2 ^ 29) :: UINT4)"
      using assms by (simp only: unat_drop_bit_eq unat_of_nat32 drop_bit_eq_div [where 'a = nat] mod_less)
  qed
  let ?a = "8 * m mod 2 ^ 32" and ?b = "8 * n mod 2 ^ 32"
  have ab: "?a < 2 ^ 32" "?b < 2 ^ 32" by simp_all
  have "8 * (m + n) mod 2 ^ 32 = (?a + ?b) mod 2 ^ 32" unfolding distrib_left by (rule mod_add_eq [symmetric])
  with carry(1) [OF ab] have less: "?A + ?B < ?B \<longleftrightarrow> 2 ^ 32 \<le> ?a + ?b"
    unfolding s unfolding B word_less_nat_alt unat_of_nat32 by simp
  have "8 * (m + n) div 2 ^ 32 = 8 * m div 2 ^ 32 + 8 * n div 2 ^ 32 + (?a + ?b) div 2 ^ 32"
    unfolding distrib_left by (rule div_add1_eq)
  moreover have "(?a + ?b) div 2 ^ 32 = (if 2 ^ 32 \<le> ?a + ?b then 1 else 0)"
    by (rule carry(2) [OF ab])
  moreover have "8 * n div 2 ^ 32 = n div 2 ^ 29" using div_mult_mult1 [of 8 n "2 ^ 29"] by simp
  ultimately show "(if ?A + ?B < ?B then (word_of_nat (8 * m div 2 ^ 32) :: UINT4) + 1 else word_of_nat (8 * m div 2 ^ 32)) +
      drop_bit 29 (word_of_nat n) = word_of_nat (8 * (m + n) div 2 ^ 32)"
    unfolding less d by simp
qed


text \<open>What is left after the blocks of \<open>rest m @ b\<close>.\<close>

lemma rest_aligned:
  assumes "length f mod 64 = 0"
  shows "rest (f @ u) = rest u"
proof -
  from assms obtain k where k: "length f = 64 * k" by (auto simp: mod_eq_0_iff_dvd dvd_def)
  then have "(length f + length u) div 64 = k + length u div 64" by simp
  then show ?thesis by (simp add: rest_def k add_mult_distrib2)
qed

lemma rest_append: "rest (m @ b) = rest (rest m @ b)"
  using rest_aligned [of "full m" "rest m @ b"] full_rest [of m] by (metis append.assoc)

lemma rest_append_short: "length m mod 64 + length b < 64 \<Longrightarrow> rest (m @ b) = rest m @ b"
  unfolding rest_append [of m] by (subst rest_def) (simp add: full_rest(3))

lemma blocks64_append_short:
  assumes "length m mod 64 + length b < 64"
  shows "blocks64 (m @ b) = blocks64 m"
  using blocks64_full [of m b] assms by (simp add: full_rest blocks64_full_eq)

lemma length_memcpy [simp]: "off + len \<le> length out \<Longrightarrow> len \<le> length inp \<Longrightarrow> length (MD5_memcpy out off inp len) = length out"
  by (simp add: MD5_memcpy_def)

lemma ctx_ofI:
  "st = foldl md5_block md5_start (blocks64 m) \<Longrightarrow> length buf = 64 \<Longrightarrow> take (length m mod 64) buf = rest m \<Longrightarrow>
    ctx_of (ctx\<lparr>count0 := word_of_nat (8 * length m), count1 := word_of_nat (8 * length m div 2 ^ 32), md5_st := st,
      md5_buffer := buf\<rparr>) m"
  by (simp add: ctx_of_def)

text \<open>What is left for the buffer when the blocks from \<open>p\<close> on are done.\<close>

lemma update_rest:
  fixes b m :: "byte list" and n p :: nat
  defines "s \<equiv> DbPrelude.slice b p n"
  assumes j: "j = p + 64 * ((n - p) div 64)" and p: "p \<le> n" "n \<le> length b"
    and buf: "length buf = 64" "rest m @ take n b = buf @ s"
  shows "rest (m @ take n b) = drop j (take n b)" and "j \<le> n" and "n - j = length (m @ take n b) mod 64"
proof -
  have "length s = n - p" using p by (simp add: s_def length_slice)
  then have "rest (m @ take n b) = drop (64 * ((n - p) div 64)) s"
    using rest_aligned [of buf s] buf(1) rest_append [of m "take n b"] buf(2) by (simp add: rest_def [of s])
  then show r: "rest (m @ take n b) = drop j (take n b)" by (simp add: j s_def DbPrelude.slice_def drop_take ac_simps)
  have "64 * q \<le> n - p \<Longrightarrow> p \<le> n \<Longrightarrow> p + 64 * q \<le> n" for q :: nat by simp
  then show "j \<le> n" unfolding j using times_div_less_eq_dividend p(1) by blast
  have "length (rest (m @ take n b)) = length (m @ take n b) mod 64" by (rule full_rest(3))
  then show "n - j = length (m @ take n b) mod 64" unfolding r using p(2) by simp
qed

lemma MD5Update_ctx:
  assumes "ctx_of ctx m" "n \<le> length b" "n < 2 ^ 32" "n + 63 < 2 ^ 32 \<or> length m mod 64 = 0"
  shows "\<exists>ctx'. MD5Update ctx b n = Some ctx' \<and> ctx_of ctx' (m @ take n b)"
proof -
  let ?i = "length m mod 64" and ?b = "take n b"
  have c: "md5_st ctx = foldl md5_block md5_start (blocks64 m)" "length (md5_buffer ctx) = 64"
      "take ?i (md5_buffer ctx) = rest m"
    and c0: "count0 ctx = word_of_nat (8 * length m)" and c1: "count1 ctx = word_of_nat (8 * length m div 2 ^ 32)"
    using assms(1) by (simp_all only: ctx_of_def)
  note cnt = md5_count [OF assms(3), of "length m"]
  have len: "length (m @ ?b) = length m + n" using assms(2) by simp
  let ?c = "ctx\<lparr>count0 := word_of_nat (8 * length (m @ ?b)), count1 := word_of_nat (8 * length (m @ ?b) div 2 ^ 32)\<rparr>"
  have upd: "MD5Update ctx b n = (if 64 - ?i \<le> n
       then let buffer = MD5_memcpy (md5_buffer ctx) ?i b (64 - ?i); state = MD5Transform (md5_st ctx) buffer
            in map_option (\<lambda>(state, i). ?c\<lparr>md5_st := state, md5_buffer := MD5_memcpy buffer 0 (drop i b) (n - i)\<rparr>)
                 (Update_loop b n (64 - ?i) state)
       else Some (?c\<lparr>md5_buffer := MD5_memcpy (md5_buffer ctx) ?i b n\<rparr>))"
    unfolding MD5Update_def Let_def c0 c1 md5_index cnt(1) cnt(2) [unfolded cnt(1)] len by simp
  show ?thesis
  proof (cases "64 - ?i \<le> n")
    case False
    then have s: "?i + length ?b < 64" by simp
    have "ctx_of (?c\<lparr>md5_buffer := MD5_memcpy (md5_buffer ctx) ?i b n\<rparr>) (m @ ?b)"
    proof -
      have "length (m @ ?b) mod 64 = ?i + n"
        using full_rest(3) [of "m @ ?b"] full_rest(3) [of m] assms(2) unfolding rest_append_short [OF s] by simp
      then show ?thesis using c s assms(2) by (simp add: ctx_of_def blocks64_append_short rest_append_short MD5_memcpy_def full_rest(3))
    qed
    then show ?thesis unfolding upd using False by simp
  next
    case True
    let ?p = "64 - ?i"
    let ?buf = "MD5_memcpy (md5_buffer ctx) ?i b ?p"
    have buf: "?buf = rest m @ take ?p b" using c True assms(2) by (simp add: MD5_memcpy_def)
    have p: "?i < 64" by simp
    have lb: "length ?buf = 64" unfolding buf using p True assms(2) by (simp add: full_rest(3))
    have mb: "rest m @ ?b = ?buf @ DbPrelude.slice b ?p n"
      unfolding buf using slice_split [of 0 ?p n b] True by (simp add: DbPrelude.slice_def)
    have st: "foldl md5_block (MD5Transform (md5_st ctx) ?buf) (blocks64 (DbPrelude.slice b ?p n)) =
        foldl md5_block md5_start (blocks64 (m @ ?b))"
      using blocks64_full [of m ?b] c unfolding mb blocks64_one [OF lb] blocks64_full_eq
      by (simp add: MD5Transform_md5_block [OF lb])
    define j where j: "j = ?p + 64 * ((n - ?p) div 64)"
    have loop: "Update_loop b n ?p (MD5Transform (md5_st ctx) ?buf) =
        Some (foldl md5_block (MD5Transform (md5_st ctx) ?buf) (blocks64 (DbPrelude.slice b ?p n)), j)"
      unfolding j
    proof (rule Update_loop_blocks)
      show "n + 63 < 2 ^ 32 \<or> ?p mod 64 = 0" using assms(4) by auto
    qed (use True assms in simp_all)
    note r = update_rest(1) [OF j True assms(2) lb mb] and jn = update_rest(2,3) [OF j True assms(2) lb mb]
    let ?new = "MD5_memcpy ?buf 0 (drop j b) (n - j)"
    have nj: "n - j < 64" unfolding jn(2) by simp
    have "length ?new = 64" using nj lb assms(2) by (subst length_memcpy) simp_all
    moreover have "take (length (m @ ?b) mod 64) ?new = rest (m @ ?b)"
      unfolding jn(2) [symmetric] r drop_take by (simp add: MD5_memcpy_def min_absorb1 assms(2) diff_le_mono)
    ultimately have "ctx_of (?c\<lparr>md5_st := foldl md5_block md5_start (blocks64 (m @ ?b)), md5_buffer := ?new\<rparr>) (m @ ?b)"
      by (intro ctx_ofI refl)
    then show ?thesis unfolding upd Let_def if_P [OF True] loop st by simp
  qed
qed


subsection \<open>Padding and the digest\<close>

lemma Encode_count: "Encode [word_of_nat (8 * n), word_of_nat (8 * n div 2 ^ 32)] 8 = md5_length n"
proof -
  have d: "8 * n div 2 ^ 32 div 2 ^ k = 8 * n div 2 ^ (32 + k)" for k
    by (simp add: div_mult2_eq power_add)
  have p: "256 ^ k = (2 ^ (8 * k) :: nat)" for k by (simp add: power_mult)
  have u: "[0..<8] = [0, 1, 2, 3, 4, 5, 6, 7::nat]" by code_simp
  have enc: "Encode [w, w'] 8 = Encode4 w @ Encode4 w'" for w w' by (simp add: Encode_def)
  have e4: "Encode4 (word_of_nat c) = [word_of_nat c, word_of_nat (c div 2 ^ 8), word_of_nat (c div 2 ^ 16), word_of_nat (c div 2 ^ 24)]" for c
    using byte_of_word [of 0 c] byte_of_word [of 8 c] byte_of_word [of 16 c] byte_of_word [of 24 c] by (simp add: Encode4_def)
  show ?thesis unfolding md5_length_def u p enc e4 d by simp
qed

lemma pad_len: "i < 64 \<Longrightarrow> (119 - i) mod 64 = (if i < 56 then 56 - i else 120 - i) - (1 :: nat)"
  by (cases "i < 56") (simp_all add: le_mod_geq)

lemma PADDING_take: "0 < n \<Longrightarrow> n \<le> 64 \<Longrightarrow> take n PADDING = 0x80 # replicate (n - 1) 0"
  by (cases n) (simp_all add: PADDING_def)

lemma MD5Final_ctx:
  assumes "ctx_of ctx m"
  shows "MD5Final ctx = Some (md5 m)"
proof -
  let ?i = "length m mod 64"
  define p where "p = (if ?i < 56 then 56 - ?i else 120 - ?i)"
  have i: "?i < 64" by simp
  then have p: "p - 1 = (119 - ?i) mod 64" unfolding p_def by (rule pad_len [symmetric])
  have "0 < p \<and> p \<le> 64" if "i < 64" "p = (if i < 56 then 56 - i else 120 - i)" for i using that by auto
  from this [OF i p_def] have p': "0 < p" "p \<le> 64" by auto
  have c0: "count0 ctx = word_of_nat (8 * length m)" and c1: "count1 ctx = word_of_nat (8 * length m div 2 ^ 32)"
    using assms by (simp_all only: ctx_of_def)
  have "length PADDING = 64" by (simp add: PADDING_def)
  with MD5Update_ctx [OF assms, of p PADDING] p' obtain ctx1 where
    1: "MD5Update ctx PADDING p = Some ctx1" "ctx_of ctx1 (m @ take p PADDING)" by auto
  have l: "length (md5_length (length m)) = 8" by (simp add: md5_length_def)
  with MD5Update_ctx [OF 1(2), of 8 "md5_length (length m)"] obtain ctx2 where
    2: "MD5Update ctx1 (md5_length (length m)) 8 = Some ctx2" "ctx_of ctx2 ((m @ take p PADDING) @ md5_length (length m))"
    by auto
  have "(m @ take p PADDING) @ md5_length (length m) = md5_pad m"
    using p p' by (simp add: md5_pad_def PADDING_take)
  with 2(2) have "md5_st ctx2 = foldl md5_block md5_start (blocks64 (md5_pad m))"
    by (simp add: ctx_of_def)
  moreover have "Encode [a, b, c, d] 16 = concat (map le_bytes [a, b, c, d])" for a b c d by (simp add: Encode_def Encode4_le_bytes)
  ultimately show ?thesis
    unfolding MD5Final_def Let_def c0 c1 md5_index Encode_count p_def [symmetric] 1(1) md5_def by (simp add: 2(1) case_prod_beta)
qed

lemma ctx_of_Init: "ctx_of MD5Init []"
  using MD5Init_start by (simp add: ctx_of_def MD5Init_def rest_def)

text \<open>C27: The MD5 functions compute the digest of RFC 1321, which theory Rfc1321 states on its own, for every text
  shorter than \<open>2 ^ 32\<close> bytes: the byte form gives its 16 bytes and the string form their 32 lower-case
  hexadecimal digits, and no byte outside the text is read.\<close>

theorem sip_md5_rfc1321:
  assumes "length s < 2 ^ 32"
  shows "SipMd5Byte s = Some (md5 (bytes_of s)) \<and>
    SipMd5String s = Some (concat (map (\<lambda>b. show_hex2 (unat b)) (md5 (bytes_of s))))"
proof -
  have n: "nat (u32 (int (length s))) = length s" using assms by (simp add: u32_def)
  have "length (bytes_of s) = length s" by (simp add: bytes_of_def)
  with MD5Update_ctx [OF ctx_of_Init, of "length s" "bytes_of s"] assms obtain ctx where
    "MD5Update MD5Init (bytes_of s) (length s) = Some ctx" "ctx_of ctx (bytes_of s)" by auto
  then show ?thesis unfolding SipMd5Byte_def SipMd5String_def n by (simp add: MD5Final_ctx)
qed

theorem sip_md5_rfc1321_witness: "SipMd5String ''abc'' = Some ''900150983cd24fb0d6963f7d28e17f72''"
proof -
  have "bytes_of ''abc'' = [0x61, 0x62, 0x63]" by (simp add: bytes_of_def of_char_def)
  with sip_md5_rfc1321 [of "''abc''"] show ?thesis by (simp add: md5_abc show_hex2_def hex_digit_def char_of_def bit_iff_odd)
qed

end
