(* ===== verification/FileSystem.thy ===== *)
theory FileSystem
  imports StringUtility
begin

text \<open>
  The part of the operating system's file interface that SipPlatform calls: a tree of
  directories and regular files of given sizes (there are no links, and relative names start
  at the root of the tree), \<open>stat\<close>, \<open>mkdir\<close>, \<open>rmdir\<close>, \<open>unlink\<close>, \<open>opendir\<close> with \<open>readdir\<close>, and a file
  opened for appending. What the tree does not decide (permissions, the \<open>st_size\<close> of a
  directory) is asked from the record \<open>os\<close>, one function of the path per call.
\<close>

datatype fnode = File int | Dir "(string \<times> fnode) list"

record os =
  may_mkdir :: "string \<Rightarrow> bool"
  may_unlink :: "string \<Rightarrow> bool"
  may_rmdir :: "string \<Rightarrow> bool"
  may_read :: "string \<Rightarrow> bool"
  may_open :: "string \<Rightarrow> bool"
  dir_st_size :: "string \<Rightarrow> int"

text \<open>The components of a path; empty ones do not count.\<close>

definition comps :: "string \<Rightarrow> string list" where
  "comps p = filter (\<lambda>x. x \<noteq> []) (split_on (CHR ''/'') p)"

fun lookup :: "fnode \<Rightarrow> string list \<Rightarrow> fnode option" where
  "lookup n [] = Some n"
| "lookup (File s) (c # cs) = None"
| "lookup (Dir es) (c # cs) = (case map_of es c of None \<Rightarrow> None | Some n \<Rightarrow> lookup n cs)"

definition stat :: "fnode \<Rightarrow> string \<Rightarrow> fnode option" where
  "stat fs p = (if p = [] then None else lookup fs (comps p))"

text \<open>An entry of a directory set or removed, and the same at the end of a path.\<close>

fun set_entry :: "string \<Rightarrow> fnode option \<Rightarrow> (string \<times> fnode) list \<Rightarrow> (string \<times> fnode) list" where
  "set_entry c None [] = []"
| "set_entry c (Some n) [] = [(c, n)]"
| "set_entry c x ((k, m) # es) =
     (if k = c then (case x of None \<Rightarrow> es | Some n \<Rightarrow> (k, n) # es) else (k, m) # set_entry c x es)"

fun put_node :: "string list \<Rightarrow> fnode option \<Rightarrow> fnode \<Rightarrow> fnode" where
  "put_node [] x n = n"
| "put_node (c # cs) x (File s) = File s"
| "put_node (c # cs) x (Dir es) =
     (if cs = [] then Dir (set_entry c x es)
      else case map_of es c of None \<Rightarrow> Dir es | Some n \<Rightarrow> Dir (set_entry c (Some (put_node cs x n)) es))"

definition is_dir :: "fnode option \<Rightarrow> bool" where
  "is_dir x \<longleftrightarrow> (case x of Some (Dir es) \<Rightarrow> True | _ \<Rightarrow> False)"

text \<open>The calls that change the tree: the new tree, or \<open>None\<close> for an error.\<close>

definition mkdir :: "os \<Rightarrow> string \<Rightarrow> fnode \<Rightarrow> fnode option" where
  "mkdir os p fs =
     (if may_mkdir os p \<and> p \<noteq> [] \<and> comps p \<noteq> [] \<and> lookup fs (comps p) = None \<and> is_dir (lookup fs (butlast (comps p)))
      then Some (put_node (comps p) (Some (Dir [])) fs) else None)"

definition unlink :: "os \<Rightarrow> string \<Rightarrow> fnode \<Rightarrow> fnode option" where
  "unlink os p fs = (case stat fs p of
       Some (File s) \<Rightarrow> if may_unlink os p then Some (put_node (comps p) None fs) else None
     | _ \<Rightarrow> None)"

definition rmdir :: "os \<Rightarrow> string \<Rightarrow> fnode \<Rightarrow> fnode option" where
  "rmdir os p fs =
     (if may_rmdir os p \<and> stat fs p = Some (Dir []) \<and> comps p \<noteq> [] then Some (put_node (comps p) None fs) else None)"

definition opendir :: "os \<Rightarrow> string \<Rightarrow> fnode \<Rightarrow> (string \<times> fnode) list option" where
  "opendir os p fs = (case stat fs p of Some (Dir es) \<Rightarrow> if may_read os p then Some es else None | _ \<Rightarrow> None)"

text \<open>\<open>fopen( p, "ab" )\<close>: the file is created when it does not exist.\<close>

definition fopen_append :: "os \<Rightarrow> string \<Rightarrow> fnode \<Rightarrow> fnode option" where
  "fopen_append os p fs =
     (if \<not> may_open os p \<or> p = [] then None
      else case lookup fs (comps p) of
          Some (File s) \<Rightarrow> Some fs
        | Some (Dir es) \<Rightarrow> None
        | None \<Rightarrow> if is_dir (lookup fs (butlast (comps p))) then Some (put_node (comps p) (Some (File 0)) fs) else None)"

text \<open>A write of \<open>n\<close> bytes to the open file; a file that was unlinked is not in the tree any more.\<close>

definition fappend :: "string \<Rightarrow> int \<Rightarrow> fnode \<Rightarrow> fnode" where
  "fappend p n fs = (case stat fs p of Some (File s) \<Rightarrow> put_node (comps p) (Some (File (s + n))) fs | _ \<Rightarrow> fs)"

text \<open>Ignoring the error of a call, as the sources do with \<open>unlink\<close> and \<open>rmdir\<close>.\<close>

definition attempt :: "(fnode \<Rightarrow> fnode option) \<Rightarrow> fnode \<Rightarrow> fnode" where
  "attempt f fs = (case f fs of None \<Rightarrow> fs | Some fs' \<Rightarrow> fs')"

subsection \<open>Looking up after an update\<close>

lemma map_of_set_entry_Some: "map_of (set_entry c (Some n) es) k = (if k = c then Some n else map_of es k)"
  by (induction c "Some n" es rule: set_entry.induct) auto

lemma map_of_set_entry_None: "distinct (map fst es) \<Longrightarrow> map_of (set_entry c None es) k = (if k = c then None else map_of es k)"
proof (induction es)
  case (Cons e es)
  then have "map_of es (fst e) = None" by (simp add: map_of_eq_None_iff)
  with Cons show ?case by (cases e) auto
qed simp

lemma map_of_set_entry:
  "distinct (map fst es) \<Longrightarrow> map_of (set_entry c x es) k = (if k = c then x else map_of es k)"
  by (cases x) (simp_all add: map_of_set_entry_Some map_of_set_entry_None)

lemma fst_set_entry: "set (map fst (set_entry c x es)) \<subseteq> insert c (set (map fst es))"
  by (induction c x es rule: set_entry.induct) (auto split: option.splits)

lemma distinct_set_entry: "distinct (map fst es) \<Longrightarrow> distinct (map fst (set_entry c x es))"
proof (induction c x es rule: set_entry.induct)
  case (3 c x k m es)
  then show ?case using fst_set_entry [of c x es] by (auto split: option.splits)
qed auto

text \<open>Trees whose directories list no name twice.\<close>

fun tree_ok :: "fnode \<Rightarrow> bool" where
  "tree_ok (File s) = True"
| "tree_ok (Dir es) = (distinct (map fst es) \<and> (\<forall>(k, n) \<in> set es. tree_ok n))"

lemma tree_ok_map_of: "tree_ok (Dir es) \<Longrightarrow> map_of es c = Some n \<Longrightarrow> tree_ok n"
  by (auto dest: map_of_SomeD)

lemma tree_ok_lookup: "tree_ok n \<Longrightarrow> lookup n p = Some m \<Longrightarrow> tree_ok m"
  by (induction n p rule: lookup.induct) (auto split: option.splits dest: map_of_SomeD)

lemma set_entry_ok:
  "\<forall>(k, n) \<in> set es. Q n \<Longrightarrow> (\<And>n. x = Some n \<Longrightarrow> Q n) \<Longrightarrow> \<forall>(k, n) \<in> set (set_entry c x es). Q n"
  by (induction c x es rule: set_entry.induct) (auto split: option.splits)

lemma tree_ok_put: "tree_ok n \<Longrightarrow> (\<And>m. x = Some m \<Longrightarrow> tree_ok m) \<Longrightarrow> tree_ok (put_node p x n)"
proof (induction p x n rule: put_node.induct)
  case (3 c cs x es)
  show ?case
  proof (cases "cs = []")
    case True
    then show ?thesis using 3 set_entry_ok [of es tree_ok x c] by (simp add: distinct_set_entry)
  next
    case False
    then show ?thesis
    proof (cases "map_of es c")
      case (Some n)
      then have "tree_ok (put_node cs x n)" using 3 False tree_ok_map_of [OF "3.prems"(1) Some] by blast
      then show ?thesis
        using False Some "3.prems"(1) set_entry_ok [of es tree_ok "Some (put_node cs x n)" c] by (simp add: distinct_set_entry)
    qed (use 3 in simp)
  qed
qed auto

text \<open>After \<open>put_node p x\<close>, the path \<open>p\<close> holds \<open>x\<close> if its parent is a directory, and the paths that do
  not start with \<open>p\<close> are as before, up to the entries of the directories on the way.\<close>

lemma lookup_put_same:
  "p \<noteq> [] \<Longrightarrow> is_dir (lookup n (butlast p)) \<Longrightarrow> tree_ok n \<Longrightarrow> lookup (put_node p x n) p = x"
proof (induction p x n rule: put_node.induct)
  case (2 c cs x s)
  then show ?case by (cases cs) (auto simp: is_dir_def)
next
  case (3 c cs x es)
  then have d: "distinct (map fst es)" by simp
  show ?case
  proof (cases "cs = []")
    case True
    then show ?thesis using d by (simp add: map_of_set_entry split: option.split)
  next
    case False
    with "3.prems"(2) obtain n where n: "map_of es c = Some n" "is_dir (lookup n (butlast cs))"
      by (auto simp: is_dir_def split: option.splits)
    from "3.IH" [OF False n(1) False n(2)] tree_ok_map_of [OF "3.prems"(3) n(1)] False n(1) d
    show ?thesis by (simp add: map_of_set_entry)
  qed
qed simp

text \<open>\<open>kind\<close> forgets the entries of a directory.\<close>

definition kind :: "fnode option \<Rightarrow> int option option" where
  "kind x = map_option (\<lambda>n. case n of File s \<Rightarrow> Some s | Dir es \<Rightarrow> None) x"

lemma kind_simps [simp]: "kind None = None" "kind (Some (File s)) = Some (Some s)" "kind (Some (Dir es)) = Some None"
  by (simp_all add: kind_def)

lemma kind_put_other:
  "\<not> prefix p q \<Longrightarrow> tree_ok n \<Longrightarrow> kind (lookup (put_node p x n) q) = kind (lookup n q)"
proof (induction p x n arbitrary: q rule: put_node.induct)
  case (3 c cs x es)
  then have d: "distinct (map fst es)" by simp
  show ?case
  proof (cases q)
    case Nil
    then show ?thesis by (simp split: option.split)
  next
    case (Cons a q')
    show ?thesis
    proof (cases "cs = []")
      case True
      then show ?thesis using "3.prems"(1) d Cons by (auto simp: map_of_set_entry split: option.split)
    next
      case False
      note cs = False
      show ?thesis
      proof (cases "map_of es c")
        case None
        then show ?thesis using cs by simp
      next
        case (Some n)
        show ?thesis
        proof (cases "a = c")
          case True
          with "3.prems"(1) Cons have "\<not> prefix cs q'" by simp
          from "3.IH" [OF cs Some this tree_ok_map_of [OF "3.prems"(2) Some]] show ?thesis
            using True Cons cs Some d by (simp add: map_of_set_entry)
        next
          case False
          then show ?thesis using Cons cs Some d by (simp add: map_of_set_entry)
        qed
      qed
    qed
  qed
qed auto

subsection \<open>Well-formed trees\<close>

lemma lookup_append: "lookup n (p @ r) = (case lookup n p of None \<Rightarrow> None | Some m \<Rightarrow> lookup m r)"
  by (induction n p rule: lookup.induct) (auto split: option.split)

lemma lookup_parent: "p \<noteq> [] \<Longrightarrow> lookup n p \<noteq> None \<Longrightarrow> is_dir (lookup n (butlast p))"
proof -
  assume p: "p \<noteq> []" "lookup n p \<noteq> None"
  then obtain q c where q: "p = q @ [c]" by (cases p rule: rev_cases) auto
  with p obtain m where m: "lookup n q = Some m" "lookup m [c] \<noteq> None"
    by (auto simp: lookup_append split: option.splits)
  then show ?thesis by (cases m) (auto simp: q is_dir_def)
qed

lemma kind_put_file:
  assumes "tree_ok n" and "is_dir (lookup n (butlast p))" and "p \<noteq> []" and "x = None \<or> (\<exists>s. x = Some (File s))"
  shows "kind (lookup (put_node p x n) q) =
    (if q = p then kind x else if prefix p q then None else kind (lookup n q))"
proof (cases "prefix p q")
  case True
  then obtain r where r: "q = p @ r" by (auto simp: prefix_def)
  have "lookup (put_node p x n) p = x" by (rule lookup_put_same) (use assms in auto)
  with r assms(4) show ?thesis by (cases r) (auto simp: lookup_append)
next
  case False
  then show ?thesis using kind_put_other [OF False assms(1)] by auto
qed

text \<open>No two entries of a directory have the same name, the root is a directory and sizes are not
  negative.\<close>

definition fs_ok :: "fnode \<Rightarrow> bool" where
  "fs_ok fs \<longleftrightarrow> tree_ok fs \<and> is_dir (Some fs) \<and> (\<forall>q s. kind (lookup fs q) = Some (Some s) \<longrightarrow> 0 \<le> s)"

lemma kind_cases: obtains "x = None" | s where "x = Some (File s)" | es where "x = Some (Dir es)"
  by (metis fnode.exhaust option.exhaust)

lemma is_dir_kind: "is_dir x \<longleftrightarrow> kind x = Some None"
  by (cases x rule: kind_cases) (auto simp: is_dir_def)

lemma kind_file_iff: "kind x = Some (Some s) \<longleftrightarrow> x = Some (File s)"
  by (cases x rule: kind_cases) auto

lemma kind_None_iff [simp]: "kind x = None \<longleftrightarrow> x = None"
  by (cases x rule: kind_cases) auto

lemma fs_ok_put_file:
  assumes "fs_ok fs" and "p \<noteq> []" and "is_dir (lookup fs (butlast p))" and "x = None \<or> (\<exists>s. x = Some (File s) \<and> 0 \<le> s)"
  shows "fs_ok (put_node p x fs)"
proof -
  have x: "x = None \<or> (\<exists>s. x = Some (File s))" using assms(4) by auto
  have k: "kind (lookup (put_node p x fs) q) = (if q = p then kind x else if prefix p q then None else kind (lookup fs q))" for q
    by (rule kind_put_file) (use assms x in \<open>auto simp: fs_ok_def\<close>)
  have "tree_ok (put_node p x fs)" by (rule tree_ok_put) (use assms in \<open>auto simp: fs_ok_def\<close>)
  moreover have "kind (lookup (put_node p x fs) []) = Some None"
    using k [of "[]"] assms by (auto simp: fs_ok_def is_dir_kind)
  ultimately show ?thesis using k assms by (auto simp: fs_ok_def is_dir_kind)
qed

subsection \<open>Removing and writing files\<close>

text \<open>\<open>files_removed fs fs'\<close>: every path is as it was, except that some files are gone.\<close>

definition files_removed :: "fnode \<Rightarrow> fnode \<Rightarrow> bool" where
  "files_removed fs fs' \<longleftrightarrow> (\<forall>q. kind (stat fs' q) = kind (stat fs q) \<or>
     kind (stat fs' q) = None \<and> (\<exists>s. kind (stat fs q) = Some (Some s)))"

lemma files_removed_refl [simp]: "files_removed fs fs"
  by (simp add: files_removed_def)

lemma files_removed_trans: "files_removed a b \<Longrightarrow> files_removed b c \<Longrightarrow> files_removed a c"
  unfolding files_removed_def by (metis option.distinct(1))

lemma stat_Some_kind: "stat fs p = Some (File s) \<longleftrightarrow> kind (stat fs p) = Some (Some s)"
  by (simp add: kind_file_iff)

lemma unlink_Some:
  assumes "unlink os p fs = Some fs'" and "fs_ok fs"
  shows "fs_ok fs'" and "\<exists>s. stat fs p = Some (File s)"
    and "kind (stat fs' q) = (if q \<noteq> [] \<and> comps q = comps p then None else kind (stat fs q))"
    and "files_removed fs fs'"
proof -
  obtain s where s: "stat fs p = Some (File s)" and fs': "fs' = put_node (comps p) None fs"
    using assms(1) by (auto simp: unlink_def split: option.splits fnode.splits if_splits)
  have p: "p \<noteq> []" "lookup fs (comps p) = Some (File s)" using s by (auto simp: stat_def split: if_splits)
  have c: "comps p \<noteq> []" using p assms(2) by (auto simp: fs_ok_def is_dir_def)
  have d: "is_dir (lookup fs (butlast (comps p)))" by (rule lookup_parent) (use c p in auto)
  have k: "kind (lookup fs' q) = (if q = comps p then None else if prefix (comps p) q then None else kind (lookup fs q))" for q
    unfolding fs' using assms(2) d c by (subst kind_put_file) (auto simp: fs_ok_def)
  have below: "lookup fs q = None" if "prefix (comps p) q" "q \<noteq> comps p" for q
  proof -
    from that(1) obtain t where t: "q = comps p @ t" by (rule prefixE)
    with that(2) obtain c r where "t = c # r" by (cases t) auto
    with t have "q = comps p @ c # r" by simp
    then show ?thesis by (simp only: lookup_append p(2) option.case lookup.simps)
  qed
  show "fs_ok fs'" unfolding fs' using assms(2) c d by (intro fs_ok_put_file) auto
  show "\<exists>s. stat fs p = Some (File s)" using s by blast
  show q: "kind (stat fs' q) = (if q \<noteq> [] \<and> comps q = comps p then None else kind (stat fs q))" for q
    using k [of "comps q"] below [of "comps q"] by (auto simp: stat_def)
  show "files_removed fs fs'" using q p by (auto simp: files_removed_def stat_def)
qed

lemma attempt_unlink:
  assumes "fs_ok fs"
  shows "fs_ok (attempt (unlink os p) fs)" and "files_removed fs (attempt (unlink os p) fs)"
  using unlink_Some [of os p fs] assms by (auto simp: attempt_def split: option.splits)

lemma below_file: "lookup fs p = Some (File s) \<Longrightarrow> prefix p q \<Longrightarrow> q \<noteq> p \<Longrightarrow> lookup fs q = None"
proof -
  assume p: "lookup fs p = Some (File s)" and q: "prefix p q" "q \<noteq> p"
  from q(1) obtain t where t: "q = p @ t" by (rule prefixE)
  with q(2) obtain c r where "t = c # r" by (cases t) auto
  with t have "q = p @ c # r" by simp
  then show ?thesis by (simp only: lookup_append p option.case lookup.simps)
qed

lemma below_none: "lookup fs p = None \<Longrightarrow> prefix p q \<Longrightarrow> lookup fs q = None"
  by (auto simp: prefix_def lookup_append)

text \<open>A file put at a path where there was a file or nothing.\<close>

lemma put_file_stat:
  assumes "fs_ok fs" and "p \<noteq> []" and "comps p \<noteq> []" and "is_dir (lookup fs (butlast (comps p)))" and "0 \<le> s"
    and "lookup fs (comps p) = None \<or> (\<exists>t. lookup fs (comps p) = Some (File t))"
  shows "fs_ok (put_node (comps p) (Some (File s)) fs)"
    and "kind (stat (put_node (comps p) (Some (File s)) fs) q) =
      (if q \<noteq> [] \<and> comps q = comps p then Some (Some s) else kind (stat fs q))"
proof -
  have k: "kind (lookup (put_node (comps p) (Some (File s)) fs) q) =
    (if q = comps p then Some (Some s) else if prefix (comps p) q then None else kind (lookup fs q))" for q
    using assms by (subst kind_put_file) (auto simp: fs_ok_def)
  have below: "lookup fs q = None" if "prefix (comps p) q" "q \<noteq> comps p" for q
    using assms(6) below_file [OF _ that] below_none [OF _ that(1)] by blast
  show "fs_ok (put_node (comps p) (Some (File s)) fs)" by (rule fs_ok_put_file) (use assms in auto)
  show "kind (stat (put_node (comps p) (Some (File s)) fs) q) =
      (if q \<noteq> [] \<and> comps q = comps p then Some (Some s) else kind (stat fs q))"
    using k [of "comps q"] k [of "comps p"] below [of "comps q"] by (simp add: stat_def)
qed

lemma fopen_append_Some:
  assumes "fopen_append os p fs = Some fs'" and "fs_ok fs"
  shows "fs_ok fs'" and "p \<noteq> []"
    and "kind (stat fs' q) =
      (if q \<noteq> [] \<and> comps q = comps p then Some (Some (case stat fs p of Some (File s) \<Rightarrow> s | _ \<Rightarrow> 0)) else kind (stat fs q))"
proof -
  show p: "p \<noteq> []" using assms(1) by (auto simp: fopen_append_def split: if_splits)
  show "fs_ok fs'"
    "kind (stat fs' q) =
      (if q \<noteq> [] \<and> comps q = comps p then Some (Some (case stat fs p of Some (File s) \<Rightarrow> s | _ \<Rightarrow> 0)) else kind (stat fs q))"
  proof (atomize (full), cases "lookup fs (comps p)" rule: kind_cases)
    case 1
    have c: "comps p \<noteq> []" using 1 by auto
    have d: "is_dir (lookup fs (butlast (comps p)))" and f: "fs' = put_node (comps p) (Some (File 0)) fs"
      using assms(1) 1 p by (auto simp: fopen_append_def split: if_splits)
    show "fs_ok fs' \<and> kind (stat fs' q) =
      (if q \<noteq> [] \<and> comps q = comps p then Some (Some (case stat fs p of Some (File s) \<Rightarrow> s | _ \<Rightarrow> 0)) else kind (stat fs q))"
      using put_file_stat(1) [OF assms(2) p c d order_refl] put_file_stat(2) [where q = q, OF assms(2) p c d order_refl] 1 p f by (simp add: stat_def)
  next
    case (2 s)
    then show "fs_ok fs' \<and> kind (stat fs' q) =
      (if q \<noteq> [] \<and> comps q = comps p then Some (Some (case stat fs p of Some (File s) \<Rightarrow> s | _ \<Rightarrow> 0)) else kind (stat fs q))"
      using assms p by (auto simp: fopen_append_def stat_def split: if_splits)
  next
    case (3 es)
    then show "fs_ok fs' \<and> kind (stat fs' q) =
      (if q \<noteq> [] \<and> comps q = comps p then Some (Some (case stat fs p of Some (File s) \<Rightarrow> s | _ \<Rightarrow> 0)) else kind (stat fs q))"
      using assms(1) by (auto simp: fopen_append_def split: if_splits)
  qed
qed

lemma fappend_stat:
  assumes "fs_ok fs" and "stat fs p = Some (File s)" and "0 \<le> s + n"
  shows "fs_ok (fappend p n fs)"
    and "kind (stat (fappend p n fs) q) = (if q \<noteq> [] \<and> comps q = comps p then Some (Some (s + n)) else kind (stat fs q))"
proof -
  have p: "p \<noteq> []" "lookup fs (comps p) = Some (File s)" using assms(2) by (auto simp: stat_def split: if_splits)
  have c: "comps p \<noteq> []" using p assms(1) by (auto simp: fs_ok_def is_dir_def)
  have d: "is_dir (lookup fs (butlast (comps p)))" by (rule lookup_parent) (use c p in auto)
  have f: "fappend p n fs = put_node (comps p) (Some (File (s + n))) fs" using assms(2) by (simp add: fappend_def)
  note put = put_file_stat [OF assms(1) p(1) c d assms(3)]
  show "fs_ok (fappend p n fs)" unfolding f using put(1) p(2) by blast
  show "kind (stat (fappend p n fs) q) = (if q \<noteq> [] \<and> comps q = comps p then Some (Some (s + n)) else kind (stat fs q))"
    unfolding f using put(2) [where q = q] p(2) by blast
qed

end
