(* ===== verification/Directory.thy ===== *)
theory Directory
  imports FileSystem LogLevel
begin

text \<open>
  SipPlatform/FileUtility.cpp and Directory.cpp (the branches for systems other than Windows):
  files and directories by path. Functions that log an error return the log events; \<open>errno\<close> is
  not modelled and stands as a question mark in the text. The entries that \<open>readdir\<close> delivers are
  those that the directory had when it was opened.
\<close>

definition DIR_SEP :: char where "DIR_SEP = CHR ''/''"

subsection \<open>Files\<close>

definition IsExistFile :: "fnode \<Rightarrow> cstring \<Rightarrow> bool" where
  "IsExistFile fs pszFileName \<longleftrightarrow> stat fs pszFileName \<noteq> None"

definition GetFileSize :: "os \<Rightarrow> fnode \<Rightarrow> cstring \<Rightarrow> int" where
  "GetFileSize os fs pszFileName = (case stat fs pszFileName of
       None \<Rightarrow> 0 | Some (File s) \<Rightarrow> s | Some (Dir es) \<Rightarrow> dir_st_size os pszFileName)"

text \<open>The loops that search a character from the end; \<open>k\<close> is \<open>i + 1\<close>.\<close>

fun find_back :: "char \<Rightarrow> cstring \<Rightarrow> nat \<Rightarrow> nat option" where
  "find_back c s 0 = None"
| "find_back c s (Suc i) = (if s ! i = c then Some i else find_back c s i)"

definition GetFileExt :: "cstring \<Rightarrow> bool \<times> string" where
  "GetFileExt pszFileName =
     (case find_back (CHR ''.'') pszFileName (length pszFileName) of
        Some i \<Rightarrow> (True, drop (i + 1) pszFileName) | None \<Rightarrow> (False, []))"

definition GetDirName :: "cstring \<Rightarrow> string" where
  "GetDirName pszFilePath =
     (case find_back DIR_SEP pszFilePath (length pszFilePath) of Some i \<Rightarrow> take i pszFilePath | None \<Rightarrow> [])"

definition GetFileName :: "cstring \<Rightarrow> string" where
  "GetFileName pszFilePath =
     (case find_back DIR_SEP pszFilePath (length pszFilePath) of Some i \<Rightarrow> drop (i + 1) pszFilePath | None \<Rightarrow> [])"

definition AppendName :: "string \<Rightarrow> cstring \<Rightarrow> string" where
  "AppendName strFileName pszAppend = strFileName @ [DIR_SEP] @ pszAppend"

subsection \<open>Directories\<close>

definition IsDirectoryCheck :: "fnode \<Rightarrow> cstring \<Rightarrow> int" where
  "IsDirectoryCheck fs szDirName = (case stat fs szDirName of
       Some (Dir es) \<Rightarrow> 0 | Some (File s) \<Rightarrow> - 1 | None \<Rightarrow> - 2)"

definition IsDirectory :: "fnode \<Rightarrow> cstring \<Rightarrow> bool" where
  "IsDirectory fs szDirName \<longleftrightarrow> IsDirectoryCheck fs szDirName = 0"

text \<open>The loop of \<open>Create\<close> over the rest of the name: \<open>pszName\<close> is what was copied; false stands for
  \<open>fisNotDirectory\<close> and \<open>fisError\<close>.\<close>

fun Create_dirs :: "os \<Rightarrow> cstring \<Rightarrow> nat \<Rightarrow> cstring \<Rightarrow> fnode \<Rightarrow> bool \<times> fnode" where
  "Create_dirs os pszName iCount [] fs = (True, fs)"
| "Create_dirs os pszName iCount (c # cs) fs =
     (if c = DIR_SEP
      then if 2 \<le> iCount + 1
           then if IsDirectoryCheck fs pszName = - 1 then (False, fs)
                else if IsDirectoryCheck fs pszName = - 2
                then (case mkdir os pszName fs of None \<Rightarrow> (False, fs)
                      | Some fs \<Rightarrow> Create_dirs os (pszName @ [c]) (iCount + 1) cs fs)
                else Create_dirs os (pszName @ [c]) (iCount + 1) cs fs
           else Create_dirs os (pszName @ [c]) (iCount + 1) cs fs
      else Create_dirs os (pszName @ [c]) iCount cs fs)"

text \<open>\<open>None\<close>: the empty name, whose byte before the first is read.\<close>

definition Directory_Create :: "os \<Rightarrow> cstring \<Rightarrow> fnode \<Rightarrow> (bool \<times> fnode) option" where
  "Directory_Create os szDirName fs =
     (let (b, fs) = Create_dirs os [] 0 szDirName fs
      in if \<not> b then Some (False, fs)
      else if szDirName = [] then None
      else if last szDirName \<noteq> DIR_SEP
      then if IsDirectoryCheck fs szDirName = - 1 then Some (False, fs)
           else if IsDirectoryCheck fs szDirName = - 2
           then (case mkdir os szDirName fs of None \<Rightarrow> Some (False, fs) | Some fs \<Rightarrow> Some (True, fs))
           else Some (True, fs)
      else Some (True, fs))"

definition opendir_error :: "cstring \<Rightarrow> log_event" where
  "opendir_error pszDirName = (LOG_ERROR, ''opendir('' @ pszDirName @ '') error(?)'')"

fun List_loop :: "(string \<times> fnode) list \<Rightarrow> string list \<Rightarrow> string list" where
  "List_loop [] clsFileList = clsFileList"
| "List_loop ((d_name, n) # es) clsFileList =
     (if d_name = ''.'' \<or> d_name = ''..'' then List_loop es clsFileList
      else List_loop es (clsFileList @ [d_name]))"

definition Directory_List :: "os \<Rightarrow> fnode \<Rightarrow> cstring \<Rightarrow> (bool \<times> string list) \<times> log_event list" where
  "Directory_List os fs pszDirName =
     (case opendir os pszDirName fs of None \<Rightarrow> ((False, []), [opendir_error pszDirName])
      | Some es \<Rightarrow> ((True, List_loop es []), []))"

text \<open>\<open>lstat\<close> on the path of each entry.\<close>

fun FileList_loop :: "fnode \<Rightarrow> cstring \<Rightarrow> (string \<times> fnode) list \<Rightarrow> string list \<Rightarrow> string list" where
  "FileList_loop fs pszDirName [] clsFileList = clsFileList"
| "FileList_loop fs pszDirName ((d_name, n) # es) clsFileList =
     (if d_name = ''.'' \<or> d_name = ''..'' then FileList_loop fs pszDirName es clsFileList
      else case stat fs (AppendName pszDirName d_name) of
          None \<Rightarrow> FileList_loop fs pszDirName es clsFileList
        | Some (Dir ds) \<Rightarrow> FileList_loop fs pszDirName es clsFileList
        | Some (File s) \<Rightarrow> FileList_loop fs pszDirName es (clsFileList @ [d_name]))"

definition FileList :: "os \<Rightarrow> fnode \<Rightarrow> cstring \<Rightarrow> (bool \<times> string list) \<times> log_event list" where
  "FileList os fs pszDirName =
     (case opendir os pszDirName fs of None \<Rightarrow> ((False, []), [opendir_error pszDirName])
      | Some es \<Rightarrow> ((True, FileList_loop fs pszDirName es []), []))"

fun unlink_all :: "os \<Rightarrow> cstring \<Rightarrow> string list \<Rightarrow> fnode \<Rightarrow> fnode" where
  "unlink_all os pszDirName [] fs = fs"
| "unlink_all os pszDirName (n # ns) fs =
     unlink_all os pszDirName ns (attempt (unlink os (AppendName pszDirName (cstr n))) fs)"

definition DeleteAllFile :: "os \<Rightarrow> cstring \<Rightarrow> fnode \<Rightarrow> fnode \<times> log_event list" where
  "DeleteAllFile os pszDirName fs =
     (let ((_, clsFileList), evs) = FileList os fs pszDirName in (unlink_all os pszDirName clsFileList fs, evs))"

text \<open>The total size of the files in and below a directory. The recursion follows the entries:
  the path of an entry leads to it. \<open>iTotalSize\<close> is an unsigned 64-bit number.\<close>

fun GetSize_dir :: "os \<Rightarrow> cstring \<Rightarrow> (string \<times> fnode) list \<Rightarrow> int \<times> log_event list" where
  "GetSize_dir os pszDirName [] = (0, [])"
| "GetSize_dir os pszDirName ((d_name, File s) # es) =
     (let (n, evs) = GetSize_dir os pszDirName es
      in if d_name = ''.'' \<or> d_name = ''..'' then (n, evs) else (u64 (s + n), evs))"
| "GetSize_dir os pszDirName ((d_name, Dir ds) # es) =
     (let (n, evs) = GetSize_dir os pszDirName es
      in if d_name = ''.'' \<or> d_name = ''..'' then (n, evs)
         else let strFolder = AppendName pszDirName d_name
              in if \<not> may_read os strFolder then (n, opendir_error strFolder # evs)
                 else let (m, evs') = GetSize_dir os strFolder ds in (u64 (m + n), evs' @ evs))"

definition GetSize_path :: "os \<Rightarrow> fnode \<Rightarrow> cstring \<Rightarrow> int \<times> log_event list" where
  "GetSize_path os fs pszDirName =
     (case opendir os pszDirName fs of None \<Rightarrow> (0, [opendir_error pszDirName])
      | Some es \<Rightarrow> let (n, evs) = GetSize_dir os pszDirName es in (i64 n, evs))"

text \<open>\<open>Delete\<close> removes the entries of a directory and the directory; errors of \<open>unlink\<close> and \<open>rmdir\<close>
  are ignored.\<close>

fun Delete_loop :: "os \<Rightarrow> cstring \<Rightarrow> (string \<times> fnode) list \<Rightarrow> fnode \<Rightarrow> fnode \<times> log_event list" where
  "Delete_loop os pszDirName [] fs = (fs, [])"
| "Delete_loop os pszDirName ((d_name, File s) # es) fs =
     (if d_name = ''.'' \<or> d_name = ''..'' then Delete_loop os pszDirName es fs
      else Delete_loop os pszDirName es (attempt (unlink os (AppendName pszDirName d_name)) fs))"
| "Delete_loop os pszDirName ((d_name, Dir ds) # es) fs =
     (if d_name = ''.'' \<or> d_name = ''..'' then Delete_loop os pszDirName es fs
      else let p = AppendName pszDirName d_name;
               (fs, evs) = (if may_read os p
                  then let (fs, evs) = Delete_loop os p ds fs in (attempt (rmdir os p) fs, evs)
                  else (fs, [opendir_error p]));
               (fs, evs') = Delete_loop os pszDirName es (attempt (rmdir os p) fs)
           in (fs, evs @ evs'))"

definition Directory_Delete :: "os \<Rightarrow> cstring \<Rightarrow> fnode \<Rightarrow> (bool \<times> fnode) \<times> log_event list" where
  "Directory_Delete os pszDirName fs =
     (case opendir os pszDirName fs of None \<Rightarrow> ((False, fs), [opendir_error pszDirName])
      | Some es \<Rightarrow> let (fs, evs) = Delete_loop os pszDirName es fs in ((True, attempt (rmdir os pszDirName) fs), evs))"

text \<open>\<open>GetProgramDirectory\<close> keeps its result in a static buffer of 1024 bytes, initially zero;
  \<open>link\<close> is the target of \<open>/proc/self/exe\<close>. \<open>None\<close>: a target of 1024 bytes or more fills the buffer,
  which is then not terminated.\<close>

definition GetProgramDirectory :: "string option \<Rightarrow> cstring \<Rightarrow> cstring option" where
  "GetProgramDirectory link szDir =
     (if szDir \<noteq> [] then Some szDir
      else case link of None \<Rightarrow> Some szDir
        | Some t \<Rightarrow> if 1024 \<le> length t then None
            else (case find_back (CHR ''/'') (cstr t) (length (cstr t)) of
                Some i \<Rightarrow> Some (take i (cstr t)) | None \<Rightarrow> Some (cstr t)))"

end
