(* ===== verification/LogFile.thy ===== *)
theory LogFile
  imports Directory TimeUtility
begin

unbundle bit_operations_syntax

text \<open>
  SipPlatform/Log.cpp: the log of the process, a file that changes at midnight and whenever it
  reaches its maximum size, in a directory whose oldest files are deleted when it grows too
  large. What \<open>CLog\<close> and \<open>CFileLog\<close> (theory FileLog) have in common is the record \<open>log\<close>; the two
  classes extend it. The record also holds the world a log acts on: the file tree, the lines
  written to files, to the standard output and to the callback.

  An operation is one call on a single thread, which holds no mutex before it. \<open>None\<close> stands for a
  call that does not return or whose behaviour C++ does not define; locking an initialised mutex that the
  thread does not hold succeeds, and so do writes to an open file. A message is the formatted text of its arguments.
\<close>

record log =
  m_szDate :: cstring
  m_sttFd :: "cstring option"
  m_iLevel :: int
  m_iMaxLogSize :: int
  m_iLogSize :: int
  m_iIndex :: int
  m_iMaxFolderSize :: int
  m_iFolderSize :: int
  log_fs :: fnode
  log_lines :: "(cstring \<times> string) list"
  log_stdout :: "string list"

record CLog = log +
  m_pszDirName :: "cstring option"
  m_pThreadMutex :: bool
  m_pclsCallBack :: bool
  log_calls :: "(EnumLogLevel \<times> nat \<times> cstring) list"

definition MIN_LOG_FILE_SIZE :: int where "MIN_LOG_FILE_SIZE = 1024 * 1024"
definition MAX_LOG_FILE_SIZE :: int where "MAX_LOG_FILE_SIZE = 1024 * 1024 * 1024"
definition DEFAULT_LOG_FILE_SIZE :: int where "DEFAULT_LOG_FILE_SIZE = 1024 * 1024 * 10"
definition DEFAULT_LOG_FOLDER_SIZE :: int where "DEFAULT_LOG_FOLDER_SIZE = 3145728000"

abbreviation LOG_MAX_SIZE :: nat where "LOG_MAX_SIZE \<equiv> 1024 * 8"
abbreviation FULLPATH_FILENAME_MAX_SIZE :: nat where "FULLPATH_FILENAME_MAX_SIZE \<equiv> 1024"

text \<open>The static members at the start of the process.\<close>

definition CLog_init :: "fnode \<Rightarrow> CLog" where
  "CLog_init fs = \<lparr>m_szDate = [], m_sttFd = None, m_iLevel = int (level_bits LOG_ERROR),
     m_iMaxLogSize = DEFAULT_LOG_FILE_SIZE, m_iLogSize = 0, m_iIndex = 1,
     m_iMaxFolderSize = DEFAULT_LOG_FOLDER_SIZE, m_iFolderSize = 0, log_fs = fs, log_lines = [], log_stdout = [],
     m_pszDirName = None, m_pThreadMutex = False, m_pclsCallBack = False, log_calls = []\<rparr>"

text \<open>What \<open>gettimeofday\<close>, \<open>localtime_r\<close> and \<open>pthread_self\<close> answer during a call.\<close>

record moment =
  now_tm :: tm
  now_usec :: nat
  now_thread :: nat

subsection \<open>Levels and limits\<close>

definition GetLevel :: "('a log_scheme) \<Rightarrow> int" where
  "GetLevel L = m_iLevel L"

definition SetLevel :: "int \<Rightarrow> 'a log_scheme \<Rightarrow> 'a log_scheme" where
  "SetLevel iLevel L = L\<lparr>m_iLevel := (int (level_bits LOG_ERROR) OR int (level_bits LOG_SYSTEM)) OR iLevel\<rparr>"

definition SetNullLevel :: "CLog \<Rightarrow> CLog" where
  "SetNullLevel L = L\<lparr>m_iLevel := 0\<rparr>"

definition SetDebugLevel :: "CLog \<Rightarrow> CLog" where
  "SetDebugLevel L = L\<lparr>m_iLevel := m_iLevel L OR int (level_bits LOG_DEBUG)\<rparr>"

definition IsPrintLogLevel :: "EnumLogLevel \<Rightarrow> 'a log_scheme \<Rightarrow> bool" where
  "IsPrintLogLevel iLevel L \<longleftrightarrow> \<not> (m_iLevel L AND int (level_bits iLevel)) = 0"

definition SetMaxLogSize :: "int \<Rightarrow> 'a log_scheme \<Rightarrow> 'a log_scheme" where
  "SetMaxLogSize iSize L = L\<lparr>m_iMaxLogSize :=
     (if iSize < MIN_LOG_FILE_SIZE then MIN_LOG_FILE_SIZE
      else if iSize > MAX_LOG_FILE_SIZE then MAX_LOG_FILE_SIZE else iSize)\<rparr>"

text \<open>\<open>m_iMaxLogSize * 30\<close> is a product of two \<open>int\<close>s.\<close>

definition SetMaxFolderSize :: "int \<Rightarrow> 'a log_scheme \<Rightarrow> 'a log_scheme" where
  "SetMaxFolderSize iSize L = L\<lparr>m_iMaxFolderSize :=
     (if m_iMaxLogSize L = 0
      then (if iSize < MIN_LOG_FILE_SIZE * 30 then MIN_LOG_FILE_SIZE * 30 else iSize)
      else (if iSize < i32 (m_iMaxLogSize L * 30) then i32 (m_iMaxLogSize L * 30) else iSize))\<rparr>"

definition GetLogIndex :: "CLog \<Rightarrow> int" where
  "GetLogIndex L = m_iIndex L"

definition SetCallBack :: "bool \<Rightarrow> CLog \<Rightarrow> CLog" where
  "SetCallBack pclsCallBack L = L\<lparr>m_pclsCallBack := pclsCallBack\<rparr>"

definition CLog_Release :: "CLog \<Rightarrow> CLog" where
  "CLog_Release L = L\<lparr>m_pszDirName := None, m_pThreadMutex := False\<rparr>"

subsection \<open>Old files\<close>

text \<open>\<open>strncmp\<close> orders the first eight bytes as unsigned numbers.\<close>

definition LogFileCompare :: "string \<Rightarrow> string \<Rightarrow> bool" where
  "LogFileCompare strFirst strSecond =
     (if length strFirst < 10 then True
      else if length strSecond < 10 then False
      else if take 8 (cstr strFirst) < take 8 (cstr strSecond) then True
      else if take 8 (cstr strFirst) > take 8 (cstr strSecond) then False
      else atoi (cstr (drop 9 strFirst)) < atoi (cstr (drop 9 strSecond)))"

text \<open>\<open>std::list::sort\<close>, which is stable: the order it leaves is determined when the comparison is
  a strict weak order.\<close>

fun list_insert :: "('a \<Rightarrow> 'a \<Rightarrow> bool) \<Rightarrow> 'a \<Rightarrow> 'a list \<Rightarrow> 'a list" where
  "list_insert cmp x [] = [x]"
| "list_insert cmp x (y # ys) = (if cmp y x then y # list_insert cmp x ys else x # y # ys)"

definition list_sort :: "('a \<Rightarrow> 'a \<Rightarrow> bool) \<Rightarrow> 'a list \<Rightarrow> 'a list" where
  "list_sort cmp xs = foldr (list_insert cmp) xs []"

definition SortFileList :: "string list \<Rightarrow> string list" where
  "SortFileList clsFileList = list_sort LogFileCompare clsFileList"

text \<open>The loop over the sorted files: each is deleted until the folder is below \<open>iWantSize\<close>. The
  result of \<open>unlink\<close> is ignored.\<close>

fun Delete_files :: "os \<Rightarrow> cstring \<Rightarrow> int \<Rightarrow> string list \<Rightarrow> 'a log_scheme \<Rightarrow> 'a log_scheme" where
  "Delete_files os dir iWantSize [] L = L"
| "Delete_files os dir iWantSize (n # ns) L =
     (let strFileName = AppendName dir (cstr n);
          iFileSize = GetFileSize os (log_fs L) strFileName;
          L = L\<lparr>log_fs := attempt (unlink os strFileName) (log_fs L), m_iFolderSize := i64 (m_iFolderSize L - iFileSize)\<rparr>
      in if m_iFolderSize L < iWantSize then L else Delete_files os dir iWantSize ns L)"

text \<open>\<open>DeleteOldFile\<close> with a directory name: the new state and the error that \<open>FileList\<close> logs.\<close>

definition DeleteOldFile_in :: "os \<Rightarrow> cstring \<Rightarrow> 'a log_scheme \<Rightarrow> 'a log_scheme \<times> log_event list" where
  "DeleteOldFile_in os dir L =
     (if m_iFolderSize L \<ge> m_iMaxFolderSize L
      then let iWantSize = c_div (i64 (m_iMaxFolderSize L * 8)) 10;
               ((_, clsFileList), evs) = FileList os (log_fs L) dir
           in (Delete_files os dir iWantSize (SortFileList clsFileList) L, evs)
      else (L, []))"

text \<open>\<open>DeleteOldFile\<close> of \<open>CLog\<close>. \<open>pr\<close> is \<open>CLog::Print\<close> as it runs at this place: \<open>FileList\<close> logs its
  errors through it.\<close>

fun Print_all :: "(EnumLogLevel \<Rightarrow> string \<Rightarrow> CLog \<Rightarrow> (int \<times> CLog) option) \<Rightarrow> log_event list \<Rightarrow> CLog \<Rightarrow> CLog option" where
  "Print_all pr [] L = Some L"
| "Print_all pr ((iLevel, msg) # evs) L =
     (case pr iLevel msg L of None \<Rightarrow> None | Some (_, L) \<Rightarrow> Print_all pr evs L)"

definition DeleteOldFile_with ::
  "(EnumLogLevel \<Rightarrow> string \<Rightarrow> CLog \<Rightarrow> (int \<times> CLog) option) \<Rightarrow> os \<Rightarrow> CLog \<Rightarrow> CLog option" where
  "DeleteOldFile_with pr os L =
     (if m_iMaxFolderSize L = 0 then Some L
      else case m_pszDirName L of None \<Rightarrow> Some L
        | Some dir \<Rightarrow> (let (L', evs) = DeleteOldFile_in os dir L in Print_all pr evs L'))"

subsection \<open>Printing\<close>

definition log_date :: "tm \<Rightarrow> cstring" where
  "log_date sttTm = snprintf_buf 9 (Date_text sttTm)"

definition log_name :: "cstring \<Rightarrow> tm \<Rightarrow> int \<Rightarrow> cstring" where
  "log_name dir sttTm iIndex = snprintf_buf FULLPATH_FILENAME_MAX_SIZE
     (dir @ [DIR_SEP] @ pad_int 4 (tm_year sttTm + 1900) @ pad_int 2 (tm_mon sttTm + 1) @ pad_int 2 (tm_mday sttTm) @
      ''_'' @ show_int iIndex @ ''.txt'')"

text \<open>The end of the block: the file is opened, or the failure reported on the standard output.\<close>

definition open_log :: "os \<Rightarrow> cstring \<Rightarrow> tm \<Rightarrow> 'a log_scheme \<Rightarrow> int \<times> 'a log_scheme" where
  "open_log os szFileName sttTm L =
     (case fopen_append os szFileName (log_fs L) of
        None \<Rightarrow> (- 1, L\<lparr>m_sttFd := None, log_stdout := log_stdout L @ [''log file('' @ szFileName @ '') open error'' @ [LF]],
                     m_szDate := snprintf_buf 9 (log_date sttTm)\<rparr>)
      | Some fs \<Rightarrow> (0, L\<lparr>m_sttFd := Some szFileName, log_fs := fs, m_szDate := snprintf_buf 9 (log_date sttTm)\<rparr>))"

text \<open>The rounds from the label \<open>OPEN_FILE\<close> on; \<open>del\<close> is the class's \<open>DeleteOldFile\<close>.\<close>

partial_function (option) OPEN_FILE ::
  "os \<Rightarrow> ('a log_scheme \<Rightarrow> 'a log_scheme option) \<Rightarrow> cstring \<Rightarrow> tm \<Rightarrow> 'a log_scheme \<Rightarrow> (int \<times> 'a log_scheme) option" where
  "OPEN_FILE os del dir sttTm L =
     (let szFileName = log_name dir sttTm (m_iIndex L);
          D = del (L\<lparr>m_iLogSize := 0, m_sttFd := None\<rparr>)
      in if D = None then None
      else let L = the D
           in if m_iMaxLogSize L > 0
              then let iFileSize = GetFileSize os (log_fs L) szFileName
                   in if iFileSize \<ge> m_iMaxLogSize L
                      then OPEN_FILE os del dir sttTm (L\<lparr>m_iIndex := i32 (m_iIndex L + 1)\<rparr>)
                      else Some (open_log os szFileName sttTm (L\<lparr>m_iLogSize := i32 iFileSize\<rparr>))
              else Some (open_log os szFileName sttTm L))"

declare OPEN_FILE.simps [code]

fun show_HEX :: "nat \<Rightarrow> string" where
  "show_HEX n = (if n < 16 then [if n < 10 then digit_char n else char_of (55 + n)]
     else show_HEX (n div 16) @ [if n mod 16 < 10 then digit_char (n mod 16) else char_of (55 + n mod 16)])"

declare show_HEX.simps [simp del]

definition log_time :: "tm \<Rightarrow> string" where
  "log_time sttTm = pad_int 2 (tm_hour sttTm) @ '':'' @ pad_int 2 (tm_min sttTm) @ '':'' @ pad_int 2 (tm_sec sttTm)"

definition file_line :: "moment \<Rightarrow> EnumLogLevel \<Rightarrow> cstring \<Rightarrow> string" where
  "file_line now iLevel szBuf = ''['' @ log_time (now_tm now) @ ''.'' @ pad_dec 6 (now_usec now) @ ''] '' @
     level_header iLevel @ ''['' @ show_HEX (now_thread now) @ ''] '' @ szBuf @ [LF]"

definition stdout_line :: "moment \<Rightarrow> EnumLogLevel \<Rightarrow> cstring \<Rightarrow> string" where
  "stdout_line now iLevel szBuf = ''['' @ log_time (now_tm now) @ ''] '' @ level_header iLevel @ szBuf @ [LF]"

text \<open>The \<open>fprintf\<close> and the counters.\<close>

definition write_line :: "cstring \<Rightarrow> string \<Rightarrow> 'a log_scheme \<Rightarrow> 'a log_scheme" where
  "write_line fd line L = L\<lparr>log_fs := fappend fd (int (length line)) (log_fs L), log_lines := log_lines L @ [(fd, line)],
     m_iLogSize := i32 (m_iLogSize L + int (length line)), m_iFolderSize := i64 (m_iFolderSize L + int (length line))\<rparr>"

text \<open>The part of \<open>Print\<close> that chooses the file; a rotation without a directory prints a null
  pointer into the file name.\<close>

definition CLog_rotate :: "(CLog \<Rightarrow> CLog option) \<Rightarrow> os \<Rightarrow> tm \<Rightarrow> CLog \<Rightarrow> (int \<times> CLog) option" where
  "CLog_rotate del os sttTm L =
     (if m_pszDirName L \<noteq> None \<and> m_szDate L \<noteq> log_date sttTm
      then OPEN_FILE os del (the (m_pszDirName L)) sttTm (L\<lparr>m_iIndex := 1\<rparr>)
      else if m_iMaxLogSize L > 0 \<and> m_iLogSize L \<ge> m_iMaxLogSize L
      then (case m_pszDirName L of None \<Rightarrow> None
        | Some dir \<Rightarrow> OPEN_FILE os del dir sttTm (L\<lparr>m_iIndex := i32 (m_iIndex L + 1)\<rparr>))
      else Some (0, L))"

text \<open>\<open>m_pThreadMutex->acquire()\<close> by a thread that holds the mutex or not (\<open>held\<close>): the value is
  whether it then holds it. The mutex is a \<open>pthread_mutex_t\<close> with default attributes, so a thread that locks it a
  second time waits for itself (\<open>None\<close>). Without a mutex there is nothing to lock.\<close>

definition Mutex_acquire :: "bool \<Rightarrow> CLog \<Rightarrow> bool option" where
  "Mutex_acquire held L = (if m_pThreadMutex L then (if held then None else Some True) else Some held)"

text \<open>\<open>Print\<close> by a thread that holds the mutex or not. The mutex is held while the file is chosen, and
  so in \<open>DeleteOldFile\<close> and in the \<open>Print\<close> that \<open>FileList\<close> calls there; it is released, the message
  is formatted, and it is acquired again for the line. \<open>n\<close> bounds how deep such calls of \<open>Print\<close> are nested.\<close>

fun CLog_Print_at :: "nat \<Rightarrow> bool \<Rightarrow> os \<Rightarrow> moment \<Rightarrow> EnumLogLevel \<Rightarrow> string \<Rightarrow> CLog \<Rightarrow> (int \<times> CLog) option" where
  "CLog_Print_at 0 held os now iLevel msg L = None"
| "CLog_Print_at (Suc n) held os now iLevel msg L =
     (if (m_iLevel L AND int (level_bits iLevel)) = 0 then Some (1, L)
      else case Mutex_acquire held L of None \<Rightarrow> None
      | Some inside \<Rightarrow>
       (case CLog_rotate (DeleteOldFile_with (CLog_Print_at n inside os now) os) os (now_tm now) L of None \<Rightarrow> None
        | Some (iResult, L) \<Rightarrow>
       (case Mutex_acquire held L of None \<Rightarrow> None
        | Some _ \<Rightarrow>
          (let szBuf = snprintf_buf (LOG_MAX_SIZE - 1) msg
           in case m_sttFd L of
                Some fd \<Rightarrow> Some (iResult, write_line fd (file_line now iLevel szBuf) L)
              | None \<Rightarrow> if m_pclsCallBack L
                  then Some (iResult, L\<lparr>log_calls := log_calls L @ [(iLevel, now_thread now, szBuf)]\<rparr>)
                  else Some (iResult, L\<lparr>log_stdout := log_stdout L @ [stdout_line now iLevel szBuf]\<rparr>)))))"

declare CLog_Print_at.simps [simp del]

text \<open>A call from outside. A nested call of a log with a mutex never goes past the lock
  (\<open>Print_locked\<close> below), so two levels are all there are.\<close>

definition CLog_Print :: "os \<Rightarrow> moment \<Rightarrow> EnumLogLevel \<Rightarrow> string \<Rightarrow> CLog \<Rightarrow> (int \<times> CLog) option" where
  "CLog_Print os now iLevel msg L = CLog_Print_at (Suc (Suc 0)) False os now iLevel msg L"

lemma Mutex_acquire_free [simp]: "Mutex_acquire False L = Some (m_pThreadMutex L)"
  by (simp add: Mutex_acquire_def)

lemma Print_locked:
  "m_pThreadMutex L \<Longrightarrow> CLog_Print_at (Suc n) True os now iLevel msg L =
    (if IsPrintLogLevel iLevel L then None else Some (1, L))"
  by (simp add: CLog_Print_at.simps Mutex_acquire_def IsPrintLogLevel_def)

text \<open>The overload that hands the open file to a function, which writes \<open>txt\<close>.\<close>

definition CLog_Print_func :: "string \<Rightarrow> CLog \<Rightarrow> CLog" where
  "CLog_Print_func txt L = (case m_sttFd L of None \<Rightarrow> L
     | Some fd \<Rightarrow> L\<lparr>log_fs := fappend fd (int (length txt)) (log_fs L), log_lines := log_lines L @ [(fd, txt)]\<rparr>)"

subsection \<open>Directory\<close>

text \<open>The events that another component logs during a call, at the moments \<open>now\<close>.\<close>

fun CLog_events :: "os \<Rightarrow> (nat \<Rightarrow> moment) \<Rightarrow> log_event list \<Rightarrow> CLog \<Rightarrow> CLog option" where
  "CLog_events os now [] L = Some L"
| "CLog_events os now ((iLevel, msg) # evs) L =
     (case CLog_Print os (now 0) iLevel msg L of None \<Rightarrow> None
      | Some (_, L) \<Rightarrow> CLog_events os (\<lambda>k. now (Suc k)) evs L)"

text \<open>\<open>DeleteOldFile\<close> as a public operation, with the mutex free: its errors are printed at the moment \<open>now\<close>.\<close>

definition CLog_DeleteOldFile :: "os \<Rightarrow> moment \<Rightarrow> CLog \<Rightarrow> CLog option" where
  "CLog_DeleteOldFile os now L = DeleteOldFile_with (CLog_Print os now) os L"

text \<open>The name of the first call stays; \<open>m_pszDirName[iLen-1]\<close> of an empty name is outside the buffer.
  \<open>GetSize\<close> may log, and with it open a log file, before \<open>m_iFolderSize\<close> is assigned.\<close>

definition CLog_SetDirectory :: "os \<Rightarrow> (nat \<Rightarrow> moment) \<Rightarrow> cstring option \<Rightarrow> CLog \<Rightarrow> (bool \<times> CLog) option" where
  "CLog_SetDirectory os now pszDirName L =
     (case pszDirName of None \<Rightarrow> Some (False, L)
      | Some name \<Rightarrow>
        if m_pszDirName L = None \<and> name = [] then None
        else let L = L\<lparr>m_pThreadMutex := True, m_pszDirName :=
                     (case m_pszDirName L of Some dir \<Rightarrow> Some dir
                      | None \<Rightarrow> Some (if last name = CHR ''/'' then butlast name else name))\<rparr>;
                 dir = the (m_pszDirName L)
             in case Directory_Create os dir (log_fs L) of None \<Rightarrow> None
               | Some (ok, fs) \<Rightarrow>
                   if \<not> ok then Some (False, L\<lparr>log_fs := fs\<rparr>)
                   else (let (iSize, evs) = GetSize_path os fs dir
                         in case CLog_events os now evs (L\<lparr>log_fs := fs\<rparr>) of None \<Rightarrow> None
                            | Some L \<Rightarrow> Some (True, L\<lparr>m_iFolderSize := iSize\<rparr>)))"

end
