(* ===== verification/FileLog.thy ===== *)
theory FileLog
  imports LogFile
begin

unbundle bit_operations_syntax

text \<open>
  SipPlatform/FileLog.cpp: a log object with a file, a mutex and limits of its own. The text and
  the rotation of its files are those of \<open>CLog\<close> (theory LogFile); its directory is an object of its
  own, and an empty name means that no directory is open. Errors of \<open>CDirectory\<close> go to \<open>CLog\<close>:
  they are the list \<open>fl_events\<close>.
\<close>

record CFileLog = log +
  m_strDirName :: string
  fl_events :: "log_event list"

definition CFileLog_new :: "fnode \<Rightarrow> CFileLog" where
  "CFileLog_new fs = \<lparr>m_szDate = [], m_sttFd = None, m_iLevel = int (level_bits LOG_ERROR),
     m_iMaxLogSize = DEFAULT_LOG_FILE_SIZE, m_iLogSize = 0, m_iIndex = 1,
     m_iMaxFolderSize = DEFAULT_LOG_FOLDER_SIZE, m_iFolderSize = 0, log_fs = fs, log_lines = [], log_stdout = [],
     m_strDirName = [], fl_events = []\<rparr>"

text \<open>\<open>None\<close>: the name of the directory is empty without its last character, as \<open>Create\<close> requires.\<close>

definition FileLog_Open :: "os \<Rightarrow> cstring option \<Rightarrow> CFileLog \<Rightarrow> (bool \<times> CFileLog) option" where
  "FileLog_Open os pszDirName L =
     (case pszDirName of None \<Rightarrow> Some (False, L)
      | Some name \<Rightarrow>
        if length name < 3 then Some (False, L)
        else if m_strDirName L \<noteq> [] then Some (False, L)
        else let dir = (if last name = CHR ''/'' then butlast name else name);
                 L = L\<lparr>m_strDirName := dir\<rparr>
             in case Directory_Create os dir (log_fs L) of None \<Rightarrow> None
               | Some (ok, fs) \<Rightarrow>
                   if \<not> ok then Some (False, L\<lparr>log_fs := fs\<rparr>)
                   else (let (iSize, evs) = GetSize_path os fs dir
                         in Some (True, L\<lparr>log_fs := fs, fl_events := fl_events L @ evs, m_iFolderSize := iSize\<rparr>)))"

definition FileLog_Close :: "CFileLog \<Rightarrow> bool \<times> CFileLog" where
  "FileLog_Close L = (True, if m_strDirName L \<noteq> [] then L\<lparr>m_sttFd := None, m_strDirName := []\<rparr> else L)"

definition FileLog_DeleteOldFile :: "os \<Rightarrow> CFileLog \<Rightarrow> CFileLog option" where
  "FileLog_DeleteOldFile os L =
     (if m_iMaxFolderSize L = 0 then Some L
      else if m_strDirName L = [] then Some L
      else (let (L, evs) = DeleteOldFile_in os (m_strDirName L) L in Some (L\<lparr>fl_events := fl_events L @ evs\<rparr>)))"

definition FileLog_rotate :: "os \<Rightarrow> tm \<Rightarrow> CFileLog \<Rightarrow> (int \<times> CFileLog) option" where
  "FileLog_rotate os sttTm L =
     (if m_strDirName L \<noteq> [] \<and> m_szDate L \<noteq> log_date sttTm
      then OPEN_FILE os (FileLog_DeleteOldFile os) (m_strDirName L) sttTm (L\<lparr>m_iIndex := 1\<rparr>)
      else if m_iMaxLogSize L > 0 \<and> m_iLogSize L \<ge> m_iMaxLogSize L
      then OPEN_FILE os (FileLog_DeleteOldFile os) (m_strDirName L) sttTm (L\<lparr>m_iIndex := i32 (m_iIndex L + 1)\<rparr>)
      else Some (0, L))"

definition FileLog_Print :: "os \<Rightarrow> moment \<Rightarrow> EnumLogLevel \<Rightarrow> string \<Rightarrow> CFileLog \<Rightarrow> (bool \<times> CFileLog) option" where
  "FileLog_Print os now iLevel msg L =
     (if (m_iLevel L AND int (level_bits iLevel)) = 0 then Some (False, L)
      else case FileLog_rotate os (now_tm now) L of None \<Rightarrow> None
        | Some (_, L) \<Rightarrow>
          (let szBuf = snprintf_buf (LOG_MAX_SIZE - 1) msg
           in case m_sttFd L of
                Some fd \<Rightarrow> Some (True, write_line fd (file_line now iLevel szBuf) L)
              | None \<Rightarrow> Some (True, L\<lparr>log_stdout := log_stdout L @ [stdout_line now iLevel szBuf]\<rparr>)))"

text \<open>Level and limits: the same statements as in \<open>CLog\<close>, on the members of the object.\<close>

definition FileLog_GetLevel :: "CFileLog \<Rightarrow> int" where
  "FileLog_GetLevel L = m_iLevel L"

definition FileLog_SetLevel :: "int \<Rightarrow> CFileLog \<Rightarrow> CFileLog" where
  "FileLog_SetLevel iLevel L = L\<lparr>m_iLevel := (int (level_bits LOG_ERROR) OR int (level_bits LOG_SYSTEM)) OR iLevel\<rparr>"

definition FileLog_IsPrintLogLevel :: "EnumLogLevel \<Rightarrow> CFileLog \<Rightarrow> bool" where
  "FileLog_IsPrintLogLevel iLevel L \<longleftrightarrow> \<not> (m_iLevel L AND int (level_bits iLevel)) = 0"

definition FileLog_SetMaxLogSize :: "int \<Rightarrow> CFileLog \<Rightarrow> CFileLog" where
  "FileLog_SetMaxLogSize iSize L =
     (let iSize = (if iSize < MIN_LOG_FILE_SIZE then MIN_LOG_FILE_SIZE
                   else if iSize > MAX_LOG_FILE_SIZE then MAX_LOG_FILE_SIZE else iSize)
      in L\<lparr>m_iMaxLogSize := iSize\<rparr>)"

definition FileLog_SetMaxFolderSize :: "int \<Rightarrow> CFileLog \<Rightarrow> CFileLog" where
  "FileLog_SetMaxFolderSize iSize L =
     (let iSize = (if m_iMaxLogSize L = 0
                   then if iSize < MIN_LOG_FILE_SIZE * 30 then MIN_LOG_FILE_SIZE * 30 else iSize
                   else if iSize < i32 (m_iMaxLogSize L * 30) then i32 (m_iMaxLogSize L * 30) else iSize)
      in L\<lparr>m_iMaxFolderSize := iSize\<rparr>)"

end
