(* ===== verification/DirectorySpec.thy ===== *)
theory DirectorySpec
  imports Directory
begin

text \<open>
  What \<open>CDirectory::Create\<close> does to the file tree, and the sizes that \<open>CDirectory::GetSize\<close> counts.
\<close>

subsection \<open>Creating directories\<close>

definition dirs_added :: "fnode \<Rightarrow> fnode \<Rightarrow> bool" where
  "dirs_added fs fs' \<longleftrightarrow> (\<forall>q. kind (stat fs' q) = kind (stat fs q) \<or>
     stat fs q = None \<and> kind (stat fs' q) = Some None)"

lemma dirs_added_refl [simp]: "dirs_added fs fs"
  by (simp add: dirs_added_def)

lemma dirs_added_trans: "dirs_added a b \<Longrightarrow> dirs_added b c \<Longrightarrow> dirs_added a c"
  unfolding dirs_added_def by (metis kind_None_iff option.distinct(1))

lemma mkdir_Some:
  assumes "mkdir os p fs = Some fs'" and "fs_ok fs"
  shows "fs_ok fs'" and "dirs_added fs fs'" and "IsDirectory fs' p"
proof -
  have c: "p \<noteq> []" "comps p \<noteq> []" "lookup fs (comps p) = None" "is_dir (lookup fs (butlast (comps p)))"
    and f: "fs' = put_node (comps p) (Some (Dir [])) fs"
    using assms(1) by (auto simp: mkdir_def split: if_splits)
  have ok: "tree_ok fs" using assms(2) by (simp add: fs_ok_def)
  have same: "lookup fs' (comps p) = Some (Dir [])" unfolding f by (rule lookup_put_same) (use c ok in auto)
  have k: "kind (lookup fs' q) = (if q = comps p then Some None else kind (lookup fs q))" for q
  proof (cases "prefix (comps p) q")
    case True
    then obtain r where r: "q = comps p @ r" by (rule prefixE)
    then have "lookup fs q = None" using c(3) by (simp add: lookup_append)
    then show ?thesis using r same by (cases r) (auto simp: lookup_append)
  next
    case False
    then show ?thesis using kind_put_other [OF False ok] by (auto simp: f)
  qed
  have "tree_ok fs'" unfolding f by (rule tree_ok_put [OF ok]) auto
  moreover have "kind (lookup fs' []) = Some None" using k [of "[]"] assms(2) c(2) by (simp add: fs_ok_def is_dir_kind)
  moreover have "\<forall>q s. kind (lookup fs' q) = Some (Some s) \<longrightarrow> 0 \<le> s" using k assms(2) by (simp add: fs_ok_def)
  ultimately show "fs_ok fs'" by (simp add: fs_ok_def is_dir_kind)
  show "dirs_added fs fs'" using k c(3) by (simp add: dirs_added_def stat_def)
  show "IsDirectory fs' p" using same c(1) by (simp add: IsDirectory_def IsDirectoryCheck_def stat_def)
qed

lemma Create_dirs_added:
  "fs_ok fs \<Longrightarrow> fs_ok (snd (Create_dirs os p n cs fs)) \<and> dirs_added fs (snd (Create_dirs os p n cs fs))"
proof (induction os p n cs fs rule: Create_dirs.induct)
  case (2 os p n c cs fs)
  show ?case
  proof (cases "c = DIR_SEP \<and> 2 \<le> n + 1 \<and> IsDirectoryCheck fs p = - 2")
    case True
    show ?thesis
    proof (cases "mkdir os p fs")
      case (Some fs')
      note m = mkdir_Some [OF Some "2.prems"]
      have "fs_ok (snd (Create_dirs os (p @ [c]) (n + 1) cs fs'))" "dirs_added fs' (snd (Create_dirs os (p @ [c]) (n + 1) cs fs'))"
        using "2.IH"(1) [of fs'] True Some m(1) by auto
      then show ?thesis using True Some dirs_added_trans [OF m(2)] by simp
    qed (use True "2.prems" in simp)
  next
    case False
    then show ?thesis using 2 by auto
  qed
qed simp

lemma Directory_Create_added:
  assumes "Directory_Create os d fs = Some (b, fs')" and "fs_ok fs"
  shows "fs_ok fs'" and "dirs_added fs fs'"
proof -
  obtain c fs1 where c: "Create_dirs os [] 0 d fs = (c, fs1)" by (cases "Create_dirs os [] 0 d fs")
  have one: "fs_ok fs1" "dirs_added fs fs1" using Create_dirs_added [OF assms(2), of os "[]" 0 d] c by simp_all
  have "fs' = fs1 \<or> mkdir os d fs1 = Some fs'"
    using assms(1) c by (auto simp: Directory_Create_def split: if_splits option.splits)
  then show "fs_ok fs'" "dirs_added fs fs'"
    using one mkdir_Some [of os d fs1 fs'] dirs_added_trans by blast+
qed

lemma comps_snoc_sep: "comps (p @ [DIR_SEP]) = comps p"
  by (simp add: comps_def DIR_SEP_def split_on_snoc split_on_none)

lemma IsDirectory_iff: "IsDirectory fs p \<longleftrightarrow> is_dir (stat fs p)"
  by (auto simp: IsDirectory_def IsDirectoryCheck_def is_dir_def split: option.splits fnode.splits)

lemma IsDirectory_added: "IsDirectory fs p \<Longrightarrow> dirs_added fs fs' \<Longrightarrow> IsDirectory fs' p"
  unfolding IsDirectory_iff is_dir_kind dirs_added_def by (metis kind_None_iff option.distinct(1))

lemma IsDirectory_snoc: "p \<noteq> [] \<Longrightarrow> IsDirectory fs (p @ [DIR_SEP]) = IsDirectory fs p"
  by (simp add: IsDirectory_iff stat_def comps_snoc_sep)

lemma Create_dirs_append:
  "Create_dirs os p n (cs @ ds) fs = (let (b, fs1) = Create_dirs os p n cs fs in
     if b then Create_dirs os (p @ cs) (n + length (filter (\<lambda>c. c = DIR_SEP) cs)) ds fs1 else (False, fs1))"
  by (induction os p n cs fs rule: Create_dirs.induct) (auto simp: case_prod_beta Let_def split: option.split)

text \<open>C25: When \<open>Create\<close> returns true for an absolute name, the name is a directory, with or without a
  separator at its end; on the way directories were added to the file system and nothing else
  was changed.\<close>

theorem create_makes_directory:
  assumes "Directory_Create os (DIR_SEP # d) fs = Some (True, fs')" and "fs_ok fs"
  shows "IsDirectory fs' (DIR_SEP # d) \<and> dirs_added fs fs' \<and> fs_ok fs'"
proof -
  let ?d = "DIR_SEP # d"
  obtain b fs1 where c: "Create_dirs os [] 0 ?d fs = (b, fs1)" by (cases "Create_dirs os [] 0 ?d fs")
  then have b: "b" using assms(1) by (auto simp: Directory_Create_def split: if_splits)
  have ok1: "fs_ok fs1" using Create_dirs_added [OF assms(2), of os "[]" 0 ?d] c by simp
  have "IsDirectory fs' ?d"
  proof (cases "last ?d = DIR_SEP")
    case False
    then have "IsDirectoryCheck fs1 ?d = 0 \<and> fs' = fs1 \<or> mkdir os ?d fs1 = Some fs'"
      using assms(1) c b
      by (auto simp: Directory_Create_def IsDirectoryCheck_def split: if_splits option.splits fnode.splits)
    then show ?thesis using mkdir_Some(3) [OF _ ok1] by (auto simp: IsDirectory_def)
  next
    case True
    then have fs': "fs' = fs1" using assms(1) c b by (simp add: Directory_Create_def)
    show ?thesis
    proof (cases "d = []")
      case True
      have "is_dir (stat fs1 [DIR_SEP])" using ok1 comps_snoc_sep [of "[]"] by (simp add: stat_def fs_ok_def comps_def)
      then show ?thesis using True fs' by (simp add: IsDirectory_iff)
    next
      case False
      then obtain e where e: "d = e @ [DIR_SEP]" using True by (metis append_butlast_last_id last.simps)
      let ?p = "DIR_SEP # e" and ?n = "length (filter (\<lambda>c. c = DIR_SEP) (DIR_SEP # e))"
      obtain fs2 where one: "Create_dirs os [] 0 ?p fs = (True, fs2)"
        and two: "Create_dirs os ?p ?n [DIR_SEP] fs2 = (True, fs1)"
        using c b e Create_dirs_append [of os "[]" 0 ?p "[DIR_SEP]" fs]
        by (cases "Create_dirs os [] 0 ?p fs") (auto split: if_splits)
      have ok2: "fs_ok fs2" using Create_dirs_added [OF assms(2), of os "[]" 0 ?p] one by simp
      from two have "IsDirectoryCheck fs2 ?p = 0 \<and> fs1 = fs2 \<or> mkdir os ?p fs2 = Some fs1"
        by (auto simp: IsDirectoryCheck_def split: if_splits option.splits fnode.splits)
      then have "IsDirectory fs1 ?p" using mkdir_Some(3) [OF _ ok2] by (auto simp: IsDirectory_def)
      then show ?thesis using IsDirectory_snoc [of ?p fs1] e fs' by simp
    qed
  qed
  then show ?thesis using Directory_Create_added [OF assms] by simp
qed

definition demo_os :: os where
  "demo_os = \<lparr>may_mkdir = \<lambda>_. True, may_unlink = \<lambda>_. True, may_rmdir = \<lambda>_. True, may_read = \<lambda>_. True,
     may_open = \<lambda>_. True, dir_st_size = \<lambda>_. 4096\<rparr>"

lemma create_example: "Directory_Create demo_os ''/a/b/'' (Dir [(''a'', Dir [])]) = Some (True, Dir [(''a'', Dir [(''b'', Dir [])])])"
  by code_simp

theorem create_makes_directory_witness:
  "IsDirectory (Dir [(''a'', Dir [(''b'', Dir [])])]) ''/a/b/'' \<and>
   dirs_added (Dir [(''a'', Dir [])]) (Dir [(''a'', Dir [(''b'', Dir [])])]) \<and> fs_ok (Dir [(''a'', Dir [(''b'', Dir [])])])"
proof -
  have "lookup (Dir [(''a'', Dir [])]) q \<noteq> Some (File s)" for q s
    by (cases q; cases "tl q") (auto split: if_splits)
  then have "fs_ok (Dir [(''a'', Dir [])])" by (simp add: fs_ok_def is_dir_def kind_file_iff)
  then show ?thesis
    using create_makes_directory [of demo_os "''a/b/''"] create_example by (simp add: DIR_SEP_def)
qed

text \<open>A relative name with a separator at its end: \<open>Create\<close> returns true and creates nothing, since
  the separator is the first one.\<close>

lemma create_relative_not_created: "Directory_Create os ''logs/'' (Dir []) = Some (True, Dir [])"
  by (simp add: Directory_Create_def DIR_SEP_def)

end
