(* ===== verification/LogFileSpec.thy ===== *)
theory LogFileSpec
  imports FileLog DirectorySpec
begin

unbundle bit_operations_syntax

text \<open>
  Properties of the two log classes. Both call the same rotation loop \<open>OPEN_FILE\<close> with their own
  \<open>DeleteOldFile\<close>: the locale \<open>file_rotation\<close> states what the loop needs of it, and each class is
  an interpretation.
\<close>

subsection \<open>Deleting old files\<close>

lemma GetFileSize_removed:
  assumes "files_removed fs fs'" and "fs_ok fs"
  shows "GetFileSize os fs' q = GetFileSize os fs q \<or> GetFileSize os fs' q = 0 \<and> 0 \<le> GetFileSize os fs q"
proof (cases "stat fs q" rule: kind_cases)
  case 1
  then have "stat fs' q = None" using assms(1) unfolding files_removed_def by (metis kind_None_iff)
  then show ?thesis using 1 by (simp add: GetFileSize_def)
next
  case (2 s)
  then have "0 \<le> s" using assms(2) by (auto simp: fs_ok_def kind_file_iff stat_def split: if_splits)
  moreover have "stat fs' q = Some (File s) \<or> stat fs' q = None"
    using assms(1) 2 unfolding files_removed_def by (metis kind_None_iff kind_file_iff)
  ultimately show ?thesis using 2 by (auto simp: GetFileSize_def)
next
  case (3 es)
  then have "kind (stat fs' q) = Some None" using assms(1) unfolding files_removed_def
    by (metis kind_simps(3) option.distinct(1) option.inject)
  then have "is_dir (stat fs' q)" by (simp add: is_dir_kind)
  then show ?thesis using 3 by (auto simp: GetFileSize_def is_dir_def split: option.splits fnode.splits)
qed

lemma GetFileSize_nonneg: "fs_ok fs \<Longrightarrow> \<not> is_dir (stat fs q) \<Longrightarrow> 0 \<le> GetFileSize os fs q"
  by (auto simp: GetFileSize_def is_dir_def fs_ok_def kind_file_iff stat_def split: option.splits fnode.splits if_splits)

text \<open>What the deletion of files leaves as it is.\<close>

definition same_log :: "'a log_scheme \<Rightarrow> 'a log_scheme \<Rightarrow> bool" where
  "same_log L L' \<longleftrightarrow> m_szDate L' = m_szDate L \<and> m_sttFd L' = m_sttFd L \<and> m_iLevel L' = m_iLevel L \<and>
     m_iMaxLogSize L' = m_iMaxLogSize L \<and> m_iLogSize L' = m_iLogSize L \<and> m_iIndex L' = m_iIndex L \<and>
     m_iMaxFolderSize L' = m_iMaxFolderSize L \<and> log_lines L' = log_lines L \<and> log_stdout L' = log_stdout L \<and>
     files_removed (log_fs L) (log_fs L') \<and> fs_ok (log_fs L')"

lemma Delete_files_eq: "Delete_files os dir w ns L =
    L\<lparr>log_fs := log_fs (Delete_files os dir w ns L), m_iFolderSize := m_iFolderSize (Delete_files os dir w ns L)\<rparr>"
proof (induction ns arbitrary: L)
  case (Cons n ns)
  show ?case by (simp add: Let_def, subst Cons.IH, simp)
qed simp

lemma Delete_files_fs:
  "fs_ok (log_fs L) \<Longrightarrow> fs_ok (log_fs (Delete_files os dir w ns L)) \<and>
    files_removed (log_fs L) (log_fs (Delete_files os dir w ns L))"
proof (induction ns arbitrary: L)
  case (Cons n ns)
  let ?p = "AppendName dir (cstr n)"
  let ?L = "L\<lparr>log_fs := attempt (unlink os ?p) (log_fs L), m_iFolderSize := i64 (m_iFolderSize L - GetFileSize os (log_fs L) ?p)\<rparr>"
  have "fs_ok (log_fs ?L)" "files_removed (log_fs L) (log_fs ?L)"
    using attempt_unlink [OF Cons.prems, of os ?p] by simp_all
  with Cons.IH [of ?L] files_removed_trans show ?case by (simp add: Let_def)
qed simp

lemma DeleteOldFile_in_eq: "fst (DeleteOldFile_in os dir L) =
    L\<lparr>log_fs := log_fs (fst (DeleteOldFile_in os dir L)), m_iFolderSize := m_iFolderSize (fst (DeleteOldFile_in os dir L))\<rparr>"
  by (simp add: DeleteOldFile_in_def Let_def case_prod_beta, subst Delete_files_eq, simp)

lemma DeleteOldFile_in_same: "fs_ok (log_fs L) \<Longrightarrow> same_log L (fst (DeleteOldFile_in os dir L))"
proof -
  assume fs: "fs_ok (log_fs L)"
  have "fs_ok (log_fs (fst (DeleteOldFile_in os dir L))) \<and> files_removed (log_fs L) (log_fs (fst (DeleteOldFile_in os dir L)))"
    using fs by (simp add: DeleteOldFile_in_def Let_def case_prod_beta Delete_files_fs)
  then show ?thesis by (subst DeleteOldFile_in_eq) (simp add: same_log_def)
qed

subsection \<open>The rotation loop\<close>

text \<open>What the rounds of \<open>OPEN_FILE\<close> leave as it is.\<close>

definition rotated :: "'a log_scheme \<Rightarrow> 'a log_scheme \<Rightarrow> bool" where
  "rotated L L' \<longleftrightarrow> m_szDate L' = m_szDate L \<and> m_sttFd L' = None \<and> m_iLevel L' = m_iLevel L \<and>
     m_iMaxLogSize L' = m_iMaxLogSize L \<and> m_iMaxFolderSize L' = m_iMaxFolderSize L \<and>
     log_lines L' = log_lines L \<and> log_stdout L' = log_stdout L \<and>
     files_removed (log_fs L) (log_fs L') \<and> fs_ok (log_fs L')"

text \<open>The contract of \<open>DeleteOldFile\<close>: it returns when the log is \<open>ready\<close>; when it is \<open>safe\<close> and the
  call returns, it only removes files and keeps the members other than \<open>m_iFolderSize\<close>; both do not depend on the current file.\<close>

locale file_rotation =
  fixes os :: os
    and del :: "'a log_scheme \<Rightarrow> 'a log_scheme option"
    and safe :: "'a log_scheme \<Rightarrow> bool"
    and ready :: "'a log_scheme \<Rightarrow> bool"
  assumes ready_safe: "ready L \<Longrightarrow> safe L"
    and del_returns: "fs_ok (log_fs L) \<Longrightarrow> ready L \<Longrightarrow> del L \<noteq> None"
    and del_same: "fs_ok (log_fs L) \<Longrightarrow> safe L \<Longrightarrow> del L = Some L' \<Longrightarrow> same_log L L'"
    and del_safe: "fs_ok (log_fs L) \<Longrightarrow> safe L \<Longrightarrow> del L = Some L' \<Longrightarrow> safe L'"
    and del_ready: "fs_ok (log_fs L) \<Longrightarrow> del L = Some L' \<Longrightarrow> ready L \<Longrightarrow> ready L'"
    and safe_closed: "safe L \<Longrightarrow> safe (L\<lparr>m_iLogSize := 0, m_sttFd := None\<rparr>)"
    and safe_index: "safe L \<Longrightarrow> safe (L\<lparr>m_iIndex := i\<rparr>)"
    and ready_closed: "ready L \<Longrightarrow> ready (L\<lparr>m_iLogSize := 0, m_sttFd := None\<rparr>)"
    and ready_index: "ready L \<Longrightarrow> ready (L\<lparr>m_iIndex := i\<rparr>)"
begin

lemma del_round:
  assumes "fs_ok (log_fs L)" and "safe L" and "del (L\<lparr>m_iLogSize := 0, m_sttFd := None\<rparr>) = Some D"
  shows "rotated L D" and "m_iIndex D = m_iIndex L" and "m_iLogSize D = 0" and "fs_ok (log_fs D)" and "safe D"
proof -
  have c: "fs_ok (log_fs (L\<lparr>m_iLogSize := 0, m_sttFd := None\<rparr>))" using assms(1) by simp
  show "rotated L D" and "m_iIndex D = m_iIndex L" and "m_iLogSize D = 0" and "fs_ok (log_fs D)"
    using del_same [OF c safe_closed [OF assms(2)] assms(3)] by (auto simp: same_log_def rotated_def)
  show "safe D" by (rule del_safe [OF c safe_closed [OF assms(2)] assms(3)])
qed

text \<open>A round that finds the file full goes on with the next index.\<close>

lemma OPEN_FILE_full:
  assumes "del (L\<lparr>m_iLogSize := 0, m_sttFd := None\<rparr>) = Some D" and "0 < m_iMaxLogSize D"
    and "GetFileSize os (log_fs D) (log_name dir t (m_iIndex L)) \<ge> m_iMaxLogSize D"
  shows "OPEN_FILE os del dir t L = OPEN_FILE os del dir t (D\<lparr>m_iIndex := i32 (m_iIndex D + 1)\<rparr>)"
  using assms by (subst OPEN_FILE.simps) (simp add: Let_def)

lemma OPEN_FILE_free:
  assumes "del (L\<lparr>m_iLogSize := 0, m_sttFd := None\<rparr>) = Some D" and "0 < m_iMaxLogSize D"
    and "GetFileSize os (log_fs D) (log_name dir t (m_iIndex L)) < m_iMaxLogSize D"
  shows "OPEN_FILE os del dir t L = Some (open_log os (log_name dir t (m_iIndex L)) t
     (D\<lparr>m_iLogSize := i32 (GetFileSize os (log_fs D) (log_name dir t (m_iIndex L)))\<rparr>))"
  using assms by (subst OPEN_FILE.simps) (simp add: Let_def)

lemma rotated_next: "rotated L D \<Longrightarrow> rotated (D\<lparr>m_iIndex := i\<rparr>) M \<Longrightarrow> rotated L M"
  by (auto simp: rotated_def intro: files_removed_trans)

text \<open>When some index has room, the loop ends at the first one that has.\<close>

lemma OPEN_FILE_first:
  assumes "fs_ok (log_fs L)" and "ready L" and "0 < m_iMaxLogSize L" and "0 \<le> m_iIndex L" and "m_iIndex L \<le> k" and "k < 2 ^ 31"
    and "GetFileSize os (log_fs L) (log_name dir t k) < m_iMaxLogSize L"
  shows "\<exists>j D. OPEN_FILE os del dir t L = Some (open_log os (log_name dir t j) t
       (D\<lparr>m_iLogSize := i32 (GetFileSize os (log_fs D) (log_name dir t j))\<rparr>)) \<and>
     m_iIndex L \<le> j \<and> j \<le> k \<and> m_iIndex D = j \<and> rotated L D \<and> ready D \<and>
     GetFileSize os (log_fs D) (log_name dir t j) < m_iMaxLogSize L \<and>
     (\<forall>i. m_iIndex L \<le> i \<and> i < j \<longrightarrow> GetFileSize os (log_fs L) (log_name dir t i) \<ge> m_iMaxLogSize L)"
  using assms
proof (induction "nat (k - m_iIndex L)" arbitrary: L rule: less_induct)
  case less
  let ?n = "log_name dir t" and ?i = "m_iIndex L" and ?m = "m_iMaxLogSize L"
  have c: "fs_ok (log_fs (L\<lparr>m_iLogSize := 0, m_sttFd := None\<rparr>))" "ready (L\<lparr>m_iLogSize := 0, m_sttFd := None\<rparr>)"
    using less.prems ready_closed by simp_all
  then obtain D where D: "del (L\<lparr>m_iLogSize := 0, m_sttFd := None\<rparr>) = Some D" using del_returns by blast
  note r = del_round [OF less.prems(1) ready_safe [OF less.prems(2)] D]
  have rd: "ready D" using del_ready [OF c(1) D c(2)] .
  have m: "m_iMaxLogSize D = ?m" and rem: "files_removed (log_fs L) (log_fs D)" using r(1) by (simp_all add: rotated_def)
  have grow: "GetFileSize os (log_fs L) q \<ge> ?m" if "GetFileSize os (log_fs D) q \<ge> ?m" for q
    using GetFileSize_removed [OF rem less.prems(1), of os q] that less.prems(3) by auto
  show ?case
  proof (cases "GetFileSize os (log_fs D) (?n ?i) < ?m")
    case True
    then show ?thesis
      using OPEN_FILE_free [OF D] r rd m less.prems by (intro exI [of _ ?i] exI [of _ D]) auto
  next
    case False
    then have f: "GetFileSize os (log_fs L) (?n ?i) \<ge> ?m" using grow by simp
    then have ne: "?i \<noteq> k" using less.prems(7) by auto
    then have i: "i32 (m_iIndex D + 1) = ?i + 1" using less.prems r(2) by (simp add: i32_def)
    let ?D = "D\<lparr>m_iIndex := ?i + 1\<rparr>"
    have o: "OPEN_FILE os del dir t L = OPEN_FILE os del dir t ?D"
      using OPEN_FILE_full [OF D, of dir t] less.prems(3) False m i by simp
    have k: "GetFileSize os (log_fs ?D) (?n k) < m_iMaxLogSize ?D"
      using GetFileSize_removed [OF rem less.prems(1), of os "?n k"] less.prems(3,7) m by auto
    have "nat (k - m_iIndex ?D) < nat (k - ?i)" using ne less.prems(5) by simp
    from less.hyps [OF this] r rd ready_index less.prems ne m k obtain j E where
      E: "OPEN_FILE os del dir t ?D = Some (open_log os (?n j) t (E\<lparr>m_iLogSize := i32 (GetFileSize os (log_fs E) (?n j))\<rparr>))"
      "?i + 1 \<le> j" "j \<le> k" "m_iIndex E = j" "rotated ?D E" "ready E" "GetFileSize os (log_fs E) (?n j) < ?m"
      "\<forall>i. ?i + 1 \<le> i \<and> i < j \<longrightarrow> GetFileSize os (log_fs D) (?n i) \<ge> ?m"
      by auto
    have "\<forall>i. ?i \<le> i \<and> i < j \<longrightarrow> GetFileSize os (log_fs L) (?n i) \<ge> ?m"
    proof (intro allI impI)
      fix i assume i: "?i \<le> i \<and> i < j"
      show "GetFileSize os (log_fs L) (?n i) \<ge> ?m"
        using E(8) grow f i by (cases "i = ?i") auto
    qed
    then show ?thesis using E o rotated_next [OF r(1) E(5)] by (intro exI [of _ j] exI [of _ E]) auto
  qed
qed

text \<open>Whenever the loop ends, it has opened a file with room.\<close>

lemma OPEN_FILE_ends:
  assumes "OPEN_FILE os del dir t L = Some res" and "fs_ok (log_fs L)" and "safe L" and "0 < m_iMaxLogSize L"
  shows "\<exists>D. rotated L D \<and> safe D \<and> GetFileSize os (log_fs D) (log_name dir t (m_iIndex D)) < m_iMaxLogSize L \<and>
    res = open_log os (log_name dir t (m_iIndex D)) t
      (D\<lparr>m_iLogSize := i32 (GetFileSize os (log_fs D) (log_name dir t (m_iIndex D)))\<rparr>)"
proof -
  let ?P = "\<lambda>dir t L res. fs_ok (log_fs L) \<longrightarrow> safe L \<longrightarrow> 0 < m_iMaxLogSize L \<longrightarrow>
    (\<exists>D. rotated L D \<and> safe D \<and> GetFileSize os (log_fs D) (log_name dir t (m_iIndex D)) < m_iMaxLogSize L \<and>
    res = open_log os (log_name dir t (m_iIndex D)) t
      (D\<lparr>m_iLogSize := i32 (GetFileSize os (log_fs D) (log_name dir t (m_iIndex D)))\<rparr>))"
  have "os = os \<longrightarrow> del = del \<longrightarrow> ?P dir t L res"
  proof (rule OPEN_FILE.raw_induct [where P = "\<lambda>u d dir t L res. u = os \<longrightarrow> d = del \<longrightarrow> ?P dir t L res", OF _ assms(1)])
    fix F :: "os \<Rightarrow> ('a log_scheme \<Rightarrow> 'a log_scheme option) \<Rightarrow> cstring \<Rightarrow> tm \<Rightarrow> 'a log_scheme \<Rightarrow> (int \<times> 'a log_scheme) option"
      and o' d dir t L res
    assume IH: "\<And>u d dir t L res. F u d dir t L = Some res \<Longrightarrow> u = os \<longrightarrow> d = del \<longrightarrow> ?P dir t L res"
      and e: "(let szFileName = log_name dir t (m_iIndex L); D = d (L\<lparr>m_iLogSize := 0, m_sttFd := None\<rparr>)
        in if D = None then None
        else let L = the D
             in if m_iMaxLogSize L > 0
                then let iFileSize = GetFileSize o' (log_fs L) szFileName
                     in if iFileSize \<ge> m_iMaxLogSize L then F o' d dir t (L\<lparr>m_iIndex := i32 (m_iIndex L + 1)\<rparr>)
                        else Some (open_log o' szFileName t (L\<lparr>m_iLogSize := i32 iFileSize\<rparr>))
                else Some (open_log o' szFileName t L)) = Some res"
    show "o' = os \<longrightarrow> d = del \<longrightarrow> ?P dir t L res"
    proof (intro impI)
      assume eq: "o' = os" "d = del" and fs: "fs_ok (log_fs L)" and sf: "safe L" and m: "0 < m_iMaxLogSize L"
      from e obtain D where D: "del (L\<lparr>m_iLogSize := 0, m_sttFd := None\<rparr>) = Some D" by (auto simp: Let_def eq split: if_splits)
      note r = del_round [OF fs sf D]
      have mD: "m_iMaxLogSize D = m_iMaxLogSize L" using r(1) by (simp add: rotated_def)
      show "\<exists>D. rotated L D \<and> safe D \<and> GetFileSize os (log_fs D) (log_name dir t (m_iIndex D)) < m_iMaxLogSize L \<and>
        res = open_log os (log_name dir t (m_iIndex D)) t
          (D\<lparr>m_iLogSize := i32 (GetFileSize os (log_fs D) (log_name dir t (m_iIndex D)))\<rparr>)"
      proof (cases "GetFileSize os (log_fs D) (log_name dir t (m_iIndex L)) < m_iMaxLogSize L")
        case True
        then show ?thesis using e D m mD r eq by (intro exI [of _ D]) (simp add: Let_def)
      next
        case False
        let ?D = "D\<lparr>m_iIndex := i32 (m_iIndex D + 1)\<rparr>"
        have "F os del dir t ?D = Some res" using e D m mD False r(2) eq by (simp add: Let_def)
        from IH [OF this] r(4) safe_index [OF r(5)] m mD obtain E where "rotated ?D E" "safe E"
          "GetFileSize os (log_fs E) (log_name dir t (m_iIndex E)) < m_iMaxLogSize L"
          "res = open_log os (log_name dir t (m_iIndex E)) t
            (E\<lparr>m_iLogSize := i32 (GetFileSize os (log_fs E) (log_name dir t (m_iIndex E)))\<rparr>)" by auto
        then show ?thesis using rotated_next [OF r(1)] by (intro exI [of _ E]) blast
      qed
    qed
  qed
  then show ?thesis using assms by blast
qed

end

text \<open>\<open>CLog\<close> is ready when it has a directory that can be read, or need not delete; \<open>CFileLog\<close>
  always, since its errors go to another log.\<close>

definition dir_readable :: "os \<Rightarrow> fnode \<Rightarrow> cstring \<Rightarrow> bool" where
  "dir_readable os fs dir \<longleftrightarrow> is_dir (stat fs dir) \<and> may_read os dir"

definition clog_ready :: "os \<Rightarrow> CLog \<Rightarrow> bool" where
  "clog_ready os L \<longleftrightarrow> (\<forall>dir. m_pszDirName L = Some dir \<longrightarrow> dir_readable os (log_fs L) dir)"

lemma FileList_readable: "dir_readable os fs dir \<Longrightarrow> snd (FileList os fs dir) = []"
  by (auto simp: dir_readable_def FileList_def opendir_def is_dir_def split: option.splits fnode.splits)

lemma dir_readable_removed: "files_removed fs fs' \<Longrightarrow> dir_readable os fs dir \<Longrightarrow> dir_readable os fs' dir"
  unfolding dir_readable_def files_removed_def is_dir_kind by (metis option.distinct(1) option.inject)

lemma DeleteOldFile_in_CLog:
  "m_pszDirName (fst (DeleteOldFile_in os dir L)) = m_pszDirName L"
  "m_pThreadMutex (fst (DeleteOldFile_in os dir L)) = m_pThreadMutex L"
  "m_pclsCallBack (fst (DeleteOldFile_in os dir L)) = m_pclsCallBack L"
  "log_calls (fst (DeleteOldFile_in os dir L)) = log_calls L"
  by (subst DeleteOldFile_in_eq, simp)+

text \<open>With a directory that can be read nothing is logged.\<close>

lemma DeleteOldFile_ready:
  assumes "clog_ready os L" and "fs_ok (log_fs L)"
  shows "\<exists>L'. DeleteOldFile_with pr os L = Some L' \<and> same_log L L' \<and> m_pszDirName L' = m_pszDirName L"
proof -
  have e: "snd (DeleteOldFile_in os dir L) = []" if "m_pszDirName L = Some dir" for dir
    using assms(1) that FileList_readable [of os "log_fs L" dir]
    by (auto simp: clog_ready_def DeleteOldFile_in_def Let_def case_prod_beta)
  have "same_log L L" using assms(2) by (simp add: same_log_def)
  then show ?thesis using DeleteOldFile_in_same [OF assms(2)] e
    by (auto simp: DeleteOldFile_with_def case_prod_beta DeleteOldFile_in_CLog split: option.splits)
qed

text \<open>With the mutex held, a nested \<open>Print\<close> that returns has done nothing.\<close>

lemma Print_held:
  "m_pThreadMutex L \<Longrightarrow> CLog_Print_at n True os now l msg L = Some (r, L') \<Longrightarrow> L' = L"
  by (cases n) (auto simp: Print_locked CLog_Print_at.simps(1) split: if_splits)

lemma Print_all_held:
  "m_pThreadMutex L \<Longrightarrow> Print_all (CLog_Print_at n True os now) evs L = Some L' \<Longrightarrow> L' = L"
proof (induction evs arbitrary: L)
  case (Cons ev evs)
  obtain l msg where ev: "ev = (l, msg)" by (cases ev)
  then obtain r M where M: "CLog_Print_at n True os now l msg L = Some (r, M)" "Print_all (CLog_Print_at n True os now) evs M = Some L'"
    using Cons.prems(2) by (auto split: option.splits)
  then show ?case using Print_held [OF Cons.prems(1) M(1)] Cons by simp
qed simp

lemma DeleteOldFile_locked:
  assumes "m_pThreadMutex L" and "fs_ok (log_fs L)" and "DeleteOldFile_with (CLog_Print_at n True os now) os L = Some L'"
  shows "same_log L L'" and "m_pThreadMutex L'"
proof -
  have "same_log L L" using assms(2) by (simp add: same_log_def)
  moreover have "L' = fst (DeleteOldFile_in os dir L) \<and> m_pThreadMutex L'"
    if "Print_all (CLog_Print_at n True os now) (snd (DeleteOldFile_in os dir L)) (fst (DeleteOldFile_in os dir L)) = Some L'" for dir
    using Print_all_held [OF _ that] assms(1) DeleteOldFile_in_CLog(2) [of os dir L] by auto
  ultimately show "same_log L L'" and "m_pThreadMutex L'"
    using assms(1,3) DeleteOldFile_in_same [OF assms(2), of os]
    by (auto simp: DeleteOldFile_with_def case_prod_beta DeleteOldFile_in_CLog split: if_splits option.splits)
qed

text \<open>The log with a directory that can be read, and the log that holds its mutex.\<close>

interpretation clog: file_rotation os "DeleteOldFile_with pr os" "clog_ready os" "clog_ready os" for os pr
proof
  fix L L' :: CLog and i :: int
  show "fs_ok (log_fs L) \<Longrightarrow> clog_ready os L \<Longrightarrow> DeleteOldFile_with pr os L \<noteq> None"
    using DeleteOldFile_ready [of os L pr] by auto
  show "fs_ok (log_fs L) \<Longrightarrow> clog_ready os L \<Longrightarrow> DeleteOldFile_with pr os L = Some L' \<Longrightarrow> same_log L L'"
    using DeleteOldFile_ready [of os L pr] by auto
  show "fs_ok (log_fs L) \<Longrightarrow> clog_ready os L \<Longrightarrow> DeleteOldFile_with pr os L = Some L' \<Longrightarrow> clog_ready os L'"
    using DeleteOldFile_ready [of os L pr] dir_readable_removed by (auto simp: clog_ready_def same_log_def)
  then show "fs_ok (log_fs L) \<Longrightarrow> DeleteOldFile_with pr os L = Some L' \<Longrightarrow> clog_ready os L \<Longrightarrow> clog_ready os L'"
    by blast
qed (simp_all add: clog_ready_def)

interpretation locked: file_rotation os "DeleteOldFile_with (CLog_Print_at n True os now) os" m_pThreadMutex
  "\<lambda>L. m_pThreadMutex L \<and> clog_ready os L" for os n now
proof
  fix L L' :: CLog and i :: int
  show "fs_ok (log_fs L) \<Longrightarrow> m_pThreadMutex L \<and> clog_ready os L \<Longrightarrow> DeleteOldFile_with (CLog_Print_at n True os now) os L \<noteq> None"
    using DeleteOldFile_ready [of os L] by auto
  show "fs_ok (log_fs L) \<Longrightarrow> m_pThreadMutex L \<Longrightarrow> DeleteOldFile_with (CLog_Print_at n True os now) os L = Some L' \<Longrightarrow> same_log L L'"
    "fs_ok (log_fs L) \<Longrightarrow> m_pThreadMutex L \<Longrightarrow> DeleteOldFile_with (CLog_Print_at n True os now) os L = Some L' \<Longrightarrow> m_pThreadMutex L'"
    using DeleteOldFile_locked by blast+
  show "fs_ok (log_fs L) \<Longrightarrow> DeleteOldFile_with (CLog_Print_at n True os now) os L = Some L' \<Longrightarrow>
      m_pThreadMutex L \<and> clog_ready os L \<Longrightarrow> m_pThreadMutex L' \<and> clog_ready os L'"
    using clog.del_ready [of L _ os L'] DeleteOldFile_locked(2) [of L] by blast
qed (simp_all add: clog_ready_def)

interpretation flog: file_rotation os "FileLog_DeleteOldFile os" "\<lambda>L. True" "\<lambda>L. True" for os
proof
  fix L L' :: CFileLog
  have e: "m_szDate (fst (DeleteOldFile_in os dir L)\<lparr>fl_events := evs\<rparr>) = m_szDate (fst (DeleteOldFile_in os dir L))" for dir evs
    by simp
  show "same_log L L'" if "fs_ok (log_fs L)" "FileLog_DeleteOldFile os L = Some L'"
    using that DeleteOldFile_in_same [OF that(1), of os "m_strDirName L"]
    by (auto simp: FileLog_DeleteOldFile_def case_prod_beta same_log_def split: if_splits)
  show "FileLog_DeleteOldFile os L \<noteq> None" by (auto simp: FileLog_DeleteOldFile_def case_prod_beta)
qed simp_all

subsection \<open>Names of log files\<close>

definition log_base :: "tm \<Rightarrow> int \<Rightarrow> string" where
  "log_base t i = Date_text t @ ''_'' @ show_int i @ ''.txt''"

lemma isdigit_not_sep: "isdigit_c c \<Longrightarrow> c \<noteq> DIR_SEP"
  by (auto simp: isdigit_c_def DIR_SEP_def)

lemma Date_text_chars: "tm_ok t \<Longrightarrow> c \<in> set (Date_text t) \<Longrightarrow> isdigit_c c"
  by (auto simp: Date_text_def tm_ok_def pad_int_digits_w dest: digits_w_isdigit)

lemma length_show_int: "0 \<le> i \<Longrightarrow> i < 2 ^ 31 \<Longrightarrow> length (show_int i) \<le> 10"
  using length_show_nat_le [of "nat i" 9] by (simp add: show_int_def)

lemma log_base_sep: "tm_ok t \<Longrightarrow> DIR_SEP \<notin> set (log_base t i)"
  using Date_text_chars [of t DIR_SEP] show_int_chars [of DIR_SEP i]
  by (auto simp: log_base_def DIR_SEP_def isdigit_c_def)

lemma log_base_inj: "0 \<le> i \<Longrightarrow> 0 \<le> j \<Longrightarrow> log_base t i = log_base t j \<Longrightarrow> i = j"
proof -
  assume "0 \<le> i" "0 \<le> j" "log_base t i = log_base t j"
  then have "show_nat (nat i) = show_nat (nat j)" by (simp add: log_base_def show_int_def)
  then have "nat i = nat j" by (metis digits_val_show_nat)
  with \<open>0 \<le> i\<close> \<open>0 \<le> j\<close> show "i = j" by simp
qed

lemma log_name_eq:
  "tm_ok t \<Longrightarrow> 0 \<le> i \<Longrightarrow> i < 2 ^ 31 \<Longrightarrow> length dir < 1000 \<Longrightarrow> log_name dir t i = dir @ [DIR_SEP] @ log_base t i"
  using length_show_int [of i]
  by (simp add: log_name_def log_base_def Date_text_def snprintf_buf_def length_pad_int tm_ok_def)

lemma comps_entry: "DIR_SEP \<notin> set y \<Longrightarrow> y \<noteq> [] \<Longrightarrow> comps (x @ [DIR_SEP] @ y) = comps x @ [y]"
  by (simp add: comps_def DIR_SEP_def split_on_snoc)

lemma log_name_comps:
  "tm_ok t \<Longrightarrow> 0 \<le> i \<Longrightarrow> i < 2 ^ 31 \<Longrightarrow> length dir < 1000 \<Longrightarrow> comps (log_name dir t i) = comps dir @ [log_base t i]"
  by (simp only: log_name_eq) (rule comps_entry, simp_all add: log_base_sep, simp add: log_base_def)

text \<open>A directory with fewer entries than indexes has an index whose file does not exist.\<close>

lemma log_index_free:
  assumes "tm_ok t" and "0 \<le> i" and "i + int (length es) < 2 ^ 31" and "length dir < 1000" and "stat fs dir = Some (Dir es)"
  shows "\<exists>k. i \<le> k \<and> k \<le> i + int (length es) \<and> GetFileSize os fs (log_name dir t k) = 0"
proof -
  let ?I = "{i .. i + int (length es)}"
  have "inj_on (log_base t) ?I" using log_base_inj assms(2) by (intro inj_onI) auto
  then have "card (log_base t ` ?I) = length es + 1" by (simp add: card_image)
  moreover have "card (set (map fst es)) \<le> length es" using card_length [of "map fst es"] by simp
  ultimately have "\<not> card (log_base t ` ?I) \<le> card (set (map fst es))" by simp
  then have "\<not> log_base t ` ?I \<subseteq> set (map fst es)" using card_mono [OF finite_set] by blast
  then obtain k where k: "k \<in> ?I" "log_base t k \<notin> set (map fst es)" by blast
  then have "map_of es (log_base t k) = None" by (simp add: map_of_eq_None_iff)
  moreover have "comps (log_name dir t k) = comps dir @ [log_base t k]"
    by (rule log_name_comps) (use k assms in auto)
  moreover have "lookup fs (comps dir) = Some (Dir es)" using assms(5) by (auto simp: stat_def split: if_splits)
  ultimately have "lookup fs (comps (log_name dir t k)) = None" by (simp only: lookup_append option.case lookup.simps)
  then have "stat fs (log_name dir t k) = None" by (simp add: stat_def)
  then show ?thesis using k by (intro exI [of _ k]) (simp add: GetFileSize_def)
qed

subsection \<open>Lines\<close>

definition moment_ok :: "moment \<Rightarrow> bool" where
  "moment_ok now \<longleftrightarrow> tm_ok (now_tm now) \<and> now_usec now < 1000000 \<and> now_thread now < 2 ^ 64"

lemma length_show_HEX: "n < 16 ^ Suc j \<Longrightarrow> length (show_HEX n) \<le> Suc j"
proof (induction j arbitrary: n)
  case 0
  then show ?case by (subst show_HEX.simps) simp
next
  case (Suc j)
  then have "length (show_HEX (n div 16)) \<le> Suc j"
    by (intro Suc.IH) (simp add: less_mult_imp_div_less mult.commute)
  then show ?case by (subst show_HEX.simps) simp
qed

lemma length_pad_dec: "0 < w \<Longrightarrow> n < 10 ^ w \<Longrightarrow> length (pad_dec w n) = w"
  by (simp add: pad_dec_digits_w)

lemma length_level_header: "length (level_header l) \<le> 10"
  by (cases l) auto

text \<open>The longest line: 48 bytes before the message and the line feed, and 8190 bytes of message.\<close>

abbreviation max_line :: int where "max_line \<equiv> 8238"

lemma length_file_line:
  assumes "moment_ok now"
  shows "int (length (file_line now l (snprintf_buf (LOG_MAX_SIZE - 1) msg))) \<le> max_line"
proof -
  have "length (show_HEX (now_thread now)) \<le> Suc 15"
    by (rule length_show_HEX) (use assms in \<open>simp add: moment_ok_def\<close>)
  moreover have "length (pad_dec 6 (now_usec now)) = 6"
    by (rule length_pad_dec) (use assms in \<open>simp_all add: moment_ok_def\<close>)
  moreover have "length (log_time (now_tm now)) = 8"
    using assms by (simp add: log_time_def moment_ok_def tm_ok_def length_pad_int)
  ultimately show ?thesis
    using length_level_header [of l] by (simp add: file_line_def snprintf_buf_def)
qed

subsection \<open>Opening and writing\<close>

lemma fopen_size:
  assumes "fopen_append os p fs = Some fs'" and "fs_ok fs"
  shows "stat fs' p = Some (File (GetFileSize os fs p))"
proof -
  have "\<not> is_dir (stat fs p)"
    using assms(1) by (cases "lookup fs (comps p)" rule: kind_cases) (auto simp: fopen_append_def stat_def is_dir_def split: if_splits)
  then have "(case stat fs p of Some (File s) \<Rightarrow> s | _ \<Rightarrow> 0) = GetFileSize os fs p"
    by (auto simp: GetFileSize_def is_dir_def split: option.splits fnode.splits)
  then have "kind (stat fs' p) = Some (Some (GetFileSize os fs p))"
    using fopen_append_Some(3) [OF assms, of p] fopen_append_Some(2) [OF assms] by simp
  then show ?thesis by (simp add: kind_file_iff)
qed

lemma fopen_possible:
  assumes "may_open os p" and "p \<noteq> []" and "\<not> is_dir (stat fs p)" and "is_dir (lookup fs (butlast (comps p)))"
  shows "fopen_append os p fs \<noteq> None"
  using assms by (auto simp: fopen_append_def stat_def is_dir_def split: option.splits fnode.splits)

text \<open>The size that a log has counted is the size of its file.\<close>

definition size_exact :: "'a log_scheme \<Rightarrow> bool" where
  "size_exact L \<longleftrightarrow> (\<forall>fd s. m_sttFd L = Some fd \<longrightarrow> stat (log_fs L) fd = Some (File s) \<longrightarrow> s = m_iLogSize L)"

lemma open_log_exact:
  assumes "open_log os p t (D\<lparr>m_iLogSize := i32 (GetFileSize os (log_fs D) p)\<rparr>) = (r, L')"
    and "fs_ok (log_fs D)" and "GetFileSize os (log_fs D) p < 2 ^ 31"
  shows "size_exact L'" and "fs_ok (log_fs L')"
    and "m_sttFd L' \<noteq> None \<longrightarrow> m_sttFd L' = Some p \<and> r = 0 \<and> stat (log_fs L') p = Some (File (GetFileSize os (log_fs D) p)) \<and>
      m_iLogSize L' = GetFileSize os (log_fs D) p \<and> 0 \<le> m_iLogSize L'"
proof -
  have "size_exact L' \<and> fs_ok (log_fs L') \<and> (m_sttFd L' \<noteq> None \<longrightarrow> m_sttFd L' = Some p \<and> r = 0 \<and>
      stat (log_fs L') p = Some (File (GetFileSize os (log_fs D) p)) \<and>
      m_iLogSize L' = GetFileSize os (log_fs D) p \<and> 0 \<le> m_iLogSize L')"
  proof (cases "fopen_append os p (log_fs D)")
    case None
    then show ?thesis using assms by (auto simp: open_log_def size_exact_def)
  next
    case (Some fs)
    have st: "stat fs p = Some (File (GetFileSize os (log_fs D) p))" by (rule fopen_size [OF Some assms(2)])
    have ok: "fs_ok fs" by (rule fopen_append_Some(1) [OF Some assms(2)])
    then have nn: "0 \<le> GetFileSize os (log_fs D) p"
      using st unfolding fs_ok_def by (auto simp: kind_file_iff stat_def split: if_splits)
    then have "i32 (GetFileSize os (log_fs D) p) = GetFileSize os (log_fs D) p"
      using assms(3) by (intro i32_id) (simp add: in_i32_def)
    then show ?thesis using Some st ok nn assms(1) by (auto simp: open_log_def size_exact_def)
  qed
  then show "size_exact L'" "fs_ok (log_fs L')" "m_sttFd L' \<noteq> None \<longrightarrow> m_sttFd L' = Some p \<and> r = 0 \<and>
      stat (log_fs L') p = Some (File (GetFileSize os (log_fs D) p)) \<and>
      m_iLogSize L' = GetFileSize os (log_fs D) p \<and> 0 \<le> m_iLogSize L'" by blast+
qed

lemma fappend_not_file: "\<not> (\<exists>s. stat fs p = Some (File s)) \<Longrightarrow> fappend p n fs = fs"
  by (auto simp: fappend_def split: option.splits fnode.splits)

lemma write_line_exact:
  assumes "size_exact L" and "fs_ok (log_fs L)" and "m_sttFd L = Some fd"
    and "0 \<le> m_iLogSize L" and "m_iLogSize L + int (length line) < 2 ^ 31"
  shows "size_exact (write_line fd line L)" and "fs_ok (log_fs (write_line fd line L))"
    and "m_iLogSize (write_line fd line L) = m_iLogSize L + int (length line)"
    and "stat (log_fs L) fd = Some (File s) \<Longrightarrow> stat (log_fs (write_line fd line L)) fd = Some (File (m_iLogSize (write_line fd line L)))"
proof -
  let ?n = "int (length line)"
  show i: "m_iLogSize (write_line fd line L) = m_iLogSize L + ?n"
    using assms(4,5) by (simp add: write_line_def i32_id in_i32_def)
  have "fs_ok (log_fs (write_line fd line L)) \<and> (\<forall>s. stat (log_fs L) fd = Some (File s) \<longrightarrow>
      stat (log_fs (write_line fd line L)) fd = Some (File (m_iLogSize L + ?n))) \<and>
    ((\<forall>s. stat (log_fs L) fd \<noteq> Some (File s)) \<longrightarrow> log_fs (write_line fd line L) = log_fs L)"
  proof (cases "\<exists>s. stat (log_fs L) fd = Some (File s)")
    case True
    then obtain s where s: "stat (log_fs L) fd = Some (File s)" by blast
    then have e: "s = m_iLogSize L" using assms(1,3) by (auto simp: size_exact_def)
    have p: "fd \<noteq> []" using s by (auto simp: stat_def)
    have n: "0 \<le> s + ?n" using e assms(4) by simp
    have "kind (stat (fappend fd ?n (log_fs L)) fd) = Some (Some (s + ?n))"
      using fappend_stat(2) [where q = fd, OF assms(2) s n] p by simp
    then show ?thesis using fappend_stat(1) [OF assms(2) s n] e s by (simp add: write_line_def kind_file_iff)
  next
    case False
    then show ?thesis using assms(2) fappend_not_file [of "log_fs L" fd] by (auto simp: write_line_def)
  qed
  then show "fs_ok (log_fs (write_line fd line L))" "size_exact (write_line fd line L)"
    "stat (log_fs L) fd = Some (File s) \<Longrightarrow> stat (log_fs (write_line fd line L)) fd = Some (File (m_iLogSize (write_line fd line L)))"
    using i assms(3) by (auto simp: size_exact_def) (simp_all add: write_line_def)
qed

subsection \<open>The first line of a day\<close>

text \<open>The rotation opens the first file with room, whose size is then counted exactly.\<close>

lemma rotation_opens:
  assumes "fs_ok (log_fs L)" and dir: "stat (log_fs L) dir = Some (Dir es)" "may_read os dir"
    and files: "\<And>k. 1 \<le> k \<Longrightarrow> k \<le> 1 + int (length es) \<Longrightarrow> may_open os (log_name dir t k) \<and> \<not> is_dir (stat (log_fs L) (log_name dir t k))"
    and small: "length dir < 1000" "int (length es) < 2 ^ 31 - 1" and max: "0 < m_iMaxLogSize L" "m_iMaxLogSize L \<le> MAX_LOG_FILE_SIZE"
    and t: "tm_ok t" and d: "m_pszDirName L = Some dir"
  shows "\<exists>j M. OPEN_FILE os (DeleteOldFile_with pr os) dir t (L\<lparr>m_iIndex := 1\<rparr>) = Some (0, M) \<and> 1 \<le> j \<and> j \<le> 1 + int (length es) \<and>
    m_sttFd M = Some (log_name dir t j) \<and> m_szDate M = log_date t \<and> m_iIndex M = j \<and> log_lines M = log_lines L \<and>
    size_exact M \<and> fs_ok (log_fs M) \<and> stat (log_fs M) (log_name dir t j) = Some (File (m_iLogSize M)) \<and> 0 \<le> m_iLogSize M \<and>
    m_iLogSize M < m_iMaxLogSize L \<and> (\<forall>i. 1 \<le> i \<and> i < j \<longrightarrow> GetFileSize os (log_fs L) (log_name dir t i) \<ge> m_iMaxLogSize L)"
proof -
  let ?n = "log_name dir t" and ?L = "L\<lparr>m_iIndex := 1\<rparr>"
  obtain k where k: "1 \<le> k" "k \<le> 1 + int (length es)" "GetFileSize os (log_fs L) (?n k) = 0"
    using log_index_free [OF t _ _ small(1) dir(1), of 1 os] small(2) by auto
  have rd: "clog_ready os ?L" using dir d by (simp add: clog_ready_def dir_readable_def is_dir_def)
  obtain j D where D: "OPEN_FILE os (DeleteOldFile_with pr os) dir t ?L = Some (open_log os (?n j) t
       (D\<lparr>m_iLogSize := i32 (GetFileSize os (log_fs D) (?n j))\<rparr>))"
     "1 \<le> j" "j \<le> k" "m_iIndex D = j" "rotated ?L D" "clog_ready os D"
     "GetFileSize os (log_fs D) (?n j) < m_iMaxLogSize L"
     "\<forall>i. 1 \<le> i \<and> i < j \<longrightarrow> GetFileSize os (log_fs L) (?n i) \<ge> m_iMaxLogSize L"
    using clog.OPEN_FILE_first [of ?L os k dir t pr] assms(1) small max rd k by auto
  obtain r M where M: "open_log os (?n j) t (D\<lparr>m_iLogSize := i32 (GetFileSize os (log_fs D) (?n j))\<rparr>) = (r, M)"
    by (cases "open_log os (?n j) t (D\<lparr>m_iLogSize := i32 (GetFileSize os (log_fs D) (?n j))\<rparr>)")
  have j: "1 \<le> j" "j \<le> 1 + int (length es)" using D(2,3) k(2) by auto
  have fsD: "fs_ok (log_fs D)" and rem: "files_removed (log_fs L) (log_fs D)" using D(5) by (simp_all add: rotated_def)
  have name: "comps (?n j) = comps dir @ [log_base t j]"
    by (rule log_name_comps) (use t j small in auto)
  have "is_dir (stat (log_fs D) dir)"
    using rem dir(1) unfolding files_removed_def is_dir_kind by (metis kind_simps(3) option.distinct(1) option.inject)
  then have par: "is_dir (lookup (log_fs D) (butlast (comps (?n j))))"
    by (auto simp: name stat_def is_dir_def split: if_splits)
  have "\<not> is_dir (stat (log_fs D) (?n j))"
    using rem files [OF j] unfolding files_removed_def is_dir_kind by (metis option.distinct(1))
  then have "fopen_append os (?n j) (log_fs D) \<noteq> None"
    by (intro fopen_possible) (use par files [OF j] in \<open>auto simp: stat_def log_name_def snprintf_buf_def\<close>)
  then have fd: "m_sttFd M \<noteq> None" "m_szDate M = log_date t" "m_iIndex M = j" "log_lines M = log_lines L"
    using M D(4,5) by (auto simp: open_log_def rotated_def log_date_def snprintf_buf_def)
  have "GetFileSize os (log_fs D) (?n j) < 2 ^ 31" using D(7) max(2) by (simp add: MAX_LOG_FILE_SIZE_def)
  from open_log_exact [OF M fsD this] fd D(1,7,8) M j show ?thesis
    by (intro exI [of _ j] exI [of _ M]) auto
qed


definition demo_tm :: tm where
  "demo_tm = \<lparr>tm_year = 124, tm_mon = 0, tm_mday = 1, tm_hour = 9, tm_min = 30, tm_sec = 5\<rparr>"

definition demo_now :: moment where
  "demo_now = \<lparr>now_tm = demo_tm, now_usec = 42, now_thread = 255\<rparr>"

definition demo_fs :: fnode where
  "demo_fs = Dir [(''log'', Dir [(''20240101_1.txt'', File 10485760)])]"

definition demo_log :: CLog where
  "demo_log = (CLog_init demo_fs)\<lparr>m_pszDirName := Some ''/log'', m_pThreadMutex := True\<rparr>"

lemma fs_ok_Dir_files:
  "distinct (map fst es) \<Longrightarrow> \<forall>(k, n) \<in> set es. \<exists>s. n = File s \<and> 0 \<le> s \<Longrightarrow> fs_ok (Dir [(k, Dir es)])"
proof -
  assume a: "distinct (map fst es)" "\<forall>(k, n) \<in> set es. \<exists>s. n = File s \<and> 0 \<le> s"
  have "tree_ok (Dir [(k, Dir es)])" using a by fastforce
  moreover have "0 \<le> s" if "lookup (Dir [(k, Dir es)]) q = Some (File s)" for q s
  proof -
    from that obtain c r where "q = k # c # r" "map_of es c \<noteq> None"
      by (cases q; cases "tl q") (auto split: if_splits option.splits)
    moreover from this obtain n where "map_of es c = Some n" by blast
    moreover from this a(2) obtain t where "n = File t" "0 \<le> t" by (fastforce dest: map_of_SomeD)
    ultimately show ?thesis using that by (cases r) auto
  qed
  ultimately show "fs_ok (Dir [(k, Dir es)])" by (auto simp: fs_ok_def is_dir_def kind_file_iff)
qed

lemma demo_fs_ok: "fs_ok demo_fs"
  unfolding demo_fs_def by (rule fs_ok_Dir_files) auto

lemma demo_log_state: "log_fs demo_log = demo_fs" "m_pszDirName demo_log = Some ''/log''" "log_lines demo_log = []"
  "m_iMaxLogSize demo_log = 10485760" "m_szDate demo_log = []" "m_iLevel demo_log = 1"
  by (simp_all add: demo_log_def CLog_init_def DEFAULT_LOG_FILE_SIZE_def)

lemma demo_stat: "stat demo_fs ''/log'' = Some (Dir [(''20240101_1.txt'', File 10485760)])"
  by code_simp

lemma demo_names: "stat demo_fs (log_name ''/log'' demo_tm 1) = Some (File 10485760)"
  "stat demo_fs (log_name ''/log'' demo_tm 2) = None"
  by code_simp+


end
