(* ===== verification/LogRuns.thy ===== *)
theory LogRuns
  imports LogFileSpec DirectorySpec
begin

unbundle bit_operations_syntax

text \<open>
  Every state that the operations of \<open>CLog\<close> can reach: the counted size of the current file is its
  real size less what print functions wrote to it, and is bounded, whatever the order of prints, limits, directories and deletions.
\<close>

subsection \<open>Reachable states of the log\<close>

definition os_ok :: "os \<Rightarrow> bool" where
  "os_ok os \<longleftrightarrow> (\<forall>p. 0 \<le> dir_st_size os p)"

text \<open>\<open>u\<close> is the number of bytes that the functions handed to \<open>Print\<close> have written so far.\<close>

inductive clog_reach :: "os \<Rightarrow> fnode \<Rightarrow> int \<Rightarrow> CLog \<Rightarrow> bool" for os fs where
  init: "clog_reach os fs 0 (CLog_init fs)"
| print: "clog_reach os fs u L \<Longrightarrow> moment_ok now \<Longrightarrow> CLog_Print os now l msg L = Some (r, L') \<Longrightarrow> clog_reach os fs u L'"
| print_func: "clog_reach os fs u L \<Longrightarrow> clog_reach os fs (u + int (length text)) (CLog_Print_func text L)"
| directory: "clog_reach os fs u L \<Longrightarrow> \<forall>k. moment_ok (nows k) \<Longrightarrow> CLog_SetDirectory os nows d L = Some (b, L') \<Longrightarrow> clog_reach os fs u L'"
| delete: "clog_reach os fs u L \<Longrightarrow> moment_ok now \<Longrightarrow> CLog_DeleteOldFile os now L = Some L' \<Longrightarrow> clog_reach os fs u L'"
| release: "clog_reach os fs u L \<Longrightarrow> clog_reach os fs u (CLog_Release L)"
| callback: "clog_reach os fs u L \<Longrightarrow> clog_reach os fs u (SetCallBack c L)"
| level: "clog_reach os fs u L \<Longrightarrow> clog_reach os fs u (SetLevel lv L)"
| null_level: "clog_reach os fs u L \<Longrightarrow> clog_reach os fs u (SetNullLevel L)"
| debug_level: "clog_reach os fs u L \<Longrightarrow> clog_reach os fs u (SetDebugLevel L)"
| max_size: "clog_reach os fs u L \<Longrightarrow> clog_reach os fs u (SetMaxLogSize n L)"
| max_folder: "clog_reach os fs u L \<Longrightarrow> clog_reach os fs u (SetMaxFolderSize n L)"

text \<open>The size of the open file exceeds its count by at most \<open>u\<close>.\<close>

definition size_within :: "int \<Rightarrow> 'a log_scheme \<Rightarrow> bool" where
  "size_within u L \<longleftrightarrow> (\<forall>fd s. m_sttFd L = Some fd \<longrightarrow> stat (log_fs L) fd = Some (File s) \<longrightarrow> m_iLogSize L \<le> s \<and> s \<le> m_iLogSize L + u)"

lemma size_within_exact: "size_exact L \<Longrightarrow> 0 \<le> u \<Longrightarrow> size_within u L"
  by (auto simp: size_exact_def size_within_def)

definition clog_inv :: "int \<Rightarrow> CLog \<Rightarrow> bool" where
  "clog_inv u L \<longleftrightarrow> 0 \<le> u \<and> fs_ok (log_fs L) \<and> size_within u L \<and> 0 \<le> m_iLogSize L \<and> m_iLogSize L < MAX_LOG_FILE_SIZE + max_line \<and>
     MIN_LOG_FILE_SIZE \<le> m_iMaxLogSize L \<and> m_iMaxLogSize L \<le> MAX_LOG_FILE_SIZE \<and>
     (m_pszDirName L \<noteq> None \<longrightarrow> m_pThreadMutex L)"

lemma GetFileSize_nonneg_ok: "fs_ok fs \<Longrightarrow> os_ok os \<Longrightarrow> 0 \<le> GetFileSize os fs q"
  by (cases "stat fs q" rule: kind_cases)
    (auto simp: GetFileSize_def os_ok_def fs_ok_def kind_file_iff stat_def split: if_splits)

lemma open_log_same: "open_log os p t D = (r, L') \<Longrightarrow> m_iMaxLogSize L' = m_iMaxLogSize D \<and> m_iLogSize L' = m_iLogSize D"
  by (auto simp: open_log_def split: option.splits)

text \<open>Bytes at the end of the open file.\<close>

lemma fappend_self:
  assumes "fs_ok fs" and "0 \<le> n"
  shows "fs_ok (fappend fd n fs)"
    and "stat (fappend fd n fs) fd = Some (File t) \<longleftrightarrow> (\<exists>s. stat fs fd = Some (File s) \<and> t = s + n)"
proof -
  have "fs_ok (fappend fd n fs) \<and> (stat (fappend fd n fs) fd = Some (File t) \<longleftrightarrow> (\<exists>s. stat fs fd = Some (File s) \<and> t = s + n))"
  proof (cases "\<exists>s. stat fs fd = Some (File s)")
    case True
    then obtain s where s: "stat fs fd = Some (File s)" by blast
    then have p: "fd \<noteq> []" by (auto simp: stat_def)
    have "0 \<le> s" using s assms(1) by (auto simp: fs_ok_def kind_file_iff stat_def split: if_splits)
    then have z: "0 \<le> s + n" using assms(2) by simp
    have "kind (stat (fappend fd n fs) fd) = Some (Some (s + n))"
      using fappend_stat(2) [OF assms(1) s z, of fd] p by simp
    then show ?thesis using fappend_stat(1) [OF assms(1) s z] s by (auto simp: kind_file_iff)
  next
    case False
    then show ?thesis using fappend_not_file [of fs fd n] assms(1) by simp
  qed
  then show "fs_ok (fappend fd n fs)"
    "stat (fappend fd n fs) fd = Some (File t) \<longleftrightarrow> (\<exists>s. stat fs fd = Some (File s) \<and> t = s + n)" by blast+
qed

lemma write_line_inv:
  assumes "clog_inv u M" and "m_sttFd M = Some fd" and "m_iLogSize M < m_iMaxLogSize M" and "int (length line) \<le> max_line"
  shows "clog_inv u (write_line fd line M)" and "m_iLogSize (write_line fd line M) = m_iLogSize M + int (length line)"
proof -
  have "m_iLogSize M + int (length line) < 2 ^ 31" "0 \<le> m_iLogSize M"
    using assms by (simp_all add: clog_inv_def MAX_LOG_FILE_SIZE_def)
  then show i: "m_iLogSize (write_line fd line M) = m_iLogSize M + int (length line)"
    by (simp add: write_line_def i32_id in_i32_def)
  have e: "log_fs (write_line fd line M) = fappend fd (int (length line)) (log_fs M)" "m_sttFd (write_line fd line M) = Some fd"
    "m_iMaxLogSize (write_line fd line M) = m_iMaxLogSize M" "m_pszDirName (write_line fd line M) = m_pszDirName M"
    "m_pThreadMutex (write_line fd line M) = m_pThreadMutex M"
    using assms(2) by (simp_all add: write_line_def)
  have "fs_ok (log_fs M)" using assms(1) by (simp add: clog_inv_def)
  note f = fappend_self [OF this, of "int (length line)" fd]
  show "clog_inv u (write_line fd line M)"
    using assms f unfolding clog_inv_def size_within_def i e by auto
qed

lemma CLog_rotate_inv:
  assumes "clog_inv u L" and "os_ok os" and "CLog_rotate (DeleteOldFile_with (CLog_Print_at n (m_pThreadMutex L) os now) os) os t L = Some (r, M)"
  shows "clog_inv u M" and "m_iLogSize M < m_iMaxLogSize M"
proof -
  have pos: "0 < m_iMaxLogSize L" and fs: "fs_ok (log_fs L)"
    using assms(1) by (auto simp: clog_inv_def MIN_LOG_FILE_SIZE_def)
  have opened: "clog_inv u M \<and> m_iLogSize M < m_iMaxLogSize M"
    if o: "OPEN_FILE os (DeleteOldFile_with (CLog_Print_at n True os now) os) dir t (L\<lparr>m_iIndex := i\<rparr>) = Some (r, M)"
      and mtx: "m_pThreadMutex L" for dir i
  proof -
    let ?n = "\<lambda>D. log_name dir t (m_iIndex D)"
    obtain D where D: "rotated L D" "GetFileSize os (log_fs D) (?n D) < m_iMaxLogSize L"
      "(r, M) = open_log os (?n D) t (D\<lparr>m_iLogSize := i32 (GetFileSize os (log_fs D) (?n D))\<rparr>)" "m_pThreadMutex D"
      using locked.OPEN_FILE_ends [OF o] fs pos mtx by (auto simp: rotated_def)
    have fsD: "fs_ok (log_fs D)" using D(1) by (simp add: rotated_def)
    have sz: "0 \<le> GetFileSize os (log_fs D) (?n D)" "GetFileSize os (log_fs D) (?n D) < 2 ^ 30"
      using GetFileSize_nonneg_ok [OF fsD assms(2)] D(2) assms(1) by (simp_all add: clog_inv_def MAX_LOG_FILE_SIZE_def)
    then have "GetFileSize os (log_fs D) (?n D) < 2 ^ 31" by simp
    note ex = open_log_exact [OF D(3) [symmetric] fsD this]
    have "i32 (GetFileSize os (log_fs D) (?n D)) = GetFileSize os (log_fs D) (?n D)"
      using sz by (intro i32_id) (simp add: in_i32_def)
    then have m: "m_iMaxLogSize M = m_iMaxLogSize L" "m_iLogSize M = GetFileSize os (log_fs D) (?n D)"
      using open_log_same [OF D(3) [symmetric]] D(1) by (simp_all add: rotated_def)
    have "m_pThreadMutex M" using D(3,4) by (auto simp: open_log_def split: option.splits)
    moreover have "size_within u M" using ex(1) assms(1) by (simp add: size_within_exact clog_inv_def)
    ultimately show ?thesis using ex(2) m sz D(2) assms(1) by (simp add: clog_inv_def MAX_LOG_FILE_SIZE_def)
  qed
  have mtx: "m_pThreadMutex L" if "m_pszDirName L = Some dir" for dir using assms(1) that by (simp add: clog_inv_def)
  have "clog_inv u M \<and> m_iLogSize M < m_iMaxLogSize M"
    using assms(1,3) opened mtx pos by (auto simp: CLog_rotate_def split: if_splits option.splits)
  then show "clog_inv u M" "m_iLogSize M < m_iMaxLogSize M" by simp_all
qed

lemma CLog_Print_inv:
  assumes "clog_inv u L" and "os_ok os" and "moment_ok now" and "CLog_Print os now l msg L = Some (r, L')"
  shows "clog_inv u L'" and "r \<noteq> 1 \<Longrightarrow> m_iLogSize L' < m_iMaxLogSize L' + max_line"
proof -
  let ?line = "file_line now l (snprintf_buf (LOG_MAX_SIZE - 1) msg)"
  have "clog_inv u L' \<and> (r \<noteq> 1 \<longrightarrow> m_iLogSize L' < m_iMaxLogSize L' + max_line)"
  proof (cases "(m_iLevel L AND int (level_bits l)) = 0")
    case True
    then show ?thesis using assms(1,4) by (auto simp: CLog_Print_def CLog_Print_at.simps(2))
  next
    case False
    then obtain M where M: "CLog_rotate (DeleteOldFile_with (CLog_Print_at (Suc 0) (m_pThreadMutex L) os now) os) os (now_tm now) L = Some (r, M)"
      using assms(4) by (auto simp: CLog_Print_def CLog_Print_at.simps(2) Let_def split: option.splits if_splits)
    note rot = CLog_rotate_inv [OF assms(1,2) M]
    have line: "int (length ?line) \<le> max_line" by (rule length_file_line [OF assms(3)])
    show ?thesis
    proof (cases "m_sttFd M")
      case None
      then have "\<exists>cs ls. L' = M\<lparr>log_calls := cs\<rparr> \<or> L' = M\<lparr>log_stdout := ls\<rparr>"
        using assms(4) False M by (auto simp: CLog_Print_def CLog_Print_at.simps(2) Let_def split: if_splits)
      then show ?thesis using rot by (auto simp: clog_inv_def size_within_def)
    next
      case (Some fd)
      then have L': "L' = write_line fd ?line M" using assms(4) False M by (simp add: CLog_Print_def CLog_Print_at.simps(2) Let_def)
      have "m_iMaxLogSize L' = m_iMaxLogSize M" by (simp add: L' write_line_def)
      then show ?thesis using write_line_inv [OF rot(1) Some rot(2) line] rot line unfolding L' by auto
    qed
  qed
  then show "clog_inv u L'" "r \<noteq> 1 \<Longrightarrow> m_iLogSize L' < m_iMaxLogSize L' + max_line" by auto
qed

lemma CLog_Print_func_inv:
  assumes "clog_inv u L"
  shows "clog_inv (u + int (length text)) (CLog_Print_func text L)"
proof (cases "m_sttFd L")
  case None
  then show ?thesis using assms by (simp add: CLog_Print_func_def clog_inv_def size_within_def)
next
  case (Some fd)
  have "fs_ok (log_fs L)" using assms by (simp add: clog_inv_def)
  note f = fappend_self [OF this, of "int (length text)" fd]
  show ?thesis using assms f unfolding clog_inv_def size_within_def by (auto simp: CLog_Print_func_def Some)
qed

lemma CLog_events_inv:
  "clog_inv u L \<Longrightarrow> os_ok os \<Longrightarrow> \<forall>k. moment_ok (nows k) \<Longrightarrow> CLog_events os nows evs L = Some L' \<Longrightarrow> clog_inv u L'"
proof (induction os nows evs L rule: CLog_events.induct)
  case (2 os now l msg evs L)
  then obtain r M where M: "CLog_Print os (now 0) l msg L = Some (r, M)" "CLog_events os (\<lambda>k. now (Suc k)) evs M = Some L'"
    by (auto split: option.splits)
  have "clog_inv u M" using CLog_Print_inv(1) [OF "2.prems"(1,2) _ M(1)] "2.prems"(3) by blast
  then show ?case using "2.IH" [OF M(1) refl] M(2) "2.prems" by simp
qed simp

lemma Print_all_inv:
  "clog_inv u L \<Longrightarrow> os_ok os \<Longrightarrow> moment_ok now \<Longrightarrow> Print_all (CLog_Print os now) evs L = Some L' \<Longrightarrow> clog_inv u L'"
proof (induction evs arbitrary: L)
  case (Cons ev evs)
  obtain l msg where ev: "ev = (l, msg)" by (cases ev)
  then obtain r M where M: "CLog_Print os now l msg L = Some (r, M)" "Print_all (CLog_Print os now) evs M = Some L'"
    using Cons.prems(4) by (auto split: option.splits)
  then show ?case using Cons.IH CLog_Print_inv(1) [OF Cons.prems(1-3) M(1)] Cons.prems(2,3) by blast
qed simp

lemma clog_inv_dirs:
  assumes "clog_inv u L" and "fs_ok fs'" and "dirs_added (log_fs L) fs'"
  shows "clog_inv u (L\<lparr>log_fs := fs'\<rparr>)"
proof -
  have "stat (log_fs L) fd = Some (File s)" if "stat fs' fd = Some (File s)" for fd s
    using assms(3) that unfolding dirs_added_def by (metis kind_file_iff option.distinct(1) option.inject)
  then show ?thesis using assms(1,2) by (auto simp: clog_inv_def size_within_def)
qed

lemma clog_inv_deleted: "clog_inv u L \<Longrightarrow> clog_inv u (fst (DeleteOldFile_in os dir L))"
proof -
  assume i: "clog_inv u L"
  let ?D = "fst (DeleteOldFile_in os dir L)"
  have same: "same_log L ?D" by (rule DeleteOldFile_in_same) (use i in \<open>simp add: clog_inv_def\<close>)
  have "stat (log_fs L) fd = Some (File s)" if "stat (log_fs ?D) fd = Some (File s)" for fd s
    using same that unfolding same_log_def files_removed_def by (metis kind_None_iff kind_file_iff option.distinct(1))
  then show ?thesis using i same by (auto simp: clog_inv_def size_within_def same_log_def DeleteOldFile_in_CLog)
qed

lemma clog_inv_upd [simp]:
  "clog_inv u (L\<lparr>m_pclsCallBack := b\<rparr>) = clog_inv u L" "clog_inv u (L\<lparr>m_iLevel := n\<rparr>) = clog_inv u L"
  "clog_inv u (L\<lparr>m_iMaxFolderSize := n\<rparr>) = clog_inv u L" "clog_inv u (L\<lparr>m_iFolderSize := n\<rparr>) = clog_inv u L"
  by (simp_all add: clog_inv_def size_within_def)

lemma clog_inv_dir:
  "clog_inv u L \<Longrightarrow> clog_inv u (L\<lparr>m_pThreadMutex := True, m_pszDirName := d\<rparr>)"
  "clog_inv u L \<Longrightarrow> clog_inv u (L\<lparr>m_pszDirName := None, m_pThreadMutex := False\<rparr>)"
  by (simp_all add: clog_inv_def size_within_def)

lemma CLog_SetDirectory_inv:
  assumes "clog_inv u L" and "os_ok os" and "\<forall>k. moment_ok (nows k)" and "CLog_SetDirectory os nows d L = Some (b, L')"
  shows "clog_inv u L'"
proof (cases d)
  case None
  then show ?thesis using assms by (simp add: CLog_SetDirectory_def)
next
  case (Some name)
  let ?dir = "case m_pszDirName L of Some dir \<Rightarrow> Some dir | None \<Rightarrow> Some (if last name = CHR ''/'' then butlast name else name)"
  define M where "M = L\<lparr>m_pThreadMutex := True, m_pszDirName := ?dir\<rparr>"
  have i: "clog_inv u M" and fs: "fs_ok (log_fs M)" using assms(1) clog_inv_dir(1) by (simp_all add: M_def) (simp add: clog_inv_def)
  obtain ok fs' where c: "Directory_Create os (the (m_pszDirName M)) (log_fs M) = Some (ok, fs')"
    using assms(4) Some by (auto simp: CLog_SetDirectory_def Let_def M_def split: if_splits option.splits)
  note dirs = Directory_Create_added [OF c fs]
  have f: "clog_inv u (M\<lparr>log_fs := fs'\<rparr>)" by (rule clog_inv_dirs [OF i dirs])
  show ?thesis
  proof (cases ok)
    case False
    then show ?thesis using assms(4) Some c f by (auto simp: CLog_SetDirectory_def Let_def M_def split: if_splits)
  next
    case True
    obtain sz evs where g: "GetSize_path os fs' (the (m_pszDirName M)) = (sz, evs)" by fastforce
    obtain N where "CLog_events os nows evs (M\<lparr>log_fs := fs'\<rparr>) = Some N" "L' = N\<lparr>m_iFolderSize := sz\<rparr>"
      using assms(4) Some c g True by (auto simp: CLog_SetDirectory_def Let_def M_def split: if_splits option.splits)
    then show ?thesis using CLog_events_inv [OF f assms(2,3)] by simp
  qed
qed

lemma CLog_DeleteOldFile_inv:
  assumes "clog_inv u L" and "os_ok os" and "moment_ok now" and "CLog_DeleteOldFile os now L = Some L'"
  shows "clog_inv u L'"
  using assms(1,4) Print_all_inv [OF clog_inv_deleted [OF assms(1)] assms(2,3)]
  by (auto simp: CLog_DeleteOldFile_def DeleteOldFile_with_def case_prod_beta split: if_splits option.splits)

lemma clog_reach_inv: "clog_reach os fs u L \<Longrightarrow> os_ok os \<Longrightarrow> fs_ok fs \<Longrightarrow> clog_inv u L"
proof (induction rule: clog_reach.induct)
  case init
  then show ?case
    by (simp add: clog_inv_def CLog_init_def size_within_def MIN_LOG_FILE_SIZE_def MAX_LOG_FILE_SIZE_def DEFAULT_LOG_FILE_SIZE_def)
next
  case (max_size u L n)
  then show ?case by (auto simp: clog_inv_def SetMaxLogSize_def size_within_def MIN_LOG_FILE_SIZE_def MAX_LOG_FILE_SIZE_def)
next
  case (print u L now l msg r L')
  then show ?case using CLog_Print_inv(1) by blast
next
  case (print_func u L w)
  then show ?case using CLog_Print_func_inv by blast
next
  case (directory u L nows d b L')
  then show ?case using CLog_SetDirectory_inv by blast
next
  case (delete u L now L')
  then show ?case using CLog_DeleteOldFile_inv by blast
qed (simp_all add: CLog_Release_def SetCallBack_def SetLevel_def SetNullLevel_def SetDebugLevel_def SetMaxFolderSize_def clog_inv_dir)

text \<open>C13: Whatever operations of \<open>CLog\<close> came before, in any order (prints, functions that print to the open
  file, limits, levels, directories, deletions of old files, \<open>Release\<close>): the open file is never smaller than the size
  counted for it, and larger by at most the bytes \<open>u\<close> that such functions wrote, so the count is exact when there were none. The count is not negative
  and below 1 GiB plus one line, the maximum is between 1 MiB and 1 GiB, and after every line that is
  printed the file is smaller than the maximum plus \<open>u\<close> and one line of at most 8238 bytes. A function handed to \<open>Print\<close>
  makes the open file grow by what it writes and leaves the count as it is: the code does not count these bytes.\<close>

theorem log_size_tracks:
  assumes "clog_reach os fs u L" and "os_ok os" and "fs_ok fs"
  shows "(\<forall>fd s. m_sttFd L = Some fd \<longrightarrow> stat (log_fs L) fd = Some (File s) \<longrightarrow> m_iLogSize L \<le> s \<and> s \<le> m_iLogSize L + u) \<and>
    0 \<le> m_iLogSize L \<and> m_iLogSize L < MAX_LOG_FILE_SIZE + max_line \<and>
    MIN_LOG_FILE_SIZE \<le> m_iMaxLogSize L \<and> m_iMaxLogSize L \<le> MAX_LOG_FILE_SIZE \<and>
    (\<forall>now l msg r L' fd s. moment_ok now \<longrightarrow> CLog_Print os now l msg L = Some (r, L') \<longrightarrow> r \<noteq> 1 \<longrightarrow>
      m_sttFd L' = Some fd \<longrightarrow> stat (log_fs L') fd = Some (File s) \<longrightarrow> s < m_iMaxLogSize L' + max_line + u) \<and>
    (\<forall>text fd s. m_sttFd L = Some fd \<longrightarrow> stat (log_fs L) fd = Some (File s) \<longrightarrow>
      stat (log_fs (CLog_Print_func text L)) fd = Some (File (s + int (length text))) \<and>
      m_iLogSize (CLog_Print_func text L) = m_iLogSize L)"
proof -
  have inv: "clog_inv u L" by (rule clog_reach_inv [OF assms])
  have fs: "fs_ok (log_fs L)" using inv by (simp add: clog_inv_def)
  have "s < m_iMaxLogSize L' + max_line + u"
    if "moment_ok now" "CLog_Print os now l msg L = Some (r, L')" "r \<noteq> 1" "m_sttFd L' = Some fd" "stat (log_fs L') fd = Some (File s)"
    for now l msg r L' fd s
    using CLog_Print_inv [OF inv assms(2) that(1,2)] that(3-5) by (auto simp: clog_inv_def size_within_def)
  moreover have "stat (log_fs (CLog_Print_func w L)) fd = Some (File (s + int (length w))) \<and>
      m_iLogSize (CLog_Print_func w L) = m_iLogSize L"
    if "m_sttFd L = Some fd" "stat (log_fs L) fd = Some (File s)" for w fd s
    using fappend_self(2) [OF fs, of "int (length w)" fd] that by (simp add: CLog_Print_func_def)
  ultimately show ?thesis using inv by (auto simp: clog_inv_def size_within_def)
qed

text \<open>A log opened on a directory with a full file, and a line printed to it.\<close>

definition demo_open :: "(bool \<times> CLog) option" where
  "demo_open = CLog_SetDirectory demo_os (\<lambda>_. demo_now) (Some ''/log'') (CLog_init demo_fs)"

definition demo_end :: CLog where
  "demo_end = snd (the (CLog_Print demo_os demo_now LOG_ERROR ''started'' (snd (the demo_open))))"

lemma demo_now_ok: "moment_ok demo_now"
  by (simp add: demo_now_def moment_ok_def tm_ok_def demo_tm_def)

lemma demo_os_ok: "os_ok demo_os"
  by (simp add: os_ok_def demo_os_def)

lemma demo_open_ok: "map_option fst demo_open = Some True"
  by code_simp

lemma demo_print_ok: "map_option fst (CLog_Print demo_os demo_now LOG_ERROR ''started'' (snd (the demo_open))) = Some 0"
  by code_simp

lemma demo_end_fd: "m_sttFd demo_end = Some ''/log/20240101_2.txt'' \<and> m_iLogSize demo_end = 39"
  by code_simp

lemma demo_log_reach: "clog_reach demo_os demo_fs 0 demo_end"
proof -
  obtain L where L: "demo_open = Some (True, L)" using demo_open_ok by auto
  then have "clog_reach demo_os demo_fs 0 L"
    using clog_reach.directory [OF clog_reach.init, of "\<lambda>_. demo_now"] demo_now_ok by (auto simp: demo_open_def)
  moreover have o: "snd (the demo_open) = L" unfolding L option.sel snd_conv by (rule refl)
  moreover obtain M where M: "CLog_Print demo_os demo_now LOG_ERROR ''started'' L = Some (0, M)"
    using demo_print_ok unfolding o by auto
  moreover have "demo_end = M" unfolding demo_end_def o M option.sel snd_conv by (rule refl)
  ultimately show ?thesis using clog_reach.print [OF _ demo_now_ok M] by blast
qed

lemma demo_end_stat: "map_option (\<lambda>n. case n of File s \<Rightarrow> s | Dir es \<Rightarrow> - 1) (stat (log_fs demo_end) ''/log/20240101_2.txt'') = Some 39"
  by code_simp

theorem log_size_tracks_witness:
  "m_sttFd demo_end = Some ''/log/20240101_2.txt'' \<and> stat (log_fs demo_end) ''/log/20240101_2.txt'' = Some (File 39) \<and>
   m_iLogSize demo_end = 39 \<and> 39 < MAX_LOG_FILE_SIZE + max_line \<and>
   MIN_LOG_FILE_SIZE \<le> m_iMaxLogSize demo_end \<and> m_iMaxLogSize demo_end \<le> MAX_LOG_FILE_SIZE \<and>
   stat (log_fs (CLog_Print_func ''xyz'' demo_end)) ''/log/20240101_2.txt'' = Some (File 42) \<and>
   m_iLogSize (CLog_Print_func ''xyz'' demo_end) = 39"
proof -
  obtain s where s: "stat (log_fs demo_end) ''/log/20240101_2.txt'' = Some (File s)" "s = 39"
    using demo_end_stat by (cases "stat (log_fs demo_end) ''/log/20240101_2.txt''" rule: kind_cases) auto
  note t = log_size_tracks [OF demo_log_reach demo_os_ok demo_fs_ok]
  have "stat (log_fs (CLog_Print_func ''xyz'' demo_end)) ''/log/20240101_2.txt'' = Some (File (39 + int (length ''xyz''))) \<and>
    m_iLogSize (CLog_Print_func ''xyz'' demo_end) = m_iLogSize demo_end"
    using t s demo_end_fd by blast
  then show ?thesis using demo_end_fd s t by (auto simp del: One_nat_def)
qed

end
