(* ===== verification/LogCleanup.thy ===== *)
theory LogCleanup
  imports LogRuns "HOL-Library.Multiset" "HOL-Library.Product_Lexorder"
begin

text \<open>
  What the deletion of old log files removes, and the ways in which the two logs stop writing.
\<close>

subsection \<open>The order of log files\<close>

definition log_key :: "string \<Rightarrow> string \<times> int" where
  "log_key n = (take 8 (cstr n), atoi (cstr (drop 9 n)))"

lemma LogFileCompare_key: "10 \<le> length a \<Longrightarrow> 10 \<le> length b \<Longrightarrow> LogFileCompare a b \<longleftrightarrow> log_key a < log_key b"
  by (auto simp: LogFileCompare_def log_key_def less_prod_def)

lemma mset_list_sort: "mset (list_sort cmp xs) = mset xs"
proof -
  have ins: "mset (list_insert cmp x ys) = add_mset x (mset ys)" for x ys
    by (induction cmp x ys rule: list_insert.induct) auto
  show ?thesis unfolding list_sort_def by (induction xs) (auto simp: ins)
qed

lemma set_list_sort [simp]: "set (list_sort cmp xs) = set xs"
  using mset_list_sort [of cmp xs] by (metis set_mset_mset)

lemma sorted_list_sort:
  fixes f :: "'a \<Rightarrow> 'b :: linorder"
  assumes "\<And>x y. x \<in> set xs \<Longrightarrow> y \<in> set xs \<Longrightarrow> cmp x y \<longleftrightarrow> f x < f y"
  shows "sorted (map f (list_sort cmp xs))"
proof -
  have ins: "sorted (map f (list_insert cmp x ys))"
    if "sorted (map f ys)" "\<And>y. y \<in> set ys \<Longrightarrow> cmp y x \<longleftrightarrow> f y < f x" for x ys
    using that
  proof (induction ys)
    case (Cons y ys)
    have "set (list_insert cmp x ys) = insert x (set ys)" by (induction ys) auto
    then show ?case using Cons by (auto simp: not_less)
  qed simp
  show ?thesis
    using assms
  proof (induction xs)
    case (Cons x xs)
    have "sorted (map f (list_insert cmp x (list_sort cmp xs)))"
      by (rule ins) (use Cons in auto)
    then show ?case by (simp add: list_sort_def)
  qed (simp add: list_sort_def)
qed

lemma SortFileList_sorted:
  "\<forall>n \<in> set ns. 10 \<le> length n \<Longrightarrow> sorted (map log_key (SortFileList ns)) \<and> mset (SortFileList ns) = mset ns"
  unfolding SortFileList_def using sorted_list_sort [of ns LogFileCompare log_key] LogFileCompare_key
  by (auto simp: mset_list_sort)

text \<open>The key of a file that \<open>Print\<close> named is its day and its index.\<close>

lemma atoi_show_int_txt: "0 \<le> i \<Longrightarrow> i < 2 ^ 31 \<Longrightarrow> atoi (show_int i @ ''.txt'') = i"
proof -
  assume i: "0 \<le> i" "i < 2 ^ 31"
  obtain c cs where s: "show_nat (nat i) = c # cs" by (cases "show_nat (nat i)") auto
  then have c: "isdigit_c c" by (intro show_nat_digits [of c "nat i"]) simp
  then have n: "c \<noteq> CHR ''-''" "c \<noteq> CHR ''+''" "\<not> isspace_c c" using not_digit_sign isdigit_not_space by metis+
  have "takeWhile isdigit_c (show_nat (nat i) @ ''.txt'') = show_nat (nat i)"
    by (rule takeWhile_append_stop) (rule show_nat_digits, assumption, simp add: isdigit_c_def)
  then have "strto_scan (show_nat (nat i) @ ''.txt'') = (False, nat i)"
    using n digits_val_show_nat [of "nat i"] by (simp add: strto_scan_def Let_def s)
  then show ?thesis using i by (simp add: atoi_def strtol_c_def show_int_def i32_def)
qed

lemma log_key_base:
  assumes "tm_ok t" and "0 \<le> i" and "i < 2 ^ 31"
  shows "log_key (log_base t i) = (Date_text t, i)" and "10 \<le> length (log_base t i)"
proof -
  have l: "length (Date_text t) = 8" by (rule length_Date_text [OF assms(1)])
  have z: "NUL \<notin> set (log_base t i)"
    using Date_text_chars [OF assms(1), of NUL] by (auto simp: log_base_def isdigit_c_def)
  have "cstr (drop 9 (log_base t i)) = show_int i @ ''.txt''"
    using l by (simp add: log_base_def cstr_append)
  moreover have "cstr (log_base t i) = log_base t i" using z by simp
  ultimately show "log_key (log_base t i) = (Date_text t, i)"
    using l assms atoi_show_int_txt by (simp add: log_key_def) (simp add: log_base_def)
  show "10 \<le> length (log_base t i)" using l by (simp add: log_base_def)
qed

subsection \<open>Which files are deleted\<close>

text \<open>A name that an entry of a directory can have.\<close>

definition entry_name :: "string \<Rightarrow> bool" where
  "entry_name n \<longleftrightarrow> n \<noteq> [] \<and> NUL \<notin> set n \<and> DIR_SEP \<notin> set n"

lemma comps_AppendName: "entry_name n \<Longrightarrow> comps (AppendName dir n) = comps dir @ [n]"
  unfolding AppendName_def entry_name_def by (rule comps_entry) auto

lemma AppendName_not_Nil [simp]: "AppendName dir n \<noteq> []"
  by (simp add: AppendName_def)

text \<open>The files \<open>ns\<close> of the directory, of sizes \<open>sz\<close>, and a loop over them.\<close>

definition has_files :: "fnode \<Rightarrow> cstring \<Rightarrow> (string \<Rightarrow> int) \<Rightarrow> string list \<Rightarrow> bool" where
  "has_files fs dir sz ns \<longleftrightarrow> distinct ns \<and> (\<forall>n \<in> set ns. entry_name n \<and> stat fs (AppendName dir n) = Some (File (sz n)))"

lemma has_files_nonneg: "fs_ok fs \<Longrightarrow> has_files fs dir sz ns \<Longrightarrow> n \<in> set ns \<Longrightarrow> 0 \<le> sz n"
  by (auto simp: has_files_def fs_ok_def kind_file_iff stat_def split: if_splits)

lemma has_files_step:
  assumes "fs_ok fs" and "has_files fs dir sz (n # ns)"
  shows "fs_ok (attempt (unlink os (AppendName dir n)) fs)" and "has_files (attempt (unlink os (AppendName dir n)) fs) dir sz ns"
    and "kind (stat (attempt (unlink os (AppendName dir n)) fs) q) =
      (if may_unlink os (AppendName dir n) \<and> q \<noteq> [] \<and> comps q = comps dir @ [n] then None else kind (stat fs q))"
proof -
  let ?p = "AppendName dir n" and ?fs = "attempt (unlink os (AppendName dir n)) fs"
  have n: "entry_name n" "stat fs ?p = Some (File (sz n))" using assms(2) by (simp_all add: has_files_def)
  show "fs_ok ?fs" by (rule attempt_unlink(1) [OF assms(1)])
  have k: "kind (stat ?fs q) = (if may_unlink os ?p \<and> q \<noteq> [] \<and> comps q = comps dir @ [n] then None else kind (stat fs q))" for q
  proof (cases "unlink os ?p fs")
    case None
    then have "\<not> may_unlink os ?p" using n(2) by (simp add: unlink_def split: if_splits)
    then show ?thesis using None by (simp add: attempt_def)
  next
    case (Some fs')
    then have "may_unlink os ?p" by (auto simp: unlink_def split: if_splits option.splits fnode.splits)
    then show ?thesis using unlink_Some(3) [OF Some assms(1)] comps_AppendName [OF n(1)] Some by (simp add: attempt_def)
  qed
  show "kind (stat ?fs q) = (if may_unlink os ?p \<and> q \<noteq> [] \<and> comps q = comps dir @ [n] then None else kind (stat fs q))"
    by (rule k)
  have "stat ?fs (AppendName dir m) = Some (File (sz m))" if "m \<in> set ns" for m
  proof -
    have m: "entry_name m" "m \<noteq> n" "stat fs (AppendName dir m) = Some (File (sz m))"
      using assms(2) that by (auto simp: has_files_def)
    then have "kind (stat ?fs (AppendName dir m)) = Some (Some (sz m))" using k by (simp add: comps_AppendName)
    then show ?thesis by (simp add: kind_file_iff)
  qed
  then show "has_files ?fs dir sz ns" using assms(2) by (simp add: has_files_def)
qed

lemma Delete_files_prefix:
  assumes "fs_ok (log_fs L)" and "has_files (log_fs L) dir sz ns"
    and "m_iFolderSize L < 2 ^ 63" and "- (2 ^ 63) \<le> m_iFolderSize L - sum_list (map sz ns)"
  shows "\<exists>k \<le> length ns. (let L' = Delete_files os dir want ns L; tried = take k ns;
      gone = filter (\<lambda>n. may_unlink os (AppendName dir n)) tried in
     m_iFolderSize L' = m_iFolderSize L - sum_list (map sz tried) \<and>
     (k = length ns \<or> m_iFolderSize L' < want) \<and>
     (\<forall>j. 0 < j \<and> j < k \<longrightarrow> m_iFolderSize L - sum_list (map sz (take j ns)) \<ge> want) \<and>
     (\<forall>q. kind (stat (log_fs L') q) =
       (if q \<noteq> [] \<and> (\<exists>n \<in> set gone. comps q = comps dir @ [n]) then None else kind (stat (log_fs L) q))))"
  using assms
proof (induction ns arbitrary: L)
  case Nil
  then show ?case by simp
next
  case (Cons n ns)
  let ?p = "AppendName dir n"
  have n: "entry_name n" "stat (log_fs L) ?p = Some (File (sz n))" using Cons.prems(2) by (simp_all add: has_files_def)
  define fs' where "fs' = attempt (unlink os ?p) (log_fs L)"
  note fs' = has_files_step [OF Cons.prems(1,2), of os, folded fs'_def]
  note k = fs'(3)
  have pos: "0 \<le> sz m" if "m \<in> set (n # ns)" for m using has_files_nonneg [OF Cons.prems(1,2) that] .
  then have ge: "0 \<le> sz n" "0 \<le> sum_list (map sz ns)" by (auto intro!: sum_list_nonneg)
  let ?L = "L\<lparr>log_fs := fs', m_iFolderSize := m_iFolderSize L - sz n\<rparr>"
  have i: "i64 (m_iFolderSize L - sz n) = m_iFolderSize L - sz n"
    by (rule i64_id) (use Cons.prems(3,4) ge in \<open>simp add: in_i64_def\<close>)
  have "cstr n = n" using n(1) by (simp add: entry_name_def)
  moreover have "GetFileSize os (log_fs L) ?p = sz n" using n(2) by (simp add: GetFileSize_def)
  ultimately have step: "Delete_files os dir want (n # ns) L =
      (if m_iFolderSize L - sz n < want then ?L else Delete_files os dir want ns ?L)"
    using i by (simp add: Let_def fs'_def)
  show ?case
  proof (cases "m_iFolderSize L - sz n < want")
    case True
    then show ?thesis unfolding step using k by (intro exI [of _ 1]) (simp add: Let_def)
  next
    case False
    from Cons.IH [of ?L] fs' Cons.prems(3-4) ge obtain j where j: "j \<le> length ns"
      "let L' = Delete_files os dir want ns ?L; tried = take j ns;
        gone = filter (\<lambda>n. may_unlink os (AppendName dir n)) tried in
       m_iFolderSize L' = m_iFolderSize ?L - sum_list (map sz tried) \<and>
       (j = length ns \<or> m_iFolderSize L' < want) \<and>
       (\<forall>i. 0 < i \<and> i < j \<longrightarrow> m_iFolderSize ?L - sum_list (map sz (take i ns)) \<ge> want) \<and>
       (\<forall>q. kind (stat (log_fs L') q) =
         (if q \<noteq> [] \<and> (\<exists>n \<in> set gone. comps q = comps dir @ [n]) then None else kind (stat (log_fs ?L) q)))"
      by (auto simp: diff_diff_eq)
    have "\<forall>i. 0 < i \<and> i < Suc j \<longrightarrow> m_iFolderSize L - sum_list (map sz (take i (n # ns))) \<ge> want"
    proof (intro allI impI)
      fix i assume i: "0 < i \<and> i < Suc j"
      show "m_iFolderSize L - sum_list (map sz (take i (n # ns))) \<ge> want"
        using j(2) False i by (cases "i = 1") (auto simp: Let_def take_Cons' diff_diff_eq)
    qed
    then show ?thesis
      unfolding step using False j k by (intro exI [of _ "Suc j"]) (auto simp: Let_def diff_diff_eq)
  qed
qed

lemma FileList_files:
  assumes "stat fs dir = Some (Dir es)" and "may_read os dir"
    and "has_files fs dir sz (map fst es)" and "\<forall>n \<in> set (map fst es). n \<noteq> ''.'' \<and> n \<noteq> ''..''"
  shows "FileList os fs dir = ((True, map fst es), [])"
proof -
  have "FileList_loop fs dir xs acc = acc @ map fst xs" if "set xs \<subseteq> set es" for xs acc
    using that
  proof (induction xs arbitrary: acc)
    case (Cons x xs)
    obtain n m where x: "x = (n, m)" by (cases x)
    then have "n \<in> set (map fst es)" using Cons.prems by force
    then have "stat fs (AppendName dir n) = Some (File (sz n))" "n \<noteq> ''.''" "n \<noteq> ''..''"
      using assms(3,4) by (auto simp: has_files_def)
    then show ?case using Cons x by simp
  qed simp
  from this [of es "[]"] show ?thesis using assms(1,2) by (simp add: FileList_def opendir_def)
qed

text \<open>C14: For a log directory that can be read and holds only files, with names of at least 10
  characters (below that \<open>LogFileCompare\<close> is no order), and whose sizes and limit are so small that no 64 bit sum overflows: when the
  folder has reached its limit, \<open>DeleteOldFile\<close> goes through the log files in the order of their dates and, within a day, of
  their indexes, and stops as soon as the counted size is below 80 percent of the limit, or when no file is
  left. It unlinks each file it comes to; exactly those whose \<open>unlink\<close> succeeds disappear, and nothing else in
  the file system changes. The counted size decreases by the sizes of all files it came to, also of those whose
  \<open>unlink\<close> failed and which are still there: the code ignores that result.\<close>

theorem delete_oldest_first:
  assumes "fs_ok (log_fs L)" and "stat (log_fs L) dir = Some (Dir es)" and "may_read os dir"
    and "has_files (log_fs L) dir sz (map fst es)" and "\<forall>n \<in> set (map fst es). 10 \<le> length n"
    and "m_iMaxFolderSize L \<le> m_iFolderSize L" and "0 < m_iMaxFolderSize L"
    and "m_iFolderSize L < 2 ^ 60" and "sum_list (map sz (map fst es)) < 2 ^ 60"
  shows "\<exists>tried kept. (let L' = fst (DeleteOldFile_in os dir L); gone = filter (\<lambda>n. may_unlink os (AppendName dir n)) tried in
     mset (tried @ kept) = mset (map fst es) \<and> sorted (map log_key (tried @ kept)) \<and>
     m_iFolderSize L' = m_iFolderSize L - sum_list (map sz tried) \<and>
     (kept = [] \<or> m_iFolderSize L' < m_iMaxFolderSize L * 8 div 10) \<and>
     (\<forall>j. 0 < j \<and> j < length tried \<longrightarrow> m_iFolderSize L - sum_list (map sz (take j tried)) \<ge> m_iMaxFolderSize L * 8 div 10) \<and>
     (\<forall>q. kind (stat (log_fs L') q) =
       (if q \<noteq> [] \<and> (\<exists>n \<in> set gone. comps q = comps dir @ [n]) then None else kind (stat (log_fs L) q))))"
proof -
  let ?ns = "SortFileList (map fst es)" and ?w = "m_iMaxFolderSize L * 8 div 10"
    and ?gone = "filter (\<lambda>n. may_unlink os (AppendName dir n))"
  have "\<forall>n \<in> set (map fst es). n \<noteq> ''.'' \<and> n \<noteq> ''..''" using assms(5) by (auto simp: numeral_eq_Suc)
  note fl = FileList_files [OF assms(2,3,4) this]
  have "in_i64 (m_iMaxFolderSize L * 8)" using assms(6,7,8) by (simp add: in_i64_def)
  then have w: "c_div (i64 (m_iMaxFolderSize L * 8)) 10 = ?w" using assms(7) by (simp add: i64_id c_div_pos)
  have D: "fst (DeleteOldFile_in os dir L) = Delete_files os dir ?w ?ns L"
    using assms(6) fl w by (simp add: DeleteOldFile_in_def Let_def)
  have m: "mset ?ns = mset (map fst es)" and srt: "sorted (map log_key ?ns)"
    using SortFileList_sorted [OF assms(5)] by simp_all
  then have st: "set ?ns = set (map fst es)" by (metis set_mset_mset)
  have "distinct ?ns" using m assms(4) unfolding has_files_def by (metis mset_eq_imp_distinct_iff)
  then have hf: "has_files (log_fs L) dir sz ?ns" using assms(4) st by (simp add: has_files_def)
  have "sum_list (map sz ?ns) = sum_list (map sz (map fst es))"
    using m by (metis mset_map sum_mset_sum_list)
  then have lo: "- (2 ^ 63) \<le> m_iFolderSize L - sum_list (map sz ?ns)" using assms(6,7,9) by simp
  have hi: "m_iFolderSize L < 2 ^ 63" using assms(8) by simp
  obtain k where k: "k \<le> length ?ns" "let L' = Delete_files os dir ?w ?ns L; tried = take k ?ns; gone = ?gone tried in
     m_iFolderSize L' = m_iFolderSize L - sum_list (map sz tried) \<and>
     (k = length ?ns \<or> m_iFolderSize L' < ?w) \<and>
     (\<forall>j. 0 < j \<and> j < k \<longrightarrow> m_iFolderSize L - sum_list (map sz (take j ?ns)) \<ge> ?w) \<and>
     (\<forall>q. kind (stat (log_fs L') q) =
       (if q \<noteq> [] \<and> (\<exists>n \<in> set gone. comps q = comps dir @ [n]) then None else kind (stat (log_fs L) q)))"
    using Delete_files_prefix [where want = ?w, OF assms(1) hf hi lo, of os] by blast
  show ?thesis
    by (rule exI [of _ "take k ?ns"], rule exI [of _ "drop k ?ns"])
      (use k m srt D in \<open>auto simp: Let_def min_absorb2\<close>)
qed

definition demo_old :: "(string \<times> fnode) list" where
  "demo_old = [(''20240101_10.txt'', File 400), (''20240101_9.txt'', File 300), (''20231231_1.txt'', File 200)]"

definition demo_size :: "string \<Rightarrow> int" where
  "demo_size n = (if n = ''20240101_10.txt'' then 400 else if n = ''20240101_9.txt'' then 300 else 200)"

definition demo_full :: CLog where
  "demo_full = (CLog_init (Dir [(''log'', Dir demo_old)]))\<lparr>m_pszDirName := Some ''/log'', m_iMaxFolderSize := 900, m_iFolderSize := 900\<rparr>"

lemma demo_full_ok: "fs_ok (log_fs demo_full)"
proof -
  have "fs_ok (Dir [(''log'', Dir demo_old)])" by (rule fs_ok_Dir_files) (auto simp: demo_old_def)
  then show ?thesis by (simp add: demo_full_def CLog_init_def)
qed

lemma demo_full_files: "stat (log_fs demo_full) ''/log'' = Some (Dir demo_old)" "has_files (log_fs demo_full) ''/log'' demo_size (map fst demo_old)"
proof -
  show "stat (log_fs demo_full) ''/log'' = Some (Dir demo_old)" by code_simp
  have "stat (log_fs demo_full) (AppendName ''/log'' ''20240101_10.txt'') = Some (File 400)"
    "stat (log_fs demo_full) (AppendName ''/log'' ''20240101_9.txt'') = Some (File 300)"
    "stat (log_fs demo_full) (AppendName ''/log'' ''20231231_1.txt'') = Some (File 200)" by code_simp+
  then show "has_files (log_fs demo_full) ''/log'' demo_size (map fst demo_old)"
    by (simp add: has_files_def entry_name_def demo_old_def demo_size_def DIR_SEP_def)
qed

lemma demo_full_limits: "m_iMaxFolderSize demo_full = 900" "m_iFolderSize demo_full = 900"
  by (simp_all add: demo_full_def)

text \<open>One of the files cannot be removed.\<close>

definition stuck_os :: os where
  "stuck_os = demo_os\<lparr>may_unlink := \<lambda>p. p \<noteq> ''/log/20231231_1.txt''\<rparr>"

theorem delete_oldest_first_witness:
  "\<exists>tried kept. (let L' = fst (DeleteOldFile_in stuck_os ''/log'' demo_full);
       gone = filter (\<lambda>n. may_unlink stuck_os (AppendName ''/log'' n)) tried in
     mset (tried @ kept) = mset (map fst demo_old) \<and> sorted (map log_key (tried @ kept)) \<and>
     m_iFolderSize L' = m_iFolderSize demo_full - sum_list (map demo_size tried) \<and>
     (kept = [] \<or> m_iFolderSize L' < m_iMaxFolderSize demo_full * 8 div 10) \<and>
     (\<forall>j. 0 < j \<and> j < length tried \<longrightarrow>
       m_iFolderSize demo_full - sum_list (map demo_size (take j tried)) \<ge> m_iMaxFolderSize demo_full * 8 div 10) \<and>
     (\<forall>q. kind (stat (log_fs L') q) =
       (if q \<noteq> [] \<and> (\<exists>n \<in> set gone. comps q = comps ''/log'' @ [n]) then None else kind (stat (log_fs demo_full) q))))"
  by (rule delete_oldest_first [OF demo_full_ok demo_full_files(1) _ demo_full_files(2)])
    (simp_all add: demo_full_limits demo_os_def stuck_os_def demo_old_def demo_size_def)

subsection \<open>Logs that stop writing\<close>

text \<open>The nested \<open>Print\<close> of a thread that holds the mutex does not return.\<close>

lemma DeleteOldFile_blocks:
  assumes "m_pThreadMutex L" and "m_pszDirName L = Some dir" and "\<not> dir_readable os (log_fs L) dir"
    and "m_iMaxFolderSize L \<noteq> 0" and "m_iMaxFolderSize L \<le> m_iFolderSize L" and "IsPrintLogLevel LOG_ERROR L"
  shows "DeleteOldFile_with (CLog_Print_at n True os now) os L = None"
proof -
  have "FileList os (log_fs L) dir = ((False, []), [opendir_error dir])"
    using assms(3) by (auto simp: dir_readable_def FileList_def opendir_def is_dir_def split: option.splits fnode.splits)
  then have "DeleteOldFile_in os dir L = (L, [opendir_error dir])"
    using assms(5) by (simp add: DeleteOldFile_in_def Let_def SortFileList_def list_sort_def)
  moreover have "CLog_Print_at n True os now LOG_ERROR msg L = None" for msg
    using Print_locked [OF assms(1)] assms(6) by (cases n) (simp_all add: CLog_Print_at.simps(1))
  ultimately show ?thesis using assms(2,4) by (simp add: DeleteOldFile_with_def opendir_error_def)
qed

text \<open>C24: When the folder has reached its limit and its directory can no longer be read, the first line
  that needs a new file, because the day is another or the file is full, never returns, in a log that has a mutex, which
  \<open>SetDirectory\<close> makes: \<open>Print\<close> acquires the mutex, \<open>DeleteOldFile\<close> reports the failed \<open>opendir\<close>
  through \<open>Print\<close>, and that nested call waits for the mutex that its own thread holds. (The mutex is not
  recursive; this is so on Linux, however deep calls may be nested.)\<close>

theorem log_print_deadlock:
  assumes "m_pThreadMutex L" and "m_pszDirName L = Some dir" and "\<not> dir_readable os (log_fs L) dir"
    and "m_iMaxFolderSize L \<noteq> 0" and "m_iMaxFolderSize L \<le> m_iFolderSize L"
    and "IsPrintLogLevel LOG_ERROR L" and "IsPrintLogLevel l L"
    and "m_szDate L \<noteq> log_date (now_tm now) \<or> 0 < m_iMaxLogSize L \<and> m_iMaxLogSize L \<le> m_iLogSize L"
  shows "CLog_Print os now l msg L = None \<and> CLog_Print_at n False os now l msg L = None"
proof -
  have "DeleteOldFile_with (CLog_Print_at k True os now) os (L\<lparr>m_iIndex := i, m_iLogSize := 0, m_sttFd := None\<rparr>) = None" for k i
    using DeleteOldFile_blocks [of "L\<lparr>m_iIndex := i, m_iLogSize := 0, m_sttFd := None\<rparr>"] assms by (simp add: IsPrintLogLevel_def)
  then have "OPEN_FILE os (DeleteOldFile_with (CLog_Print_at k True os now) os) dir t (L\<lparr>m_iIndex := i\<rparr>) = None" for k t i
    by (subst OPEN_FILE.simps) simp
  then have "CLog_rotate (DeleteOldFile_with (CLog_Print_at k True os now) os) os (now_tm now) L = None" for k
    using assms(2,8) by (auto simp: CLog_rotate_def)
  then have "CLog_Print_at (Suc k) False os now l msg L = None" for k
    using assms(1,7) by (simp add: CLog_Print_at.simps(2) IsPrintLogLevel_def)
  then show ?thesis by (cases n) (simp_all add: CLog_Print_def CLog_Print_at.simps(1))
qed

definition blind_os :: os where
  "blind_os = demo_os\<lparr>may_read := \<lambda>_. False\<rparr>"

definition demo_blind :: CLog where
  "demo_blind = demo_full\<lparr>m_pThreadMutex := True\<rparr>"

theorem log_print_deadlock_witness:
  "m_pThreadMutex demo_blind \<and> CLog_Print blind_os demo_now LOG_ERROR ''started'' demo_blind = None \<and>
   (case CLog_Print demo_os demo_now LOG_ERROR ''started'' demo_blind of None \<Rightarrow> False | Some (r, L) \<Rightarrow> r = 0)"
proof -
  have "CLog_Print blind_os demo_now LOG_ERROR ''started'' demo_blind = None \<and>
    CLog_Print_at (Suc 0) False blind_os demo_now LOG_ERROR ''started'' demo_blind = None"
  proof (rule log_print_deadlock)
    show "m_pszDirName demo_blind = Some ''/log''" by (simp add: demo_blind_def demo_full_def)
    show "\<not> dir_readable blind_os (log_fs demo_blind) ''/log''" by (simp add: dir_readable_def blind_os_def)
    show "IsPrintLogLevel LOG_ERROR demo_blind" "IsPrintLogLevel LOG_ERROR demo_blind"
      by (simp_all add: IsPrintLogLevel_def demo_blind_def demo_full_def CLog_init_def)
    have "m_szDate demo_blind \<noteq> log_date (now_tm demo_now)" by code_simp
    then show "m_szDate demo_blind \<noteq> log_date (now_tm demo_now) \<or> 0 < m_iMaxLogSize demo_blind \<and> m_iMaxLogSize demo_blind \<le> m_iLogSize demo_blind" ..
  qed (simp_all add: demo_full_limits demo_blind_def)
  moreover have "case CLog_Print demo_os demo_now LOG_ERROR ''started'' demo_blind of None \<Rightarrow> False | Some (r, L) \<Rightarrow> r = 0"
    by code_simp
  ultimately show ?thesis by (simp add: demo_blind_def)
qed

text \<open>C26: A \<open>CFileLog\<close> that is closed and opened again, whatever \<open>Open\<close> returns, on the day of its last
  rotation and when its last file is not full, writes to no file: \<open>Print\<close> returns true, and the line goes to
  the standard output, because \<open>Close\<close> keeps the date for which it believes to have a file. Only when the
  last file had reached the maximum, or on another day, the line makes it look for a file to open.\<close>

theorem file_log_reopen_same_day:
  assumes "m_strDirName L \<noteq> []" and "FileLog_Open os d (snd (FileLog_Close L)) = Some (b, M)" and "FileLog_IsPrintLogLevel l L"
  shows "(m_szDate L = log_date (now_tm now) \<and> \<not> (0 < m_iMaxLogSize L \<and> m_iMaxLogSize L \<le> m_iLogSize L) \<longrightarrow>
      FileLog_Print os now l msg M = Some (True, M\<lparr>log_stdout := log_stdout L @ [stdout_line now l (take 8190 msg)]\<rparr>)) \<and>
    (m_szDate L = log_date (now_tm now) \<and> 0 < m_iMaxLogSize L \<and> m_iMaxLogSize L \<le> m_iLogSize L \<longrightarrow>
      FileLog_rotate os (now_tm now) M =
        OPEN_FILE os (FileLog_DeleteOldFile os) (m_strDirName M) (now_tm now) (M\<lparr>m_iIndex := i32 (m_iIndex L + 1)\<rparr>)) \<and>
    (m_szDate L \<noteq> log_date (now_tm now) \<and> b \<longrightarrow>
      FileLog_rotate os (now_tm now) M =
        OPEN_FILE os (FileLog_DeleteOldFile os) (m_strDirName M) (now_tm now) (M\<lparr>m_iIndex := 1\<rparr>))"
proof -
  have "m_sttFd M = None \<and> m_szDate M = m_szDate L \<and> m_iLogSize M = m_iLogSize L \<and> m_iMaxLogSize M = m_iMaxLogSize L \<and>
    m_iLevel M = m_iLevel L \<and> log_stdout M = log_stdout L \<and> m_iIndex M = m_iIndex L"
    using assms(1,2)
    by (auto simp: FileLog_Open_def FileLog_Close_def Let_def split: option.splits if_splits prod.splits)
  moreover have "m_strDirName M \<noteq> []" if opened: b
  proof -
    obtain name where n: "d = Some name" "3 \<le> length name" "m_strDirName M = (if last name = CHR ''/'' then butlast name else name)"
      using assms(1,2) opened
      by (auto simp: FileLog_Open_def FileLog_Close_def Let_def split: option.splits if_splits prod.splits)
    then have "length (m_strDirName M) \<ge> 2" by (auto simp: numeral_eq_Suc)
    then show ?thesis by auto
  qed
  ultimately show ?thesis
    using assms(3)
    by (simp add: FileLog_Print_def FileLog_IsPrintLogLevel_def FileLog_rotate_def snprintf_buf_def Let_def)
qed

definition demo_file_log :: CFileLog where
  "demo_file_log = (CFileLog_new demo_fs)\<lparr>m_strDirName := ''/log'', m_szDate := ''20240101'', m_sttFd := Some ''/log/20240101_2.txt''\<rparr>"

definition demo_reopened :: CFileLog where
  "demo_reopened = snd (the (FileLog_Open demo_os (Some ''/log'') (snd (FileLog_Close demo_file_log))))"

lemma demo_reopen: "map_option fst (FileLog_Open demo_os (Some ''/log'') (snd (FileLog_Close demo_file_log))) = Some True"
  by code_simp

theorem file_log_reopen_same_day_witness:
  "FileLog_Print demo_os demo_now LOG_ERROR ''x'' demo_reopened =
    Some (True, demo_reopened\<lparr>log_stdout := [stdout_line demo_now LOG_ERROR ''x'']\<rparr>)"
proof -
  obtain b M where M: "FileLog_Open demo_os (Some ''/log'') (snd (FileLog_Close demo_file_log)) = Some (b, M)" "b = True"
    using demo_reopen by (cases "FileLog_Open demo_os (Some ''/log'') (snd (FileLog_Close demo_file_log))") auto
  have e: "demo_reopened = M" unfolding demo_reopened_def M(1) option.sel snd_conv by (rule refl)
  have d: "m_szDate demo_file_log = log_date (now_tm demo_now)" by code_simp
  show ?thesis
    using file_log_reopen_same_day [of demo_file_log demo_os "Some ''/log''" b M LOG_ERROR demo_now "''x''", OF _ M(1)] d
    unfolding e by (simp add: demo_file_log_def CFileLog_new_def FileLog_IsPrintLogLevel_def DEFAULT_LOG_FILE_SIZE_def)
qed

text \<open>The limit of 30 files overflows from 72 MiB on: with files of 100 MiB the limit may be 0,
  which means that there is none.\<close>

lemma max_folder_size_overflow:
  "m_iMaxFolderSize (SetMaxFolderSize 0 (SetMaxLogSize (100 * 1024 * 1024) L)) = 0"
  by (simp add: SetMaxFolderSize_def SetMaxLogSize_def MIN_LOG_FILE_SIZE_def MAX_LOG_FILE_SIZE_def i32_def)

text \<open>Below that, and without a maximum file size, the limit is at least 30 files.\<close>

lemma max_folder_size_30:
  "m_iMaxLogSize L < 71582788 \<Longrightarrow> 0 \<le> m_iMaxLogSize L \<Longrightarrow> 30 * m_iMaxLogSize L \<le> m_iMaxFolderSize (SetMaxFolderSize n L)"
  by (auto simp: SetMaxFolderSize_def i32_def MIN_LOG_FILE_SIZE_def)

end
