(* ===== verification/SqlTools.thy ===== *)
theory SqlTools
  imports DbConnectionSpec XmlParse TimeUtility
begin

text \<open>
  The two command line tools on one connection: MySQLLogExecute replays the statements of a general
  query log, optionally joined into one bulk insert, and MySQLAlterTable runs one ALTER TABLE for
  every table of a database. Each main function returns the lines it prints and the connection;
  \<open>None\<close> stands for a query whose rows never end.
\<close>

subsection \<open>MySQLLogExecute\<close>

text \<open>The end of a line is cut off; \<open>iLen\<close> is the length before.\<close>

definition cut_line :: "cstring \<Rightarrow> cstring" where
  "cut_line szBuf =
     (if 2 \<le> length szBuf \<and> szBuf ! (length szBuf - 2) = CR then take (length szBuf - 2) szBuf
      else if 1 \<le> length szBuf \<and> szBuf ! (length szBuf - 1) = LF then take (length szBuf - 1) szBuf
      else szBuf)"

text \<open>One line of the log: the statement being read and the list of complete ones.\<close>

definition push_sql :: "string \<Rightarrow> string list \<Rightarrow> string list" where
  "push_sql strSQL clsList = (if strSQL = [] then clsList else clsList @ [strSQL])"

definition LogExec_line :: "cstring \<Rightarrow> string \<times> string list \<Rightarrow> string \<times> string list" where
  "LogExec_line szLine = (\<lambda>(strSQL, clsList).
     let iLen = length szLine; szBuf = cut_line szLine
     in if 20 \<le> iLen \<and> strncmp_eq (drop 9 szBuf) ''Query'' 5 then (drop 15 szBuf, push_sql strSQL clsList)
        else if 34 \<le> iLen \<and> strncmp_eq (drop 23 szBuf) ''Query'' 5 then (drop 29 szBuf, push_sql strSQL clsList)
        else if strSQL \<noteq> [] then (strSQL @ szBuf, clsList)
        else (strSQL, clsList))"

definition LogExec_statements :: "string \<Rightarrow> string list" where
  "LogExec_statements fd =
     (let (strSQL, clsList) = fold (\<lambda>b. LogExec_line (cstr b)) (fgets_all 8191 fd) ([], []) in push_sql strSQL clsList)"

text \<open>The statement of a bulk insert: what follows the first VALUES of each further statement is
  appended. \<open>None\<close>: a statement without it ends the program.\<close>

fun Bulk_sql :: "string \<Rightarrow> string list \<Rightarrow> string option" where
  "Bulk_sql strSQL [] = Some strSQL"
| "Bulk_sql strSQL (s # ss) =
     (if strSQL = [] then Bulk_sql s ss
      else case find_sub ''VALUES'' (cstr s) of None \<Rightarrow> None
        | Some i \<Rightarrow> Bulk_sql (strSQL @ '','' @ drop (i + 6) (cstr s)) ss)"

fun Execute_each :: "libmysql \<Rightarrow> string list \<Rightarrow> conn \<Rightarrow> conn" where
  "Execute_each env [] gclsDB = gclsDB"
| "Execute_each env (s # ss) gclsDB = Execute_each env ss (snd (Execute env (cstr s) gclsDB))"

definition LogExec_run :: "libmysql \<Rightarrow> bool \<Rightarrow> int \<Rightarrow> string list \<Rightarrow> conn \<Rightarrow> string list \<times> conn" where
  "LogExec_run env bBulk iMiliSecond clsList gclsDB =
     (let report = show_int iMiliSecond @ '' ms'' @ [LF]
      in if bBulk
         then (case Bulk_sql [] clsList of None \<Rightarrow> ([''VALUES is not found'' @ [LF]], gclsDB)
           | Some strSQL \<Rightarrow> ([report], snd (Execute env (cstr strSQL) gclsDB)))
         else ([report], Execute_each env clsList gclsDB))"

definition LogExec_main ::
    "libmysql \<Rightarrow> cstring list \<Rightarrow> (cstring \<Rightarrow> string option) \<Rightarrow> int \<Rightarrow> timeval \<times> timeval \<Rightarrow> conn \<Rightarrow> string list \<times> conn" where
  "LogExec_main env argv fopen err clk gclsDB =
     (if length argv < 7
      then ([''[Usage] '' @ hd argv @ '' {db ip} {db user id} {db password} {db name} {db port} {general log file} {1:bulk}'' @ [LF]], gclsDB)
      else let bBulk = (8 \<le> length argv \<and> argv ! 7 = ''1'');
               (b, gclsDB) = Connect env (argv ! 1) (argv ! 2) (argv ! 3) (argv ! 4) (atoi (argv ! 5)) None gclsDB
           in if \<not> b then ([''clsDB.Connect error'' @ [LF]], gclsDB)
              else case fopen (argv ! 6) of
                  None \<Rightarrow> ([''fopen('' @ argv ! 6 @ '') error('' @ show_int err @ '')'' @ [LF]], gclsDB)
                | Some fd \<Rightarrow> LogExec_run env bBulk (DiffTimeval (fst clk) (snd clk)) (LogExec_statements fd) gclsDB)"

subsection \<open>MySQLAlterTable\<close>

text \<open>The callback; a row has the one column that the query selects.\<close>

definition FetchTable :: "string list \<Rightarrow> mysql_row \<Rightarrow> bool \<times> string list" where
  "FetchTable pclsList sttRow =
     (case DbSetData_string sttRow 0 [] of None \<Rightarrow> (True, pclsList) | Some (_, strTable) \<Rightarrow> (True, pclsList @ [strTable]))"

definition alter_sql :: "cstring \<Rightarrow> string \<Rightarrow> cstring" where
  "alter_sql pszCommand strTable = snprintf_buf 1024 (''ALTER TABLE '' @ cstr strTable @ '' '' @ pszCommand)"

fun Alter_loop :: "libmysql \<Rightarrow> cstring \<Rightarrow> string list \<Rightarrow> string list \<times> conn \<Rightarrow> string list \<times> conn" where
  "Alter_loop env pszCommand [] (outs, clsDB) = (outs, clsDB)"
| "Alter_loop env pszCommand (t # ts) (outs, clsDB) =
     (let (b, clsDB) = Execute env (alter_sql pszCommand t) clsDB
      in Alter_loop env pszCommand ts (if b then outs else outs @ [''alter table error'' @ [LF]], clsDB))"

definition tables_sql :: "cstring \<Rightarrow> cstring" where
  "tables_sql pszDbName =
     snprintf_buf 1024 (''SELECT TABLE_NAME FROM information_schema.tables WHERE table_schema = '' @ [CHR 0x27] @ pszDbName @ [CHR 0x27])"

definition Alter_main :: "libmysql \<Rightarrow> cstring list \<Rightarrow> conn \<Rightarrow> (string list \<times> conn) option" where
  "Alter_main env argv clsDB =
     (if length argv < 7
      then Some ([''[Usage] '' @ hd argv @ '' {db ip} {db userid} {db password} {db name} {db port} {alter command}'' @ [LF]], clsDB)
      else let (b, clsDB) = Connect env (argv ! 1) (argv ! 2) (argv ! 3) (argv ! 4) (atoi (argv ! 5)) (Some ''utf8'') clsDB
           in if \<not> b then Some ([''db connect error'' @ [LF]], clsDB)
              else case Query env (tables_sql (argv ! 4)) [] FetchTable clsDB of
                  None \<Rightarrow> None
                | Some ((False, _), clsDB) \<Rightarrow> Some ([''select table error'' @ [LF]], Close clsDB)
                | Some ((True, clsTableList), clsDB) \<Rightarrow>
                    (let (outs, clsDB) = Alter_loop env (argv ! 6) clsTableList ([], clsDB) in Some (outs, Close clsDB)))"

subsection \<open>Which statements are replayed\<close>

lemma fgets_all_line:
  assumes "LF \<notin> set l" and "length l < n"
  shows "fgets_all n (l @ LF # r) = (l @ [LF]) # fgets_all n r"
proof -
  have "takeWhile (\<lambda>c. c \<noteq> LF) (l @ LF # r) = l" by (rule takeWhile_append_stop) (use assms in auto)
  then show ?thesis using assms(2) by (subst fgets_all.simps) (simp add: Let_def)
qed

lemma fgets_all_Nil [simp]: "fgets_all n [] = []"
  by (subst fgets_all.simps) simp

text \<open>A line of the log that starts a statement: nine or 23 bytes (the time stamp of a newer server), the
  command, a separator and the statement.\<close>

fun query_line :: "string \<times> char \<times> string \<Rightarrow> string" where
  "query_line (pre, c, sql) = pre @ ''Query'' @ [c] @ sql"

text \<open>The end of every line of a log: a line feed, with or without a carriage return.\<close>

definition line_end :: "string \<Rightarrow> bool" where
  "line_end eol \<longleftrightarrow> eol = [LF] \<or> eol = [CR, LF]"

definition line_ok :: "string \<Rightarrow> string \<Rightarrow> bool" where
  "line_ok eol l \<longleftrightarrow> l \<noteq> [] \<and> last l \<noteq> CR \<and> LF \<notin> set l \<and> NUL \<notin> set l \<and> length l + length eol \<le> 8191"

definition query_line_ok :: "string \<Rightarrow> string \<times> char \<times> string \<Rightarrow> bool" where
  "query_line_ok eol e \<longleftrightarrow> (length (fst e) = 9 \<or> length (fst e) = 23 \<and> take 5 (drop 9 (fst e)) \<noteq> ''Query'') \<and>
     4 \<le> length (snd (snd e)) \<and> line_ok eol (query_line e)"

text \<open>A line that continues a statement.\<close>

definition more_line_ok :: "string \<Rightarrow> string \<Rightarrow> bool" where
  "more_line_ok eol l \<longleftrightarrow> line_ok eol l \<and> \<not> (20 \<le> length l + length eol \<and> take 5 (drop 9 l) = ''Query'') \<and>
     \<not> (34 \<le> length l + length eol \<and> take 5 (drop 23 l) = ''Query'')"

text \<open>The entries of a log: each is a query line and the lines that continue it.\<close>

type_synonym log_entry = "(string \<times> char \<times> string) \<times> string list"

definition entry_text :: "string \<Rightarrow> log_entry \<Rightarrow> string" where
  "entry_text eol e = concat (map (\<lambda>l. l @ eol) (query_line (fst e) # snd e))"

definition entry_sql :: "log_entry \<Rightarrow> string" where
  "entry_sql e = snd (snd (fst e)) @ concat (snd e)"

definition entry_ok :: "string \<Rightarrow> log_entry \<Rightarrow> bool" where
  "entry_ok eol e \<longleftrightarrow> query_line_ok eol (fst e) \<and> (\<forall>l \<in> set (snd e). more_line_ok eol l)"

lemma cut_line_end:
  assumes "line_end eol" and "line_ok eol l"
  shows "cut_line (l @ eol) = l"
proof -
  have l: "l \<noteq> []" "last l \<noteq> CR" using assms(2) by (simp_all add: line_ok_def)
  then have "(l @ [LF]) ! (length l - 1) = last l" by (simp add: nth_append last_conv_nth)
  then show ?thesis using assms(1) l by (auto simp: cut_line_def line_end_def nth_append last_conv_nth)
qed

lemma LogExec_query:
  assumes "line_end eol" and "query_line_ok eol e"
  shows "LogExec_line (query_line e @ eol) (s, l) = (snd (snd e), push_sql s l)"
proof -
  obtain pre c sql where e: "e = (pre, c, sql)" by (cases e) auto
  have "cut_line (query_line e @ eol) = query_line e"
    by (rule cut_line_end) (use assms in \<open>simp_all add: query_line_ok_def\<close>)
  moreover have "1 \<le> length eol" using assms(1) by (auto simp: line_end_def)
  ultimately show ?thesis using assms(2) e by (auto simp: LogExec_line_def Let_def query_line_ok_def strncmp_eq_def)
qed

lemma LogExec_more:
  assumes "line_end eol" and "more_line_ok eol m" and "s \<noteq> []"
  shows "LogExec_line (m @ eol) (s, l) = (s @ m, l)"
proof -
  have "cut_line (m @ eol) = m" by (rule cut_line_end) (use assms in \<open>simp_all add: more_line_ok_def\<close>)
  then show ?thesis using assms by (auto simp: LogExec_line_def Let_def more_line_ok_def strncmp_eq_def)
qed

lemma cstr_line: "line_end eol \<Longrightarrow> line_ok eol m \<Longrightarrow> cstr (m @ eol) = m @ eol"
  by (auto simp: line_ok_def line_end_def)

lemma LogExec_mores:
  "line_end eol \<Longrightarrow> \<forall>m \<in> set ms. more_line_ok eol m \<Longrightarrow> s \<noteq> [] \<Longrightarrow>
    fold (\<lambda>b. LogExec_line (cstr b)) (map (\<lambda>m. m @ eol) ms) (s, l) = (s @ concat ms, l)"
proof (induction ms arbitrary: s)
  case (Cons m ms)
  then have "cstr (m @ eol) = m @ eol" by (intro cstr_line) (simp_all add: more_line_ok_def)
  then show ?case using Cons LogExec_more [of eol m s l] by simp
qed simp

lemma fgets_lines:
  "line_end eol \<Longrightarrow> \<forall>l \<in> set ls. line_ok eol l \<Longrightarrow>
    fgets_all 8191 (concat (map (\<lambda>l. l @ eol) ls) @ r) = map (\<lambda>l. l @ eol) ls @ fgets_all 8191 r"
proof (induction ls)
  case (Cons l ls)
  let ?r = "concat (map (\<lambda>l. l @ eol) ls) @ r"
  have "fgets_all 8191 (l @ eol @ ?r) = (l @ eol) # fgets_all 8191 ?r"
    using fgets_all_line [of l 8191 ?r] fgets_all_line [of "l @ [CR]" 8191 ?r] Cons.prems by (auto simp: line_end_def line_ok_def)
  then show ?case using Cons by simp
qed simp

lemma LogExec_entries:
  "line_end eol \<Longrightarrow> \<forall>e \<in> set es. entry_ok eol e \<Longrightarrow>
    (case fold (\<lambda>b. LogExec_line (cstr b)) (fgets_all 8191 (concat (map (entry_text eol) es))) (s, l) of
      (s', l') \<Rightarrow> push_sql s' l') = push_sql s l @ map entry_sql es"
proof (induction es arbitrary: s l)
  case (Cons e es)
  obtain q ms where e: "e = (q, ms)" by (cases e)
  have q: "query_line_ok eol q" and ms: "\<forall>m \<in> set ms. more_line_ok eol m" using Cons.prems by (auto simp: entry_ok_def e)
  have z: "cstr (query_line q @ eol) = query_line q @ eol"
    by (rule cstr_line [OF Cons.prems(1)]) (use q in \<open>simp add: query_line_ok_def\<close>)
  have ne: "snd (snd q) \<noteq> []" using q by (auto simp: query_line_ok_def)
  have "fgets_all 8191 (entry_text eol e @ concat (map (entry_text eol) es)) =
      map (\<lambda>l. l @ eol) (query_line q # ms) @ fgets_all 8191 (concat (map (entry_text eol) es))"
    unfolding entry_text_def e fst_conv snd_conv
    by (rule fgets_lines [OF Cons.prems(1)]) (use q ms in \<open>auto simp: query_line_ok_def more_line_ok_def\<close>)
  then have "fold (\<lambda>b. LogExec_line (cstr b)) (fgets_all 8191 (concat (map (entry_text eol) (e # es)))) (s, l) =
      fold (\<lambda>b. LogExec_line (cstr b)) (fgets_all 8191 (concat (map (entry_text eol) es))) (entry_sql e, push_sql s l)"
    using LogExec_query [OF Cons.prems(1) q] LogExec_mores [OF Cons.prems(1) ms ne] z by (simp add: entry_sql_def e)
  moreover have "push_sql (entry_sql e) (push_sql s l) = push_sql s l @ [entry_sql e]"
    using ne by (simp add: push_sql_def entry_sql_def e)
  ultimately show ?case using Cons by simp
qed simp

lemma Execute_each_fold:
  "\<forall>s \<in> set ss. NUL \<notin> set s \<Longrightarrow> Execute_each env ss c = fold (\<lambda>s c. snd (Execute env s c)) ss c"
  by (induction ss arbitrary: c) simp_all

lemma entry_sql_NUL: "entry_ok eol e \<Longrightarrow> NUL \<notin> set (entry_sql e)"
proof -
  obtain pre c sql ms where e: "e = ((pre, c, sql), ms)" by (metis prod.collapse)
  show "entry_ok eol e \<Longrightarrow> ?thesis"
    by (auto simp: e entry_ok_def query_line_ok_def more_line_ok_def line_ok_def entry_sql_def)
qed


definition demo_entries :: "log_entry list" where
  "demo_entries = [((''  10:00:0'', TAB, ''DELETE FROM t''), []), ((''   1 Run '', TAB, ''INSERT INTO t''), [''VALUES(1)'']),
     ((''2024-01-01T10:00:00   1'', TAB, ''COMMIT''), [])]"


end
