(* ===== verification/QueryTimeList.thy ===== *)
theory QueryTimeList
  imports DbConnection LogCleanup
begin

text \<open>
  MySQLQueryMonitor/QueryTimeList.cpp and MySQLQueryThread.cpp: the slowest statements seen on a
  server. The list is shared by the polling thread and the window; each operation is one critical
  section of its mutex. \<open>iMaxQueryCount\<close> is \<open>gclsSetup.m_iMaxQueryCount\<close>, which
  \<open>CMySQLQueryMonitorSetup::Read\<close> keeps positive.
\<close>

record CQueryTime =
  m_strSQL :: string
  m_iSecond :: int

type_synonym QUERY_TIME_LIST = "CQueryTime list"

subsection \<open>One statement\<close>

text \<open>The first loop: the entry with the same text takes the larger time; \<open>None\<close> when there is none.\<close>

fun QT_found :: "CQueryTime \<Rightarrow> QUERY_TIME_LIST \<Rightarrow> QUERY_TIME_LIST option" where
  "QT_found clsQT [] = None"
| "QT_found clsQT (it # m_clsList) =
     (if cstr (m_strSQL clsQT) = cstr (m_strSQL it)
      then Some ((if m_iSecond clsQT > m_iSecond it then it\<lparr>m_iSecond := m_iSecond clsQT\<rparr> else it) # m_clsList)
      else map_option ((#) it) (QT_found clsQT m_clsList))"

text \<open>The second loop: insertion before the first entry that is not slower.\<close>

fun QT_before :: "CQueryTime \<Rightarrow> QUERY_TIME_LIST \<Rightarrow> QUERY_TIME_LIST option" where
  "QT_before clsQT [] = None"
| "QT_before clsQT (it # m_clsList) =
     (if m_iSecond clsQT \<ge> m_iSecond it then Some (clsQT # it # m_clsList)
      else map_option ((#) it) (QT_before clsQT m_clsList))"

definition QueryTime_Insert :: "int \<Rightarrow> CQueryTime \<Rightarrow> QUERY_TIME_LIST \<Rightarrow> QUERY_TIME_LIST" where
  "QueryTime_Insert iMaxQueryCount clsQT m_clsList =
     (case QT_found clsQT m_clsList of Some l \<Rightarrow> l
      | None \<Rightarrow> (case QT_before clsQT m_clsList of Some l \<Rightarrow> l
          | None \<Rightarrow> if iMaxQueryCount > int (length m_clsList) then m_clsList @ [clsQT] else m_clsList))"

subsection \<open>The shared list\<close>

definition CQueryTimeCompare :: "CQueryTime \<Rightarrow> CQueryTime \<Rightarrow> bool" where
  "CQueryTimeCompare clsFirst clsSecond \<longleftrightarrow> m_iSecond clsFirst > m_iSecond clsSecond"

definition QueryTimeList_Insert :: "int \<Rightarrow> QUERY_TIME_LIST \<Rightarrow> QUERY_TIME_LIST \<Rightarrow> QUERY_TIME_LIST" where
  "QueryTimeList_Insert iMaxQueryCount clsList m_clsList =
     (let m_clsList = fold (QueryTime_Insert iMaxQueryCount) clsList m_clsList;
          m_clsList = list_sort CQueryTimeCompare m_clsList
      in if int (length m_clsList) > iMaxQueryCount then take (nat iMaxQueryCount) m_clsList else m_clsList)"

definition QueryTimeList_Select :: "QUERY_TIME_LIST \<Rightarrow> QUERY_TIME_LIST" where
  "QueryTimeList_Select m_clsList = m_clsList"

definition QueryTimeList_DeleteAll :: "QUERY_TIME_LIST \<Rightarrow> QUERY_TIME_LIST" where
  "QueryTimeList_DeleteAll m_clsList = []"

subsection \<open>The polling thread\<close>

text \<open>The callback for the rows of the process list; the query selects two columns.\<close>

definition FetchQuery :: "QUERY_TIME_LIST \<Rightarrow> mysql_row \<Rightarrow> bool \<times> QUERY_TIME_LIST" where
  "FetchQuery pclsList sttRow =
     (case sttRow of
        Some sec # Some sql # _ \<Rightarrow> (True, pclsList @ [\<lparr>m_strSQL = sql, m_iSecond = atoi sec\<rparr>])
      | _ \<Rightarrow> (True, pclsList))"

definition query_poll_sql :: cstring where
  "query_poll_sql = ''SELECT TIME, INFO FROM information_schema.processlist WHERE COMMAND = 'Query' AND TIME > 0''"

text \<open>One round of the thread's loop: the rows delivered are merged into the list, whatever \<open>Query\<close>
  returned.\<close>

definition MySQLQueryThread_round :: "libmysql \<Rightarrow> int \<Rightarrow> QUERY_TIME_LIST \<times> conn \<Rightarrow> (QUERY_TIME_LIST \<times> conn) option" where
  "MySQLQueryThread_round env iMaxQueryCount = (\<lambda>(m_clsList, clsDB).
     case Query env query_poll_sql [] FetchQuery clsDB of None \<Rightarrow> None
     | Some ((_, clsList), clsDB) \<Rightarrow> Some (QueryTimeList_Insert iMaxQueryCount clsList m_clsList, clsDB))"

text \<open>The sleep after a round: \<open>DWORD\<close> arithmetic, at most \<open>iSleepSecond\<close> naps of one second.\<close>

definition iSleepSecond :: "int \<Rightarrow> int \<Rightarrow> int \<Rightarrow> int" where
  "iSleepSecond m_iDbMonitorPeriod dwStart dwEnd = i32 (u32 (m_iDbMonitorPeriod - u32 (dwEnd - dwStart) div 1000))"

subsection \<open>What the list keeps\<close>

abbreviation sql_of :: "CQueryTime \<Rightarrow> cstring" where
  "sql_of q \<equiv> cstr (m_strSQL q)"

definition count_ge :: "int \<Rightarrow> QUERY_TIME_LIST \<Rightarrow> nat" where
  "count_ge n l = length (filter (\<lambda>e. n \<le> m_iSecond e) l)"

text \<open>A statement is covered when the list has it with at least its time, or has enough statements
  that are not faster.\<close>

definition covers :: "int \<Rightarrow> CQueryTime \<Rightarrow> QUERY_TIME_LIST \<Rightarrow> bool" where
  "covers mx q l \<longleftrightarrow> (\<exists>e \<in> set l. sql_of e = sql_of q \<and> m_iSecond q \<le> m_iSecond e) \<or> mx \<le> int (count_ge (m_iSecond q) l)"

lemma QT_found_None: "QT_found q l = None \<longleftrightarrow> sql_of q \<notin> sql_of ` set l"
  by (induction l) auto

lemma QT_found_Some:
  "QT_found q l = Some l' \<Longrightarrow> \<exists>xs e ys. l = xs @ e # ys \<and> sql_of e = sql_of q \<and>
     l' = xs @ e\<lparr>m_iSecond := max (m_iSecond e) (m_iSecond q)\<rparr> # ys"
proof (induction q l arbitrary: l' rule: QT_found.induct)
  case (2 q e l)
  show ?case
  proof (cases "sql_of q = sql_of e")
    case True
    then have "l' = e\<lparr>m_iSecond := max (m_iSecond e) (m_iSecond q)\<rparr> # l" using "2.prems" by (auto simp: max_def)
    then show ?thesis using True by (intro exI [of _ "[]"]) auto
  next
    case False
    then obtain k where k: "QT_found q l = Some k" "l' = e # k" using "2.prems" by auto
    from "2.IH" [OF False k(1)] obtain xs f ys where "l = xs @ f # ys" "sql_of f = sql_of q"
      "k = xs @ f\<lparr>m_iSecond := max (m_iSecond f) (m_iSecond q)\<rparr> # ys" by blast
    then show ?thesis using k(2) by (intro exI [of _ "e # xs"]) auto
  qed
qed simp

lemma QT_before_Some: "QT_before q l = Some l' \<Longrightarrow> \<exists>xs ys. l = xs @ ys \<and> l' = xs @ q # ys"
proof (induction q l arbitrary: l' rule: QT_before.induct)
  case (2 q e l)
  show ?case
  proof (cases "m_iSecond q \<ge> m_iSecond e")
    case True
    then have "e # l = [] @ e # l \<and> l' = [] @ q # e # l" using "2.prems" by simp
    then show ?thesis by blast
  next
    case False
    then obtain k where k: "QT_before q l = Some k" "l' = e # k" using "2.prems" by auto
    from "2.IH" [OF False k(1)] obtain xs ys where "l = xs @ ys" "k = xs @ q # ys" by blast
    then have "e # l = (e # xs) @ ys \<and> l' = (e # xs) @ q # ys" using k(2) by simp
    then show ?thesis by blast
  qed
qed simp

lemma QT_before_None: "QT_before q l = None \<Longrightarrow> e \<in> set l \<Longrightarrow> m_iSecond q < m_iSecond e"
  by (induction q l rule: QT_before.induct) (auto split: if_splits)

text \<open>The four outcomes of an insertion.\<close>

lemma QueryTime_Insert_cases:
  obtains (raised) xs e ys where "l = xs @ e # ys" "sql_of e = sql_of q"
      "QueryTime_Insert mx q l = xs @ e\<lparr>m_iSecond := max (m_iSecond e) (m_iSecond q)\<rparr> # ys"
  | (added) xs ys where "l = xs @ ys" "sql_of q \<notin> sql_of ` set l" "QueryTime_Insert mx q l = xs @ q # ys"
  | (full) "QueryTime_Insert mx q l = l" "mx \<le> int (length l)" "\<forall>e \<in> set l. m_iSecond q < m_iSecond e"
proof (cases "QT_found q l")
  case (Some l')
  with QT_found_Some [OF Some] raised show thesis by (auto simp: QueryTime_Insert_def)
next
  case None
  note f = None
  then have n: "sql_of q \<notin> sql_of ` set l" by (simp add: QT_found_None)
  show thesis
  proof (cases "QT_before q l")
    case (Some l')
    with QT_before_Some [OF Some] added f n show thesis by (auto simp: QueryTime_Insert_def)
  next
    case None
    note b = None
    show thesis
    proof (cases "mx > int (length l)")
      case True
      then show thesis using added [of l "[]"] f b n by (simp add: QueryTime_Insert_def)
    next
      case False
      then show thesis using full f b QT_before_None [OF b] by (simp add: QueryTime_Insert_def)
    qed
  qed
qed

lemma Insert_distinct: "distinct (map sql_of l) \<Longrightarrow> distinct (map sql_of (QueryTime_Insert mx q l))"
  by (cases rule: QueryTime_Insert_cases [of l q mx]) (auto simp: comp_def)

lemma count_ge_full: "\<forall>e \<in> set l. n \<le> m_iSecond e \<Longrightarrow> count_ge n l = length l"
  by (simp add: count_ge_def)

lemma Insert_covers: "covers mx q (QueryTime_Insert mx q l)"
proof (cases rule: QueryTime_Insert_cases [of l q mx])
  case full
  then have "count_ge (m_iSecond q) l = length l" by (intro count_ge_full) auto
  then show ?thesis using full by (simp add: covers_def)
qed (auto simp: covers_def)

lemma Insert_keeps_covers: "covers mx q l \<Longrightarrow> covers mx q (QueryTime_Insert mx p l)"
  by (cases rule: QueryTime_Insert_cases [of l p mx])
    (auto simp: covers_def count_ge_def le_max_iff_disj split: if_splits)

lemma Insert_source:
  "e \<in> set (QueryTime_Insert mx q l) \<Longrightarrow> \<exists>p \<in> insert q (set l). sql_of p = sql_of e \<and> m_iSecond p = m_iSecond e"
  by (cases rule: QueryTime_Insert_cases [of l q mx]) (auto simp: max_def split: if_splits)

lemma fold_Insert:
  "distinct (map sql_of l) \<Longrightarrow> distinct (map sql_of (fold (QueryTime_Insert mx) qs l))"
  "covers mx q l \<or> q \<in> set qs \<Longrightarrow> covers mx q (fold (QueryTime_Insert mx) qs l)"
  "e \<in> set (fold (QueryTime_Insert mx) qs l) \<Longrightarrow> \<exists>p \<in> set qs \<union> set l. sql_of p = sql_of e \<and> m_iSecond p = m_iSecond e"
proof (induction qs arbitrary: l)
  case (Cons a qs)
  { case 1
    then show ?case using Cons.IH(1) Insert_distinct by simp
  next
    case 2
    then show ?case using Cons.IH(2) Insert_covers Insert_keeps_covers by auto
  next
    case 3
    then obtain p where "p \<in> set qs \<union> set (QueryTime_Insert mx a l)" "sql_of p = sql_of e" "m_iSecond p = m_iSecond e"
      using Cons.IH(3) [of "QueryTime_Insert mx a l"] by auto
    then show ?case using Insert_source [of p mx a l] by auto }
qed auto

lemma covers_mset: "mset l = mset l' \<Longrightarrow> covers mx q l = covers mx q l'"
proof -
  assume m: "mset l = mset l'"
  then have "set l = set l'" by (metis set_mset_mset)
  moreover have "count_ge n l = count_ge n l'" for n
    unfolding count_ge_def using m by (metis mset_filter size_mset)
  ultimately show ?thesis by (simp add: covers_def)
qed

text \<open>After the sort and the cut, the first entries are the slowest.\<close>

lemma sorted_desc: "sorted_wrt (\<lambda>a b. m_iSecond b \<le> m_iSecond a) (list_sort CQueryTimeCompare l)"
proof -
  have "sorted (map (\<lambda>e. - m_iSecond e) (list_sort CQueryTimeCompare l))"
    by (rule sorted_list_sort) (simp add: CQueryTimeCompare_def)
  then show ?thesis by (simp add: sorted_wrt_map)
qed

lemma take_slowest:
  assumes "sorted_wrt (\<lambda>a b. m_iSecond b \<le> m_iSecond a) l" and "e \<in> set (take n l)" and "f \<in> set (drop n l)"
  shows "m_iSecond f \<le> m_iSecond e"
  using assms sorted_wrt_append [of "\<lambda>a b. m_iSecond b \<le> m_iSecond a" "take n l" "drop n l"] by simp

lemma take_count:
  assumes "sorted_wrt (\<lambda>a b. m_iSecond b \<le> m_iSecond a) l" and "n \<le> count_ge t l" and "e \<in> set (take n l)"
  shows "t \<le> m_iSecond e"
proof (rule ccontr)
  assume e: "\<not> t \<le> m_iSecond e"
  have "filter (\<lambda>f. t \<le> m_iSecond f) (drop n l) = []"
    using take_slowest [OF assms(1,3)] e by (force simp: filter_empty_conv)
  moreover have "length (filter (\<lambda>f. t \<le> m_iSecond f) (take n l)) < length (take n l)"
    by (rule length_filter_less [OF assms(3)]) (use e in simp)
  ultimately have "count_ge t l < n"
    unfolding count_ge_def
    by (metis append.right_neutral append_take_drop_id filter_append length_take min.strict_boundedE)
  with assms(2) show False by simp
qed

text \<open>Cutting a sorted list: a statement that the list covers is still there, or the cut list is full of statements
  that are not faster.\<close>

lemma covers_cut:
  assumes s: "sorted_wrt (\<lambda>a b. m_iSecond b \<le> m_iSecond a) l" and "covers mx q l" and "0 < mx" and r: "r = take (nat mx) l"
  shows "(\<exists>e \<in> set r. sql_of e = sql_of q \<and> m_iSecond q \<le> m_iSecond e) \<or>
    int (length r) = mx \<and> (\<forall>e \<in> set r. m_iSecond q \<le> m_iSecond e)"
  using assms(2) unfolding covers_def
proof
  assume "\<exists>e \<in> set l. sql_of e = sql_of q \<and> m_iSecond q \<le> m_iSecond e"
  then obtain e where e: "e \<in> set l" "sql_of e = sql_of q" "m_iSecond q \<le> m_iSecond e" by blast
  show ?thesis
  proof (cases "e \<in> set r")
    case False
    then have drp: "e \<in> set (drop (nat mx) l)" using e(1) r by (metis UnE append_take_drop_id set_append)
    then have "nat mx < length l" by (cases "nat mx < length l") auto
    then show ?thesis using take_slowest [OF s _ drp] e(3) assms(3) r by (fastforce simp: min_def)
  qed (use e in blast)
next
  assume c: "mx \<le> int (count_ge (m_iSecond q) l)"
  then have c': "nat mx \<le> count_ge (m_iSecond q) l" by simp
  moreover have "count_ge (m_iSecond q) l \<le> length l" by (simp add: count_ge_def)
  ultimately show ?thesis using take_count [OF s c'] assms(3) r by (auto simp: min_def)
qed

text \<open>C15: The monitor keeps the slowest statements. After new times were merged, the list holds every
  statement once, sorted from the slowest on, with at most the configured number of entries, each of
  them seen with exactly its time; and every statement of the old list or of the new times is in the
  list with at least its time, or the list is full of statements that took at least as long.\<close>

theorem query_list_keeps_slowest:
  assumes "distinct (map sql_of old)" and "0 < mx" and "r = QueryTimeList_Insert mx new old"
  shows "distinct (map sql_of r) \<and> sorted_wrt (\<lambda>a b. m_iSecond b \<le> m_iSecond a) r \<and> int (length r) \<le> mx \<and>
    (\<forall>e \<in> set r. \<exists>p \<in> set new \<union> set old. sql_of p = sql_of e \<and> m_iSecond p = m_iSecond e) \<and>
    (\<forall>q \<in> set new \<union> set old. (\<exists>e \<in> set r. sql_of e = sql_of q \<and> m_iSecond q \<le> m_iSecond e) \<or>
      int (length r) = mx \<and> (\<forall>e \<in> set r. m_iSecond q \<le> m_iSecond e))"
proof -
  define l where "l = list_sort CQueryTimeCompare (fold (QueryTime_Insert mx) new old)"
  have m: "mset l = mset (fold (QueryTime_Insert mx) new old)" by (simp add: l_def mset_list_sort)
  have s: "sorted_wrt (\<lambda>a b. m_iSecond b \<le> m_iSecond a) l" unfolding l_def by (rule sorted_desc)
  have d: "distinct (map sql_of l)"
    using fold_Insert(1) [OF assms(1), of mx new] m by (metis mset_eq_imp_distinct_iff mset_map)
  have src: "\<exists>p \<in> set new \<union> set old. sql_of p = sql_of e \<and> m_iSecond p = m_iSecond e" if "e \<in> set l" for e
    using fold_Insert(3) [of e mx new old] that by (simp add: l_def)
  have cov: "covers mx q l" if "q \<in> set new \<union> set old" for q
  proof -
    have "covers mx q old \<or> q \<in> set new" using that by (auto simp: covers_def)
    then show ?thesis using fold_Insert(2) covers_mset [OF m] by blast
  qed
  have r: "r = take (nat mx) l" using assms(2,3) by (simp add: QueryTimeList_Insert_def l_def Let_def)
  note covers_cut [OF s cov assms(2) r]
  moreover have "distinct (map sql_of r)" unfolding r using d by (metis distinct_take take_map)
  moreover have "sorted_wrt (\<lambda>a b. m_iSecond b \<le> m_iSecond a) r" unfolding r using s by (rule sorted_wrt_take)
  moreover have "\<forall>e \<in> set r. \<exists>p \<in> set new \<union> set old. sql_of p = sql_of e \<and> m_iSecond p = m_iSecond e"
    using src in_set_takeD r by metis
  moreover have "int (length r) \<le> mx" using assms(2) r by auto
  ultimately show ?thesis by blast
qed

theorem query_list_keeps_slowest_witness:
  "let old = [\<lparr>m_strSQL = ''a'', m_iSecond = 9\<rparr>, \<lparr>m_strSQL = ''b'', m_iSecond = 4\<rparr>];
       new = [\<lparr>m_strSQL = ''b'', m_iSecond = 12\<rparr>, \<lparr>m_strSQL = ''c'', m_iSecond = 5\<rparr>];
       r = QueryTimeList_Insert 2 new old
   in r = [\<lparr>m_strSQL = ''b'', m_iSecond = 12\<rparr>, \<lparr>m_strSQL = ''a'', m_iSecond = 9\<rparr>] \<and>
      distinct (map sql_of r) \<and> sorted_wrt (\<lambda>a b. m_iSecond b \<le> m_iSecond a) r \<and> int (length r) \<le> 2"
proof -
  let ?old = "[\<lparr>m_strSQL = ''a'', m_iSecond = 9\<rparr>, \<lparr>m_strSQL = ''b'', m_iSecond = 4\<rparr>] :: QUERY_TIME_LIST"
  let ?new = "[\<lparr>m_strSQL = ''b'', m_iSecond = 12\<rparr>, \<lparr>m_strSQL = ''c'', m_iSecond = 5\<rparr>] :: QUERY_TIME_LIST"
  have "QueryTimeList_Insert 2 ?new ?old = [\<lparr>m_strSQL = ''b'', m_iSecond = 12\<rparr>, \<lparr>m_strSQL = ''a'', m_iSecond = 9\<rparr>]"
    by code_simp
  moreover have "distinct (map sql_of ?old)" by code_simp
  ultimately show ?thesis using query_list_keeps_slowest [of ?old 2 _ ?new, OF _ _ refl] by (simp add: Let_def)
qed

end
