(* ===== verification/SettingsFile.thy ===== *)
theory SettingsFile
  imports CRuntime
begin

text \<open>
  Settings that remember the size and the time of the file they were read from, and are read again
  when these change: the interface that MySQLSlaveOverWatcherSetup.cpp and MySQLQueryMonitorSetup.cpp
  both implement with \<open>IsChange\<close> and \<open>SetFileSizeTime\<close>. The file system is what the settings read of it:
  the contents and the modification time of a file.
\<close>

type_synonym config_files = "cstring \<Rightarrow> (string \<times> int) option"

locale settings_file =
  fixes file_of :: "'s \<Rightarrow> string"
    and stamp :: "config_files \<Rightarrow> 's \<Rightarrow> 's"
    and changed :: "config_files \<Rightarrow> 's \<Rightarrow> bool"
  assumes stamp_file: "file_of (stamp fs S) = file_of S"
    and stamp_missing: "fs (cstr (file_of S)) = None \<Longrightarrow> stamp fs S = S"
    and changed_missing: "fs (cstr (file_of S)) = None \<Longrightarrow> \<not> changed fs S"
    and changed_stamped: "fs (cstr (file_of S)) = Some (c, t) \<Longrightarrow> fs' (cstr (file_of S)) = Some (c', t') \<Longrightarrow>
      changed fs' (stamp fs S) \<longleftrightarrow> i32 (int (length c)) \<noteq> int (length c') \<or> t \<noteq> t'"
begin

text \<open>A change is seen exactly when the size or the time differs, for files below two gigabytes. A larger
  file counts as changed at every look, since its size does not fit into the member.\<close>

lemma change_detected:
  assumes "fs (cstr (file_of S)) = Some (c, t)" and "fs' (cstr (file_of S)) = Some (c', t')" and "int (length c) < 2 ^ 31"
  shows "changed fs' (stamp fs S) \<longleftrightarrow> length c \<noteq> length c' \<or> t \<noteq> t'"
  using changed_stamped [of fs S c t fs' c' t'] assms by (simp add: i32_nat_id)

lemma stamped_unchanged:
  "fs (cstr (file_of S)) = Some (c, t) \<Longrightarrow> int (length c) < 2 ^ 31 \<Longrightarrow> \<not> changed fs (stamp fs S)"
  using change_detected [of fs S c t fs c t] by simp

lemma large_file_changed:
  assumes "fs (cstr (file_of S)) = Some (c, t)" and "2 ^ 31 \<le> int (length c)"
  shows "changed fs (stamp fs S)"
proof -
  have "i32 (int (length c)) < 2 ^ 31" using in_i32_i32 [of "int (length c)"] unfolding in_i32_def by blast
  then show ?thesis using changed_stamped [of fs S c t fs c t] assms by auto
qed

text \<open>Looking again and again, with a re-reading that stamps: how often the file is read.\<close>

fun rereads :: "config_files list \<Rightarrow> 's \<Rightarrow> nat" where
  "rereads [] S = 0"
| "rereads (fs # fss) S = (if changed fs S then Suc (rereads fss (stamp fs S)) else rereads fss S)"

lemma rereads_idle:
  "(\<And>fs. fs \<in> set fss \<Longrightarrow> \<not> changed fs S) \<Longrightarrow> rereads fss S = 0"
  by (induction fss) simp_all

lemma rereads_once:
  assumes "fs (cstr (file_of S)) = Some (c, t)" and "int (length c) < 2 ^ 31" and "changed fs S"
  shows "rereads (replicate (Suc n) fs) S = 1"
  using assms rereads_idle [of "replicate n fs" "stamp fs S"] stamped_unchanged [of fs S c t] by simp

end

end
