(* ===== verification/SlaveWatch.thy ===== *)
theory SlaveWatch
  imports DbConnectionSpec XmlRoundTrip LogCleanup SettingsFile
begin

unbundle bit_operations_syntax

text \<open>
  MySQLSlaveOverWatcher: a service that reads its settings from an XML file, watches a replication
  slave over one connection and makes it skip statements that fail. It uses the XML parser, the
  process log and the connection. The strings \<open>su_str...\<close> are the members \<open>m_str...\<close> of the source.
  Its messages during \<open>CheckSlave\<close> are appended to the events of the connection.
\<close>

subsection \<open>Settings\<close>

record SlaveSetup =
  su_strDbHost :: string
  su_iDbPort :: int
  su_strDbUserId :: string
  su_strDbPassWord :: string
  su_iDbWatchPeriod :: int
  su_iDbReWatchPeriod :: int
  su_strFileName :: string
  su_iFileTime :: int
  su_iFileSize :: int

definition SlaveSetup_new :: "int \<Rightarrow> int \<Rightarrow> SlaveSetup" where
  "SlaveSetup_new iTime iSize = \<lparr>su_strDbHost = [], su_iDbPort = 3306, su_strDbUserId = [], su_strDbPassWord = [],
     su_iDbWatchPeriod = 60, su_iDbReWatchPeriod = 20, su_strFileName = [], su_iFileTime = iTime, su_iFileSize = iSize\<rparr>"

definition child_elem :: "cstring \<Rightarrow> CXmlElement \<Rightarrow> CXmlElement option" where
  "child_elem pszName e = map_option (\<lambda>p. m_clsElementList e ! p) (SelectElement pszName 0 e)"

definition SetFileSizeTime :: "config_files \<Rightarrow> SlaveSetup \<Rightarrow> SlaveSetup" where
  "SetFileSizeTime fs S = (case fs (cstr (su_strFileName S)) of None \<Rightarrow> S
     | Some (content, mtime) \<Rightarrow> S\<lparr>su_iFileSize := i32 (int (length content)), su_iFileTime := mtime\<rparr>)"

definition Setup_IsChange :: "config_files \<Rightarrow> SlaveSetup \<Rightarrow> bool" where
  "Setup_IsChange fs S = (case fs (cstr (su_strFileName S)) of None \<Rightarrow> False
     | Some (content, mtime) \<Rightarrow> su_iFileSize S \<noteq> int (length content) \<or> su_iFileTime S \<noteq> mtime)"

text \<open>The private \<open>Read\<close>: the part of the settings that is read again when the file changes. Trimming
  the data of an element changes the document, which is local to the callers; its elements are
  read at most once.\<close>

definition Read_periods :: "os \<Rightarrow> (nat \<Rightarrow> moment) \<Rightarrow> CXmlElement \<Rightarrow> SlaveSetup \<times> CLog \<Rightarrow> (SlaveSetup \<times> CLog) option" where
  "Read_periods os now db = (\<lambda>(S, L).
     let ((_, w), db) = SelectElementData_int ''WatchPeriod'' 0 db;
         ((_, r), db) = SelectElementData_int ''ReWatchPeriod'' 0 db;
         evs = (if w \<le> 0 then [(LOG_ERROR, ''Read Db -> WatchPeriod('' @ show_int w @ '') is not correct and change to 60'')] else []) @
           (if r \<le> 0 then [(LOG_ERROR, ''Read Db -> ReWatchPeriod('' @ show_int r @ '') is not correct and change to 20'')] else []);
         S = S\<lparr>su_iDbWatchPeriod := (if w \<le> 0 then 60 else w), su_iDbReWatchPeriod := (if r \<le> 0 then 20 else r)\<rparr>
     in map_option (Pair S) (CLog_events os now evs L))"

definition Read_level :: "CXmlElement \<Rightarrow> int" where
  "Read_level client =
     (let ((_, dbg), client) = SelectAttribute_bool ''Debug'' client;
          ((_, inf), client) = SelectAttribute_bool ''Info'' client;
          ((_, sql), client) = SelectAttribute_bool ''Sql'' client
      in ((if dbg then int (level_bits LOG_DEBUG) else 0) OR (if inf then int (level_bits LOG_INFO) else 0)) OR
         (if sql then int (level_bits LOG_SQL) else 0))"

definition Read_log :: "CXmlElement \<Rightarrow> CLog \<Rightarrow> CLog" where
  "Read_log log_e L =
     (let iLogLevel = (case child_elem ''Level'' log_e of None \<Rightarrow> 0 | Some client \<Rightarrow> Read_level client);
          ((_, iLogMaxSize), log_e) = SelectElementData_int ''MaxSize'' 0 log_e;
          ((_, iLogMaxFolderSize), log_e) = SelectElementData_int64 ''MaxFolderSize'' 0 log_e
      in SetMaxFolderSize iLogMaxFolderSize (SetMaxLogSize iLogMaxSize (SetLevel iLogLevel L)))"

definition Setup_Read_xml :: "os \<Rightarrow> (nat \<Rightarrow> moment) \<Rightarrow> CXmlElement \<Rightarrow> SlaveSetup \<times> CLog \<Rightarrow> (SlaveSetup \<times> CLog) option" where
  "Setup_Read_xml os now xml SL =
     (case (case child_elem ''Db'' xml of None \<Rightarrow> Some SL | Some db \<Rightarrow> Read_periods os now db SL) of None \<Rightarrow> None
      | Some (S, L) \<Rightarrow> (case child_elem ''Log'' xml of None \<Rightarrow> Some (S, L) | Some e \<Rightarrow> Some (S, Read_log e L)))"

text \<open>A message through \<open>CLog::Print\<close> and the result false.\<close>

definition refuse :: "os \<Rightarrow> (nat \<Rightarrow> moment) \<Rightarrow> log_event list \<Rightarrow> SlaveSetup \<Rightarrow> CLog \<Rightarrow> (bool \<times> SlaveSetup \<times> CLog) option" where
  "refuse os now evs S L = map_option (\<lambda>L. (False, S, L)) (CLog_events os now evs L)"

definition Read_folder :: "os \<Rightarrow> (nat \<Rightarrow> moment) \<Rightarrow> CXmlElement \<Rightarrow> CLog \<Rightarrow> (bool \<times> CLog) option" where
  "Read_folder os now xml L = (case child_elem ''Log'' xml of None \<Rightarrow> Some (True, L)
     | Some log_e \<Rightarrow> let (ok, strTemp) = SelectElementTrimData ''Folder'' 0 log_e
         in if \<not> ok then Some (True, L)
            else (case CLog_SetDirectory os now (Some (cstr strTemp)) L of None \<Rightarrow> None
              | Some (b, L) \<Rightarrow> if b then Some (True, L)
                  else Some (False, L\<lparr>log_stdout := log_stdout L @ [''[SetupFile] CLog::SetDirectory('' @ cstr strTemp @ '') error'' @ [LF]]\<rparr>)))"

text \<open>The messages start with \<open>__FUNCTION__\<close>. \<open>nows\<close> are the moments of the calls of the log.\<close>

definition Setup_Read_file ::
    "os \<Rightarrow> (nat \<Rightarrow> moment) \<Rightarrow> config_files \<Rightarrow> cstring \<Rightarrow> SlaveSetup \<times> CLog \<Rightarrow> (bool \<times> SlaveSetup \<times> CLog) option" where
  "Setup_Read_file os nows fs pszFileName = (\<lambda>(S, L).
     case ParseFile (map_option fst (fs pszFileName)) of None \<Rightarrow> None
     | Some (Inl evs) \<Rightarrow> refuse os nows (evs @ [(LOG_ERROR, ''Read clsXml.ParseFile('' @ pszFileName @ '') error'')]) S L
     | Some (Inr xml) \<Rightarrow>
       (case child_elem ''Db'' xml of None \<Rightarrow> refuse os nows [(LOG_ERROR, ''Read Db element is not found'')] S L
        | Some db \<Rightarrow>
          let S = S\<lparr>su_strDbHost := snd (SelectElementTrimData ''Host'' 0 db),
                    su_iDbPort := snd (fst (SelectElementData_int ''Port'' 0 db)),
                    su_strDbUserId := snd (SelectElementTrimData ''UserId'' 0 db),
                    su_strDbPassWord := snd (SelectElementTrimData ''PassWord'' 0 db)\<rparr>
          in if su_strDbHost S = [] then refuse os nows [(LOG_ERROR, ''Read Db -> Host is not defined'')] S L
             else if su_strDbUserId S = [] then refuse os nows [(LOG_ERROR, ''Read Db -> UserId is not defined'')] S L
             else (case Read_folder os nows xml L of None \<Rightarrow> None
               | Some (False, L) \<Rightarrow> Some (False, S, L)
               | Some (True, L) \<Rightarrow>
                 (case Setup_Read_xml os nows xml (S, L) of None \<Rightarrow> None
                  | Some (S, L) \<Rightarrow> Some (True, SetFileSizeTime fs (S\<lparr>su_strFileName := pszFileName\<rparr>), L)))))"

definition Setup_Reread ::
    "os \<Rightarrow> (nat \<Rightarrow> moment) \<Rightarrow> config_files \<Rightarrow> SlaveSetup \<times> CLog \<Rightarrow> (bool \<times> SlaveSetup \<times> CLog) option" where
  "Setup_Reread os nows fs = (\<lambda>(S, L).
     if su_strFileName S = [] then Some (False, S, L)
     else (case ParseFile (map_option fst (fs (cstr (su_strFileName S)))) of None \<Rightarrow> None
       | Some (Inl evs) \<Rightarrow> refuse os nows evs S L
       | Some (Inr xml) \<Rightarrow> (case Setup_Read_xml os nows xml (S, L) of None \<Rightarrow> None
           | Some (S, L) \<Rightarrow> Some (True, SetFileSizeTime fs S, L))))"

subsection \<open>Watching the slave\<close>

record CSlaveStatus =
  m_strSlaveIORunning :: string
  m_strSlaveSQLRunning :: string
  m_iLastErrNo :: int
  m_strLastError :: string

definition CSlaveStatus_new :: CSlaveStatus where
  "CSlaveStatus_new = \<lparr>m_strSlaveIORunning = [], m_strSlaveSQLRunning = [], m_iLastErrNo = 0, m_strLastError = []\<rparr>"

text \<open>The callback reads columns up to the twentieth; the server sends at least that many.\<close>

definition status_cell :: "mysql_row \<Rightarrow> nat \<Rightarrow> cstring option" where
  "status_cell sttRow i = (if i < length sttRow then sttRow ! i else None)"

definition FetchStatus :: "CSlaveStatus \<Rightarrow> mysql_row \<Rightarrow> bool \<times> CSlaveStatus" where
  "FetchStatus pclsStatus sttRow = (True, \<lparr>
     m_strSlaveIORunning = (case status_cell sttRow 10 of None \<Rightarrow> m_strSlaveIORunning pclsStatus | Some v \<Rightarrow> v),
     m_strSlaveSQLRunning = (case status_cell sttRow 11 of None \<Rightarrow> m_strSlaveSQLRunning pclsStatus | Some v \<Rightarrow> v),
     m_iLastErrNo = (case status_cell sttRow 18 of None \<Rightarrow> m_iLastErrNo pclsStatus | Some v \<Rightarrow> atoi v),
     m_strLastError = (case status_cell sttRow 19 of None \<Rightarrow> m_strLastError pclsStatus | Some v \<Rightarrow> v)\<rparr>)"

definition log_status :: "EnumLogLevel \<Rightarrow> CSlaveStatus \<Rightarrow> conn \<Rightarrow> conn" where
  "log_status l st c =
     log_print l (''       Last_Error: '' @ m_strLastError st)
       (log_print l (''       Last_Errno: '' @ show_int (m_iLastErrNo st))
         (log_print l (''Slave_SQL_Running: '' @ m_strSlaveSQLRunning st)
           (log_print l ('' Slave_IO_Running: '' @ m_strSlaveIORunning st) c)))"

definition running :: "CSlaveStatus \<Rightarrow> bool" where
  "running st \<longleftrightarrow> \<not> strcasecmp_eq (m_strSlaveIORunning st) ''No'' \<and> \<not> strcasecmp_eq (m_strSlaveSQLRunning st) ''No''"

text \<open>The three statements of a round, and whether the last one succeeded.\<close>

definition skip_statement :: "libmysql \<Rightarrow> conn \<Rightarrow> bool \<times> conn" where
  "skip_statement env clsDB =
     (let (_, clsDB) = Execute env ''STOP SLAVE'' clsDB;
          (_, clsDB) = Execute env ''SET GLOBAL SQL_SLAVE_SKIP_COUNTER = 1'' clsDB
      in Execute env ''START SLAVE'' clsDB)"

text \<open>A server whose slave never runs keeps the loop busy for ever (\<open>None\<close>).\<close>

partial_function (option) CheckSlave_loop :: "libmysql \<Rightarrow> conn \<Rightarrow> conn option" where
  [code]: "CheckSlave_loop env clsDB =
     (let Q = Query env ''SHOW SLAVE STATUS'' CSlaveStatus_new FetchStatus clsDB
      in if Q = None then None
         else let ((_, clsStatus), clsDB) = the Q
              in if running clsStatus then Some (log_status LOG_DEBUG clsStatus clsDB)
                 else let (ok, clsDB) = skip_statement env (log_status LOG_ERROR clsStatus clsDB)
                      in if \<not> ok then Some clsDB else CheckSlave_loop env clsDB)"

definition CheckSlave :: "libmysql \<Rightarrow> conn \<Rightarrow> (bool \<times> conn) option" where
  "CheckSlave env clsDB =
     map_option (\<lambda>c. (True, log_print LOG_DEBUG ''CheckSlave is terminated'' c))
       (CheckSlave_loop env (log_print LOG_DEBUG ''CheckSlave is started'' clsDB))"

text \<open>One second of the loop of \<open>ServiceMain\<close>.\<close>

record watcher =
  w_iSecond :: int
  w_clsDB :: conn
  w_clsSetup :: SlaveSetup
  w_log :: CLog

definition Watch_second :: "libmysql \<Rightarrow> os \<Rightarrow> (nat \<Rightarrow> moment) \<Rightarrow> config_files \<Rightarrow> watcher \<Rightarrow> watcher option" where
  "Watch_second env os nows fs W =
     (let W = W\<lparr>w_iSecond := i32 (w_iSecond W + 1)\<rparr>;
          C = (if w_iSecond W = su_iDbWatchPeriod (w_clsSetup W)
               then map_option (\<lambda>(_, c). W\<lparr>w_clsDB := c, w_iSecond := 0\<rparr>) (CheckSlave env (w_clsDB W)) else Some W)
      in case C of None \<Rightarrow> None
         | Some W \<Rightarrow>
           if Setup_IsChange fs (w_clsSetup W)
           then (case Setup_Reread os nows fs (w_clsSetup W, w_log W) of None \<Rightarrow> None
             | Some (_, S, L) \<Rightarrow> Some (W\<lparr>w_clsSetup := S, w_log := L\<rparr>))
           else Some W)"

subsection \<open>Settings that are accepted\<close>

definition setup_ok :: "SlaveSetup \<Rightarrow> bool" where
  "setup_ok S \<longleftrightarrow> su_strDbHost S \<noteq> [] \<and> su_strDbUserId S \<noteq> [] \<and> 0 < su_iDbWatchPeriod S \<and> 0 < su_iDbReWatchPeriod S"

lemma Read_periods_ok:
  "Read_periods os nows db (S, L) = Some (S', L') \<Longrightarrow>
    0 < su_iDbWatchPeriod S' \<and> 0 < su_iDbReWatchPeriod S' \<and> su_strDbHost S' = su_strDbHost S \<and> su_strDbUserId S' = su_strDbUserId S \<and>
    su_strFileName S' = su_strFileName S"
  by (auto simp: Read_periods_def Let_def case_prod_beta)

lemma Setup_Read_xml_ok:
  assumes "Setup_Read_xml os nows xml (S, L) = Some (S', L')"
    and "child_elem ''Db'' xml \<noteq> None \<or> 0 < su_iDbWatchPeriod S \<and> 0 < su_iDbReWatchPeriod S"
  shows "0 < su_iDbWatchPeriod S' \<and> 0 < su_iDbReWatchPeriod S' \<and> su_strDbHost S' = su_strDbHost S \<and>
    su_strDbUserId S' = su_strDbUserId S \<and> su_strFileName S' = su_strFileName S"
  using assms Read_periods_ok [of os nows _ S L]
  by (auto simp: Setup_Read_xml_def split: option.splits)

lemma Setup_Read_xml_keeps:
  "Setup_Read_xml os nows xml (S, L) = Some (S', L') \<Longrightarrow>
    su_iDbPort S' = su_iDbPort S \<and> su_strDbPassWord S' = su_strDbPassWord S"
  by (auto simp: Setup_Read_xml_def Read_periods_def Let_def case_prod_beta split: option.splits)

lemma SetFileSizeTime_sel [simp]:
  "su_iDbPort (SetFileSizeTime fs S) = su_iDbPort S" "su_strDbPassWord (SetFileSizeTime fs S) = su_strDbPassWord S"
  "su_strDbHost (SetFileSizeTime fs S) = su_strDbHost S" "su_strDbUserId (SetFileSizeTime fs S) = su_strDbUserId S"
  "su_iDbWatchPeriod (SetFileSizeTime fs S) = su_iDbWatchPeriod S" "su_iDbReWatchPeriod (SetFileSizeTime fs S) = su_iDbReWatchPeriod S"
  "su_strFileName (SetFileSizeTime fs S) = su_strFileName S"
  by (auto simp: SetFileSizeTime_def split: option.splits)

interpretation slave_file: settings_file su_strFileName SetFileSizeTime Setup_IsChange
  by unfold_locales (auto simp: Setup_IsChange_def SetFileSizeTime_def split: option.split)

lemma refuse_False: "refuse os nows evs S L = Some (b, S', L') \<Longrightarrow> \<not> b \<and> S' = S"
  by (auto simp: refuse_def)

text \<open>C19: Settings that \<open>Read\<close> accepts are well formed: host and user are not empty, both periods are
  positive (missing or wrong values were replaced), the file name is remembered, and the file, when it is smaller
  than 2 GiB, does not count as changed until its size or time differs. Reading the file again, whatever it holds then, keeps host, port,
  user, password and file name, and the periods stay positive. When it is accepted, the new file does not count as changed either
  (again below 2 GiB); when it cannot be parsed, the settings stay exactly as they were, also the size and time, so a changed
  file still counts as changed and is read again at the next look.\<close>

theorem setup_read_valid:
  assumes "Setup_Read_file os nows fs name (S, L) = Some (True, S1, L1)" and "NUL \<notin> set name"
    and "fs name = Some (content, mtime)" and "int (length content) < 2 ^ 31"
    and "Setup_Reread os nows' fs' (S1, L2) = Some (b, S2, L3)"
  shows "setup_ok S1 \<and> su_strFileName S1 = name \<and> \<not> Setup_IsChange fs S1 \<and>
    setup_ok S2 \<and> su_strFileName S2 = name \<and> su_strDbHost S2 = su_strDbHost S1 \<and> su_iDbPort S2 = su_iDbPort S1 \<and>
    su_strDbUserId S2 = su_strDbUserId S1 \<and> su_strDbPassWord S2 = su_strDbPassWord S1 \<and>
    (b \<longrightarrow> (\<forall>content' mtime'. fs' name = Some (content', mtime') \<and> int (length content') < 2 ^ 31 \<longrightarrow> \<not> Setup_IsChange fs' S2)) \<and>
    (\<not> b \<longrightarrow> S2 = S1 \<and> Setup_IsChange fs' S2 = Setup_IsChange fs' S1)"
proof -
  have one: "setup_ok S1 \<and> su_strFileName S1 = name \<and> \<not> Setup_IsChange fs S1"
  proof -
    obtain xml db where x: "ParseFile (map_option fst (fs name)) = Some (Inr xml)" "child_elem ''Db'' xml = Some db"
      using assms(1) by (auto simp: Setup_Read_file_def dest: refuse_False split: option.splits sum.splits)
    define S0 where "S0 = S\<lparr>su_strDbHost := snd (SelectElementTrimData ''Host'' 0 db),
      su_iDbPort := snd (fst (SelectElementData_int ''Port'' 0 db)),
      su_strDbUserId := snd (SelectElementTrimData ''UserId'' 0 db),
      su_strDbPassWord := snd (SelectElementTrimData ''PassWord'' 0 db)\<rparr>"
    have n: "su_strDbHost S0 \<noteq> [] \<and> su_strDbUserId S0 \<noteq> []"
      using assms(1) x by (auto simp: Setup_Read_file_def Let_def S0_def dest: refuse_False split: if_splits)
    then obtain L0 S3 where r: "Setup_Read_xml os nows xml (S0, L0) = Some (S3, L1)"
      and S1: "S1 = SetFileSizeTime fs (S3\<lparr>su_strFileName := name\<rparr>)"
      using assms(1) x
      by (auto simp: Setup_Read_file_def Let_def S0_def split: option.splits bool.splits)
    show ?thesis
      using Setup_Read_xml_ok [OF r] x(2) n slave_file.stamped_unchanged [of fs "S3\<lparr>su_strFileName := name\<rparr>" content mtime] assms(2-4)
      by (simp add: S1 setup_ok_def)
  qed
  then have name: "su_strFileName S1 = name" and ok: "setup_ok S1" by simp_all
  consider (refused) "\<not> b" "S2 = S1"
    | (accepted) xml S3 L4 where b "Setup_Read_xml os nows' xml (S1, L2) = Some (S3, L4)" "S2 = SetFileSizeTime fs' S3"
    using assms(5) unfolding Setup_Reread_def
    by (auto dest: refuse_False split: option.splits sum.splits if_splits)
  then have "setup_ok S2 \<and> su_strFileName S2 = name \<and> su_strDbHost S2 = su_strDbHost S1 \<and> su_iDbPort S2 = su_iDbPort S1 \<and>
    su_strDbUserId S2 = su_strDbUserId S1 \<and> su_strDbPassWord S2 = su_strDbPassWord S1 \<and>
    (b \<longrightarrow> (\<forall>content' mtime'. fs' name = Some (content', mtime') \<and> int (length content') < 2 ^ 31 \<longrightarrow> \<not> Setup_IsChange fs' S2)) \<and>
    (\<not> b \<longrightarrow> S2 = S1)"
  proof cases
    case refused
    then show ?thesis using ok name by simp
  next
    case accepted
    note r = Setup_Read_xml_ok [OF accepted(2)] Setup_Read_xml_keeps [OF accepted(2)]
    have "su_strFileName S3 = name" using r ok name by (simp add: setup_ok_def)
    then show ?thesis
      using r ok accepted(1) slave_file.stamped_unchanged [of fs' S3] assms(2) by (auto simp: accepted(3) setup_ok_def)
  qed
  then show ?thesis using one by auto
qed

definition demo_conf :: string where
  "demo_conf = ''<S><Db><Host>h</Host><UserId>u</UserId></Db></S>''"

definition demo_files :: config_files where
  "demo_files n = (if n = ''f'' then Some (demo_conf, 7) else None)"

definition demo_silent :: CLog where
  "demo_silent = SetNullLevel (CLog_init (Dir []))"

definition demo_read :: "(bool \<times> SlaveSetup \<times> CLog) option" where
  "demo_read = Setup_Read_file demo_os (\<lambda>_. demo_now) demo_files ''f'' (SlaveSetup_new 0 0, demo_silent)"

definition demo_reread :: "(bool \<times> SlaveSetup \<times> CLog) option" where
  "demo_reread = Setup_Reread demo_os (\<lambda>_. demo_now) demo_files (fst (snd (the demo_read)), demo_silent)"

lemma demo_read_ok: "map_option fst demo_read = Some True"
  by code_simp

lemma demo_reread_ok: "map_option fst demo_reread = Some True"
  by code_simp

theorem setup_read_valid_witness:
  "\<exists>S1 L1 S2 L2. demo_read = Some (True, S1, L1) \<and> demo_reread = Some (True, S2, L2) \<and>
    setup_ok S1 \<and> su_strFileName S1 = ''f'' \<and> \<not> Setup_IsChange demo_files S1 \<and> setup_ok S2 \<and> su_strFileName S2 = ''f'' \<and>
    su_strDbHost S2 = su_strDbHost S1 \<and> \<not> Setup_IsChange demo_files S2"
proof -
  obtain S1 L1 where r: "demo_read = Some (True, S1, L1)" using demo_read_ok by auto
  obtain S2 L2 where q: "demo_reread = Some (True, S2, L2)" using demo_reread_ok by auto
  have "fst (snd (the demo_read)) = S1" unfolding r option.sel snd_conv fst_conv by (rule refl)
  then have "Setup_Reread demo_os (\<lambda>_. demo_now) demo_files (S1, demo_silent) = Some (True, S2, L2)"
    using q by (simp add: demo_reread_def)
  moreover have f: "demo_files ''f'' = Some (demo_conf, 7)" by (simp add: demo_files_def)
  moreover have c: "int (length demo_conf) < 2 ^ 31" by (simp add: demo_conf_def)
  moreover have "NUL \<notin> set ''f''" by simp
  ultimately have "setup_ok S1 \<and> su_strFileName S1 = ''f'' \<and> \<not> Setup_IsChange demo_files S1 \<and> setup_ok S2 \<and> su_strFileName S2 = ''f'' \<and>
    su_strDbHost S2 = su_strDbHost S1 \<and> \<not> Setup_IsChange demo_files S2"
    using setup_read_valid [OF r [unfolded demo_read_def], of demo_conf 7 "\<lambda>_. demo_now" demo_files demo_silent True S2 L2] by blast
  then show ?thesis using r q by blast
qed

subsection \<open>The watch period\<close>

text \<open>A number of seconds during which the configuration file stays as it is.\<close>

primrec Watch_run :: "libmysql \<Rightarrow> os \<Rightarrow> (nat \<Rightarrow> moment) \<Rightarrow> config_files \<Rightarrow> nat \<Rightarrow> watcher \<Rightarrow> watcher option" where
  "Watch_run env os nows fs 0 W = Some W"
| "Watch_run env os nows fs (Suc n) W =
     (case Watch_run env os nows fs n W of None \<Rightarrow> None | Some W \<Rightarrow> Watch_second env os nows fs W)"

text \<open>Seconds in which the counter does not meet the period.\<close>

lemma Watch_run_idle:
  assumes "\<not> Setup_IsChange fs (w_clsSetup W)" and "0 \<le> w_iSecond W" and "w_iSecond W + int n < 2 ^ 31"
    and "su_iDbWatchPeriod (w_clsSetup W) \<le> w_iSecond W \<or> w_iSecond W + int n < su_iDbWatchPeriod (w_clsSetup W)"
  shows "Watch_run env os nows fs n W = Some (W\<lparr>w_iSecond := w_iSecond W + int n\<rparr>)"
  using assms
proof (induction n)
  case (Suc n)
  then have r: "Watch_run env os nows fs n W = Some (W\<lparr>w_iSecond := w_iSecond W + int n\<rparr>)" by auto
  have "i32 (w_iSecond W + int n + 1) = w_iSecond W + int n + 1"
    using Suc.prems by (intro i32_id) (simp add: in_i32_def)
  then show ?case using r Suc.prems by (auto simp: Watch_second_def Let_def)
qed simp

text \<open>C21: While the configuration file does not change, a watcher whose counter is below its period
  checks the slave when the period is complete, not earlier, and then counts from zero again; when the
  check does not return, neither does the watcher.\<close>

theorem watch_checks_each_period:
  assumes "\<not> Setup_IsChange fs (w_clsSetup W)" and "0 \<le> w_iSecond W" and "w_iSecond W < su_iDbWatchPeriod (w_clsSetup W)"
    and "su_iDbWatchPeriod (w_clsSetup W) < 2 ^ 31" and "n = nat (su_iDbWatchPeriod (w_clsSetup W) - w_iSecond W)"
  shows "Watch_run env os nows fs n W = map_option (\<lambda>(_, c). W\<lparr>w_clsDB := c, w_iSecond := 0\<rparr>) (CheckSlave env (w_clsDB W)) \<and>
    Watch_run env os nows fs (n - 1) W = Some (W\<lparr>w_iSecond := su_iDbWatchPeriod (w_clsSetup W) - 1\<rparr>)"
proof -
  let ?p = "su_iDbWatchPeriod (w_clsSetup W)"
  have n: "n = Suc (n - 1)" and i: "w_iSecond W + int (n - 1) = ?p - 1" using assms(3,5) by auto
  have idle: "Watch_run env os nows fs (n - 1) W = Some (W\<lparr>w_iSecond := ?p - 1\<rparr>)"
    using Watch_run_idle [OF assms(1,2), of "n - 1" env os nows] i assms(4) by simp
  have "i32 ?p = ?p" using assms(2,3,4) by (intro i32_id) (simp add: in_i32_def)
  then have "Watch_second env os nows fs (W\<lparr>w_iSecond := ?p - 1\<rparr>) =
      map_option (\<lambda>(_, c). W\<lparr>w_clsDB := c, w_iSecond := 0\<rparr>) (CheckSlave env (w_clsDB W))"
    using assms(1) by (auto simp: Watch_second_def Let_def split: option.split)
  then have "Watch_run env os nows fs (Suc (n - 1)) W =
      map_option (\<lambda>(_, c). W\<lparr>w_clsDB := c, w_iSecond := 0\<rparr>) (CheckSlave env (w_clsDB W))"
    using idle by simp
  then show ?thesis using n idle by simp
qed

text \<open>After a reload that makes the period shorter than the seconds already counted, the slave is
  not checked any more: no second up to the overflow of the counter runs \<open>CheckSlave\<close> (the connection is
  never used), since the counter is compared for equality.\<close>

theorem watch_stops_after_shorter_period:
  assumes "\<not> Setup_IsChange fs (w_clsSetup W)" and "su_iDbWatchPeriod (w_clsSetup W) \<le> w_iSecond W" and "0 \<le> w_iSecond W"
    and "w_iSecond W + int n < 2 ^ 31"
  shows "Watch_run env os nows fs n W = Some (W\<lparr>w_iSecond := w_iSecond W + int n\<rparr>)"
  by (rule Watch_run_idle) (use assms in auto)

text \<open>A library whose calls all return zero: no connection can be made.\<close>

definition dead_env :: libmysql where
  "dead_env = \<lparr>rc = \<lambda>_. 0, rtext = \<lambda>_. [], rows = \<lambda>_. None, cell = \<lambda>_. None\<rparr>"

definition demo_watch :: "int \<Rightarrow> int \<Rightarrow> watcher" where
  "demo_watch sec period = \<lparr>w_iSecond = sec, w_clsDB = CDbMySQLConnection_new,
     w_clsSetup = (SlaveSetup_new 7 48)\<lparr>su_strFileName := ''f'', su_iDbWatchPeriod := period\<rparr>, w_log = demo_silent\<rparr>"

lemma demo_watch_unchanged: "\<not> Setup_IsChange demo_files (w_clsSetup (demo_watch sec period))"
  by (simp add: Setup_IsChange_def demo_watch_def SlaveSetup_new_def demo_files_def demo_conf_def)

theorem watch_checks_each_period_witness:
  "Watch_run dead_env demo_os (\<lambda>_. demo_now) demo_files 2 (demo_watch 18 20) =
     map_option (\<lambda>(_, c). (demo_watch 18 20)\<lparr>w_clsDB := c, w_iSecond := 0\<rparr>) (CheckSlave dead_env CDbMySQLConnection_new) \<and>
   Watch_run dead_env demo_os (\<lambda>_. demo_now) demo_files 1 (demo_watch 18 20) = Some (demo_watch 19 20)"
  using watch_checks_each_period [OF demo_watch_unchanged, of 18 20 2 dead_env demo_os "\<lambda>_. demo_now"]
  by (simp add: demo_watch_def SlaveSetup_new_def)

theorem watch_stops_after_shorter_period_witness:
  "Watch_run dead_env demo_os (\<lambda>_. demo_now) demo_files 86400 (demo_watch 30 20) = Some (demo_watch 86430 20)"
  using watch_stops_after_shorter_period [OF demo_watch_unchanged, of 30 20 86400 dead_env demo_os "\<lambda>_. demo_now"]
  by (simp add: demo_watch_def SlaveSetup_new_def)

subsection \<open>A failed status query\<close>

text \<open>When the status query fails, because the server refuses it or the connection is lost, \<open>CheckSlave\<close>
  returns true at once: the empty status counts as a running slave and no statement is sent.\<close>

theorem check_slave_query_failure:
  assumes "Query env ''SHOW SLAVE STATUS'' CSlaveStatus_new FetchStatus (log_print LOG_DEBUG ''CheckSlave is started'' c) = Some ((False, st), c')"
  shows "\<exists>c''. CheckSlave env c = Some (True, c'') \<and> calls c'' = calls c'"
proof -
  have st: "st = CSlaveStatus_new"
    using assms by (auto simp: Query_def Let_def case_prod_beta split: if_splits)
  have "running st" by (simp add: st running_def CSlaveStatus_new_def strcasecmp_eq_def)
  then show ?thesis
    using assms by (simp add: CheckSlave_def CheckSlave_loop.simps Let_def log_status_def log_print_def)
qed

lemma dead_query: "map_option fst (Query dead_env ''SHOW SLAVE STATUS'' CSlaveStatus_new FetchStatus
    (log_print LOG_DEBUG ''CheckSlave is started'' CDbMySQLConnection_new)) = Some (False, CSlaveStatus_new)"
  by code_simp

theorem check_slave_query_failure_witness:
  "\<exists>c''. CheckSlave dead_env CDbMySQLConnection_new = Some (True, c'')"
proof -
  obtain c' where "Query dead_env ''SHOW SLAVE STATUS'' CSlaveStatus_new FetchStatus
    (log_print LOG_DEBUG ''CheckSlave is started'' CDbMySQLConnection_new) = Some ((False, CSlaveStatus_new), c')"
    using dead_query by auto
  from check_slave_query_failure [OF this] show ?thesis by blast
qed

end
