(* ===== verification/QueryMonitor.thy ===== *)
theory QueryMonitor
  imports QueryTimeList SlaveWatch
begin

text \<open>
  MySQLQueryMonitor: the settings of the query monitor (MySQLQueryMonitorSetup.cpp) and the flags
  with which the window starts and stops the polling thread (MySQLQueryThread.cpp). The window
  itself is in theory MonitorWindow.
\<close>

subsection \<open>Settings\<close>

record MonitorSetup =
  mo_strDbHost :: string
  mo_iDbPort :: int
  mo_strDbUserId :: string
  mo_strDbPassWord :: string
  mo_iDbMonitorPeriod :: int
  mo_iMaxQueryCount :: int
  mo_strFileName :: string
  mo_iFileTime :: int
  mo_iFileSize :: int

definition MonitorSetup_new :: "int \<Rightarrow> int \<Rightarrow> MonitorSetup" where
  "MonitorSetup_new iTime iSize = \<lparr>mo_strDbHost = [], mo_iDbPort = 3306, mo_strDbUserId = [], mo_strDbPassWord = [],
     mo_iDbMonitorPeriod = 1, mo_iMaxQueryCount = 10, mo_strFileName = [], mo_iFileTime = iTime, mo_iFileSize = iSize\<rparr>"

definition Monitor_SetFileSizeTime :: "config_files \<Rightarrow> MonitorSetup \<Rightarrow> MonitorSetup" where
  "Monitor_SetFileSizeTime fs S = (case fs (cstr (mo_strFileName S)) of None \<Rightarrow> S
     | Some (content, mtime) \<Rightarrow> S\<lparr>mo_iFileSize := i32 (int (length content)), mo_iFileTime := mtime\<rparr>)"

definition Monitor_IsChange :: "config_files \<Rightarrow> MonitorSetup \<Rightarrow> bool" where
  "Monitor_IsChange fs S = (case fs (cstr (mo_strFileName S)) of None \<Rightarrow> False
     | Some (content, mtime) \<Rightarrow> mo_iFileSize S \<noteq> int (length content) \<or> mo_iFileTime S \<noteq> mtime)"

definition Monitor_Read_xml :: "CXmlElement \<Rightarrow> MonitorSetup \<Rightarrow> MonitorSetup" where
  "Monitor_Read_xml xml S = (case child_elem ''Db'' xml of None \<Rightarrow> S
     | Some db \<Rightarrow>
       let ((_, p), db) = SelectElementData_int ''MonitorPeriod'' 0 db;
           ((_, m), db) = SelectElementData_int ''MaxQueryCount'' 0 db
       in S\<lparr>mo_iDbMonitorPeriod := (if p \<le> 0 then 1 else p), mo_iMaxQueryCount := (if m \<le> 0 then 10 else m)\<rparr>)"

text \<open>The result, the settings and the events that are logged.\<close>

definition Monitor_Read_file ::
    "config_files \<Rightarrow> cstring \<Rightarrow> MonitorSetup \<Rightarrow> ((bool \<times> MonitorSetup) \<times> log_event list) option" where
  "Monitor_Read_file fs pszFileName S =
     (case ParseFile (map_option fst (fs pszFileName)) of None \<Rightarrow> None
      | Some (Inl evs) \<Rightarrow> Some ((False, S), evs)
      | Some (Inr xml) \<Rightarrow>
        (case child_elem ''Db'' xml of None \<Rightarrow> Some ((False, S), [(LOG_ERROR, ''Read Db element is not found'')])
         | Some db \<Rightarrow>
           let S = S\<lparr>mo_strDbHost := snd (SelectElementTrimData ''Host'' 0 db),
                     mo_iDbPort := snd (fst (SelectElementData_int ''Port'' 0 db)),
                     mo_strDbUserId := snd (SelectElementTrimData ''UserId'' 0 db),
                     mo_strDbPassWord := snd (SelectElementTrimData ''PassWord'' 0 db)\<rparr>
           in if mo_strDbHost S = [] \<or> mo_strDbUserId S = [] then Some ((False, S), [])
              else Some ((True, Monitor_SetFileSizeTime fs ((Monitor_Read_xml xml S)\<lparr>mo_strFileName := pszFileName\<rparr>)), [])))"

definition Monitor_Reread :: "config_files \<Rightarrow> MonitorSetup \<Rightarrow> ((bool \<times> MonitorSetup) \<times> log_event list) option" where
  "Monitor_Reread fs S =
     (if mo_strFileName S = [] then Some ((False, S), [])
      else case ParseFile (map_option fst (fs (cstr (mo_strFileName S)))) of None \<Rightarrow> None
        | Some (Inl evs) \<Rightarrow> Some ((False, S), evs)
        | Some (Inr xml) \<Rightarrow> Some ((True, Monitor_SetFileSizeTime fs (Monitor_Read_xml xml S)), []))"

text \<open>The counts that reach the list of statements are positive.\<close>

lemma Monitor_SetFileSizeTime_sel [simp]:
  "mo_iMaxQueryCount (Monitor_SetFileSizeTime fs S) = mo_iMaxQueryCount S"
  "mo_iDbMonitorPeriod (Monitor_SetFileSizeTime fs S) = mo_iDbMonitorPeriod S"
  by (auto simp: Monitor_SetFileSizeTime_def split: option.splits)

lemma monitor_counts_positive:
  assumes "0 < mo_iMaxQueryCount S" and "Monitor_Read_file fs name S = Some ((b, S'), evs) \<or> Monitor_Reread fs S = Some ((b, S'), evs)"
  shows "0 < mo_iMaxQueryCount S'"
proof -
  have "0 < mo_iMaxQueryCount (Monitor_Read_xml xml T)" if "0 < mo_iMaxQueryCount T" for xml T
    using that by (auto simp: Monitor_Read_xml_def Let_def case_prod_beta split: option.split)
  then show ?thesis
    using assms by (auto simp: Monitor_Read_file_def Monitor_Reread_def Let_def split: option.splits sum.splits if_splits)
qed

text \<open>The file is read again exactly when its size or time changes.\<close>

lemma Monitor_SetFileSizeTime_file [simp]: "mo_strFileName (Monitor_SetFileSizeTime fs S) = mo_strFileName S"
  by (auto simp: Monitor_SetFileSizeTime_def split: option.splits)

interpretation monitor_file: settings_file mo_strFileName Monitor_SetFileSizeTime Monitor_IsChange
  by unfold_locales (auto simp: Monitor_IsChange_def Monitor_SetFileSizeTime_def split: option.split)

subsection \<open>The polling thread\<close>

datatype wm_message = PARAM_SETUP_ERROR | PARAM_CONNECT_ERROR | PARAM_REFRESH

text \<open>The loop: \<open>stops k\<close> is \<open>gbStop\<close> before round \<open>k\<close>, a round merges the rows and sends a message. The state
  is the shared list, the connection and the messages sent.\<close>

partial_function (option) MySQLQueryThread_loop ::
    "libmysql \<Rightarrow> (nat \<Rightarrow> bool) \<Rightarrow> int \<Rightarrow> nat \<Rightarrow> (QUERY_TIME_LIST \<times> conn) \<times> wm_message list \<Rightarrow>
     ((QUERY_TIME_LIST \<times> conn) \<times> wm_message list) option" where
  [code]: "MySQLQueryThread_loop env stops iMaxQueryCount k S =
     (if stops k then Some S
      else let r = MySQLQueryThread_round env iMaxQueryCount (fst S)
           in if r = None then None else MySQLQueryThread_loop env stops iMaxQueryCount (Suc k) (the r, snd S @ [PARAM_REFRESH]))"

text \<open>The settings, the list and the messages at the end of the thread.\<close>

definition MySQLQueryThread ::
    "libmysql \<Rightarrow> (nat \<Rightarrow> bool) \<Rightarrow> config_files \<Rightarrow> cstring \<Rightarrow> MonitorSetup \<Rightarrow> QUERY_TIME_LIST \<Rightarrow>
     (MonitorSetup \<times> QUERY_TIME_LIST \<times> wm_message list) option" where
  "MySQLQueryThread env stops fs programDir S m_clsList =
     (case Monitor_Read_file fs (cstr (AppendName programDir ''MySQLQueryMonitor.xml'')) S of None \<Rightarrow> None
      | Some ((False, S), _) \<Rightarrow> Some (S, m_clsList, [PARAM_SETUP_ERROR])
      | Some ((True, S), _) \<Rightarrow>
          (let (b, clsDB) = Connect env (cstr (mo_strDbHost S)) (cstr (mo_strDbUserId S)) (cstr (mo_strDbPassWord S)) [] (mo_iDbPort S)
                 None CDbMySQLConnection_new
           in if \<not> b then Some (S, m_clsList, [PARAM_CONNECT_ERROR])
              else map_option (\<lambda>((l, _), msgs). (S, l, msgs))
                (MySQLQueryThread_loop env stops (mo_iMaxQueryCount S) 0 ((m_clsList, clsDB), []))))"

subsection \<open>Starting and stopping the thread\<close>

record monitor_flags =
  mo_gbStop :: bool
  mo_gbRun :: bool
  mo_threads :: nat

text \<open>\<open>mo_threads\<close> counts the threads that were created; \<open>started\<close> tells whether the system creates one. The
  new thread sets \<open>gbRun\<close> when it runs for the first time.\<close>

definition StartMySQLQueryThread :: "bool \<Rightarrow> monitor_flags \<Rightarrow> bool \<times> monitor_flags" where
  "StartMySQLQueryThread started F =
     (if mo_gbRun F then (True, F)
      else if \<not> started then (False, F)
      else (True, F\<lparr>mo_threads := mo_threads F + 1\<rparr>))"

definition IsMySQLQueryThreadRun :: "monitor_flags \<Rightarrow> bool" where
  "IsMySQLQueryThreadRun F = mo_gbRun F"

text \<open>The waiting loop of \<open>Stop\<close>, with what the polling thread does in each of its naps; it may not end.\<close>

partial_function (option) Stop_wait :: "(nat \<Rightarrow> monitor_flags \<Rightarrow> monitor_flags) \<Rightarrow> nat \<Rightarrow> monitor_flags \<Rightarrow> monitor_flags option" where
  [code]: "Stop_wait others i F = (if mo_gbRun F then Stop_wait others (Suc i) (others i F) else Some F)"

definition StopMySQLQueryThread :: "(nat \<Rightarrow> monitor_flags \<Rightarrow> monitor_flags) \<Rightarrow> monitor_flags \<Rightarrow> (bool \<times> monitor_flags) option" where
  "StopMySQLQueryThread others F =
     (if mo_gbRun F then map_option (\<lambda>F. (True, F\<lparr>mo_gbStop := False\<rparr>)) (Stop_wait others 0 (F\<lparr>mo_gbStop := True\<rparr>))
      else Some (True, F))"

text \<open>Two starts before the first thread has run create two threads.\<close>

lemma start_twice:
  "\<not> mo_gbRun F \<Longrightarrow> mo_threads (snd (StartMySQLQueryThread True (snd (StartMySQLQueryThread True F)))) = mo_threads F + 2"
  by (simp add: StartMySQLQueryThread_def)

end
