(* ===== verification/MonitorWindow.thy ===== *)
theory MonitorWindow
  imports QueryMonitor
begin

text \<open>
  The main window of MySQLQueryMonitor (MySQLQueryMonitorDlg.cpp) and the polling threads that it starts, as a
  step relation. The window runs one handler at a time. \<open>SendMessage\<close> of a polling thread returns when
  the window has handled the message, which it does only between its handlers (documented behaviour of Windows).
  Message boxes, the time of the last refresh and the window for one statement (SqlDlg.cpp) are left out.
\<close>

subsection \<open>State\<close>

text \<open>The next statement of a polling thread; \<open>QT_nap n\<close>: \<open>n\<close> seconds to sleep.\<close>

datatype qthread = QT_new | QT_setup | QT_connect | QT_send wm_message | QT_test | QT_query
  | QT_insert QUERY_TIME_LIST | QT_nap nat | QT_close | QT_exit | QT_gone

text \<open>What the window does: it takes messages; it is in \<open>StartMySQLQueryThread\<close>; it is in \<open>StopMySQLQueryThread\<close>, before the
  test of \<open>gbRun\<close> or in the loop, for \<open>OnBnClickedCancel\<close> (true) or \<open>OnBnClickedStart\<close>; it is closed.\<close>

datatype wpc = W_pump | W_start | W_stop bool | W_wait bool | W_closed

record monitor =
  mw_flags :: monitor_flags
  mw_setup :: MonitorSetup
  mw_list :: QUERY_TIME_LIST
  mw_threads :: "(qthread \<times> conn) list"
  mw_win :: wpc
  m_bStart :: bool
  m_btnStart :: string
  m_clsSQLList :: "(string \<times> cstring) list"

definition monitor_new :: "MonitorSetup \<Rightarrow> monitor" where
  "monitor_new T = \<lparr>mw_flags = \<lparr>mo_gbStop = False, mo_gbRun = False, mo_threads = 0\<rparr>, mw_setup = T, mw_list = [],
     mw_threads = [], mw_win = W_pump, m_bStart = True, m_btnStart = ''Start'', m_clsSQLList = []\<rparr>"

subsection \<open>Handlers\<close>

text \<open>\<open>szSecond\<close> has eleven bytes, enough for the positive times that the query selects.\<close>

definition OnMySQLQueryThread :: "wm_message \<Rightarrow> monitor \<Rightarrow> monitor" where
  "OnMySQLQueryThread wParam M =
     (if wParam = PARAM_REFRESH
      then M\<lparr>m_clsSQLList := map (\<lambda>q. (take 11 (show_int (m_iSecond q)), cstr (m_strSQL q))) (QueryTimeList_Select (mw_list M))\<rparr>
      else M\<lparr>m_bStart := True, m_btnStart := ''Start''\<rparr>)"

definition OnBnClickedClear :: "monitor \<Rightarrow> monitor" where
  "OnBnClickedClear M = M\<lparr>mw_list := QueryTimeList_DeleteAll (mw_list M), m_clsSQLList := []\<rparr>"

definition OnBnClickedStart :: "monitor \<Rightarrow> monitor" where
  "OnBnClickedStart M =
     (if m_bStart M then if IsMySQLQueryThreadRun (mw_flags M) then M else M\<lparr>mw_win := W_start\<rparr>
      else if IsMySQLQueryThreadRun (mw_flags M) then M\<lparr>mw_win := W_stop False\<rparr>
      else M\<lparr>m_bStart := True, m_btnStart := ''Start''\<rparr>)"

definition OnBnClickedCancel :: "monitor \<Rightarrow> monitor" where
  "OnBnClickedCancel M = M\<lparr>mw_win := if IsMySQLQueryThreadRun (mw_flags M) then W_stop True else W_closed\<rparr>"

text \<open>The handlers after \<open>StartMySQLQueryThread\<close> and \<open>StopMySQLQueryThread\<close>.\<close>

definition after_start :: "bool \<Rightarrow> monitor \<Rightarrow> monitor" where
  "after_start started M =
     (let (b, F) = StartMySQLQueryThread started (mw_flags M);
          M = M\<lparr>mw_flags := F, mw_win := W_pump,
                mw_threads := mw_threads M @ replicate (mo_threads F - mo_threads (mw_flags M)) (QT_new, CDbMySQLConnection_new)\<rparr>
      in if b then M\<lparr>m_bStart := False, m_btnStart := ''Stop''\<rparr> else M)"

definition after_stop :: "bool \<Rightarrow> monitor \<Rightarrow> monitor" where
  "after_stop cancel M = (if cancel then M\<lparr>mw_win := W_closed\<rparr>
     else M\<lparr>mw_win := W_pump, m_bStart := True, m_btnStart := ''Start''\<rparr>)"

subsection \<open>Steps\<close>

text \<open>Thread \<open>t\<close> is before statement \<open>s\<close>; it goes on to \<open>s\<close>.\<close>

definition thread_at :: "monitor \<Rightarrow> nat \<Rightarrow> qthread \<Rightarrow> conn \<Rightarrow> bool" where
  "thread_at M t s c \<longleftrightarrow> t < length (mw_threads M) \<and> mw_threads M ! t = (s, c)"

definition thread_to :: "nat \<Rightarrow> qthread \<Rightarrow> conn \<Rightarrow> monitor \<Rightarrow> monitor" where
  "thread_to t s c M = M\<lparr>mw_threads := (mw_threads M)[t := (s, c)]\<rparr>"

definition set_stop :: "bool \<Rightarrow> monitor \<Rightarrow> monitor" where
  "set_stop b M = M\<lparr>mw_flags := (mw_flags M)\<lparr>mo_gbStop := b\<rparr>\<rparr>"

definition set_run :: "bool \<Rightarrow> monitor \<Rightarrow> monitor" where
  "set_run b M = M\<lparr>mw_flags := (mw_flags M)\<lparr>mo_gbRun := b\<rparr>\<rparr>"

text \<open>The sources of a program: the libraries of its threads, the file of its settings.\<close>

inductive mon_step :: "(nat \<Rightarrow> libmysql) \<Rightarrow> config_files \<Rightarrow> cstring \<Rightarrow> monitor \<Rightarrow> monitor \<Rightarrow> bool" for env fs name where
  ms_click: "mw_win M = W_pump \<Longrightarrow> mon_step env fs name M (OnBnClickedStart M)"
| ms_cancel: "mw_win M = W_pump \<Longrightarrow> mon_step env fs name M (OnBnClickedCancel M)"
| ms_clear: "mw_win M = W_pump \<Longrightarrow> mon_step env fs name M (OnBnClickedClear M)"
| ms_start: "mw_win M = W_start \<Longrightarrow> mon_step env fs name M (after_start started M)"
| ms_stop: "mw_win M = W_stop a \<Longrightarrow> mo_gbRun (mw_flags M) \<Longrightarrow>
    mon_step env fs name M ((set_stop True M)\<lparr>mw_win := W_wait a\<rparr>)"
| ms_not_run: "mw_win M = W_stop a \<Longrightarrow> \<not> mo_gbRun (mw_flags M) \<Longrightarrow> mon_step env fs name M (after_stop a M)"
| ms_stopped: "mw_win M = W_wait a \<Longrightarrow> \<not> mo_gbRun (mw_flags M) \<Longrightarrow>
    mon_step env fs name M (after_stop a (set_stop False M))"
| ms_deliver: "mw_win M = W_pump \<Longrightarrow> thread_at M t (QT_send m) c \<Longrightarrow>
    s = (if m = PARAM_REFRESH then QT_nap (nat (iSleepSecond (mo_iDbMonitorPeriod (mw_setup M)) dwStart dwEnd)) else QT_exit) \<Longrightarrow>
    mon_step env fs name M (thread_to t s c (OnMySQLQueryThread m M))"
| ms_enter: "thread_at M t QT_new c \<Longrightarrow> mon_step env fs name M (thread_to t QT_setup c (set_run True M))"
| ms_setup: "thread_at M t QT_setup c \<Longrightarrow> Monitor_Read_file fs name (mw_setup M) = Some ((b, T), evs) \<Longrightarrow>
    mon_step env fs name M (thread_to t (if b then QT_connect else QT_send PARAM_SETUP_ERROR) c (M\<lparr>mw_setup := T\<rparr>))"
| ms_connect: "thread_at M t QT_connect c \<Longrightarrow> T = mw_setup M \<Longrightarrow>
    Connect (env t) (cstr (mo_strDbHost T)) (cstr (mo_strDbUserId T)) (cstr (mo_strDbPassWord T)) [] (mo_iDbPort T) None c = (b, c') \<Longrightarrow>
    mon_step env fs name M (thread_to t (if b then QT_test else QT_send PARAM_CONNECT_ERROR) c' M)"
| ms_test: "thread_at M t QT_test c \<Longrightarrow>
    mon_step env fs name M (thread_to t (if mo_gbStop (mw_flags M) then QT_close else QT_query) c M)"
| ms_query: "thread_at M t QT_query c \<Longrightarrow> Query (env t) query_poll_sql [] FetchQuery c = Some ((b, l), c') \<Longrightarrow>
    mon_step env fs name M (thread_to t (QT_insert l) c' M)"
| ms_insert: "thread_at M t (QT_insert l) c \<Longrightarrow>
    mon_step env fs name M (thread_to t (QT_send PARAM_REFRESH) c
      (M\<lparr>mw_list := QueryTimeList_Insert (mo_iMaxQueryCount (mw_setup M)) l (mw_list M)\<rparr>))"
| ms_nap: "thread_at M t (QT_nap n) c \<Longrightarrow>
    mon_step env fs name M (thread_to t (if n = 0 \<or> mo_gbStop (mw_flags M) then QT_test else QT_nap (n - 1)) c M)"
| ms_close: "thread_at M t QT_close c \<Longrightarrow> mon_step env fs name M (thread_to t QT_exit (Close c) M)"
| ms_exit: "thread_at M t QT_exit c \<Longrightarrow> mon_step env fs name M (thread_to t QT_gone c (set_run False M))"

inductive mon_reach :: "(nat \<Rightarrow> libmysql) \<Rightarrow> config_files \<Rightarrow> cstring \<Rightarrow> MonitorSetup \<Rightarrow> monitor \<Rightarrow> bool" for env fs name T where
  mr_init: "mon_reach env fs name T (monitor_new T)"
| mr_step: "mon_reach env fs name T M \<Longrightarrow> mon_step env fs name M M' \<Longrightarrow> mon_reach env fs name T M'"

lemmas handler_defs = OnBnClickedStart_def OnBnClickedCancel_def OnBnClickedClear_def OnMySQLQueryThread_def
  after_start_def after_stop_def thread_to_def set_stop_def set_run_def IsMySQLQueryThreadRun_def
  StartMySQLQueryThread_def

subsection \<open>A stop that blocks\<close>

text \<open>The window waits for the end of a thread that will send it a message.\<close>

fun must_send :: "qthread \<Rightarrow> bool" where
  "must_send QT_query = True"
| "must_send (QT_insert l) = True"
| "must_send (QT_send m) = True"
| "must_send _ = False"

definition blocked :: "nat \<Rightarrow> bool \<Rightarrow> monitor \<Rightarrow> bool" where
  "blocked t a M \<longleftrightarrow> mw_win M = W_wait a \<and> mo_gbRun (mw_flags M) \<and> t < length (mw_threads M) \<and>
     must_send (fst (mw_threads M ! t)) \<and> (\<forall>u < length (mw_threads M). u \<noteq> t \<longrightarrow> fst (mw_threads M ! u) = QT_gone)"

lemma blocked_thread: "blocked t a M \<Longrightarrow> thread_at M u s c \<Longrightarrow> must_send s \<and> u = t \<or> s = QT_gone"
  by (auto simp: blocked_def thread_at_def)

lemma blocked_win: "blocked t a M \<Longrightarrow> mw_win M = W_wait a \<and> mo_gbRun (mw_flags M)"
  by (simp add: blocked_def)

lemma blocked_to: "blocked t a M \<Longrightarrow> must_send s \<Longrightarrow> blocked t a (thread_to t s c M)"
  by (auto simp: blocked_def thread_to_def nth_list_update)

lemma mon_step_blocked: "mon_step env fs name M M' \<Longrightarrow> blocked t a M \<Longrightarrow> blocked t a M'"
proof (induction rule: mon_step.induct)
  case (ms_insert M u l c)
  then have "u = t" using blocked_thread by fastforce
  moreover have "blocked t a (M\<lparr>mw_list := QueryTimeList_Insert (mo_iMaxQueryCount (mw_setup M)) l (mw_list M)\<rparr>)"
    using ms_insert(2) by (simp add: blocked_def)
  ultimately show ?case by (auto intro: blocked_to)
next
  case (ms_query M u c b l c')
  then have "u = t" using blocked_thread by fastforce
  then show ?case using ms_query(3) by (auto intro: blocked_to)
qed (auto dest: blocked_thread blocked_win)

lemma mon_steps_blocked: "(mon_step env fs name)\<^sup>*\<^sup>* M M' \<Longrightarrow> blocked t a M \<Longrightarrow> blocked t a M'"
  by (induction rule: rtranclp_induct) (auto intro: mon_step_blocked)

text \<open>The way to a running poll, for settings and a server with which the monitor works.\<close>

definition one_thread :: "MonitorSetup \<Rightarrow> bool \<Rightarrow> bool \<Rightarrow> wpc \<Rightarrow> qthread \<Rightarrow> conn \<Rightarrow> monitor" where
  "one_thread T stop run w s c = \<lparr>mw_flags = \<lparr>mo_gbStop = stop, mo_gbRun = run, mo_threads = 1\<rparr>, mw_setup = T, mw_list = [],
     mw_threads = [(s, c)], mw_win = w, m_bStart = False, m_btnStart = ''Stop'', m_clsSQLList = []\<rparr>"

lemma one_thread_at: "thread_at (one_thread T stop run w s c) 0 s c"
  by (simp add: one_thread_def thread_at_def)

lemma one_thread_to: "thread_to 0 s' c' (one_thread T stop run w s c) = one_thread T stop run w s' c'"
  by (simp add: one_thread_def thread_to_def)

definition connects :: "libmysql \<Rightarrow> MonitorSetup \<Rightarrow> bool \<times> conn" where
  "connects env T = Connect env (cstr (mo_strDbHost T)) (cstr (mo_strDbUserId T)) (cstr (mo_strDbPassWord T)) [] (mo_iDbPort T)
     None CDbMySQLConnection_new"

lemma polling_reached:
  assumes read: "Monitor_Read_file fs name T0 = Some ((True, T), evs)" and con: "connects (env 0) T = (True, c)"
  shows "mon_reach env fs name T0 (one_thread T False True W_pump QT_query c)"
proof -
  note nx = mr_step [of env fs name T0]
  have "OnBnClickedStart (monitor_new T0) = (monitor_new T0)\<lparr>mw_win := W_start\<rparr>"
    by (simp add: OnBnClickedStart_def monitor_new_def IsMySQLQueryThreadRun_def)
  with nx [OF mr_init ms_click] have "mon_reach env fs name T0 ((monitor_new T0)\<lparr>mw_win := W_start\<rparr>)" by (simp add: monitor_new_def)
  from nx [OF this ms_start [where started = True]]
  have "mon_reach env fs name T0 (one_thread T0 False False W_pump QT_new CDbMySQLConnection_new)"
    by (simp add: after_start_def StartMySQLQueryThread_def monitor_new_def one_thread_def)
  from nx [OF this ms_enter [OF one_thread_at]]
  have "mon_reach env fs name T0 (one_thread T0 False True W_pump QT_setup CDbMySQLConnection_new)"
    by (simp add: one_thread_def thread_to_def set_run_def)
  moreover have "Monitor_Read_file fs name (mw_setup (one_thread T0 False True W_pump QT_setup CDbMySQLConnection_new)) =
      Some ((True, T), evs)"
    using read by (simp add: one_thread_def)
  ultimately have "mon_reach env fs name T0 (one_thread T False True W_pump QT_connect CDbMySQLConnection_new)"
    using nx [OF _ ms_setup [OF one_thread_at]] by (fastforce simp: one_thread_def thread_to_def)
  moreover have "mw_setup (one_thread T False True W_pump QT_connect CDbMySQLConnection_new) = T" by (simp add: one_thread_def)
  ultimately have "mon_reach env fs name T0 (one_thread T False True W_pump QT_test c)"
    using nx [OF _ ms_connect [OF one_thread_at refl]] con by (fastforce simp: connects_def one_thread_to)
  from nx [OF this ms_test [OF one_thread_at]] show ?thesis by (simp add: one_thread_def thread_to_def)
qed

lemma waiting_reached:
  assumes "mon_reach env fs name T0 (one_thread T False True W_pump QT_query c)"
  shows "mon_reach env fs name T0 (one_thread T True True (W_wait a) QT_query c)"
proof -
  have "mon_reach env fs name T0 (one_thread T False True (W_stop a) QT_query c)"
  proof (cases a)
    case True
    with mr_step [OF assms ms_cancel] show ?thesis
      by (simp add: one_thread_def OnBnClickedCancel_def IsMySQLQueryThreadRun_def)
  next
    case False
    with mr_step [OF assms ms_click] show ?thesis
      by (simp add: one_thread_def OnBnClickedStart_def IsMySQLQueryThreadRun_def)
  qed
  from mr_step [OF this ms_stop [of _ a]] show ?thesis by (simp add: one_thread_def set_stop_def)
qed

text \<open>C9: Stopping the monitor can hang for ever. With any settings and server with which monitoring starts at all, there is a
  reachable state in which the user asks to stop (or to close the window) while the thread is between its
  query and its message; from there on, whatever happens, the window waits in \<open>StopMySQLQueryThread\<close> and the thread
  never ends: it waits in \<open>SendMessage\<close> for the window, which takes no messages while it waits for the thread.\<close>

theorem monitor_stop_blocks:
  assumes "Monitor_Read_file fs name T0 = Some ((True, T), evs)" and "fst (connects (env 0) T)"
  shows "\<exists>M. mon_reach env fs name T0 M \<and> length (mw_threads M) = 1 \<and> (\<forall>M'. (mon_step env fs name)\<^sup>*\<^sup>* M M' \<longrightarrow>
    mw_win M' = W_wait a \<and> mo_gbRun (mw_flags M') \<and> must_send (fst (mw_threads M' ! 0)))"
proof -
  obtain c where c: "connects (env 0) T = (True, c)" using assms(2) by (metis prod.collapse)
  let ?M = "one_thread T True True (W_wait a) QT_query c"
  have r: "mon_reach env fs name T0 ?M" by (rule waiting_reached [OF polling_reached [where env = env, OF assms(1) c]])
  have b: "blocked 0 a ?M" by (simp add: blocked_def one_thread_def)
  have "mw_win M' = W_wait a \<and> mo_gbRun (mw_flags M') \<and> must_send (fst (mw_threads M' ! 0))"
    if "(mon_step env fs name)\<^sup>*\<^sup>* ?M M'" for M'
    using mon_steps_blocked [OF that b] by (simp add: blocked_def)
  with r show ?thesis by (intro exI [of _ ?M]) (simp add: one_thread_def)
qed

definition demo_monitor :: "((bool \<times> MonitorSetup) \<times> log_event list) option" where
  "demo_monitor = Monitor_Read_file demo_files ''f'' (MonitorSetup_new 0 0)"

lemma demo_monitor_eval:
  "map_option (fst \<circ> fst) demo_monitor = Some True" "fst (connects demo_db (snd (fst (the demo_monitor))))"
  by code_simp+

theorem monitor_stop_blocks_witness:
  "\<exists>M. mon_reach (\<lambda>_. demo_db) demo_files ''f'' (MonitorSetup_new 0 0) M \<and> mw_win M = W_wait True \<and> mo_gbRun (mw_flags M)"
proof -
  obtain T evs where r: "demo_monitor = Some ((True, T), evs)" using demo_monitor_eval(1) by auto
  have "fst (connects demo_db T)" using demo_monitor_eval(2) by (simp add: r)
  then show ?thesis
    using monitor_stop_blocks [of demo_files "''f''" "MonitorSetup_new 0 0" T evs "\<lambda>_. demo_db" True] r [unfolded demo_monitor_def]
    by blast
qed

subsection \<open>A stop that returns\<close>

text \<open>If each thread is past its message, the stop ends.\<close>

fun to_exit :: "qthread \<Rightarrow> nat" where
  "to_exit (QT_nap n) = 4"
| "to_exit QT_test = 3"
| "to_exit QT_close = 2"
| "to_exit QT_exit = 1"
| "to_exit _ = 0"

fun calm_thread :: "qthread \<Rightarrow> bool" where
  "calm_thread QT_gone = True"
| "calm_thread s = (0 < to_exit s)"

definition calm :: "bool \<Rightarrow> monitor \<Rightarrow> bool" where
  "calm a M \<longleftrightarrow> mw_win M = W_wait a \<and> mo_gbStop (mw_flags M) \<and> (\<forall>p \<in> set (mw_threads M). calm_thread (fst p))"

definition rest :: "monitor \<Rightarrow> nat" where
  "rest M = (\<Sum>p \<leftarrow> mw_threads M. to_exit (fst p))"

text \<open>A thread runs while \<open>gbRun\<close> is set.\<close>

definition run_inv :: "monitor \<Rightarrow> bool" where
  "run_inv M \<longleftrightarrow> (mo_gbRun (mw_flags M) \<longrightarrow> (\<exists>p \<in> set (mw_threads M). fst p \<noteq> QT_new \<and> fst p \<noteq> QT_gone))"

lemma run_inv_to: "thread_at N t s0 c0 \<Longrightarrow> mw_threads M = mw_threads N \<Longrightarrow> s \<noteq> QT_new \<Longrightarrow> s \<noteq> QT_gone \<Longrightarrow> run_inv (thread_to t s c M)"
  by (auto simp: run_inv_def thread_to_def thread_at_def set_update_memI intro!: bexI [of _ "(s, c)"])

lemma handlers_keep:
  "mw_threads (OnBnClickedStart M) = mw_threads M" "mw_threads (OnBnClickedCancel M) = mw_threads M"
  "mw_threads (OnBnClickedClear M) = mw_threads M" "mw_threads (OnMySQLQueryThread m M) = mw_threads M"
  "mw_threads (after_stop a M) = mw_threads M" "mw_threads (set_stop b M) = mw_threads M"
  "mw_threads (set_run r M) = mw_threads M"
  "mw_flags (OnBnClickedStart M) = mw_flags M" "mw_flags (OnBnClickedCancel M) = mw_flags M"
  "mw_flags (OnBnClickedClear M) = mw_flags M" "mw_flags (after_stop a M) = mw_flags M"
  "mo_gbRun (mw_flags (set_stop b M)) = mo_gbRun (mw_flags M)"
  by (simp_all add: handler_defs)

lemma run_inv_keep: "run_inv M \<Longrightarrow> mw_threads M' = mw_threads M \<Longrightarrow> mo_gbRun (mw_flags M') = mo_gbRun (mw_flags M) \<Longrightarrow> run_inv M'"
  by (simp add: run_inv_def)

lemma mon_step_run_inv: "mon_step env fs name M M' \<Longrightarrow> run_inv M \<Longrightarrow> run_inv M'"
proof (induction rule: mon_step.induct)
  case (ms_start M started)
  then show ?case by (auto simp: run_inv_def after_start_def StartMySQLQueryThread_def Let_def)
next
  case (ms_exit M t c)
  then show ?case by (simp add: run_inv_def thread_to_def set_run_def)
qed (auto simp: handlers_keep elim: run_inv_keep intro: run_inv_to)

lemma mon_reach_run_inv: "mon_reach env fs name T M \<Longrightarrow> run_inv M"
  by (induction rule: mon_reach.induct) (simp add: run_inv_def monitor_new_def, rule mon_step_run_inv)

lemma rest_to:
  assumes "thread_at M t s c" and "mw_threads N = mw_threads M"
  shows "rest (thread_to t s' c' N) + to_exit s = rest M + to_exit s'"
proof -
  have t: "t < length (mw_threads M)" "to_exit (fst (mw_threads M ! t)) = to_exit s" using assms(1) by (auto simp: thread_at_def)
  then have "to_exit s \<le> (\<Sum>p \<leftarrow> mw_threads M. to_exit (fst p))" by (metis (mono_tags) elem_le_sum_list length_map nth_map)
  then show ?thesis using t assms(2) by (simp add: rest_def thread_to_def map_update sum_list_update)
qed

lemma calm_to:
  assumes "calm a M" and "thread_at M t s c" and "calm_thread s'" and "to_exit s' < to_exit s"
    and "mw_threads N = mw_threads M" and "mw_win N = mw_win M" and "mo_gbStop (mw_flags N) = mo_gbStop (mw_flags M)"
  shows "calm a (thread_to t s' c' N) \<and> rest (thread_to t s' c' N) < rest M"
  using assms rest_to [OF assms(2,5), of s' c'] set_update_subset_insert [of "mw_threads M" t "(s', c')"]
  by (auto simp: calm_def thread_to_def)

lemma calm_thread_at: "calm a M \<Longrightarrow> thread_at M t s c \<Longrightarrow> calm_thread s"
  by (force simp: calm_def thread_at_def in_set_conv_nth)

lemma calm_win: "calm a M \<Longrightarrow> mw_win M = W_wait a \<and> mo_gbStop (mw_flags M)"
  by (simp add: calm_def)

lemma mon_step_calm:
  "mon_step env fs name M M' \<Longrightarrow> calm a M \<Longrightarrow>
    mw_win M' = (if a then W_closed else W_pump) \<or> calm a M' \<and> rest M' < rest M"
proof (induction rule: mon_step.induct)
  case (ms_stopped M b)
  then show ?case using calm_win [of a M] by (simp add: after_stop_def)
next
  case (ms_test M t c)
  then show ?case using calm_win [of a M] calm_to [OF ms_test(2,1), of QT_close M c] by simp
next
  case (ms_nap M t n c)
  then show ?case using calm_win [of a M] calm_to [OF ms_nap(2,1), of QT_test M c] by simp
next
  case (ms_close M t c)
  then show ?case using calm_to [OF ms_close(2,1), of QT_exit M "Close c"] by simp
next
  case (ms_exit M t c)
  then show ?case using calm_to [OF ms_exit(2,1), of QT_gone "set_run False M" c] by (simp add: set_run_def)
qed (auto dest: calm_thread_at calm_win)

lemma calm_moves:
  assumes "run_inv M" and "calm a M"
  shows "\<exists>M'. mon_step env fs name M M'"
proof (cases "mo_gbRun (mw_flags M)")
  case True
  then obtain t where t: "t < length (mw_threads M)" "fst (mw_threads M ! t) \<noteq> QT_new" "fst (mw_threads M ! t) \<noteq> QT_gone"
    using assms(1) by (auto simp: run_inv_def in_set_conv_nth)
  obtain s c where s: "thread_at M t s c" using t(1) by (cases "mw_threads M ! t") (auto simp: thread_at_def)
  have "calm_thread s" "s \<noteq> QT_gone" using calm_thread_at [OF assms(2) s] s t by (auto simp: thread_at_def)
  then show ?thesis using s by (cases s) (auto intro: ms_nap ms_test ms_close ms_exit)
next
  case False
  then show ?thesis using ms_stopped [of M a env fs name] assms(2) by (auto simp: calm_def)
qed

text \<open>C10: If every polling thread sleeps or is past its loop when the window begins to wait in \<open>StopMySQLQueryThread\<close>, the stop
  returns: some step is always possible, and every step of any thread either ends the wait, with the window
  closed or its button reset, or brings the threads nearer to their end.\<close>

theorem monitor_stop_returns:
  assumes "mon_reach env fs name T M" and "calm a M"
  shows "(\<exists>M'. mon_step env fs name M M') \<and> (\<forall>M'. mon_step env fs name M M' \<longrightarrow>
    mw_win M' = (if a then W_closed else W_pump) \<or> calm a M' \<and> rest M' < rest M)"
  using calm_moves [OF mon_reach_run_inv [OF assms(1)] assms(2)] mon_step_calm [OF _ assms(2)] by blast

theorem monitor_stop_returns_witness:
  "\<exists>M M'. calm True M \<and> mon_step (\<lambda>_. demo_db) (\<lambda>_. None) ''f'' M M' \<and> rest M' < rest M"
proof -
  let ?T = "MonitorSetup_new 0 0" and ?c = CDbMySQLConnection_new and ?e = "\<lambda>_ :: nat. demo_db" and ?f = "\<lambda>_. None"
  let ?F = "\<lparr>mo_gbStop = False, mo_gbRun = True, mo_threads = 1\<rparr>"
  note nx = mr_step [of ?e ?f "''f''" ?T]
  define M where "M stop w s = (one_thread ?T stop True w s ?c)\<lparr>m_bStart := True, m_btnStart := ''Start''\<rparr>" for stop w s
  have at: "thread_at (M stop w s) 0 s ?c" for stop w s by (simp add: M_def one_thread_def thread_at_def)
  have "mon_reach ?e ?f ''f'' ?T ((monitor_new ?T)\<lparr>mw_win := W_start\<rparr>)"
    using nx [OF mr_init ms_click] by (simp add: monitor_new_def OnBnClickedStart_def IsMySQLQueryThreadRun_def)
  from nx [OF this ms_start [where started = True]]
  have "mon_reach ?e ?f ''f'' ?T (one_thread ?T False False W_pump QT_new ?c)"
    by (simp add: after_start_def StartMySQLQueryThread_def monitor_new_def one_thread_def)
  from nx [OF this ms_enter [OF one_thread_at]] have "mon_reach ?e ?f ''f'' ?T (one_thread ?T False True W_pump QT_setup ?c)"
    by (simp add: one_thread_def thread_to_def set_run_def)
  moreover obtain evs where "Monitor_Read_file ?f ''f'' ?T = Some ((False, ?T), evs)"
    by (simp add: Monitor_Read_file_def ParseFile_def)
  ultimately have "mon_reach ?e ?f ''f'' ?T (one_thread ?T False True W_pump (QT_send PARAM_SETUP_ERROR) ?c)"
    using nx [OF _ ms_setup [OF one_thread_at]] by (fastforce simp: one_thread_def thread_to_def)
  from nx [OF this ms_deliver [OF _ one_thread_at refl]] have "mon_reach ?e ?f ''f'' ?T (M False W_pump QT_exit)"
    by (simp add: one_thread_def thread_to_def M_def OnMySQLQueryThread_def)
  from nx [OF this ms_cancel] have "mon_reach ?e ?f ''f'' ?T (M False (W_stop True) QT_exit)"
    by (simp add: M_def one_thread_def OnBnClickedCancel_def IsMySQLQueryThreadRun_def)
  from nx [OF this ms_stop [of _ True]] have r: "mon_reach ?e ?f ''f'' ?T (M True (W_wait True) QT_exit)"
    by (simp add: M_def one_thread_def set_stop_def)
  have c: "calm True (M True (W_wait True) QT_exit)" by (simp add: calm_def M_def one_thread_def)
  have st: "mon_step ?e ?f ''f'' (M True (W_wait True) QT_exit) (thread_to 0 QT_gone ?c (set_run False (M True (W_wait True) QT_exit)))"
    by (rule ms_exit [OF at])
  moreover have "mw_win (thread_to 0 QT_gone ?c (set_run False (M True (W_wait True) QT_exit))) = W_wait True"
    by (simp add: M_def one_thread_def thread_to_def set_run_def)
  ultimately show ?thesis using monitor_stop_returns [OF r c] c by (metis wpc.distinct(19))
qed

subsection \<open>Two threads\<close>

text \<open>Start, stop and start again before the first thread has run: two threads poll. \<open>gbRun\<close> will be false as soon as
  the first of them ends.\<close>

lemma two_polling_threads:
  "\<exists>M. mon_reach env fs name T M \<and> map fst (mw_threads M) = [QT_setup, QT_setup] \<and> mw_win M = W_pump"
proof -
  let ?c = CDbMySQLConnection_new
  note nx = mr_step [of env fs name T]
  define M where "M run ts w b s = \<lparr>mw_flags = \<lparr>mo_gbStop = False, mo_gbRun = run, mo_threads = length ts\<rparr>, mw_setup = T, mw_list = [],
     mw_threads = map (\<lambda>s. (s, ?c)) ts, mw_win = w, m_bStart = b, m_btnStart = s, m_clsSQLList = []\<rparr>" for run ts w b s
  have "monitor_new T = M False [] W_pump True ''Start''" by (simp add: M_def monitor_new_def)
  with nx [OF mr_init ms_click] have "mon_reach env fs name T (M False [] W_start True ''Start'')"
    by (simp add: M_def OnBnClickedStart_def IsMySQLQueryThreadRun_def)
  from nx [OF this ms_start [where started = True]] have "mon_reach env fs name T (M False [QT_new] W_pump False ''Stop'')"
    by (simp add: after_start_def StartMySQLQueryThread_def M_def)
  from nx [OF this ms_click] have "mon_reach env fs name T (M False [QT_new] W_pump True ''Start'')"
    by (simp add: M_def OnBnClickedStart_def IsMySQLQueryThreadRun_def)
  from nx [OF this ms_click] have "mon_reach env fs name T (M False [QT_new] W_start True ''Start'')"
    by (simp add: M_def OnBnClickedStart_def IsMySQLQueryThreadRun_def)
  from nx [OF this ms_start [where started = True]] have "mon_reach env fs name T (M False [QT_new, QT_new] W_pump False ''Stop'')"
    by (simp add: after_start_def StartMySQLQueryThread_def M_def)
  from nx [OF this ms_enter [of _ 0 ?c]] have "mon_reach env fs name T (M True [QT_setup, QT_new] W_pump False ''Stop'')"
    by (simp add: M_def thread_at_def thread_to_def set_run_def)
  from nx [OF this ms_enter [of _ 1 ?c]] have "mon_reach env fs name T (M True [QT_setup, QT_setup] W_pump False ''Stop'')"
    by (simp add: M_def thread_at_def thread_to_def set_run_def)
  then show ?thesis by (intro exI conjI) (assumption, simp_all add: M_def)
qed

end
