(* ===== verification/ServerRun.thy ===== *)
theory ServerRun
  imports SlaveWatch
begin

text \<open>
  How the slave watcher runs: ServerPlatform/ServerMain.cpp, ServerSignal.cpp and ServerService.cpp (the
  branches for systems other than Windows), and \<open>ServiceMain\<close> and \<open>main\<close> of MySQLSlaveOverWatcher.cpp.
  The process itself (SipPlatform/ServerUtility.cpp: \<open>Fork\<close>, \<open>SetCoreDumpEnable\<close>, \<open>ChangeExecuteUser\<close>) is a state of
  its own, which the service does not read.
\<close>

subsection \<open>ServerPlatform\<close>

record CServerService =
  sv_strName :: string
  sv_strDisplayName :: string
  sv_strDescription :: string
  sv_strVersion :: string
  sv_strConfigFileName :: string
  sv_strBuildDate :: string

definition SetBuildDate :: "cstring \<Rightarrow> cstring \<Rightarrow> CServerService \<Rightarrow> CServerService" where
  "SetBuildDate pszDate pszTime S = S\<lparr>sv_strBuildDate := pszDate @ '' '' @ pszTime\<rparr>"

definition GetConfigFileName :: "CServerService \<Rightarrow> cstring" where
  "GetConfigFileName gclsService = cstr (sv_strConfigFileName gclsService)"

text \<open>The result, the lines printed and the state after the function of the service, which may not return. Its
  own result is not used. There is at least the name of the program in \<open>argv\<close>.\<close>

definition ServerMain ::
    "cstring list \<Rightarrow> CServerService \<Rightarrow> (CServerService \<Rightarrow> 'w \<Rightarrow> (int \<times> 'w) option) \<Rightarrow> 'w \<Rightarrow> ((int \<times> string list) \<times> 'w) option" where
  "ServerMain argv clsService pFunc w =
     (let gclsService = clsService; usage = ''[Usage] '' @ hd argv @ '' {config filename}'' @ [LF]
      in if length argv = 1 then Some ((- 1, [usage]), w)
         else let gclsService = gclsService\<lparr>sv_strConfigFileName := argv ! 1\<rparr>
              in if argv ! 1 = ''-h'' \<or> argv ! 1 = ''-v''
                 then Some ((0, [hd argv @ '' version-'' @ cstr (sv_strVersion gclsService) @
                        '' ( build '' @ cstr (sv_strBuildDate gclsService) @ '' )'' @ [LF], usage]), w)
                 else map_option (\<lambda>(_, w). ((0, []), w)) (pFunc gclsService w))"

datatype signal = SIGINT | SIGSEGV | SIGTERM | SIGQUIT | SIGABRT | SIGKILL | SIGPIPE | SIGHUP

datatype disposition = Default | Handler | Ignore

fun signal_no :: "signal \<Rightarrow> int" where
  "signal_no SIGHUP = 1" | "signal_no SIGINT = 2" | "signal_no SIGQUIT = 3" | "signal_no SIGABRT = 6"
| "signal_no SIGKILL = 9" | "signal_no SIGSEGV = 11" | "signal_no SIGPIPE = 13" | "signal_no SIGTERM = 15"

fun signal_text :: "signal \<Rightarrow> string" where
  "signal_text SIGINT = ''SIGINT''" | "signal_text SIGSEGV = ''SIGSEGV''" | "signal_text SIGTERM = ''SIGTERM''"
| "signal_text SIGQUIT = ''SIGQUIT''" | "signal_text SIGABRT = ''SIGABRT''" | "signal_text _ = []"

text \<open>The table of handlers after \<open>ServerSignal\<close>. The system refuses a handler for \<open>SIGKILL\<close>.\<close>

definition ServerSignal :: "(signal \<Rightarrow> disposition) \<Rightarrow> signal \<Rightarrow> disposition" where
  "ServerSignal tbl = tbl(SIGINT := Handler, SIGTERM := Handler, SIGABRT := Handler, SIGQUIT := Handler, SIGPIPE := Ignore)"

text \<open>The handler: a message, and the flag \<open>gbStop\<close> that ends the main loop.\<close>

definition LastMethod :: "os \<Rightarrow> moment \<Rightarrow> signal \<Rightarrow> bool \<times> CLog \<Rightarrow> (bool \<times> CLog) option" where
  "LastMethod os now sig = (\<lambda>(gbStop, L).
     let szText = signal_text sig
     in map_option (\<lambda>(_, L). (True, L))
          (CLog_Print os now LOG_ERROR (''signal'' @ (if szText \<noteq> [] then ''-'' else []) @ szText @ ''('' @ show_int (signal_no sig) @
             '') is received. terminated'') L))"

subsection \<open>The process\<close>

text \<open>SipPlatform/ServerUtility.cpp. What the functions change of the process.\<close>

record proc =
  pr_session_leader :: bool
  pr_hup :: disposition
  pr_cwd :: string
  pr_uid :: int
  pr_dumpable :: bool

definition SetCoreDumpEnable :: "proc \<Rightarrow> proc" where
  "SetCoreDumpEnable P = P\<lparr>pr_dumpable := True\<rparr>"

text \<open>\<open>fork1\<close> and \<open>fork2\<close> are the results of the two calls in the process that goes on here: 0 in a child, the
  child in its parent, -1 on an error. The result is the exit status of a process that ends, or the process
  that continues; the child of a session leader is none.\<close>

definition Fork :: "bool \<Rightarrow> int \<Rightarrow> int \<Rightarrow> bool \<Rightarrow> proc \<Rightarrow> int + bool \<times> proc" where
  "Fork bIsFork fork1 fork2 chdir_ok P =
     (if \<not> bIsFork then Inr (True, P)
      else if fork1 \<noteq> 0 then Inl 0
      else let P = P\<lparr>pr_session_leader := True, pr_hup := Ignore\<rparr>
           in if fork2 \<noteq> 0 then Inl 1
              else Inr (True, P\<lparr>pr_session_leader := False, pr_cwd := (if chdir_ok then ''/tmp'' else pr_cwd P)\<rparr>))"

text \<open>The user database, and whether \<open>setuid\<close> and \<open>chdir\<close> succeed, are parameters; \<open>err\<close> is the number and the
  text of \<open>errno\<close> in the messages.\<close>

definition ChangeExecuteUser ::
    "(cstring \<Rightarrow> (int \<times> cstring option) option) \<Rightarrow> (int \<Rightarrow> bool) \<Rightarrow> (cstring \<Rightarrow> bool) \<Rightarrow> string \<Rightarrow> cstring \<Rightarrow> proc \<Rightarrow>
     (bool \<times> log_event list) \<times> proc" where
  "ChangeExecuteUser getpwnam setuid chdir err pszUserId P =
     (case getpwnam pszUserId of
        None \<Rightarrow> ((False, [(LOG_ERROR, ''getpwnam('' @ pszUserId @ '') error('' @ err)]), P)
      | Some (pw_uid, pw_dir) \<Rightarrow>
          if \<not> setuid pw_uid then ((False, [(LOG_ERROR, ''seteuid('' @ pszUserId @ '') error('' @ err)]), P)
          else let P = P\<lparr>pr_uid := pw_uid\<rparr>
               in ((True, []), case pw_dir of None \<Rightarrow> P
                   | Some d \<Rightarrow> (if chdir d then P\<lparr>pr_cwd := d\<rparr> else P)\<lparr>pr_dumpable := True\<rparr>))"

text \<open>\<open>n\<close> is the result of \<open>pthread_create\<close>; the thread is detached.\<close>

definition StartThread :: "int \<Rightarrow> bool" where
  "StartThread n \<longleftrightarrow> n = 0"

text \<open>The process that continues after \<open>Fork\<close> cannot get a terminal back and ignores the hang-up of the old one.\<close>

lemma Fork_continues:
  "Fork True f1 f2 cd P = Inr (b, Q) \<Longrightarrow> f1 = 0 \<and> f2 = 0 \<and> b \<and> \<not> pr_session_leader Q \<and> pr_hup Q = Ignore \<and> pr_uid Q = pr_uid P"
  by (auto simp: Fork_def Let_def split: if_splits)

text \<open>A user change that fails leaves the process as it was.\<close>

lemma ChangeExecuteUser_fails: "ChangeExecuteUser pw su cd err u P = ((False, evs), Q) \<Longrightarrow> Q = P \<and> length evs = 1"
  by (auto simp: ChangeExecuteUser_def Let_def split: option.splits if_splits)

subsection \<open>The service\<close>

definition CONFIG_FILENAME :: cstring where
  "CONFIG_FILENAME = ''MySQLSlaveOverWatcher.xml''"

definition Service_read :: "os \<Rightarrow> (nat \<Rightarrow> nat \<Rightarrow> moment) \<Rightarrow> config_files \<Rightarrow> CServerService \<Rightarrow> SlaveSetup \<times> CLog \<Rightarrow> (bool \<times> SlaveSetup \<times> CLog) option" where
  "Service_read os nows fs gclsService SL =
     (case Setup_Read_file os (nows 0) fs (GetConfigFileName gclsService) SL of None \<Rightarrow> None
      | Some (True, SL) \<Rightarrow> Some (True, SL)
      | Some (False, SL) \<Rightarrow> Setup_Read_file os (nows 1) fs CONFIG_FILENAME SL)"

text \<open>The first check, before the loop.\<close>

definition Service_first :: "libmysql \<Rightarrow> SlaveSetup \<Rightarrow> CLog \<Rightarrow> watcher option" where
  "Service_first env S L =
     (let (_, clsDB) = Connect env (cstr (su_strDbHost S)) (cstr (su_strDbUserId S)) (cstr (su_strDbPassWord S)) [] (su_iDbPort S)
            None CDbMySQLConnection_new
      in map_option (\<lambda>(_, clsDB). \<lparr>w_iSecond = 0, w_clsDB = clsDB, w_clsSetup = S, w_log = L\<rparr>) (CheckSlave env clsDB))"

text \<open>The loop: \<open>stops k\<close> is \<open>gbStop\<close> before round \<open>k\<close>, \<open>files k\<close> the file system and \<open>nows k\<close> the clock in it.\<close>

partial_function (option) Watch_loop ::
    "libmysql \<Rightarrow> os \<Rightarrow> (nat \<Rightarrow> bool) \<Rightarrow> (nat \<Rightarrow> nat \<Rightarrow> moment) \<Rightarrow> (nat \<Rightarrow> config_files) \<Rightarrow> nat \<Rightarrow> watcher \<Rightarrow> watcher option" where
  [code]: "Watch_loop env os stops nows files k W =
     (if stops k then Some W
      else let r = Watch_second env os (nows k) (files k) W
           in if r = None then None else Watch_loop env os stops nows files (Suc k) (the r))"

text \<open>\<open>ServiceMain\<close>: the result and the settings and log at its end. The version and the build date are
  in \<open>banner\<close>.\<close>

definition ServiceMain ::
    "libmysql \<Rightarrow> os \<Rightarrow> (nat \<Rightarrow> bool) \<Rightarrow> (nat \<Rightarrow> nat \<Rightarrow> moment) \<Rightarrow> (nat \<Rightarrow> config_files) \<Rightarrow> string \<Rightarrow>
     CServerService \<Rightarrow> SlaveSetup \<times> CLog \<Rightarrow> (int \<times> SlaveSetup \<times> CLog) option" where
  "ServiceMain env os stops nows files banner gclsService SL =
     (case Service_read os nows (files 0) gclsService SL of None \<Rightarrow> None
      | Some (False, S, L) \<Rightarrow>
          Some (- 1, S, L\<lparr>log_stdout := log_stdout L @ [''config filename('' @ GetConfigFileName gclsService @ '') read error'' @ [LF]]\<rparr>)
      | Some (True, S, L) \<Rightarrow>
          (case CLog_events os (nows 2) [(LOG_SYSTEM, ''MySQLSlaveOverWatcher is started ( version-'' @ banner @ '' )'')] L of None \<Rightarrow> None
           | Some L \<Rightarrow>
             (case Service_first env S L of None \<Rightarrow> None
              | Some W \<Rightarrow>
                (case Watch_loop env os stops (\<lambda>k. nows (k + 3)) files 0 W of None \<Rightarrow> None
                 | Some W \<Rightarrow> map_option (\<lambda>L. (0, w_clsSetup W, CLog_Release L))
                     (CLog_events os (\<lambda>_. nows 2 1) [(LOG_SYSTEM, ''MySQLSlaveOverWatcher is terminated'')] (w_log W))))))"

text \<open>\<open>main\<close>: the flag \<open>gbFork\<close> and the run of the service; the process always returns 0.\<close>

definition Watcher_main where
  "Watcher_main argv name display desc version buildDate buildTime pFunc w =
     (let clsService = SetBuildDate buildDate buildTime \<lparr>sv_strName = name, sv_strDisplayName = display, sv_strDescription = desc,
            sv_strVersion = version, sv_strConfigFileName = CONFIG_FILENAME, sv_strBuildDate = []\<rparr>;
          gbFork = \<not> (length argv = 3 \<and> argv ! 2 = ''-n'')
      in map_option (\<lambda>((_, outs), w). (0 :: int, gbFork, outs, w)) (ServerMain argv clsService pFunc w))"

text \<open>A service that cannot read its settings fails, and \<open>ServerMain\<close> reports success.\<close>

lemma server_main_ignores_failure:
  "length argv = 2 \<Longrightarrow> argv ! 1 \<noteq> ''-h'' \<Longrightarrow> argv ! 1 \<noteq> ''-v'' \<Longrightarrow> ServerMain argv S (\<lambda>_ w. Some (- 1, w)) w = Some ((0, []), w)"
  by (simp add: ServerMain_def Let_def)

subsection \<open>The end of the loop\<close>

text \<open>The watcher after \<open>k\<close> rounds.\<close>

primrec Watch_rounds where
  "Watch_rounds env os nows files 0 W = Some W"
| "Watch_rounds env os nows files (Suc k) W =
     (case Watch_rounds env os nows files k W of None \<Rightarrow> None | Some W \<Rightarrow> Watch_second env os (nows k) (files k) W)"

lemma Watch_rounds_prefix:
  "Watch_rounds env os nows files (k + d) W = Some W' \<Longrightarrow> \<exists>Wk. Watch_rounds env os nows files k W = Some Wk"
  by (induction d arbitrary: W') (auto split: option.splits)

lemma Watch_loop_rounds:
  assumes "\<And>j. j < n \<Longrightarrow> \<not> stops j" and "stops n" and "Watch_rounds env os nows files n W = Some Wn"
    and "k \<le> n" and "Watch_rounds env os nows files k W = Some Wk"
  shows "Watch_loop env os stops nows files k Wk = Some Wn"
  using assms(4,5)
proof (induction arbitrary: Wk rule: inc_induct)
  case base
  then show ?case using assms(2,3) by (simp add: Watch_loop.simps)
next
  case (step k)
  have "Suc k + (n - Suc k) = n" using step.hyps(2) by simp
  then obtain W' where "Watch_rounds env os nows files (Suc k) W = Some W'"
    using Watch_rounds_prefix [of env os nows files "Suc k" "n - Suc k" W] assms(3) by auto
  then have W': "Watch_second env os (nows k) (files k) Wk = Some W'" using step.prems by simp
  then have "Watch_rounds env os nows files (Suc k) W = Some W'" using step.prems by simp
  from step.IH [OF this] show ?case
    using assms(1) [OF step.hyps(2)] W' by (subst Watch_loop.simps) (simp add: Let_def)
qed

end
