(* ===== verification/WindowsService.thy ===== *)
theory WindowsService
  imports ServerRun "HOL-Library.Multiset"
begin

text \<open>
  ServerPlatform on Windows: the state of a service and its handler (ServerService.cpp), its installation
  (InstallService.cpp), and the Windows branch of ServerMain.cpp. The service manager is a parameter: \<open>scm\<close> answers
  each call as a function of all calls made so far, newest first (0 is NULL or FALSE).
\<close>

subsection \<open>The running service\<close>

definition SERVICE_STOPPED :: int where "SERVICE_STOPPED = 1"
definition SERVICE_START_PENDING :: int where "SERVICE_START_PENDING = 2"
definition SERVICE_STOP_PENDING :: int where "SERVICE_STOP_PENDING = 3"
definition SERVICE_RUNNING :: int where "SERVICE_RUNNING = 4"

definition SERVICE_CONTROL_STOP :: int where "SERVICE_CONTROL_STOP = 1"
definition SERVICE_CONTROL_PAUSE :: int where "SERVICE_CONTROL_PAUSE = 2"
definition SERVICE_CONTROL_CONTINUE :: int where "SERVICE_CONTROL_CONTINUE = 3"
definition SERVICE_CONTROL_INTERROGATE :: int where "SERVICE_CONTROL_INTERROGATE = 4"
definition SERVICE_CONTROL_SHUTDOWN :: int where "SERVICE_CONTROL_SHUTDOWN = 5"

lemmas service_codes = SERVICE_STOPPED_def SERVICE_START_PENDING_def SERVICE_STOP_PENDING_def SERVICE_RUNNING_def
  SERVICE_CONTROL_STOP_def SERVICE_CONTROL_PAUSE_def SERVICE_CONTROL_CONTINUE_def SERVICE_CONTROL_INTERROGATE_def
  SERVICE_CONTROL_SHUTDOWN_def

text \<open>\<open>SERVICE_ACCEPT_STOP | SERVICE_ACCEPT_SHUTDOWN | SERVICE_ACCEPT_PAUSE_CONTINUE\<close>\<close>

definition accept_default :: int where "accept_default = 7"

text \<open>\<open>ws_reports\<close>: the states and accepted controls reported with \<open>SetServiceStatus\<close>.\<close>

record winservice =
  giNowState :: int
  ws_gbStop :: bool
  ws_reports :: "(int \<times> int) list"

definition winservice_new :: winservice where
  "winservice_new = \<lparr>giNowState = 0, ws_gbStop = False, ws_reports = []\<rparr>"

definition ServiceSetStatus :: "int \<Rightarrow> int \<Rightarrow> winservice \<Rightarrow> winservice" where
  "ServiceSetStatus dwState dwAccept s = s\<lparr>giNowState := dwState, ws_reports := ws_reports s @ [(dwState, dwAccept)]\<rparr>"

definition ServiceHandler :: "int \<Rightarrow> winservice \<Rightarrow> winservice" where
  "ServiceHandler fdwControl s =
     (if fdwControl = giNowState s then s
      else if fdwControl = SERVICE_CONTROL_PAUSE \<or> fdwControl = SERVICE_CONTROL_CONTINUE then s
      else if fdwControl = SERVICE_CONTROL_STOP \<or> fdwControl = SERVICE_CONTROL_SHUTDOWN
      then (ServiceSetStatus SERVICE_STOP_PENDING 0 s)\<lparr>ws_gbStop := True\<rparr>
      else ServiceSetStatus (giNowState s) accept_default s)"

text \<open>\<open>func\<close>: the function of the service, during which the handler runs.\<close>

definition ServiceMain_win :: "bool \<Rightarrow> (winservice \<Rightarrow> winservice option) \<Rightarrow> winservice \<Rightarrow> winservice option" where
  "ServiceMain_win registered func s =
     (if \<not> registered then Some s
      else map_option (ServiceSetStatus SERVICE_STOPPED accept_default)
        (func (ServiceSetStatus SERVICE_RUNNING accept_default (ServiceSetStatus SERVICE_START_PENDING accept_default s))))"

definition GetConfigFileName_win :: "cstring \<Rightarrow> CServerService \<Rightarrow> cstring" where
  "GetConfigFileName_win programDir gclsService =
     (let s = sv_strConfigFileName gclsService
      in if length s > 3 \<and> take 2 (cstr (drop 1 s)) = [CHR 0x3A, CHR 0x5C] then cstr s
         else snprintf_buf 1024 (programDir @ [CHR 0x5C] @ cstr s))"

subsection \<open>Installation\<close>

datatype scm_call = SC_OpenManager | SC_OpenService nat cstring | SC_Create nat cstring cstring cstring
  | SC_Describe nat cstring | SC_Query nat | SC_Control nat | SC_Sleep nat | SC_Delete nat | SC_Close nat

type_synonym scm = "scm_call list \<Rightarrow> nat"

record winsys =
  sc_calls :: "scm_call list"
  sc_out :: "string list"

definition winsys_new :: winsys where "winsys_new = \<lparr>sc_calls = [], sc_out = []\<rparr>"

definition sc :: "scm_call \<Rightarrow> scm \<Rightarrow> winsys \<Rightarrow> nat \<times> winsys" where
  "sc k env S = (env (k # sc_calls S), S\<lparr>sc_calls := k # sc_calls S\<rparr>)"

definition scv :: "scm_call \<Rightarrow> winsys \<Rightarrow> winsys" where
  "scv k S = S\<lparr>sc_calls := k # sc_calls S\<rparr>"

definition print_line :: "string \<Rightarrow> winsys \<Rightarrow> winsys" where
  "print_line s S = S\<lparr>sc_out := sc_out S @ [s @ [LF]]\<rparr>"

definition IsExistService :: "scm \<Rightarrow> CServerService \<Rightarrow> winsys \<Rightarrow> bool \<times> winsys" where
  "IsExistService env gclsService S =
     (let (hScm, S) = sc SC_OpenManager env S
      in if hScm = 0 then (False, S)
         else let (hSrv, S) = sc (SC_OpenService hScm (cstr (sv_strName gclsService))) env S;
                  S = (if hSrv \<noteq> 0 then scv (SC_Close hSrv) S else S)
              in (hSrv \<noteq> 0, scv (SC_Close hScm) S))"

definition InstallService :: "scm \<Rightarrow> cstring \<Rightarrow> CServerService \<Rightarrow> winsys \<Rightarrow> bool \<times> winsys" where
  "InstallService env SrvPath gclsService S =
     (let (b, S) = IsExistService env gclsService S; name = cstr (sv_strName gclsService)
      in if b then (False, print_line (name @ '' is already installed.'') S)
         else let (hScm, S) = sc SC_OpenManager env S
         in if hScm = 0 then (False, print_line ''Can not open SCM. Start dos with administrator authority'' S)
         else let (hSrv, S) = sc (SC_Create hScm name (cstr (sv_strDisplayName gclsService)) SrvPath) env S;
                  S = (if hSrv = 0 then print_line ''Install is failed.'' S
                       else scv (SC_Close hSrv) (print_line ''Installed.''
                              (scv (SC_Describe hSrv (cstr (sv_strDescription gclsService))) S)))
              in (True, scv (SC_Close hScm) S))"

text \<open>The state that \<open>QueryServiceStatus\<close> leaves in \<open>ss\<close> is its answer, whether or not the call succeeds.\<close>

definition UninstallService :: "scm \<Rightarrow> CServerService \<Rightarrow> winsys \<Rightarrow> bool \<times> winsys" where
  "UninstallService env gclsService S =
     (let (hScm, S) = sc SC_OpenManager env S
      in if hScm = 0 then (False, print_line ''Can not open SCM.'' S)
         else let (hSrv, S) = sc (SC_OpenService hScm (cstr (sv_strName gclsService))) env S
         in if hSrv = 0 then (False, print_line (cstr (sv_strName gclsService) @ '' is not installed.'') (scv (SC_Close hScm) S))
         else let (dwCurrentState, S) = sc (SC_Query hSrv) env S;
                  S = (if int dwCurrentState \<noteq> SERVICE_STOPPED then scv (SC_Sleep 2000) (scv (SC_Control hSrv) S) else S);
                  (d, S) = sc (SC_Delete hSrv) env S;
                  S = print_line (if d \<noteq> 0 then ''Service is deleted.'' else ''Deleting service is failed.'') S
              in (True, scv (SC_Close hScm) (scv (SC_Close hSrv) S)))"

text \<open>\<open>ServerMain\<close> on Windows. \<open>start\<close> is what the system does in \<open>StartServiceCtrlDispatcher\<close>, with \<open>ServiceMain\<close>.\<close>

definition ServerMain_win ::
    "scm \<Rightarrow> (cstring \<Rightarrow> bool) \<Rightarrow> cstring \<Rightarrow> cstring \<Rightarrow> cstring list \<Rightarrow> CServerService \<Rightarrow> (CServerService \<Rightarrow> 'w \<Rightarrow> 'w option) \<Rightarrow>
     (CServerService \<Rightarrow> 'w \<Rightarrow> (int \<times> 'w) option) \<Rightarrow> winsys \<times> 'w \<Rightarrow> (int \<times> winsys \<times> 'w) option" where
  "ServerMain_win env exists programDir SrvPath argv clsService start pFunc = (\<lambda>(S, w).
     let gclsService = clsService
     in if length argv = 1
        then let pszConfigFileName = GetConfigFileName_win programDir gclsService
             in if \<not> exists pszConfigFileName
                then Some (- 1, S\<lparr>sc_out := sc_out S @ [''setup file('' @ pszConfigFileName @ '') is not exist'']\<rparr>, w)
                else map_option (\<lambda>w. (0, S, w)) (start gclsService w)
        else let gclsService = gclsService\<lparr>sv_strConfigFileName := argv ! 1\<rparr>
        in if argv ! 1 = ''-h'' \<or> argv ! 1 = ''-v''
           then Some (0, foldl (\<lambda>S s. print_line s S) S
                  [hd argv @ '' version-'' @ cstr (sv_strVersion gclsService) @ '' ( build '' @ cstr (sv_strBuildDate gclsService) @ '' )'',
                   ''[Usage] '' @ hd argv @ '' {config filename}'',
                   ''        '' @ hd argv @ '' -i : install service'',
                   ''        '' @ hd argv @ '' -u : uninstall service''], w)
        else if argv ! 1 = ''-i'' then Some (0, snd (InstallService env SrvPath gclsService S), w)
        else if argv ! 1 = ''-u'' then Some (0, snd (UninstallService env gclsService S), w)
        else map_option (\<lambda>(_, w). (0, S, w)) (pFunc gclsService w))"

subsection \<open>Properties\<close>

text \<open>The open handles after the calls; \<open>None\<close> after a call with a handle that is not open.\<close>

fun sc_uses :: "scm_call \<Rightarrow> nat multiset" where
  "sc_uses SC_OpenManager = {#}"
| "sc_uses (SC_OpenService h n) = {#h#}"
| "sc_uses (SC_Create h n d p) = {#h#}"
| "sc_uses (SC_Describe h d) = {#h#}"
| "sc_uses (SC_Query h) = {#h#}"
| "sc_uses (SC_Control h) = {#h#}"
| "sc_uses (SC_Sleep n) = {#}"
| "sc_uses (SC_Delete h) = {#h#}"
| "sc_uses (SC_Close h) = {#h#}"

fun sc_after :: "nat \<Rightarrow> scm_call \<Rightarrow> nat multiset \<Rightarrow> nat multiset" where
  "sc_after r (SC_Close h) H = H - {#h#}"
| "sc_after r SC_OpenManager H = (if r = 0 then H else add_mset r H)"
| "sc_after r (SC_OpenService h n) H = (if r = 0 then H else add_mset r H)"
| "sc_after r (SC_Create h n d p) H = (if r = 0 then H else add_mset r H)"
| "sc_after r _ H = H"

primrec handles :: "scm \<Rightarrow> scm_call list \<Rightarrow> nat multiset option" where
  "handles env [] = Some {#}"
| "handles env (k # t) = (case handles env t of None \<Rightarrow> None
     | Some H \<Rightarrow> if sc_uses k \<subseteq># H then Some (sc_after (env (k # t)) k H) else None)"

lemmas install_defs = IsExistService_def InstallService_def UninstallService_def sc_def scv_def print_line_def

lemma IsExistService_handles:
  "handles env (sc_calls S) = Some H \<Longrightarrow> handles env (sc_calls (snd (IsExistService env g S))) = Some H"
  by (simp add: install_defs Let_def)

lemma InstallService_handles:
  "handles env (sc_calls S) = Some H \<Longrightarrow> handles env (sc_calls (snd (InstallService env p g S))) = Some H"
  using IsExistService_handles [of env S H g] by (simp add: InstallService_def sc_def scv_def print_line_def Let_def case_prod_beta)

lemma UninstallService_handles:
  "handles env (sc_calls S) = Some H \<Longrightarrow> handles env (sc_calls (snd (UninstallService env g S))) = Some H"
  by (simp add: UninstallService_def sc_def scv_def print_line_def Let_def)

text \<open>Installing and removing the service only use handles that are open, and close every handle that they opened, whatever
  the service manager answers.\<close>

theorem service_handles_closed:
  "handles env (sc_calls (snd (InstallService env p g winsys_new))) = Some {#} \<and>
   handles env (sc_calls (snd (UninstallService env g winsys_new))) = Some {#}"
  by (simp add: InstallService_handles UninstallService_handles winsys_new_def)

text \<open>Both report success when the service manager refuses.\<close>

lemma install_reports_success:
  "fst (InstallService (\<lambda>t. case hd t of SC_OpenManager \<Rightarrow> 1 | _ \<Rightarrow> 0) p g S)"
  by (simp add: install_defs Let_def)

lemma uninstall_reports_success:
  "fst (UninstallService (\<lambda>t. case hd t of SC_OpenManager \<Rightarrow> 1 | SC_OpenService _ _ \<Rightarrow> 2 | _ \<Rightarrow> 0) g S)"
  by (simp add: install_defs Let_def)

definition running :: winservice where
  "running = ServiceSetStatus SERVICE_RUNNING accept_default (ServiceSetStatus SERVICE_START_PENDING accept_default winservice_new)"

text \<open>C22: The service hears a stop. After any sequence of controls that it receives while it runs, \<open>gbStop\<close> is set exactly if a
  stop or a shutdown was among them, and the state it reports is the stop that is pending exactly then. An
  interrogation is not answered while it runs, because its number is that of the state.\<close>

theorem service_hears_stop:
  "let s = fold ServiceHandler cs running in
     (ws_gbStop s \<longleftrightarrow> SERVICE_CONTROL_STOP \<in> set cs \<or> SERVICE_CONTROL_SHUTDOWN \<in> set cs) \<and>
     giNowState s = (if ws_gbStop s then SERVICE_STOP_PENDING else SERVICE_RUNNING) \<and>
     fst (last (ws_reports s)) = giNowState s \<and>
     ServiceHandler SERVICE_CONTROL_INTERROGATE running = running"
proof (induction cs rule: rev_induct)
  case Nil
  show ?case by (simp add: running_def ServiceSetStatus_def winservice_new_def ServiceHandler_def service_codes)
next
  case (snoc c cs)
  then show ?case by (auto simp: Let_def ServiceHandler_def ServiceSetStatus_def service_codes split: if_splits)
qed

end
