(* ===== verification/SlaveSpec.thy ===== *)
theory SlaveSpec
  imports SlaveWatch
begin

text \<open>
  What a check of the slave does, for every behaviour of the server: rounds that skip a statement, and a
  last round. The loop of \<open>CheckSlave\<close> is compared with an inductive description of its runs.
\<close>

subsection \<open>Statements of one text\<close>

text \<open>Calls that send no other statement than \<open>q\<close>.\<close>

definition only_sends :: "cstring \<Rightarrow> conn \<Rightarrow> conn \<Rightarrow> bool" where
  "only_sends q c c' \<longleftrightarrow> (\<exists>new. calls c' = new @ calls c \<and> (\<forall>q'. q' \<noteq> q \<longrightarrow> C_query q' \<notin> set new))"

lemma only_sends_refl [simp]: "only_sends q c c"
  by (auto simp: only_sends_def)

lemma only_sends_trans: "only_sends q a b \<Longrightarrow> only_sends q b c \<Longrightarrow> only_sends q a c"
  by (fastforce simp: only_sends_def)

lemma quiet_only_sends: "quiet c c' \<Longrightarrow> only_sends q c c'"
  by (auto simp: quiet_def only_sends_def)

lemma only_sends_log [simp]: "only_sends q c (log_print l s d) = only_sends q c d"
  by (simp add: only_sends_def)

lemma only_sends_query: "only_sends q c (libv (C_query q) c)"
  by (auto simp: only_sends_def)

lemma only_sends_acks:
  assumes "only_sends q c c'" and "q' \<noteq> q"
  shows "acks env q' (calls c') = acks env q' (calls c)"
proof -
  obtain new where n: "calls c' = new @ calls c" "C_query q' \<notin> set new" using assms by (auto simp: only_sends_def)
  from n(2) have "acks env q' (new @ calls c) = acks env q' (calls c)" by (induction new) auto
  with n show ?thesis by simp
qed

lemma quiet_step: "quiet c (libv C_errno c)" "quiet c (libv C_error c)" "quiet c (log_print l s c)"
  by (auto simp: quiet_def)

lemma Query_loop_only: "Query_loop env q k m c = (b, c') \<Longrightarrow> only_sends q c c'"
proof (induction m arbitrary: k c)
  case (Suc m)
  let ?c1 = "libv (C_query q) c"
  let ?c2 = "libv C_errno ?c1"
  have 2: "only_sends q c ?c2" "only_sends q c ?c1"
    using only_sends_trans [OF only_sends_query quiet_only_sends [OF quiet_step(1)]] only_sends_query by blast+
  obtain b1 c3 where C: "Connect0 env (Close ?c2) = (b1, c3)" by fastforce
  have "quiet ?c2 c3" using quiet_trans [OF quiet_Close quiet_Connect0] C by (metis snd_conv)
  then have 3: "only_sends q c c3" using 2(1) quiet_only_sends only_sends_trans by blast
  have "Query_loop env q 1 m c3 = (b, c') \<or> (\<exists>d \<in> {c, ?c1, ?c2, c3}. quiet d c')"
    using Suc.prems C by (auto simp: lib_eq lib_text_eq Let_def quiet_def split: if_splits)
  then show ?case
  proof
    assume "Query_loop env q 1 m c3 = (b, c')"
    then show ?thesis using Suc.IH 3 only_sends_trans by blast
  next
    assume "\<exists>d \<in> {c, ?c1, ?c2, c3}. quiet d c'"
    then show ?thesis using 2 3 quiet_only_sends only_sends_trans by blast
  qed
qed simp

lemma Query0_only: "only_sends q c (snd (Query0 env q c))"
proof -
  obtain b1 c1 where C: "Connect0 env c = (b1, c1)" by fastforce
  have 1: "only_sends q c c1" using quiet_only_sends [OF quiet_Connect0 [of c env]] C by simp
  have l: "only_sends q d (snd (Query_loop env q 0 2 d))" for d
    by (rule Query_loop_only) (rule surjective_pairing)
  show ?thesis using l [of c] only_sends_trans [OF 1 l] 1 by (simp add: Query0_def C)
qed

lemma Fetch_loop_quiet: "Fetch_loop env f d c = Some (d', c') \<Longrightarrow> quiet c c'"
proof -
  have "quiet c (snd r)" if "Fetch_loop env f d c = Some r" for r
    using that
  proof (rule Fetch_loop.raw_induct [rotated, where P = "\<lambda>env f d c r. quiet c (snd r)"])
    fix loop :: "libmysql \<Rightarrow> ('a \<Rightarrow> mysql_row \<Rightarrow> bool \<times> 'a) \<Rightarrow> 'a \<Rightarrow> conn \<Rightarrow> ('a \<times> conn) option"
    fix env f d c r
    assume IH: "\<And>env f d c r. loop env f d c = Some r \<Longrightarrow> quiet c (snd r)"
      and r: "(let c = libv C_fetch_row c; sttRow = rows env (calls c)
        in if sttRow = None then Some (d, c)
           else let (b, d) = f d (the sttRow) in if \<not> b then Some (d, c) else loop env f d c) = Some r"
    have row: "quiet c (libv C_fetch_row c)" by simp
    have "quiet c (snd r)" if "loop env f d' (libv C_fetch_row c) = Some r" for d'
      using row IH [OF that] by (rule quiet_trans)
    then show "quiet c (snd r)" using r row by (auto simp: Let_def split: if_splits prod.splits)
  qed
  then show "Fetch_loop env f d c = Some (d', c') \<Longrightarrow> quiet c c'" by fastforce
qed

lemma Query_only: "Query env q d f c = Some (r, c') \<Longrightarrow> only_sends q c c'"
proof -
  assume Q: "Query env q d f c = Some (r, c')"
  obtain b c1 where q: "Query0 env q c = (b, c1)" by fastforce
  have "quiet c1 c'"
  proof (cases b)
    case False
    then show ?thesis using Q q by (simp add: Query_def)
  next
    case True
    show ?thesis
    proof (cases "rc env (C_use_result # calls c1) = 0")
      case True
      then show ?thesis using Q q \<open>b\<close> by (auto simp: Query_def lib_eq lib_text_eq Let_def quiet_def)
    next
      case False
      then obtain d2 c2 where "Fetch_loop env f d (libv C_use_result c1) = Some (d2, c2)" "c' = libv C_free_result c2"
        using Q q \<open>b\<close> by (auto simp: Query_def lib_eq)
      then have "quiet (libv C_use_result c1) c2" "quiet c2 c'" using Fetch_loop_quiet by auto
      then show ?thesis using quiet_trans [of c1 "libv C_use_result c1"] quiet_trans by fastforce
    qed
  qed
  then show ?thesis using Query0_only [of q c env] q quiet_only_sends only_sends_trans by fastforce
qed

subsection \<open>Rounds\<close>

text \<open>What a round is, without the functions of the watcher: the columns of the status that count, when a
  status says that the slave does not run, and which statements are sent, in which order.\<close>

definition says_no :: "string \<Rightarrow> bool" where
  "says_no s \<longleftrightarrow> s = ''No'' \<or> s = ''NO'' \<or> s = ''no'' \<or> s = ''nO''"

definition stopped :: "CSlaveStatus \<Rightarrow> bool" where
  "stopped st \<longleftrightarrow> says_no (m_strSlaveIORunning st) \<or> says_no (m_strSlaveSQLRunning st)"

definition column :: "mysql_row \<Rightarrow> nat \<Rightarrow> cstring \<Rightarrow> cstring" where
  "column r i old = (if i < length r \<and> r ! i \<noteq> None then the (r ! i) else old)"

definition seen :: "CSlaveStatus \<Rightarrow> mysql_row \<Rightarrow> bool \<times> CSlaveStatus" where
  "seen st r = (True, st\<lparr>
     m_strSlaveIORunning := column r 10 (m_strSlaveIORunning st),
     m_strSlaveSQLRunning := column r 11 (m_strSlaveSQLRunning st),
     m_iLastErrNo := (if 18 < length r \<and> r ! 18 \<noteq> None then atoi (the (r ! 18)) else m_iLastErrNo st),
     m_strLastError := column r 19 (m_strLastError st)\<rparr>)"

abbreviation status_query :: "libmysql \<Rightarrow> conn \<Rightarrow> ((bool \<times> CSlaveStatus) \<times> conn) option" where
  "status_query env c \<equiv> Query env ''SHOW SLAVE STATUS''
     \<lparr>m_strSlaveIORunning = [], m_strSlaveSQLRunning = [], m_iLastErrNo = 0, m_strLastError = []\<rparr> seen c"

text \<open>Complete rounds: the status says no, and three statements are sent, of which the last succeeds; the results
  of the first two do not count.\<close>

inductive slave_rounds :: "libmysql \<Rightarrow> nat \<Rightarrow> conn \<Rightarrow> conn \<Rightarrow> bool" for env where
  sr_none: "slave_rounds env 0 c c"
| sr_round: "status_query env c = Some ((b, st), c1) \<Longrightarrow> stopped st \<Longrightarrow>
    Execute env ''STOP SLAVE'' (log_status LOG_ERROR st c1) = (b1, c2) \<Longrightarrow>
    Execute env ''SET GLOBAL SQL_SLAVE_SKIP_COUNTER = 1'' c2 = (b2, c3) \<Longrightarrow>
    Execute env ''START SLAVE'' c3 = (True, c4) \<Longrightarrow>
    slave_rounds env k c4 c' \<Longrightarrow> slave_rounds env (Suc k) c c'"

text \<open>The last round: the status does not say no (\<open>refused\<close> is false), or START SLAVE fails.\<close>

inductive slave_last :: "libmysql \<Rightarrow> bool \<Rightarrow> conn \<Rightarrow> conn \<Rightarrow> bool" for env where
  sl_runs: "status_query env c = Some ((b, st), c1) \<Longrightarrow> \<not> stopped st \<Longrightarrow>
    slave_last env False c (log_status LOG_DEBUG st c1)"
| sl_refused: "status_query env c = Some ((b, st), c1) \<Longrightarrow> stopped st \<Longrightarrow>
    Execute env ''STOP SLAVE'' (log_status LOG_ERROR st c1) = (b1, c2) \<Longrightarrow>
    Execute env ''SET GLOBAL SQL_SLAVE_SKIP_COUNTER = 1'' c2 = (b2, c3) \<Longrightarrow>
    Execute env ''START SLAVE'' c3 = (False, c4) \<Longrightarrow> slave_last env True c c4"

inductive_cases slave_rounds_zeroE [elim!]: "slave_rounds env 0 c c'"
inductive_cases slave_rounds_SucE: "slave_rounds env (Suc k) c c'"

text \<open>The definitions of the watcher do this.\<close>

lemma tolower_char:
  fixes k :: nat
  assumes "97 \<le> k" and "k \<le> 122"
  shows "tolower_c c = char_of k \<longleftrightarrow> c = char_of k \<or> c = char_of (k - 32)"
proof -
  define n where "n = (of_char c :: nat)"
  have c: "c = char_of n" by (simp add: n_def)
  have n: "n < 256" using of_char_less_256 by (simp add: n_def)
  have e: "char_of a = char_of b \<longleftrightarrow> a = b" if "a < 256" "b < 256" for a b :: nat
    using that by (metis of_char_of mod_less)
  show ?thesis
    unfolding tolower_c_def n_def [symmetric] c using assms n by (auto simp: e)
qed

lemma tolower_No: "map tolower_c s = ''no'' \<longleftrightarrow> says_no s"
proof -
  have n: "tolower_c c = CHR ''n'' \<longleftrightarrow> c = CHR ''n'' \<or> c = CHR ''N''" "tolower_c c = CHR ''o'' \<longleftrightarrow> c = CHR ''o'' \<or> c = CHR ''O''" for c
  proof -
    have v: "char_of (110 :: nat) = CHR ''n''" "char_of (111 :: nat) = CHR ''o''"
      "char_of (110 - 32 :: nat) = CHR ''N''" "char_of (111 - 32 :: nat) = CHR ''O''" by code_simp+
    show "tolower_c c = CHR ''n'' \<longleftrightarrow> c = CHR ''n'' \<or> c = CHR ''N''"
      using tolower_char [of 110 c, unfolded v] by simp
    show "tolower_c c = CHR ''o'' \<longleftrightarrow> c = CHR ''o'' \<or> c = CHR ''O''"
      using tolower_char [of 111 c, unfolded v] by simp
  qed
  show ?thesis by (auto simp: says_no_def map_eq_Cons_conv n)
qed

lemma running_stopped: "running st \<longleftrightarrow> \<not> stopped st"
proof -
  have "map tolower_c ''No'' = ''no''" by code_simp
  then show ?thesis by (simp add: running_def stopped_def strcasecmp_eq_def tolower_No)
qed

lemma FetchStatus_seen: "FetchStatus = seen"
proof (intro ext)
  fix st r
  show "FetchStatus st r = seen st r"
    unfolding FetchStatus_def seen_def prod.inject
    by (intro conjI refl CSlaveStatus.equality) (auto simp: status_cell_def column_def)
qed

lemma status_query_eq: "Query env ''SHOW SLAVE STATUS'' CSlaveStatus_new FetchStatus c = status_query env c"
  by (simp add: CSlaveStatus_new_def FetchStatus_seen)

lemma skip_statement_eq: "skip_statement env c = (b, c') \<longleftrightarrow> (\<exists>b1 c2 b2 c3. Execute env ''STOP SLAVE'' c = (b1, c2) \<and>
    Execute env ''SET GLOBAL SQL_SLAVE_SKIP_COUNTER = 1'' c2 = (b2, c3) \<and> Execute env ''START SLAVE'' c3 = (b, c'))"
  by (auto simp: skip_statement_def case_prod_beta) (metis prod.collapse)

lemma slave_last_loop: "slave_last env r c c' \<Longrightarrow> CheckSlave_loop env c = Some c'"
  by (cases rule: slave_last.cases, assumption)
    (subst CheckSlave_loop.simps, simp add: Let_def status_query_eq running_stopped skip_statement_def)+

lemma slave_rounds_loop:
  "slave_rounds env k c c1 \<Longrightarrow> slave_last env r c1 c' \<Longrightarrow> CheckSlave_loop env c = Some c'"
proof (induction rule: slave_rounds.induct)
  case (sr_none c)
  then show ?case by (rule slave_last_loop)
next
  case (sr_round c b st c1 b1 c2 b2 c3 c4 k c')
  then show ?case
    by (subst CheckSlave_loop.simps) (simp add: Let_def status_query_eq running_stopped skip_statement_def)
qed

lemma loop_slave_rounds:
  "CheckSlave_loop env c = Some c' \<Longrightarrow> \<exists>k c1 r. slave_rounds env k c c1 \<and> slave_last env r c1 c'"
proof (rule CheckSlave_loop.raw_induct [where P = "\<lambda>env c c'. \<exists>k c1 r. slave_rounds env k c c1 \<and> slave_last env r c1 c'"])
  fix loop env c c'
  assume IH: "\<And>env c c'. loop env c = Some c' \<Longrightarrow> \<exists>k c1 r. slave_rounds env k c c1 \<and> slave_last env r c1 c'"
    and r: "(let Q = Query env ''SHOW SLAVE STATUS'' CSlaveStatus_new FetchStatus c
      in if Q = None then None
         else let ((_, st), c) = the Q
              in if running st then Some (log_status LOG_DEBUG st c)
                 else let (ok, c) = skip_statement env (log_status LOG_ERROR st c)
                      in if \<not> ok then Some c else loop env c) = Some c'"
  obtain b st c1 where q: "Query env ''SHOW SLAVE STATUS'' CSlaveStatus_new FetchStatus c = Some ((b, st), c1)"
    using r by (auto simp: Let_def split: if_splits)
  note q' = q [unfolded status_query_eq]
  obtain ok c2 where s: "skip_statement env (log_status LOG_ERROR st c1) = (ok, c2)" by fastforce
  then obtain b1 d1 b2 d2 where x: "Execute env ''STOP SLAVE'' (log_status LOG_ERROR st c1) = (b1, d1)"
    "Execute env ''SET GLOBAL SQL_SLAVE_SKIP_COUNTER = 1'' d1 = (b2, d2)" "Execute env ''START SLAVE'' d2 = (ok, c2)"
    by (auto simp: skip_statement_eq)
  consider "running st" | "\<not> running st" "\<not> ok" | "\<not> running st" ok by blast
  then show "\<exists>k c1 r. slave_rounds env k c c1 \<and> slave_last env r c1 c'"
  proof cases
    case 1
    then have "slave_last env False c c'" using sl_runs [OF q'] r q by (simp add: Let_def running_stopped)
    then show ?thesis using sr_none by blast
  next
    case 2
    then have "slave_last env True c c2" "c' = c2"
      using sl_refused [OF q' _ x(1,2)] x(3) r q s by (simp_all add: Let_def running_stopped)
    then show ?thesis using sr_none by blast
  next
    case 3
    then have "loop env c2 = Some c'" using r q s by (simp add: Let_def)
    then obtain k c3 r where "slave_rounds env k c2 c3" "slave_last env r c3 c'" using IH by blast
    moreover from this(1) have "slave_rounds env (Suc k) c c3"
      using sr_round [OF q' _ x(1,2)] x(3) 3 by (simp add: running_stopped)
    ultimately show ?thesis by blast
  qed
qed

text \<open>A complete round is not a last one, so the number of rounds is determined.\<close>

lemma slave_rounds_unique:
  "slave_rounds env k c c1 \<Longrightarrow> slave_last env r c1 d \<Longrightarrow> slave_rounds env k' c c1' \<Longrightarrow> slave_last env r' c1' d' \<Longrightarrow>
    k = k' \<and> c1 = c1' \<and> r = r' \<and> d = d'"
proof (induction arbitrary: k' rule: slave_rounds.induct)
  case (sr_none c)
  then show ?case by (cases k') (auto elim!: slave_last.cases slave_rounds_SucE)
next
  case (sr_round c b st c1 b1 c2 b2 c3 c4 k c')
  show ?case
  proof (cases k')
    case 0
    then show ?thesis using sr_round.prems sr_round.hyps by (auto elim!: slave_last.cases)
  next
    case (Suc j)
    then have "slave_rounds env j c4 c1'" using sr_round.prems(2) sr_round.hyps by (auto elim!: slave_rounds_SucE)
    then show ?thesis using sr_round.IH [OF sr_round.prems(1) _ sr_round.prems(3)] Suc by simp
  qed
qed

text \<open>The acknowledged START SLAVE statements count the complete rounds.\<close>

abbreviation start_acks :: "libmysql \<Rightarrow> conn \<Rightarrow> nat" where
  "start_acks env c \<equiv> acks env ''START SLAVE'' (calls c)"

lemma start_acks_log [simp]: "start_acks env (log_status l st c) = start_acks env c" "start_acks env (log_print l s c) = start_acks env c"
  by (simp_all add: log_status_def log_print_def)

lemma start_acks_Query: "Query env ''SHOW SLAVE STATUS'' d f c = Some (r, c') \<Longrightarrow> start_acks env c' = start_acks env c"
  by (rule only_sends_acks [OF Query_only]) (assumption, simp)

lemma start_acks_other: "Execute env q c = (b, c') \<Longrightarrow> q \<noteq> ''START SLAVE'' \<Longrightarrow> start_acks env c' = start_acks env c"
  using only_sends_acks [OF Query0_only [of q c env]] by (simp add: Execute_def)

lemma start_acks_start: "Execute env ''START SLAVE'' c = (b, c') \<Longrightarrow> start_acks env c' = start_acks env c + of_bool b"
  using Query0_acks [of env "''START SLAVE''" c b c'] by (simp only: Execute_def)

lemma round_acks:
  assumes "status_query env c = Some (r, c1)" and "Execute env ''STOP SLAVE'' (log_status l st c1) = (b1, c2)"
    and "Execute env ''SET GLOBAL SQL_SLAVE_SKIP_COUNTER = 1'' c2 = (b2, c3)" and "Execute env ''START SLAVE'' c3 = (b, c4)"
  shows "start_acks env c4 = start_acks env c + of_bool b"
  using start_acks_Query [OF assms(1)] start_acks_other [OF assms(2)] start_acks_other [OF assms(3)] start_acks_start [OF assms(4)]
  by simp

lemma slave_rounds_acks: "slave_rounds env k c c' \<Longrightarrow> start_acks env c' = start_acks env c + k"
proof (induction rule: slave_rounds.induct)
  case (sr_round c b st c1 b1 c2 b2 c3 c4 k c')
  then show ?case using round_acks [OF sr_round.hyps(1,3,4,5)] by simp
qed simp

lemma slave_last_acks: "slave_last env r c c' \<Longrightarrow> start_acks env c' = start_acks env c"
proof (induction rule: slave_last.induct)
  case (sl_runs c b st c1)
  then show ?case using start_acks_Query by simp
next
  case (sl_refused c b st c1 b1 c2 b2 c3 c4)
  then show ?case using round_acks [OF sl_refused(1,3,4,5)] by simp
qed

text \<open>C17: A check of the slave returns exactly when, after some number of complete rounds, there is a last one.
  In a complete round the status (columns 10 and 11 of what SHOW SLAVE STATUS delivers, in any case of
  the letters) says No for the IO or the SQL thread, and STOP SLAVE, SET GLOBAL SQL_SLAVE_SKIP_COUNTER = 1 and START SLAVE are
  sent in this order, of which only the last must succeed. In the last round no thread says No, also when there is no
  status at all, or START SLAVE fails after the same three statements. The numbers of rounds and the kind of the last one are determined; the
  server has acknowledged START SLAVE exactly once per complete round. \<open>CheckSlave\<close> always returns true, also when
  START SLAVE failed, although its comment promises false for a failure.\<close>

theorem check_slave_skips:
  "CheckSlave env c = Some (b, c') \<longleftrightarrow>
    b \<and> (\<exists>!(k, r, c1, c2). slave_rounds env k (log_print LOG_DEBUG ''CheckSlave is started'' c) c1 \<and> slave_last env r c1 c2 \<and>
      c' = log_print LOG_DEBUG ''CheckSlave is terminated'' c2 \<and>
      acks env ''START SLAVE'' (calls c') = acks env ''START SLAVE'' (calls c) + k)"
  (is "?l \<longleftrightarrow> ?r")
proof
  assume ?l
  then obtain c2 where c2: "CheckSlave_loop env (log_print LOG_DEBUG ''CheckSlave is started'' c) = Some c2"
    "b" "c' = log_print LOG_DEBUG ''CheckSlave is terminated'' c2"
    by (auto simp: CheckSlave_def)
  from loop_slave_rounds [OF c2(1)] obtain k c1 r where
    1: "slave_rounds env k (log_print LOG_DEBUG ''CheckSlave is started'' c) c1" "slave_last env r c1 c2" by blast
  show ?r
    unfolding Ex1_def
  proof (intro conjI exI [of _ "(k, r, c1, c2)"])
    show b by (rule c2(2))
  next
    show "case (k, r, c1, c2) of (k, r, c1, c2) \<Rightarrow>
      slave_rounds env k (log_print LOG_DEBUG ''CheckSlave is started'' c) c1 \<and> slave_last env r c1 c2 \<and>
      c' = log_print LOG_DEBUG ''CheckSlave is terminated'' c2 \<and>
      acks env ''START SLAVE'' (calls c') = acks env ''START SLAVE'' (calls c) + k"
      using 1 c2(3) slave_rounds_acks [OF 1(1)] slave_last_acks [OF 1(2)] by simp
  next
    show "\<forall>y. (case y of (k, r, c1, c2) \<Rightarrow>
      slave_rounds env k (log_print LOG_DEBUG ''CheckSlave is started'' c) c1 \<and> slave_last env r c1 c2 \<and>
      c' = log_print LOG_DEBUG ''CheckSlave is terminated'' c2 \<and>
      acks env ''START SLAVE'' (calls c') = acks env ''START SLAVE'' (calls c) + k) \<longrightarrow> y = (k, r, c1, c2)"
      using slave_rounds_unique [OF 1] by auto
  qed
next
  assume ?r
  then obtain k r c1 c2 where b and "slave_rounds env k (log_print LOG_DEBUG ''CheckSlave is started'' c) c1"
    and "slave_last env r c1 c2" and "c' = log_print LOG_DEBUG ''CheckSlave is terminated'' c2" by blast
  then show ?l using slave_rounds_loop by (simp add: CheckSlave_def)
qed

end
