(* ===== verification/Sockets.thy ===== *)
theory Sockets
  imports LogLevel
begin

unbundle bit_operations_syntax

text \<open>
  SipPlatform/SipTcp.cpp and SipUdp.cpp (the branches for systems other than Windows): wrappers of the
  socket calls. The calls are a parameter: a \<open>net\<close> answers each of them as a function of all calls made
  so far (newest first, the call itself included), which is the state of these functions. A socket is an
  \<open>int\<close>, \<open>INVALID_SOCKET\<close> and \<open>SOCKET_ERROR\<close> are -1. The bytes of a received packet and the address of
  a peer are answers, too.
\<close>

datatype family = AF_INET | AF_INET6

text \<open>An address that was converted from text, any address, or bytes that were never written.\<close>

datatype net_addr = Addr string | Any_addr | Unset

datatype net_call =
    N_socket family bool | N_close int
  | N_getfl int | N_setfl int int
  | N_connect int family net_addr int | N_poll int int | N_getsockopt int
  | N_bind int family net_addr int | N_reuse int | N_listen int int | N_accept int
  | N_send int string | N_recv int int | N_sendto int string net_addr int | N_recvfrom int int
  | N_getsockname int | N_gethostbyname string | N_ifconf int | N_ifaddr int

record net =
  nrc :: "net_call list \<Rightarrow> int"
  nerrno :: "net_call list \<Rightarrow> int"
  nrevents :: "net_call list \<Rightarrow> bool"
  nbytes :: "net_call list \<Rightarrow> string"
  npeer :: "net_call list \<Rightarrow> string \<times> int"
  npton :: "family \<Rightarrow> string \<Rightarrow> bool"

type_synonym history = "net_call list"

abbreviation INVALID_SOCKET :: int where "INVALID_SOCKET \<equiv> - 1"
abbreviation SOCKET_ERROR :: int where "SOCKET_ERROR \<equiv> - 1"

definition sys :: "net \<Rightarrow> net_call \<Rightarrow> history \<Rightarrow> int \<times> history" where
  "sys env k h = (nrc env (k # h), k # h)"

definition sysv :: "net_call \<Rightarrow> history \<Rightarrow> history" where
  "sysv k h = k # h"

definition htons :: "int \<Rightarrow> int" where
  "htons iPort = iPort mod 2 ^ 16"

text \<open>\<open>inet_pton\<close> into a variable that held \<open>old\<close>.\<close>

definition inet_pton :: "net \<Rightarrow> family \<Rightarrow> string \<Rightarrow> net_addr \<Rightarrow> net_addr" where
  "inet_pton env fam ip old = (if npton env fam ip then Addr ip else old)"

subsection \<open>Connecting\<close>

definition EINTR :: int where "EINTR = 4"
definition EEXIST :: int where "EEXIST = 17"
definition EINPROGRESS :: int where "EINPROGRESS = 115"
definition O_NONBLOCK :: int where "O_NONBLOCK = 2048"

text \<open>The poll and the error of the connection. The answer of \<open>getsockopt\<close> is negative when it fails, and
  else the value of \<open>iErrorNum\<close>.\<close>

definition Connect_wait :: "net \<Rightarrow> int \<Rightarrow> int \<Rightarrow> int \<Rightarrow> history \<Rightarrow> int \<times> history" where
  "Connect_wait env iSockFd iFlags iSecond h =
     (let (n, h) = sys env (N_poll iSockFd (iSecond * 1000)) h
      in if n \<le> 0 then (- 102, h)
         else if nrevents env h
         then let (e, h) = sys env (N_getsockopt iSockFd) h
              in if e < 0 then (- 103, h)
                 else let h = sysv (N_setfl iSockFd iFlags) h in (if e \<noteq> 0 then (- 104, h) else (0, h))
         else (0, sysv (N_setfl iSockFd iFlags) h))"

definition ConnectTimeout :: "net \<Rightarrow> int \<Rightarrow> family \<Rightarrow> net_addr \<Rightarrow> int \<Rightarrow> int \<Rightarrow> history \<Rightarrow> int \<times> history" where
  "ConnectTimeout env iSockFd fam addr port iSecond h =
     (let (iFlags, h) = sys env (N_getfl iSockFd) h;
          h = sysv (N_setfl iSockFd (iFlags OR O_NONBLOCK)) h;
          (n, h) = sys env (N_connect iSockFd fam addr port) h
      in if n < 0 \<and> nerrno env h \<notin> {0, EINPROGRESS, EEXIST, EINTR} then (- 101, h)
         else if n = 0 then (0, sysv (N_setfl iSockFd iFlags) h)
         else Connect_wait env iSockFd iFlags iSecond h)"

definition GetIpByName :: "net \<Rightarrow> cstring \<Rightarrow> nat \<Rightarrow> history \<Rightarrow> string option \<times> history" where
  "GetIpByName env szHostName iLen h =
     (let (r, h) = sys env (N_gethostbyname szHostName) h
      in if r = 0 then (None, h)
         else (Some (if length (fst (npeer env h)) < iLen then fst (npeer env h) else []), h))"

text \<open>The address text: the resolved name when the first character is no digit, the text itself otherwise.
  A name that is not resolved leaves the buffer of zeros.\<close>

definition Connect_ip :: "net \<Rightarrow> cstring \<Rightarrow> history \<Rightarrow> string \<times> history" where
  "Connect_ip env pszIp h =
     (if \<not> isdigit_c (at0 pszIp 0)
      then let (r, h) = GetIpByName env pszIp 46 h in (case r of None \<Rightarrow> [] | Some ip \<Rightarrow> ip, h)
      else (snprintf_buf 46 pszIp, h))"

text \<open>\<open>connect\<close> with or without a timeout: 0 for success.\<close>

definition Connect_addr :: "net \<Rightarrow> int \<Rightarrow> family \<Rightarrow> net_addr \<Rightarrow> int \<Rightarrow> int \<Rightarrow> history \<Rightarrow> int \<times> history" where
  "Connect_addr env fd fam addr iPort iTimeout h =
     (if 0 < iTimeout then ConnectTimeout env fd fam addr (htons iPort) iTimeout h
      else let (n, h) = sys env (N_connect fd fam addr (htons iPort)) h in (if n = SOCKET_ERROR then 1 else 0, h))"

text \<open>Both branches make a socket of family \<open>AF_INET\<close>; an empty text is not converted, and the address
  keeps what the stack held.\<close>

definition TcpConnect :: "net \<Rightarrow> cstring \<Rightarrow> int \<Rightarrow> int \<Rightarrow> history \<Rightarrow> int \<times> history" where
  "TcpConnect env pszIp iPort iTimeout h =
     (let (szIp, h) = Connect_ip env pszIp h;
          fam = (if CHR '':'' \<in> set szIp then AF_INET6 else AF_INET);
          (fd, h) = sys env (N_socket AF_INET True) h
      in if fd = INVALID_SOCKET then (INVALID_SOCKET, h)
         else let (n, h) = Connect_addr env fd fam (inet_pton env fam szIp Unset) iPort iTimeout h
              in if n \<noteq> 0 then (INVALID_SOCKET, sysv (N_close fd) h) else (fd, h))"

subsection \<open>Listening\<close>

definition TcpListen :: "net \<Rightarrow> int \<Rightarrow> int \<Rightarrow> cstring option \<Rightarrow> bool \<Rightarrow> history \<Rightarrow> int \<times> history" where
  "TcpListen env iPort iListenQ pszIp bIpv6 h =
     (let fam = (if bIpv6 then AF_INET6 else AF_INET);
          (fd, h) = sys env (N_socket fam True) h
      in if fd = INVALID_SOCKET then (INVALID_SOCKET, h)
         else let addr = (case pszIp of None \<Rightarrow> Any_addr | Some ip \<Rightarrow> inet_pton env fam ip Any_addr);
                  h = sysv (N_reuse fd) h;
                  (n, h) = sys env (N_bind fd fam addr (htons iPort)) h
              in if n = SOCKET_ERROR then (INVALID_SOCKET, sysv (N_close fd) h)
                 else let (n, h) = sys env (N_listen fd iListenQ) h
                      in if n = SOCKET_ERROR then (INVALID_SOCKET, sysv (N_close fd) h) else (fd, h))"

text \<open>The address of a peer as text, in a buffer of \<open>iIpSize\<close> bytes; a text that does not fit is not stored.\<close>

definition peer_text :: "nat \<Rightarrow> string \<times> int \<Rightarrow> string \<times> int" where
  "peer_text iIpSize = (\<lambda>(ip, port). (if length ip < iIpSize then ip else [], port))"

text \<open>The connection, and the address and port of the peer where the caller asks for them.\<close>

definition TcpAccept :: "net \<Rightarrow> int \<Rightarrow> nat \<Rightarrow> history \<Rightarrow> (int \<times> (string \<times> int) option) \<times> history" where
  "TcpAccept env hListenFd iIpSize h =
     (let (fd, h) = sys env (N_accept hListenFd) h
      in if fd = INVALID_SOCKET then ((fd, None), h)
         else ((fd, Some (peer_text iIpSize (npeer env h))), h))"

definition GetLocalIpPort :: "net \<Rightarrow> int \<Rightarrow> history \<Rightarrow> (string \<times> int) option \<times> history" where
  "GetLocalIpPort env hSocket h =
     (if hSocket = INVALID_SOCKET then (None, h)
      else let (n, h) = sys env (N_getsockname hSocket) h
           in if n = SOCKET_ERROR then (None, h) else (Some (npeer env h), h))"

subsection \<open>Sending and receiving\<close>

text \<open>The loop of \<open>TcpSend\<close>, which may not end when \<open>send\<close> accepts nothing.\<close>

partial_function (option) TcpSend_loop :: "net \<Rightarrow> int \<Rightarrow> string \<Rightarrow> int \<Rightarrow> history \<Rightarrow> (int \<times> history) option" where
  [code]: "TcpSend_loop env fd szBuf iSendLen h =
     (let (n, h) = sys env (N_send fd (drop (nat iSendLen) szBuf)) h
      in if n = SOCKET_ERROR then Some (SOCKET_ERROR, h)
         else if iSendLen + n = int (length szBuf) then Some (int (length szBuf), h)
         else TcpSend_loop env fd szBuf (iSendLen + n) h)"

definition TcpSend :: "net \<Rightarrow> int \<Rightarrow> string \<Rightarrow> history \<Rightarrow> (int \<times> history) option" where
  "TcpSend env fd szBuf h = TcpSend_loop env fd szBuf 0 h"

text \<open>The result and the bytes written to the buffer.\<close>

definition TcpRecv :: "net \<Rightarrow> int \<Rightarrow> int \<Rightarrow> int \<Rightarrow> history \<Rightarrow> (int \<times> string) \<times> history" where
  "TcpRecv env fd iBufLen iSecond h =
     (let (n, h) = sys env (N_poll fd (1000 * iSecond)) h
      in if n \<le> 0 then ((SOCKET_ERROR, []), h)
         else let (n, h) = sys env (N_recv fd iBufLen) h in ((n, if n \<le> 0 then [] else nbytes env h), h))"

partial_function (option) TcpRecvSize_loop ::
  "net \<Rightarrow> int \<Rightarrow> int \<Rightarrow> int \<Rightarrow> int \<Rightarrow> string \<Rightarrow> history \<Rightarrow> ((int \<times> string) \<times> history) option" where
  [code]: "TcpRecvSize_loop env fd iBufLen iSecond iRecvLen szBuf h =
     (if iRecvLen < iBufLen
      then let (n, h) = sys env (N_poll fd (1000 * iSecond)) h
           in if n \<le> 0 then Some ((SOCKET_ERROR, szBuf), h)
              else let (n, h) = sys env (N_recv fd (iBufLen - iRecvLen)) h
                   in if n \<le> 0 then Some ((SOCKET_ERROR, szBuf), h)
                      else TcpRecvSize_loop env fd iBufLen iSecond (iRecvLen + n) (szBuf @ nbytes env h) h
      else Some ((iRecvLen, szBuf), h))"

definition TcpRecvSize :: "net \<Rightarrow> int \<Rightarrow> int \<Rightarrow> int \<Rightarrow> history \<Rightarrow> ((int \<times> string) \<times> history) option" where
  "TcpRecvSize env fd iBufLen iSecond h = TcpRecvSize_loop env fd iBufLen iSecond 0 [] h"

subsection \<open>UDP\<close>

definition UdpSocket :: "net \<Rightarrow> bool \<Rightarrow> history \<Rightarrow> int \<times> history" where
  "UdpSocket env bIpv6 h = sys env (N_socket (if bIpv6 then AF_INET6 else AF_INET) False) h"

definition UdpListen :: "net \<Rightarrow> int \<Rightarrow> cstring option \<Rightarrow> bool \<Rightarrow> history \<Rightarrow> int \<times> history" where
  "UdpListen env iPort pszIp bIpv6 h =
     (if iPort = 0 then (INVALID_SOCKET, h)
      else let fam = (if bIpv6 then AF_INET6 else AF_INET);
               (fd, h) = sys env (N_socket fam False) h
           in if fd = INVALID_SOCKET then (INVALID_SOCKET, h)
              else let addr = (case pszIp of None \<Rightarrow> Any_addr | Some ip \<Rightarrow> inet_pton env fam ip Any_addr);
                       (n, h) = sys env (N_bind fd fam addr (htons iPort)) h
                   in if n \<noteq> 0 then (INVALID_SOCKET, sysv (N_close fd) h) else (fd, h))"

text \<open>The receive functions: the result, \<open>*piLen\<close> and the text in the buffer when it was terminated, and the
  address and the port of the sender, which are stored before the length is tested. A port in network order
  is represented by its number. The first
  form passes the whole size to \<open>recvfrom\<close> and then needs two bytes of room, the others keep a byte and need
  none.\<close>

definition UdpRecv :: "net \<Rightarrow> int \<Rightarrow> int \<Rightarrow> nat \<Rightarrow> history \<Rightarrow> ((bool \<times> int \<times> string) \<times> (string \<times> int) option) \<times> history" where
  "UdpRecv env iFd piLen iIpSize h =
     (if iFd = INVALID_SOCKET \<or> piLen \<le> 0 then (((False, piLen, []), None), h)
      else let (n, h) = sys env (N_recvfrom iFd piLen) h
           in if n \<le> 0 then (((False, n, []), None), h)
              else if n + 1 \<ge> piLen then (((False, n, []), Some (peer_text iIpSize (npeer env h))), h)
              else (((True, n, nbytes env h), Some (peer_text iIpSize (npeer env h))), h))"

definition UdpRecv_ip4 :: "net \<Rightarrow> int \<Rightarrow> int \<Rightarrow> history \<Rightarrow> ((bool \<times> int \<times> string) \<times> (string \<times> int) option) \<times> history" where
  "UdpRecv_ip4 env iFd piLen h =
     (if iFd = INVALID_SOCKET \<or> piLen \<le> 0 then (((False, piLen, []), None), h)
      else let (n, h) = sys env (N_recvfrom iFd (piLen - 1)) h
           in if n \<le> 0 then (((False, n, []), None), h)
              else if n + 1 > piLen then (((False, n, []), Some (npeer env h)), h)
              else (((True, n, nbytes env h), Some (npeer env h)), h))"

definition UdpRecv_ip6 :: "net \<Rightarrow> int \<Rightarrow> int \<Rightarrow> history \<Rightarrow> ((bool \<times> int \<times> string) \<times> (string \<times> int) option) \<times> history" where
  "UdpRecv_ip6 env iFd piLen h =
     (if iFd = INVALID_SOCKET \<or> piLen \<le> 0 then (((False, piLen, []), None), h)
      else let (n, h) = sys env (N_recvfrom iFd (piLen - 1)) h
           in if n \<le> 0 then (((False, n, []), None), h)
              else if n + 1 > piLen then (((False, n, []), Some (npeer env h)), h)
              else (((True, n, nbytes env h), Some (npeer env h)), h))"

definition UdpSend :: "net \<Rightarrow> int \<Rightarrow> string option \<Rightarrow> cstring option \<Rightarrow> int \<Rightarrow> history \<Rightarrow> (bool \<times> log_event list) \<times> history" where
  "UdpSend env iFd pszBuf pszIp iPort h =
     (case (pszBuf, pszIp) of
        (Some buf, Some ip) \<Rightarrow>
          if iFd = INVALID_SOCKET \<or> buf = [] \<or> iPort = 0 then ((False, []), h)
          else let fam = (if CHR '':'' \<in> set ip then AF_INET6 else AF_INET);
                   (n, h) = sys env (N_sendto iFd buf (inet_pton env fam ip Any_addr) (htons iPort)) h
               in if n \<noteq> int (length buf)
                  then ((False, [(LOG_ERROR, ''UdpSend sendto error('' @ show_int (nerrno env h) @ '')'')]), h)
                  else ((True, []), h)
      | _ \<Rightarrow> ((False, []), h))"

text \<open>The forms whose address and port are in network order already.\<close>

definition UdpSend_ip4 :: "net \<Rightarrow> int \<Rightarrow> string option \<Rightarrow> net_addr \<Rightarrow> int \<Rightarrow> history \<Rightarrow> bool \<times> history" where
  "UdpSend_ip4 env iFd pszBuf iIp iPort h =
     (case pszBuf of None \<Rightarrow> (False, h)
      | Some buf \<Rightarrow> if iFd = INVALID_SOCKET \<or> buf = [] \<or> iPort = 0 then (False, h)
          else let (n, h) = sys env (N_sendto iFd buf iIp iPort) h in (n = int (length buf), h))"

definition UdpSend_ip6 :: "net \<Rightarrow> int \<Rightarrow> string option \<Rightarrow> net_addr \<Rightarrow> int \<Rightarrow> history \<Rightarrow> bool \<times> history" where
  "UdpSend_ip6 env iFd pszBuf psttIp iPort h =
     (case pszBuf of None \<Rightarrow> (False, h)
      | Some buf \<Rightarrow> if iFd = INVALID_SOCKET \<or> buf = [] \<or> iPort = 0 then (False, h)
          else let (n, h) = sys env (N_sendto iFd buf psttIp iPort) h in (n = int (length buf), h))"

subsection \<open>The address of this host\<close>

text \<open>The loop over the interfaces: \<open>ioctl\<close> answers -1 (whose message on the standard output is left out) or
  the address as a number. The first address that is not local is taken.\<close>

definition ip_text :: "int \<Rightarrow> string" where
  "ip_text ai = show_int (ai div 2 ^ 24 mod 256) @ ''.'' @ show_int (ai div 2 ^ 16 mod 256) @ ''.'' @
     show_int (ai div 2 ^ 8 mod 256) @ ''.'' @ show_int (ai mod 256)"

fun LocalIp_loop :: "net \<Rightarrow> int \<Rightarrow> nat \<Rightarrow> history \<Rightarrow> string option \<times> history" where
  "LocalIp_loop env hSocket 0 h = (None, h)"
| "LocalIp_loop env hSocket (Suc n) h =
     (let (e, h) = sys env (N_ifaddr hSocket) h
      in if e = - 1 then LocalIp_loop env hSocket n h
         else if e div 2 ^ 24 mod 256 = 127 then LocalIp_loop env hSocket n h
         else (Some (ip_text e), h))"

text \<open>The answer of the first \<open>ioctl\<close> is -1 or the number of interfaces. The result true does not tell whether
  an address was found.\<close>

definition GetLocalIp :: "net \<Rightarrow> string \<Rightarrow> history \<Rightarrow> (bool \<times> string) \<times> history" where
  "GetLocalIp env strIp h =
     (let (hSocket, h) = sys env (N_socket AF_INET False) h;
          (e, h) = sys env (N_ifconf hSocket) h
      in if e = - 1 then ((False, strIp), h)
         else let (r, h) = LocalIp_loop env hSocket (nat e) h
              in ((True, case r of None \<Rightarrow> strIp | Some ip \<Rightarrow> ip), sysv (N_close hSocket) h))"

end
