(* ===== verification/SocketsSpec.thy ===== *)
theory SocketsSpec
  imports Sockets "HOL-Library.Sublist"
begin

text \<open>
  What the socket wrappers promise: no descriptor is lost on an error path, and a stream is sent and
  received completely and in order.
\<close>

subsection \<open>Descriptors\<close>

fun open_fds :: "net \<Rightarrow> history \<Rightarrow> int set" where
  "open_fds env [] = {}"
| "open_fds env (N_socket fam s # h) =
     (if nrc env (N_socket fam s # h) = INVALID_SOCKET then open_fds env h else insert (nrc env (N_socket fam s # h)) (open_fds env h))"
| "open_fds env (N_accept fd # h) =
     (if nrc env (N_accept fd # h) = INVALID_SOCKET then open_fds env h else insert (nrc env (N_accept fd # h)) (open_fds env h))"
| "open_fds env (N_close fd # h) = open_fds env h - {fd}"
| "open_fds env (k # h) = open_fds env h"

text \<open>The system gives a descriptor that is not open to a new socket.\<close>

definition fresh_fds :: "net \<Rightarrow> bool" where
  "fresh_fds env \<longleftrightarrow> (\<forall>fam s h. nrc env (N_socket fam s # h) \<notin> open_fds env h)"

lemma Connect_wait_fds: "open_fds env (snd (Connect_wait env fd fl sec h)) = open_fds env h"
  by (simp add: Connect_wait_def Let_def sys_def sysv_def)

lemma ConnectTimeout_fds: "open_fds env (snd (ConnectTimeout env fd fam a p sec h)) = open_fds env h"
  by (simp add: ConnectTimeout_def Let_def sys_def sysv_def Connect_wait_fds)

lemma GetIpByName_fds: "open_fds env (snd (GetIpByName env n k h)) = open_fds env h"
  by (simp add: GetIpByName_def Let_def sys_def)

definition gained :: "net \<Rightarrow> int \<Rightarrow> history \<Rightarrow> history \<Rightarrow> bool" where
  "gained env fd h h' \<longleftrightarrow> open_fds env h' = (if fd = INVALID_SOCKET then open_fds env h else insert fd (open_fds env h))"

text \<open>A socket, some calls that neither open nor close, and on an error the close.\<close>

lemma gained_end:
  assumes "fresh_fds env" and "nrc env (N_socket fam s # h) = fd0" and "fd0 \<noteq> INVALID_SOCKET"
    and "open_fds env h1 = open_fds env (N_socket fam s # h)"
  shows "gained env INVALID_SOCKET h (N_close fd0 # h1)" and "gained env fd0 h h1"
proof -
  have "fd0 \<notin> open_fds env h" using assms(1,2) by (auto simp: fresh_fds_def)
  then show "gained env INVALID_SOCKET h (N_close fd0 # h1)" "gained env fd0 h h1"
    using assms(2-4) by (auto simp: gained_def)
qed

lemma Connect_ip_fds: "open_fds env (snd (Connect_ip env ip h)) = open_fds env h"
  using GetIpByName_fds [of env ip 46 h] by (simp add: Connect_ip_def case_prod_beta)

lemma Connect_addr_fds: "open_fds env (snd (Connect_addr env fd fam a p t h)) = open_fds env h"
  by (simp add: Connect_addr_def ConnectTimeout_fds sys_def)

lemma TcpConnect_gained:
  assumes "fresh_fds env" and "TcpConnect env ip port tmo h = (fd, h')"
  shows "gained env fd h h'"
proof -
  obtain szIp h0 where ip: "Connect_ip env ip h = (szIp, h0)" by fastforce
  have h0: "open_fds env h0 = open_fds env h" using Connect_ip_fds [of env ip h] ip by simp
  let ?s = "N_socket AF_INET True # h0" and ?fam = "if CHR '':'' \<in> set szIp then AF_INET6 else AF_INET"
  obtain fd0 where fd0: "nrc env ?s = fd0" by simp
  obtain n h1 where c: "Connect_addr env fd0 ?fam (inet_pton env ?fam szIp Unset) port tmo ?s = (n, h1)" by fastforce
  have h1: "open_fds env h1 = open_fds env ?s"
    using Connect_addr_fds [of env fd0 ?fam "inet_pton env ?fam szIp Unset" port tmo ?s] c by simp
  have res: "(fd, h') = (if fd0 = INVALID_SOCKET then (INVALID_SOCKET, ?s)
      else if n \<noteq> 0 then (INVALID_SOCKET, N_close fd0 # h1) else (fd0, h1))"
    using assms(2) by (simp only: TcpConnect_def ip Let_def case_prod_conv sys_def [of env "N_socket AF_INET True"] fd0 sysv_def c)
  have "gained env fd h0 h'"
  proof (cases "fd0 = INVALID_SOCKET")
    case True
    then show ?thesis using res fd0 by (simp add: gained_def)
  next
    case False
    then show ?thesis using res gained_end [OF assms(1) fd0 False h1] by (cases "n = 0") simp_all
  qed
  then show ?thesis using h0 by (simp add: gained_def)
qed

lemma TcpListen_gained:
  assumes "fresh_fds env" and "TcpListen env port q ip six h = (fd, h')"
  shows "gained env fd h h'"
proof -
  define fam where "fam = (if six then AF_INET6 else AF_INET)"
  define a where "a = (case ip of None \<Rightarrow> Any_addr | Some ip \<Rightarrow> inet_pton env fam ip Any_addr)"
  obtain fd0 where fd0: "nrc env (N_socket fam True # h) = fd0" by simp
  let ?b = "N_bind fd0 fam a (htons port) # N_reuse fd0 # N_socket fam True # h"
  let ?l = "N_listen fd0 q # ?b"
  have res: "(fd, h') = (if fd0 = INVALID_SOCKET then (INVALID_SOCKET, N_socket fam True # h)
      else if nrc env ?b = SOCKET_ERROR then (INVALID_SOCKET, N_close fd0 # ?b)
      else if nrc env ?l = SOCKET_ERROR then (INVALID_SOCKET, N_close fd0 # ?l) else (fd0, ?l))"
    using assms(2) by (simp only: TcpListen_def Let_def case_prod_conv sys_def fam_def [symmetric] a_def [symmetric] fd0 sysv_def)
  show ?thesis
  proof (cases "fd0 = INVALID_SOCKET")
    case True
    then show ?thesis using res fd0 by (simp add: gained_def)
  next
    case False
    have "gained env fd0 h ?l" "gained env INVALID_SOCKET h (N_close fd0 # ?b)" "gained env INVALID_SOCKET h (N_close fd0 # ?l)"
      by (rule gained_end [OF assms(1) fd0 False], simp)+
    then show ?thesis using res False by (auto split: if_splits)
  qed
qed

lemma UdpListen_gained:
  assumes "fresh_fds env" and "UdpListen env port ip six h = (fd, h')"
  shows "gained env fd h h'"
proof -
  define fam where "fam = (if six then AF_INET6 else AF_INET)"
  define a where "a = (case ip of None \<Rightarrow> Any_addr | Some ip \<Rightarrow> inet_pton env fam ip Any_addr)"
  obtain fd0 where fd0: "nrc env (N_socket fam False # h) = fd0" by simp
  let ?b = "N_bind fd0 fam a (htons port) # N_socket fam False # h"
  have res: "(fd, h') = (if port = 0 then (INVALID_SOCKET, h)
      else if fd0 = INVALID_SOCKET then (INVALID_SOCKET, N_socket fam False # h)
      else if nrc env ?b \<noteq> 0 then (INVALID_SOCKET, N_close fd0 # ?b) else (fd0, ?b))"
    using assms(2) by (simp only: UdpListen_def Let_def case_prod_conv sys_def fam_def [symmetric] a_def [symmetric] fd0 sysv_def)
  show ?thesis
  proof (cases "port = 0 \<or> fd0 = INVALID_SOCKET")
    case True
    then show ?thesis using res fd0 by (auto simp: gained_def split: if_splits)
  next
    case False
    then have ne: "fd0 \<noteq> INVALID_SOCKET" by simp
    have "gained env fd0 h ?b" "gained env INVALID_SOCKET h (N_close fd0 # ?b)"
      by (rule gained_end [OF assms(1) fd0 ne], simp)+
    then show ?thesis using res False by (auto split: if_splits)
  qed
qed

text \<open>C18: The functions that make a socket leave exactly the socket they return open, and none when they
  fail, on every path (name resolution, timeout, bind, listen), whatever the system answers, provided that it
  gives out descriptors that are not in use.\<close>

theorem sockets_no_leak:
  assumes "fresh_fds env"
  shows "(case TcpConnect env ip port tmo h of (fd, h') \<Rightarrow> gained env fd h h') \<and>
    (case TcpListen env port q bind_ip six h of (fd, h') \<Rightarrow> gained env fd h h') \<and>
    (case UdpListen env port bind_ip six h of (fd, h') \<Rightarrow> gained env fd h h')"
  using TcpConnect_gained [OF assms] TcpListen_gained [OF assms] UdpListen_gained [OF assms]
  by (auto split: prod.split)

text \<open>\<open>GetLocalIp\<close> closes its socket, except when the first \<open>ioctl\<close> fails.\<close>

lemma LocalIp_loop_fds: "open_fds env (snd (LocalIp_loop env fd n h)) = open_fds env h"
  by (induction env fd n h rule: LocalIp_loop.induct) (simp_all add: sys_def Let_def)

lemma GetLocalIp_fds:
  assumes "fresh_fds env" and "nrc env (N_socket AF_INET False # h) = fd" and "fd \<noteq> INVALID_SOCKET"
    and "nrc env (N_ifconf fd # N_socket AF_INET False # h) = e"
  shows "open_fds env (snd (GetLocalIp env ip h)) = (if e = - 1 then insert fd (open_fds env h) else open_fds env h)"
proof -
  let ?h = "N_ifconf fd # N_socket AF_INET False # h"
  have "fd \<notin> open_fds env h" using assms(1,2) by (auto simp: fresh_fds_def)
  then show ?thesis
    using assms(2-4) LocalIp_loop_fds [of env fd "nat e" ?h] by (auto simp: GetLocalIp_def sys_def sysv_def Let_def case_prod_beta)
qed

text \<open>An environment whose descriptors are the numbers of the calls.\<close>

definition demo_net :: net where
  "demo_net = \<lparr>nrc = \<lambda>h. case h of N_socket _ _ # h \<Rightarrow> int (length h) + 3 | N_bind _ _ _ _ # _ \<Rightarrow> 0
       | N_send _ b # _ \<Rightarrow> min 3 (int (length b)) | N_recv _ k # _ \<Rightarrow> min 2 k | N_accept _ # h \<Rightarrow> int (length h) + 3
       | N_poll _ _ # _ \<Rightarrow> 1 | N_listen _ _ # _ \<Rightarrow> - 1 | _ \<Rightarrow> 0,
     nerrno = \<lambda>_. 0, nrevents = \<lambda>_. True, nbytes = \<lambda>h. case h of N_recv _ k # _ \<Rightarrow> take (nat k) ''ok'' | _ \<Rightarrow> [],
     npeer = \<lambda>_. (''127.0.0.1'', 3306), npton = \<lambda>_ _. True\<rparr>"

lemma demo_net_bound: "fd \<in> open_fds demo_net h \<Longrightarrow> fd < int (length h) + 3"
proof (induction h arbitrary: fd)
  case (Cons k h)
  then show ?case by (cases k) (force simp: demo_net_def split: if_splits)+
qed simp

lemma demo_net_fresh: "fresh_fds demo_net"
  using demo_net_bound by (force simp: fresh_fds_def demo_net_def)

lemma sockets_no_leak_witness:
  "gained demo_net 3 [] (snd (TcpConnect demo_net ''127.0.0.1'' 3306 0 [])) \<and>
   gained demo_net (- 1) [] (snd (TcpListen demo_net 3306 5 None False []))"
proof -
  have c: "fst (TcpConnect demo_net ''127.0.0.1'' 3306 0 []) = 3" "fst (TcpListen demo_net 3306 5 None False []) = - 1"
    by code_simp+
  show ?thesis using sockets_no_leak [OF demo_net_fresh, where ip = "''127.0.0.1''" and port = 3306 and tmo = 0 and h = "[]" and q = 5
        and bind_ip = None and six = False] c
    by (simp add: case_prod_beta)
qed

subsection \<open>Streams\<close>

text \<open>What a system call promises: \<open>send\<close> accepts at least a byte of a non-empty buffer or fails,
  \<open>recv\<close> gives at most the bytes asked for.\<close>

definition stream_ok :: "net \<Rightarrow> bool" where
  "stream_ok env \<longleftrightarrow>
     (\<forall>fd b h. nrc env (N_send fd b # h) = SOCKET_ERROR
        \<or> (0 \<le> nrc env (N_send fd b # h) \<and> nrc env (N_send fd b # h) \<le> int (length b) \<and> (b \<noteq> [] \<longrightarrow> 0 < nrc env (N_send fd b # h)))) \<and>
     (\<forall>fd k h. 0 < nrc env (N_recv fd k # h)
        \<longrightarrow> nrc env (N_recv fd k # h) = int (length (nbytes env (N_recv fd k # h))) \<and> nrc env (N_recv fd k # h) \<le> k)"

text \<open>The bytes of a socket that were accepted and given so far.\<close>

fun sent :: "net \<Rightarrow> int \<Rightarrow> history \<Rightarrow> string" where
  "sent env fd [] = []"
| "sent env fd (N_send f b # h) = sent env fd h @ (if f = fd then take (nat (nrc env (N_send f b # h))) b else [])"
| "sent env fd (k # h) = sent env fd h"

fun received :: "net \<Rightarrow> int \<Rightarrow> history \<Rightarrow> string" where
  "received env fd [] = []"
| "received env fd (N_recv f k # h) = received env fd h @ (if f = fd \<and> 0 < nrc env (N_recv f k # h) then nbytes env (N_recv f k # h) else [])"
| "received env fd (k # h) = received env fd h"

lemma TcpSend_loop_delivers:
  assumes "stream_ok env"
  shows "0 \<le> i \<Longrightarrow> i \<le> int (length buf) \<Longrightarrow>
    \<exists>r h'. TcpSend_loop env fd buf i h = Some (r, h') \<and>
      (\<exists>p. prefix p (drop (nat i) buf) \<and> sent env fd h' = sent env fd h @ p \<and>
        (r = int (length buf) \<and> p = drop (nat i) buf \<or> r = SOCKET_ERROR))"
proof (induction "length buf - nat i" arbitrary: i h rule: less_induct)
  case less
  let ?b = "drop (nat i) buf"
  obtain n where n: "nrc env (N_send fd ?b # h) = n" by simp
  have contract: "n = SOCKET_ERROR \<or> (0 \<le> n \<and> n \<le> int (length ?b) \<and> (?b \<noteq> [] \<longrightarrow> 0 < n))"
    using assms n unfolding stream_ok_def by blast
  have step: "TcpSend_loop env fd buf i h =
      (if n = SOCKET_ERROR then Some (SOCKET_ERROR, N_send fd ?b # h)
       else if i + n = int (length buf) then Some (int (length buf), N_send fd ?b # h)
       else TcpSend_loop env fd buf (i + n) (N_send fd ?b # h))"
    by (subst TcpSend_loop.simps) (simp add: sys_def n)
  have sent: "sent env fd (N_send fd ?b # h) = sent env fd h @ take (nat n) ?b" by (simp add: n)
  consider (err) "n = SOCKET_ERROR" | (all) "n \<noteq> SOCKET_ERROR" "i + n = int (length buf)"
    | (part) "n \<noteq> SOCKET_ERROR" "i + n \<noteq> int (length buf)" by blast
  then show ?case
  proof cases
    case err
    then show ?thesis using step sent by (auto intro: take_is_prefix)
  next
    case all
    then have "length ?b = nat n" using less.prems contract by (simp add: nat_diff_distrib)
    then show ?thesis using step sent all by simp
  next
    case part
    then have n': "0 < n" "i + n \<le> int (length buf)" using contract less.prems by (cases "?b = []"; force)+
    have "length buf - nat (i + n) < length buf - nat i" using n' less.prems by simp
    then obtain r h' p where r: "TcpSend_loop env fd buf (i + n) (N_send fd ?b # h) = Some (r, h')"
        "prefix p (drop (nat (i + n)) buf)" "sent env fd h' = (sent env fd h @ take (nat n) ?b) @ p"
        "r = int (length buf) \<and> p = drop (nat (i + n)) buf \<or> r = SOCKET_ERROR"
      using less.hyps [of "i + n" "N_send fd ?b # h"] n' less.prems(1) unfolding sent by fastforce
    have split: "?b = take (nat n) ?b @ drop (nat (i + n)) buf"
      using n'(1) less.prems(1) by (metis add.commute append_take_drop_id drop_drop nat_add_distrib less_imp_le)
    have "prefix (take (nat n) ?b @ p) ?b" using r(2) by (subst split) simp
    moreover have "take (nat n) ?b @ p = ?b" if "p = drop (nat (i + n)) buf" using split that by simp
    ultimately show ?thesis using step part r by (auto intro!: exI [of _ "take (nat n) ?b @ p"])
  qed
qed

lemma demo_net_stream: "stream_ok demo_net"
  by (auto simp: stream_ok_def demo_net_def min_def numeral_2_eq_2)

text \<open>The exact form for receiving: the buffer holds the bytes the socket gave, all that were asked for when
  the result is not an error. It may not return only when the size is never reached, which the
  contract excludes.\<close>

lemma TcpRecvSize_loop_exact:
  assumes "stream_ok env"
  shows "i = int (length buf) \<Longrightarrow> \<exists>r buf' h'. TcpRecvSize_loop env fd n sec i buf h = Some ((r, buf @ buf'), h') \<and>
      received env fd h' = received env fd h @ buf' \<and> (r = max i n \<and> int (length (buf @ buf')) = max i n \<or> r = SOCKET_ERROR)"
proof (induction "nat (n - i)" arbitrary: i buf h rule: less_induct)
  case less
  let ?p = "N_poll fd (1000 * sec) # h"
  let ?r = "N_recv fd (n - i) # ?p"
  let ?k = "nrc env ?r"
  have step: "TcpRecvSize_loop env fd n sec i buf h =
      (if i < n then if nrc env ?p \<le> 0 then Some ((SOCKET_ERROR, buf), ?p)
         else if ?k \<le> 0 then Some ((SOCKET_ERROR, buf), ?r)
         else TcpRecvSize_loop env fd n sec (i + ?k) (buf @ nbytes env ?r) ?r
       else Some ((i, buf), h))"
    by (subst TcpRecvSize_loop.simps) (simp add: sys_def)
  show ?case
  proof (cases "i < n \<and> 0 < nrc env ?p \<and> 0 < ?k")
    case False
    then show ?thesis using step less.prems by (auto simp: not_less max_def)
  next
    case True
    have k: "?k = int (length (nbytes env ?r))" "?k \<le> n - i" using assms True unfolding stream_ok_def by blast+
    have "nat (n - (i + ?k)) < nat (n - i)" using True by simp
    then obtain r buf' h' where r: "TcpRecvSize_loop env fd n sec (i + ?k) (buf @ nbytes env ?r) ?r = Some ((r, (buf @ nbytes env ?r) @ buf'), h')"
        "received env fd h' = received env fd ?r @ buf'"
        "r = max (i + ?k) n \<and> int (length ((buf @ nbytes env ?r) @ buf')) = max (i + ?k) n \<or> r = SOCKET_ERROR"
      using less.hyps [of "i + ?k" "buf @ nbytes env ?r" ?r] less.prems k(1) by auto
    have "max (i + ?k) n = max i n" using True k(2) by simp
    then show ?thesis using step True r by (auto intro!: exI [of _ "nbytes env ?r @ buf'"])
  qed
qed

text \<open>C16: Streams are complete and always return. \<open>TcpSend\<close> gives either the length of the buffer, and the socket has
  accepted exactly its bytes in order, or an error, and it has accepted a prefix of them, whatever pieces
  \<open>send\<close> accepts at a time. \<open>TcpRecvSize\<close> gives either the size asked for, and the buffer holds exactly that many
  next bytes of the socket, or an error, and the bytes received until then are at the front of the buffer.\<close>

theorem tcp_streams_complete:
  assumes "stream_ok env"
  shows "(\<exists>r h' p. TcpSend env fd out h = Some (r, h') \<and> prefix p out \<and> sent env fd h' = sent env fd h @ p \<and>
      (r = int (length out) \<and> p = out \<or> r = SOCKET_ERROR)) \<and>
    (\<exists>r buf h'. TcpRecvSize env fd n sec h = Some ((r, buf), h') \<and> received env fd h' = received env fd h @ buf \<and>
      (r = max 0 n \<and> int (length buf) = max 0 n \<or> r = SOCKET_ERROR))"
  using TcpSend_loop_delivers [OF assms, of 0 out fd h] TcpRecvSize_loop_exact [OF assms, of 0 "[]" fd n sec h]
  by (auto simp: TcpSend_def TcpRecvSize_def)

lemma demo_net_sends:
  "TcpSend demo_net 3 ''SELECT 1'' [] = Some (8, [N_send 3 '' 1'', N_send 3 ''ECT 1'', N_send 3 ''SELECT 1''])"
  by code_simp

lemma tcp_streams_complete_witness:
  "sent demo_net 3 (snd (the (TcpSend demo_net 3 ''SELECT 1'' []))) = ''SELECT 1'' \<and>
   (\<exists>r buf h'. TcpRecvSize demo_net 3 5 1 [] = Some ((r, buf), h') \<and> received demo_net 3 h' = buf \<and> (length buf = 5 \<or> r = - 1))"
proof -
  note t = tcp_streams_complete [OF demo_net_stream, of 3 "''SELECT 1''" "[]" 5 1]
  show ?thesis
  proof (rule conjI)
    show "sent demo_net 3 (snd (the (TcpSend demo_net 3 ''SELECT 1'' []))) = ''SELECT 1''"
      using t [THEN conjunct1] unfolding demo_net_sends by simp
    obtain r buf h' where "TcpRecvSize demo_net 3 5 1 [] = Some ((r, buf), h')" "received demo_net 3 h' = buf"
        "r = 5 \<and> int (length buf) = 5 \<or> r = SOCKET_ERROR"
      using t [THEN conjunct2] by auto
    then show "\<exists>r buf h'. TcpRecvSize demo_net 3 5 1 [] = Some ((r, buf), h') \<and> received demo_net 3 h' = buf \<and> (length buf = 5 \<or> r = - 1)"
      by auto
  qed
qed

subsection \<open>Packets\<close>

text \<open>The terminator that the receive functions write behind a packet is inside the buffer, also when \<open>recvfrom\<close>
  breaks its promise and reports more bytes than were asked for (it gives the size of the packet then).\<close>

lemma udp_recv_in_buffer:
  "UdpRecv env fd len k h = (((True, n, buf), p), h') \<Longrightarrow> 0 < n \<and> n < len - 1 \<and> p \<noteq> None"
  "UdpRecv_ip4 env fd len h = (((True, n, buf), p), h') \<Longrightarrow> 0 < n \<and> n < len \<and> p \<noteq> None"
  "UdpRecv_ip6 env fd len h = (((True, n, buf), p), h') \<Longrightarrow> 0 < n \<and> n < len \<and> p \<noteq> None"
  by (auto simp: UdpRecv_def UdpRecv_ip4_def UdpRecv_ip6_def Let_def sys_def split: if_splits)

text \<open>A packet that fills all but the last byte is lost by the first form only.\<close>

lemma udp_recv_largest:
  assumes "fd \<noteq> INVALID_SOCKET" and "1 < len"
    and "nrc env (N_recvfrom fd len # h) = len - 1" and "nrc env (N_recvfrom fd (len - 1) # h) = len - 1"
  shows "\<not> fst (fst (fst (UdpRecv env fd len k h)))" and "fst (fst (fst (UdpRecv_ip4 env fd len h)))"
  using assms by (simp_all add: UdpRecv_def UdpRecv_ip4_def Let_def sys_def)

end
