(* ===== verification/SocketsWin.thy ===== *)
theory SocketsWin
  imports SocketsSpec TimeUtility
begin

text \<open>
  The branches for Windows of SipTcp.cpp and SipUdp.cpp: \<open>poll\<close> over \<open>select\<close>, the address of the host, connecting
  without a timeout, and the socket on which the thread of \<open>pipe\<close> listens. Sets of descriptors are the arrays of
  Winsock: \<open>FD_SET\<close> ignores a descriptor that is in the set or does not fit into its 64 places.
\<close>

subsection \<open>poll\<close>

definition POLLIN :: int where "POLLIN = 768"

record pollfd =
  pf_fd :: int
  pf_events :: int
  pf_revents :: int

definition TcpSetPollIn :: "int \<Rightarrow> pollfd \<Rightarrow> pollfd" where
  "TcpSetPollIn hSocket p = p\<lparr>pf_fd := hSocket, pf_events := POLLIN, pf_revents := 0\<rparr>"

definition FD_SETSIZE :: nat where "FD_SETSIZE = 64"

definition FD_SET :: "int \<Rightarrow> int list \<Rightarrow> int list" where
  "FD_SET fd s = (if fd \<in> set s \<or> length s \<ge> FD_SETSIZE then s else s @ [fd])"

text \<open>The set of all descriptors, and the second loop: the entries and \<open>iCount\<close>.\<close>

fun poll_set :: "pollfd list \<Rightarrow> int list \<Rightarrow> int list" where
  "poll_set [] rset = rset"
| "poll_set (p # ps) rset = poll_set ps (if pf_fd p \<noteq> - 1 then FD_SET (pf_fd p) rset else rset)"

fun poll_marks :: "int list \<Rightarrow> pollfd list \<Rightarrow> int \<Rightarrow> int \<times> pollfd list" where
  "poll_marks rset [] iCount = (iCount, [])"
| "poll_marks rset (p # ps) iCount =
     (if pf_fd p \<in> set rset
      then let (n, ps) = poll_marks rset ps (iCount + 1) in (n, p\<lparr>pf_revents := POLLIN\<rparr> # ps)
      else let (n, ps) = poll_marks rset ps iCount in (n, p\<lparr>pf_revents := 0\<rparr> # ps))"

text \<open>\<open>select\<close> answers for a set and the seconds and microseconds with its result and the set that it leaves.\<close>

definition poll_win :: "(int list \<Rightarrow> int \<times> int \<Rightarrow> int \<times> int list) \<Rightarrow> pollfd list \<Rightarrow> int \<Rightarrow> int \<times> pollfd list" where
  "poll_win select fds timeout =
     (let (n, rset) = select (poll_set fds []) (c_div timeout 1000, c_mod timeout 1000 * 1000)
      in if n \<le> 0 then (n, fds) else poll_marks rset fds 0)"

text \<open>The promise of \<open>poll\<close>: the readable descriptors are marked and counted.\<close>

definition poll_abs :: "(int \<Rightarrow> bool) \<Rightarrow> pollfd list \<Rightarrow> int \<times> pollfd list" where
  "poll_abs ready fds =
     (int (length (filter (\<lambda>p. pf_fd p \<noteq> - 1 \<and> ready (pf_fd p)) fds)),
      map (\<lambda>p. p\<lparr>pf_revents := if pf_fd p \<noteq> - 1 \<and> ready (pf_fd p) then POLLIN else 0\<rparr>) fds)"

definition select_ok :: "(int \<Rightarrow> bool) \<Rightarrow> (int list \<Rightarrow> int \<times> int \<Rightarrow> int \<times> int list) \<Rightarrow> bool" where
  "select_ok ready select \<longleftrightarrow> (\<forall>s t. s \<noteq> [] \<longrightarrow> select s t = (int (length (filter ready s)), filter ready s))"

definition poll_fds :: "pollfd list \<Rightarrow> int set" where
  "poll_fds fds = set (map pf_fd fds) - {- 1}"

lemma poll_marks_all:
  "poll_marks rset fds n = (n + int (length (filter (\<lambda>p. pf_fd p \<in> set rset) fds)),
     map (\<lambda>p. p\<lparr>pf_revents := if pf_fd p \<in> set rset then POLLIN else 0\<rparr>) fds)"
  by (induction rset fds n rule: poll_marks.induct) auto

lemma poll_set_all:
  assumes "card (set rset \<union> poll_fds fds) \<le> FD_SETSIZE" and "distinct rset"
  shows "set (poll_set fds rset) = set rset \<union> poll_fds fds \<and> distinct (poll_set fds rset)"
  using assms
proof (induction fds rset rule: poll_set.induct)
  case (2 p ps rset)
  have e: "set rset \<union> poll_fds (p # ps) = (if pf_fd p = - 1 then set rset else insert (pf_fd p) (set rset)) \<union> poll_fds ps"
    by (auto simp: poll_fds_def)
  have room: "length rset < FD_SETSIZE" if "pf_fd p \<noteq> - 1" "pf_fd p \<notin> set rset"
  proof -
    have "insert (pf_fd p) (set rset) \<subseteq> set rset \<union> poll_fds (p # ps)" using that by (auto simp: poll_fds_def)
    then have "card (insert (pf_fd p) (set rset)) \<le> card (set rset \<union> poll_fds (p # ps))"
      by (intro card_mono) (auto simp: poll_fds_def)
    then show ?thesis using that 2(2,3) by (simp add: distinct_card)
  qed
  then have "set (if pf_fd p \<noteq> - 1 then FD_SET (pf_fd p) rset else rset) = (if pf_fd p = - 1 then set rset else insert (pf_fd p) (set rset))
      \<and> distinct (if pf_fd p \<noteq> - 1 then FD_SET (pf_fd p) rset else rset)"
    using 2(3) room by (cases "pf_fd p = - 1"; cases "pf_fd p \<in> set rset") (auto simp: FD_SET_def)
  then show ?case using 2 e by simp
qed (simp add: poll_fds_def)

text \<open>With at most 64 different descriptors, one of them readable, \<open>poll\<close> keeps its promise.\<close>

lemma poll_win_ready:
  assumes "select_ok ready select" and "card (poll_fds fds) \<le> FD_SETSIZE" and "fd \<in> poll_fds fds" and "ready fd"
  shows "poll_win select fds timeout = poll_abs ready fds"
proof -
  have s: "set (poll_set fds []) = poll_fds fds" using poll_set_all [of "[]" fds] assms(2) by simp
  then have "poll_set fds [] \<noteq> []" and "filter ready (poll_set fds []) \<noteq> []" using assms(3,4) by (auto simp: filter_empty_conv)
  moreover have "pf_fd p \<in> set (filter ready (poll_set fds [])) \<longleftrightarrow> pf_fd p \<noteq> - 1 \<and> ready (pf_fd p)" if "p \<in> set fds" for p
    using s that by (auto simp: poll_fds_def)
  then have "poll_marks (filter ready (poll_set fds [])) fds 0 = poll_abs ready fds"
    unfolding poll_marks_all poll_abs_def by (simp cong: filter_cong map_cong)
  ultimately show ?thesis using assms(1) by (simp add: poll_win_def select_ok_def)
qed

lemma poll_set_full: "length rset = FD_SETSIZE \<Longrightarrow> poll_set fds rset = rset"
  by (induction fds rset rule: poll_set.induct) (simp_all add: FD_SET_def)

text \<open>The entries after 64 different descriptors are not waited for.\<close>

lemma poll_set_append: "poll_set (xs @ ys) rset = poll_set ys (poll_set xs rset)"
  by (induction xs rset rule: poll_set.induct) simp_all

lemma poll_win_first_64:
  assumes "card (poll_fds xs) = FD_SETSIZE"
  shows "poll_set (xs @ ys) [] = poll_set xs []"
proof -
  have "set (poll_set xs []) = poll_fds xs" "distinct (poll_set xs [])" using poll_set_all [of "[]" xs] assms by simp_all
  then have "length (poll_set xs []) = FD_SETSIZE" using assms distinct_card by metis
  then show ?thesis by (simp add: poll_set_append poll_set_full)
qed

subsection \<open>The network and the address of the host\<close>

text \<open>\<open>started\<close> is the static flag; the answer of \<open>WSAStartup\<close> is an argument.\<close>

definition InitNetwork :: "int \<Rightarrow> bool \<Rightarrow> bool" where
  "InitNetwork WSAStartup started = (started \<or> WSAStartup = 0)"

text \<open>The loop over the addresses of the host, as texts.\<close>

fun HostIp_loop :: "string list \<Rightarrow> string \<Rightarrow> string" where
  "HostIp_loop [] strIp = strIp"
| "HostIp_loop (szIpAddr # ips) strIp = (if szIpAddr \<noteq> ''127.0.0.1'' then szIpAddr else HostIp_loop ips strIp)"

text \<open>The answers of \<open>gethostname\<close> (None when it fails) and of \<open>gethostbyname\<close> for that name; the second result is
  the flag of \<open>InitNetwork\<close>.\<close>

definition GetLocalIp_win :: "int \<Rightarrow> string option \<Rightarrow> (string \<Rightarrow> string list option) \<Rightarrow> bool \<Rightarrow> string \<Rightarrow> (bool \<times> string) \<times> bool" where
  "GetLocalIp_win WSAStartup gethostname gethostbyname started strIp =
     (case gethostname of None \<Rightarrow> (False, strIp)
      | Some szHostName \<Rightarrow> (case gethostbyname szHostName of None \<Rightarrow> (False, strIp) | Some ips \<Rightarrow> (True, HostIp_loop ips strIp)),
      InitNetwork WSAStartup started)"

lemma HostIp_loop_find: "HostIp_loop ips strIp = (case find (\<lambda>ip. ip \<noteq> ''127.0.0.1'') ips of None \<Rightarrow> strIp | Some ip \<Rightarrow> ip)"
  by (induction ips) simp_all

text \<open>The result true does not tell that an address was found.\<close>

lemma GetLocalIp_win_local:
  assumes "gethostbyname n = Some ips" and "set ips \<subseteq> {''127.0.0.1''}"
  shows "fst (GetLocalIp_win w (Some n) gethostbyname started strIp) = (True, strIp)"
proof -
  have "find (\<lambda>ip. ip \<noteq> ''127.0.0.1'') ips = None" using assms(2) by (auto simp: find_None_iff)
  then show ?thesis using assms(1) by (simp add: GetLocalIp_win_def HostIp_loop_find)
qed

subsection \<open>Connecting\<close>

text \<open>The timeout is not used: \<open>connect\<close> waits as long as the system does.\<close>

definition TcpConnect_win :: "net \<Rightarrow> cstring \<Rightarrow> int \<Rightarrow> int \<Rightarrow> history \<Rightarrow> int \<times> history" where
  "TcpConnect_win env pszIp iPort iTimeout h =
     (let (szIp, h) = Connect_ip env pszIp h;
          fam = (if CHR '':'' \<in> set szIp then AF_INET6 else AF_INET);
          (fd, h) = sys env (N_socket AF_INET True) h
      in if fd = INVALID_SOCKET then (INVALID_SOCKET, h)
         else let (n, h) = sys env (N_connect fd fam (inet_pton env fam szIp Unset) (htons iPort)) h
              in if n = SOCKET_ERROR then (INVALID_SOCKET, sysv (N_close fd) h) else (fd, h))"

lemma TcpConnect_win_untimed: "TcpConnect_win env pszIp iPort iTimeout h = TcpConnect env pszIp iPort 0 h"
  by (simp add: TcpConnect_win_def TcpConnect_def Connect_addr_def Let_def split: prod.split)

subsection \<open>The listening socket\<close>

definition TcpListenNotReuse :: "net \<Rightarrow> int \<Rightarrow> int \<Rightarrow> cstring option \<Rightarrow> history \<Rightarrow> int \<times> history" where
  "TcpListenNotReuse env iPort iListenQ pszIp h =
     (let (fd, h) = sys env (N_socket AF_INET True) h
      in if fd = INVALID_SOCKET then (INVALID_SOCKET, h)
         else let addr = (case pszIp of None \<Rightarrow> Any_addr | Some ip \<Rightarrow> inet_pton env AF_INET ip Any_addr);
                  (n, h) = sys env (N_bind fd AF_INET addr (htons iPort)) h
              in if n = SOCKET_ERROR then (INVALID_SOCKET, sysv (N_close fd) h)
                 else let (n, h) = sys env (N_listen fd iListenQ) h
                      in if n = SOCKET_ERROR then (INVALID_SOCKET, sysv (N_close fd) h) else (fd, h))"

text \<open>The loop over the ports of \<open>PipeThread\<close>: the socket and its port.\<close>

function Pipe_listen :: "net \<Rightarrow> int \<Rightarrow> history \<Rightarrow> (int \<times> int) \<times> history" where
  "Pipe_listen env iPort h =
     (if iPort < 65535
      then let (hListenFd, h) = TcpListenNotReuse env iPort 255 (Some ''127.0.0.1'') h
           in if hListenFd \<noteq> INVALID_SOCKET then ((hListenFd, iPort), h) else Pipe_listen env (iPort + 1) h
      else ((INVALID_SOCKET, iPort), h))"
  by pat_completeness auto
termination Pipe_listen by (relation "measure (\<lambda>(env, iPort, h). nat (65535 - iPort))") auto

declare Pipe_listen.simps [simp del]

text \<open>The search leaves one socket open, the one that it found, or none, and the port is one of the range.\<close>

lemma TcpListenNotReuse_gained:
  assumes "fresh_fds env"
  shows "case TcpListenNotReuse env iPort n ip h of (fd, h') \<Rightarrow> gained env fd h h'"
  using assms by (auto simp: TcpListenNotReuse_def gained_def fresh_fds_def sys_def sysv_def Let_def)

lemma Pipe_listen_gained:
  "fresh_fds env \<Longrightarrow> Pipe_listen env iPort h = ((fd, p), h') \<Longrightarrow>
    gained env fd h h' \<and> (fd \<noteq> INVALID_SOCKET \<longrightarrow> iPort \<le> p \<and> p < 65535)"
proof (induction env iPort h rule: Pipe_listen.induct)
  case (1 env iPort h)
  define r where "r = TcpListenNotReuse env iPort 255 (Some ''127.0.0.1'') h"
  obtain s h1 where s: "r = (s, h1)" by (cases r)
  have g: "gained env s h h1" using TcpListenNotReuse_gained [OF 1(2), where iPort = iPort and n = 255 and ip = "Some ''127.0.0.1''" and h = h] s by (simp add: r_def)
  consider "\<not> iPort < 65535" | "iPort < 65535" "s \<noteq> INVALID_SOCKET" | "iPort < 65535" "s = INVALID_SOCKET" by blast
  then show ?case
  proof cases
    case 3
    then have "Pipe_listen env (iPort + 1) h1 = ((fd, p), h')" using 1(3) s by (simp add: Pipe_listen.simps [of env iPort] r_def)
    then have "gained env fd h1 h' \<and> (fd \<noteq> INVALID_SOCKET \<longrightarrow> iPort + 1 \<le> p \<and> p < 65535)"
      using 1(1) [OF 3(1)] 1(2) 3(2) s by (simp add: r_def)
    then show ?thesis using g 3(2) by (auto simp: gained_def)
  qed (use 1(3) s g in \<open>simp_all add: Pipe_listen.simps [of env iPort] r_def gained_def\<close>)
qed

end
