(* ===== verification/WinPipe.thy ===== *)
theory WinPipe
  imports SocketsWin
begin

text \<open>
  SipPlatform/SipTcp.cpp on Windows: \<open>pipe\<close> as a connection of the process to itself. Any number of threads call \<open>pipe\<close>, and
  each \<open>PipeThread\<close> accepts connections on its port and sends to each of them the number of its own end. What the
  network answers (failures, the order of the connections) is the choice of the steps; sockets are numbered in
  the order in which the system hands them out.
\<close>

subsection \<open>The two ends\<close>

text \<open>The next statement of a pipe thread: the search for a port, the publication in \<open>giListenPort\<close>, \<open>accept\<close>, \<open>send\<close> to
  connection \<open>k\<close> of the socket \<open>hConnFd\<close>.\<close>

datatype pipe_thread = PT_listen int | PT_publish int | PT_accept int | PT_send int nat nat | PT_end

text \<open>The next statement of a caller: \<open>CreateThread\<close>, the flag, the wait for the port, its test with \<open>TcpConnect\<close>, \<open>recv\<close> on
  connection \<open>k\<close>; the result with \<open>filedes[0]\<close> and \<open>filedes[1]\<close>.\<close>

datatype pipe_caller = PC_out | PC_create | PC_started | PC_wait nat | PC_connect | PC_recv nat | PC_done "(nat \<times> nat) option"

text \<open>A connection to the listening port: its two sockets, and what was sent to the client and not yet received.\<close>

record connection =
  cn_port :: int
  cn_client :: nat
  cn_server :: "nat option"
  cn_data :: "nat option"

record pipesys =
  gbIsStartPipeThread :: bool
  giListenPort :: int
  ps_threads :: "pipe_thread list"
  ps_callers :: "nat \<Rightarrow> pipe_caller"
  ps_conns :: "connection list"
  ps_fresh :: nat

definition pipesys_new :: pipesys where
  "pipesys_new = \<lparr>gbIsStartPipeThread = False, giListenPort = 0, ps_threads = [], ps_callers = \<lambda>_. PC_out, ps_conns = [], ps_fresh = 0\<rparr>"

definition thread_goes :: "nat \<Rightarrow> pipe_thread \<Rightarrow> pipesys \<Rightarrow> pipesys" where
  "thread_goes i p S = S\<lparr>ps_threads := (ps_threads S)[i := p]\<rparr>"

definition caller_goes :: "nat \<Rightarrow> pipe_caller \<Rightarrow> pipesys \<Rightarrow> pipesys" where
  "caller_goes t p S = S\<lparr>ps_callers := (ps_callers S)(t := p)\<rparr>"

definition thread_is :: "pipesys \<Rightarrow> nat \<Rightarrow> pipe_thread \<Rightarrow> bool" where
  "thread_is S i p \<longleftrightarrow> i < length (ps_threads S) \<and> ps_threads S ! i = p"

definition set_conn :: "nat \<Rightarrow> (connection \<Rightarrow> connection) \<Rightarrow> pipesys \<Rightarrow> pipesys" where
  "set_conn k f S = S\<lparr>ps_conns := (ps_conns S)[k := f (ps_conns S ! k)]\<rparr>"

inductive pipe_step :: "pipesys \<Rightarrow> pipesys \<Rightarrow> bool" where
  pp_listen: "thread_is S i (PT_listen p) \<Longrightarrow> p < 65535 \<Longrightarrow> pipe_step S (thread_goes i (if ok then PT_publish p else PT_listen (p + 1)) S)"
| pp_no_port: "thread_is S i (PT_listen p) \<Longrightarrow> p \<ge> 65535 \<Longrightarrow> pipe_step S (thread_goes i PT_end S)"
| pp_publish: "thread_is S i (PT_publish p) \<Longrightarrow> pipe_step S (thread_goes i (PT_accept p) (S\<lparr>giListenPort := p\<rparr>))"
| pp_accept: "thread_is S i (PT_accept p) \<Longrightarrow> k < length (ps_conns S) \<Longrightarrow> cn_port (ps_conns S ! k) = p \<Longrightarrow>
    cn_server (ps_conns S ! k) = None \<Longrightarrow> h = ps_fresh S \<Longrightarrow>
    pipe_step S (thread_goes i (PT_send p k h) (set_conn k (\<lambda>c. c\<lparr>cn_server := Some h\<rparr>) (S\<lparr>ps_fresh := h + 1\<rparr>)))"
| pp_accept_fails: "thread_is S i (PT_accept p) \<Longrightarrow> pipe_step S (thread_goes i PT_end S)"
| pp_send: "thread_is S i (PT_send p k h) \<Longrightarrow>
    pipe_step S (thread_goes i (PT_accept p) (if ok then set_conn k (\<lambda>c. c\<lparr>cn_data := Some h\<rparr>) S else S))"
| pp_call: "ps_callers S t = PC_out \<Longrightarrow> pipe_step S (caller_goes t (if gbIsStartPipeThread S then PC_connect else PC_create) S)"
| pp_create: "ps_callers S t = PC_create \<Longrightarrow> pipe_step S (caller_goes t PC_started (S\<lparr>ps_threads := ps_threads S @ [PT_listen 1024]\<rparr>))"
| pp_create_fails: "ps_callers S t = PC_create \<Longrightarrow> pipe_step S (caller_goes t (PC_done None) S)"
| pp_started: "ps_callers S t = PC_started \<Longrightarrow> pipe_step S (caller_goes t (PC_wait 0) (S\<lparr>gbIsStartPipeThread := True\<rparr>))"
| pp_wait: "ps_callers S t = PC_wait n \<Longrightarrow>
    pipe_step S (caller_goes t (if n < 50 \<and> giListenPort S = 0 then PC_wait (n + 1) else PC_connect) S)"
| pp_no_listener: "ps_callers S t = PC_connect \<Longrightarrow> giListenPort S = 0 \<Longrightarrow> pipe_step S (caller_goes t (PC_done None) S)"
| pp_connect: "ps_callers S t = PC_connect \<Longrightarrow> giListenPort S \<noteq> 0 \<Longrightarrow> h = ps_fresh S \<Longrightarrow>
    pipe_step S (caller_goes t (PC_recv (length (ps_conns S))) (S\<lparr>ps_fresh := h + 1,
      ps_conns := ps_conns S @ [\<lparr>cn_port = giListenPort S, cn_client = h, cn_server = None, cn_data = None\<rparr>]\<rparr>))"
| pp_connect_fails: "ps_callers S t = PC_connect \<Longrightarrow> giListenPort S \<noteq> 0 \<Longrightarrow> pipe_step S (caller_goes t (PC_done None) S)"
| pp_recv: "ps_callers S t = PC_recv k \<Longrightarrow> cn_data (ps_conns S ! k) = Some h \<Longrightarrow>
    pipe_step S (caller_goes t (PC_done (Some (h, cn_client (ps_conns S ! k)))) S)"
| pp_recv_fails: "ps_callers S t = PC_recv k \<Longrightarrow> pipe_step S (caller_goes t (PC_done None) S)"
| pp_again: "ps_callers S t = PC_done r \<Longrightarrow> pipe_step S (caller_goes t PC_out S)"

inductive pipe_reach :: "pipesys \<Rightarrow> bool" where
  pp_init: "pipe_reach pipesys_new"
| pp_next: "pipe_reach S \<Longrightarrow> pipe_step S S' \<Longrightarrow> pipe_reach S'"

subsection \<open>Ownership of the sockets\<close>

text \<open>The sockets of a connection.\<close>

definition ends :: "connection \<Rightarrow> nat list" where
  "ends c = cn_client c # (case cn_server c of None \<Rightarrow> [] | Some h \<Rightarrow> [h])"

text \<open>Which connection a caller or a pipe thread works on.\<close>

fun of_caller :: "connection list \<Rightarrow> pipe_caller \<Rightarrow> bool" where
  "of_caller cs (PC_recv k) \<longleftrightarrow> k < length cs"
| "of_caller cs (PC_done (Some (a, b))) \<longleftrightarrow> (\<exists>c \<in> set cs. cn_server c = Some a \<and> cn_client c = b)"
| "of_caller cs _ \<longleftrightarrow> True"

text \<open>The client end that a caller has.\<close>

fun client_of :: "connection list \<Rightarrow> pipe_caller \<Rightarrow> nat option" where
  "client_of cs (PC_recv k) = Some (cn_client (cs ! k))"
| "client_of cs (PC_done (Some (a, b))) = Some b"
| "client_of cs _ = None"

definition clients_apart :: "connection list \<Rightarrow> (nat \<Rightarrow> pipe_caller) \<Rightarrow> bool" where
  "clients_apart cs ts \<longleftrightarrow> (\<forall>t u x. client_of cs (ts t) = Some x \<longrightarrow> client_of cs (ts u) = Some x \<longrightarrow> t = u)"

fun of_thread :: "connection list \<Rightarrow> pipe_thread \<Rightarrow> bool" where
  "of_thread cs (PT_send p k h) \<longleftrightarrow> k < length cs \<and> cn_server (cs ! k) = Some h"
| "of_thread cs _ \<longleftrightarrow> True"

definition pipe_inv :: "pipesys \<Rightarrow> bool" where
  "pipe_inv S \<longleftrightarrow> (\<forall>t. of_caller (ps_conns S) (ps_callers S t)) \<and> (\<forall>p \<in> set (ps_threads S). of_thread (ps_conns S) p) \<and>
     (\<forall>c \<in> set (ps_conns S). cn_data c = None \<or> cn_data c = cn_server c) \<and>
     distinct (concat (map ends (ps_conns S))) \<and> (\<forall>h \<in> set (concat (map ends (ps_conns S))). h < ps_fresh S) \<and>
     clients_apart (ps_conns S) (ps_callers S)"

text \<open>What a step may do to the connections: more of them, and a missing server end filled in.\<close>

definition conns_grow :: "connection list \<Rightarrow> connection list \<Rightarrow> bool" where
  "conns_grow cs cs' \<longleftrightarrow> length cs \<le> length cs' \<and> (\<forall>k < length cs. cn_client (cs' ! k) = cn_client (cs ! k) \<and>
     (cn_server (cs ! k) \<noteq> None \<longrightarrow> cn_server (cs' ! k) = cn_server (cs ! k)))"

lemma conns_grow_refl: "conns_grow cs cs"
  by (simp add: conns_grow_def)

lemma of_caller_grow: "of_caller cs p \<Longrightarrow> conns_grow cs cs' \<Longrightarrow> of_caller cs' p"
proof (induction cs p rule: of_caller.induct)
  case (2 cs a b)
  then obtain k where k: "k < length cs" "cn_server (cs ! k) = Some a" "cn_client (cs ! k) = b"
    by (auto simp: in_set_conv_nth)
  then have "cs' ! k \<in> set cs' \<and> cn_server (cs' ! k) = Some a \<and> cn_client (cs' ! k) = b"
    using 2(2) by (auto simp: conns_grow_def)
  then show ?case by auto
qed (auto simp: conns_grow_def)

lemma of_thread_grow: "of_thread cs p \<Longrightarrow> conns_grow cs cs' \<Longrightarrow> of_thread cs' p"
  by (cases p) (auto simp: conns_grow_def)

lemma ends_accept:
  assumes "k < length cs" and "cn_server (cs ! k) = None" and "h \<notin> set (concat (map ends cs))" and "distinct (concat (map ends cs))"
  defines "cs' \<equiv> cs[k := (cs ! k)\<lparr>cn_server := Some h\<rparr>]"
  shows "distinct (concat (map ends cs')) \<and> set (concat (map ends cs')) = insert h (set (concat (map ends cs)))"
  using assms(1-4) unfolding cs'_def
proof (induction cs arbitrary: k)
  case (Cons c cs)
  show ?case
  proof (cases k)
    case 0
    with Cons.prems show ?thesis by (auto simp: ends_def)
  next
    case (Suc j)
    with Cons.IH [of j] Cons.prems show ?thesis by auto
  qed
qed simp

lemma client_of_grow: "of_caller cs p \<Longrightarrow> conns_grow cs cs' \<Longrightarrow> client_of cs' p = client_of cs p"
  by (cases "(cs, p)" rule: client_of.cases) (auto simp: conns_grow_def)

lemma client_in: "of_caller cs p \<Longrightarrow> client_of cs p = Some x \<Longrightarrow> x \<in> set (concat (map ends cs))"
  by (cases "(cs, p)" rule: client_of.cases) (auto simp: ends_def)

lemma clients_apart_grow: "(\<And>t. of_caller cs (ts t)) \<Longrightarrow> conns_grow cs cs' \<Longrightarrow> clients_apart cs ts \<Longrightarrow> clients_apart cs' ts"
  using client_of_grow [of cs "ts _" cs'] by (simp add: clients_apart_def)

lemma clients_apart_keep:
  "clients_apart cs ts \<Longrightarrow> (\<And>t. client_of cs (ts' t) \<in> {None, client_of cs (ts t)}) \<Longrightarrow> clients_apart cs ts'"
  unfolding clients_apart_def by (metis insertE option.distinct(1) singletonD)

text \<open>Steps that leave the connections alone.\<close>

lemma pipe_inv_keep:
  assumes "pipe_inv S" and "ps_conns S' = ps_conns S" and "ps_fresh S' = ps_fresh S"
    and "\<And>t. ps_callers S' t = ps_callers S t \<or> of_caller (ps_conns S) (ps_callers S' t)"
    and "\<And>p. p \<in> set (ps_threads S') \<Longrightarrow> p \<in> set (ps_threads S) \<or> of_thread (ps_conns S) p"
    and "\<And>t. client_of (ps_conns S) (ps_callers S' t) \<in> {None, client_of (ps_conns S) (ps_callers S t)}"
  shows "pipe_inv S'"
proof -
  have "clients_apart (ps_conns S) (ps_callers S')"
    by (rule clients_apart_keep [OF _ assms(6)]) (use assms(1) in \<open>simp add: pipe_inv_def\<close>)
  moreover have "of_caller (ps_conns S) (ps_callers S' t)" for t using assms(1) assms(4) [of t] by (auto simp: pipe_inv_def)
  moreover have "of_thread (ps_conns S) p" if "p \<in> set (ps_threads S')" for p
    using assms(1) assms(5) [OF that] by (auto simp: pipe_inv_def)
  ultimately show ?thesis using assms(1-3) by (simp add: pipe_inv_def)
qed

lemma threads_update: "p \<in> set (xs[i := y]) \<Longrightarrow> p \<in> set xs \<or> p = y"
  using set_update_subset_insert [of xs i y] by auto

lemma caller_at: "pipe_inv S \<Longrightarrow> of_caller (ps_conns S) (ps_callers S t)"
  by (simp add: pipe_inv_def)

lemma thread_at_inv: "pipe_inv S \<Longrightarrow> thread_is S i p \<Longrightarrow> of_thread (ps_conns S) p"
  by (auto simp: pipe_inv_def thread_is_def)

lemma accept_inv:
  assumes "pipe_inv S" and "k < length (ps_conns S)" "cn_server (ps_conns S ! k) = None" and "h = ps_fresh S"
  shows "pipe_inv (thread_goes i (PT_send p k h) (set_conn k (\<lambda>c. c\<lparr>cn_server := Some h\<rparr>) (S\<lparr>ps_fresh := h + 1\<rparr>)))"
proof -
  let ?cs = "ps_conns S" and ?cs' = "(ps_conns S)[k := (ps_conns S ! k)\<lparr>cn_server := Some h\<rparr>]"
  have g: "conns_grow ?cs ?cs'" using assms(2,3) by (auto simp: conns_grow_def nth_list_update)
  have e: "distinct (concat (map ends ?cs')) \<and> set (concat (map ends ?cs')) = insert h (set (concat (map ends ?cs)))"
    by (rule ends_accept) (use assms in \<open>auto simp: pipe_inv_def\<close>)
  have "cn_data c = None \<or> cn_data c = cn_server c" if "c \<in> set ?cs'" for c
    using threads_update [OF that] assms(1-3) by (auto simp: pipe_inv_def dest: nth_mem)
  moreover have "of_thread ?cs' q" if "q \<in> set ((ps_threads S)[i := PT_send p k h])" for q
    using threads_update [OF that] assms(1,2) g of_thread_grow by (auto simp: pipe_inv_def)
  moreover have "of_caller ?cs' (ps_callers S t)" for t using caller_at [OF assms(1)] g by (rule of_caller_grow)
  moreover have "clients_apart ?cs' (ps_callers S)"
    by (rule clients_apart_grow [OF caller_at [OF assms(1)] g]) (use assms(1) in \<open>simp add: pipe_inv_def\<close>)
  ultimately show ?thesis
    using e assms(1,4) by (auto simp: pipe_inv_def thread_goes_def set_conn_def less_Suc_eq)
qed

lemma connect_inv:
  assumes "pipe_inv S" and "h = ps_fresh S"
  shows "pipe_inv (caller_goes t (PC_recv (length (ps_conns S))) (S\<lparr>ps_fresh := h + 1,
    ps_conns := ps_conns S @ [\<lparr>cn_port = p, cn_client = h, cn_server = None, cn_data = None\<rparr>]\<rparr>))"
proof -
  let ?cs = "ps_conns S @ [\<lparr>cn_port = p, cn_client = h, cn_server = None, cn_data = None\<rparr>]"
  have g: "conns_grow (ps_conns S) ?cs" by (simp add: conns_grow_def nth_append)
  have "of_caller ?cs (ps_callers S u)" for u using caller_at [OF assms(1)] g by (rule of_caller_grow)
  moreover have "of_thread ?cs q" if "q \<in> set (ps_threads S)" for q
    using of_thread_grow [OF _ g] assms(1) that by (auto simp: pipe_inv_def)
  moreover have "clients_apart ?cs ((ps_callers S)(t := PC_recv (length (ps_conns S))))"
  proof -
    have "clients_apart ?cs (ps_callers S)"
      by (rule clients_apart_grow [OF caller_at [OF assms(1)] g]) (use assms(1) in \<open>simp add: pipe_inv_def\<close>)
    moreover have "client_of ?cs (ps_callers S u) \<noteq> Some h" for u
    proof
      assume "client_of ?cs (ps_callers S u) = Some h"
      then have "h \<in> set (concat (map ends (ps_conns S)))"
        using client_in [OF caller_at [OF assms(1)]] client_of_grow [OF caller_at [OF assms(1)] g, of u] by simp
      then show False using assms unfolding pipe_inv_def by blast
    qed
    ultimately show ?thesis by (auto simp: clients_apart_def)
  qed
  ultimately show ?thesis using assms by (auto simp: pipe_inv_def caller_goes_def ends_def less_Suc_eq)
qed

lemma send_inv:
  assumes "pipe_inv S" and "thread_is S i (PT_send p k h)"
  shows "pipe_inv (thread_goes i (PT_accept p) (set_conn k (\<lambda>c. c\<lparr>cn_data := Some h\<rparr>) S))"
proof -
  let ?cs = "ps_conns S" and ?cs' = "(ps_conns S)[k := (ps_conns S ! k)\<lparr>cn_data := Some h\<rparr>]"
  have k: "k < length ?cs" "cn_server (?cs ! k) = Some h" using thread_at_inv [OF assms] by simp_all
  have g: "conns_grow ?cs ?cs'" using k(1) by (auto simp: conns_grow_def nth_list_update)
  have "map ends ?cs' = map ends ?cs"
    using k(1) by (intro nth_equalityI) (auto simp: nth_list_update ends_def)
  moreover have "cn_data c = None \<or> cn_data c = cn_server c" if "c \<in> set ?cs'" for c
    using threads_update [OF that] assms(1) k by (auto simp: pipe_inv_def)
  moreover have "of_thread ?cs' q" if "q \<in> set ((ps_threads S)[i := PT_accept p])" for q
    using threads_update [OF that] assms(1) g of_thread_grow by (auto simp: pipe_inv_def)
  moreover have "of_caller ?cs' (ps_callers S t)" for t using caller_at [OF assms(1)] g by (rule of_caller_grow)
  moreover have "clients_apart ?cs' (ps_callers S)"
    by (rule clients_apart_grow [OF caller_at [OF assms(1)] g]) (use assms(1) in \<open>simp add: pipe_inv_def\<close>)
  ultimately show ?thesis using assms(1) by (simp add: pipe_inv_def thread_goes_def set_conn_def)
qed

lemma pipe_step_inv: "pipe_step S S' \<Longrightarrow> pipe_inv S \<Longrightarrow> pipe_inv S'"
proof (induction rule: pipe_step.induct)
  case (pp_accept S i p k h)
  then show ?case by (intro accept_inv)
next
  case (pp_connect S t h)
  then show ?case by (intro connect_inv)
next
  case (pp_send S i p k h ok)
  show ?case
  proof (cases ok)
    case True
    then show ?thesis using send_inv [OF pp_send(2,1)] by simp
  next
    case False
    then show ?thesis using pp_send(2)
      by (intro pipe_inv_keep [OF pp_send(2)]) (auto simp: thread_goes_def dest!: threads_update)
  qed
next
  case (pp_recv S t k h)
  have k: "k < length (ps_conns S)" using caller_at [OF pp_recv(3), of t] pp_recv(1) by simp
  then have "cn_server (ps_conns S ! k) = Some h" using pp_recv(2,3) by (fastforce simp: pipe_inv_def dest: nth_mem)
  then have "of_caller (ps_conns S) (PC_done (Some (h, cn_client (ps_conns S ! k))))" using k by auto
  then show ?case using pp_recv(1) by (intro pipe_inv_keep [OF pp_recv(3)]) (auto simp: caller_goes_def)
qed ((rule pipe_inv_keep, assumption; auto simp: thread_goes_def caller_goes_def dest!: threads_update split: if_splits; fail)+)

lemma pipe_reach_inv: "pipe_reach S \<Longrightarrow> pipe_inv S"
  by (induction rule: pipe_reach.induct) (simp add: pipe_inv_def pipesys_new_def clients_apart_def, rule pipe_step_inv)

text \<open>No socket is in two connections, or both ends of one.\<close>

lemma ends_apart:
  "distinct (concat (map ends cs)) \<Longrightarrow> c \<in> set cs \<Longrightarrow> d \<in> set cs \<Longrightarrow> h \<in> set (ends c) \<Longrightarrow> h \<in> set (ends d) \<Longrightarrow>
    ends c = ends d \<and> distinct (ends c)"
  by (induction cs) auto

text \<open>C20: The two sockets that \<open>pipe\<close> returns are the two ends of one connection, different from each other, and no two callers
  share a socket, however the callers, the pipe threads (two of them when two first calls overlap) and the
  network interleave.\<close>

theorem pipe_ends_connected:
  assumes "pipe_reach S" and "ps_callers S t = PC_done (Some (a, b))"
  shows "(\<exists>c \<in> set (ps_conns S). cn_server c = Some a \<and> cn_client c = b) \<and> a \<noteq> b \<and>
    (\<forall>u a' b'. u \<noteq> t \<longrightarrow> ps_callers S u = PC_done (Some (a', b')) \<longrightarrow> {a, b} \<inter> {a', b'} = {})"
proof -
  have inv: "pipe_inv S" using pipe_reach_inv [OF assms(1)] .
  then have dis: "distinct (concat (map ends (ps_conns S)))" by (simp add: pipe_inv_def)
  have own: "\<exists>c \<in> set (ps_conns S). cn_server c = Some x \<and> cn_client c = y \<and> ends c = [y, x]"
    if "ps_callers S u = PC_done (Some (x, y))" for u x y
    using caller_at [OF inv, of u] that by (auto simp: ends_def)
  from own [OF assms(2)] obtain c where c: "c \<in> set (ps_conns S)" "cn_server c = Some a" "cn_client c = b" "ends c = [b, a]" by blast
  have "{a, b} \<inter> {a', b'} = {}" if u: "u \<noteq> t" "ps_callers S u = PC_done (Some (a', b'))" for u a' b'
  proof (rule ccontr)
    from own [OF u(2)] obtain d where d: "d \<in> set (ps_conns S)" "ends d = [b', a']" by blast
    assume "{a, b} \<inter> {a', b'} \<noteq> {}"
    then obtain h where "h \<in> set (ends c)" "h \<in> set (ends d)" using c(4) d(2) by auto
    with ends_apart [OF dis c(1) d(1)] have "ends c = ends d" by blast
    then have "b' = b" using c(4) d(2) by simp
    then have "client_of (ps_conns S) (ps_callers S t) = Some b" "client_of (ps_conns S) (ps_callers S u) = Some b"
      using assms(2) u(2) by simp_all
    then show False using inv u(1) by (auto simp: pipe_inv_def clients_apart_def)
  qed
  moreover have "a \<noteq> b" using ends_apart [OF dis c(1) c(1), of a] c(4) by auto
  ultimately show ?thesis using c(1-3) by blast
qed

theorem pipe_ends_connected_witness:
  "\<exists>S. pipe_reach S \<and> ps_callers S 7 = PC_done (Some (1, 0)) \<and> length (ps_conns S) = 1 \<and>
    cn_server (ps_conns S ! 0) = Some 1 \<and> cn_client (ps_conns S ! 0) = 0"
proof -
  define M where "M f lp ts p cs n = \<lparr>gbIsStartPipeThread = f, giListenPort = lp, ps_threads = ts,
    ps_callers = (\<lambda>_. PC_out)(7 := p), ps_conns = cs, ps_fresh = n\<rparr>" for f lp ts p cs n
  let ?c = "\<lambda>s d. \<lparr>cn_port = 1024, cn_client = 0, cn_server = s, cn_data = d\<rparr>"
  note nx = pp_next and M = M_def caller_goes_def thread_goes_def set_conn_def thread_is_def pipesys_new_def
  have "pipe_reach (M False 0 [] PC_create [] 0)" using nx [OF pp_init pp_call [of _ 7]] by (simp add: M)
  from nx [OF this pp_create [of _ 7]] have "pipe_reach (M False 0 [PT_listen 1024] PC_started [] 0)" by (simp add: M)
  from nx [OF this pp_started [of _ 7]] have "pipe_reach (M True 0 [PT_listen 1024] (PC_wait 0) [] 0)" by (simp add: M)
  from nx [OF this pp_listen [of _ 0 1024 True]] have "pipe_reach (M True 0 [PT_publish 1024] (PC_wait 0) [] 0)" by (simp add: M)
  from nx [OF this pp_publish [of _ 0 1024]] have "pipe_reach (M True 1024 [PT_accept 1024] (PC_wait 0) [] 0)" by (simp add: M)
  from nx [OF this pp_wait [of _ 7 0]] have "pipe_reach (M True 1024 [PT_accept 1024] PC_connect [] 0)" by (simp add: M)
  from nx [OF this pp_connect [of _ 7 0]] have "pipe_reach (M True 1024 [PT_accept 1024] (PC_recv 0) [?c None None] 1)" by (simp add: M)
  from nx [OF this pp_accept [of _ 0 1024 0 1]] have "pipe_reach (M True 1024 [PT_send 1024 0 1] (PC_recv 0) [?c (Some 1) None] 2)"
    by (simp add: M numeral_2_eq_2)
  from nx [OF this pp_send [of _ 0 1024 0 1 True]] have "pipe_reach (M True 1024 [PT_accept 1024] (PC_recv 0) [?c (Some 1) (Some 1)] 2)"
    by (simp add: M)
  from nx [OF this pp_recv [of _ 7 0 1]] have r: "pipe_reach (M True 1024 [PT_accept 1024] (PC_done (Some (1, 0))) [?c (Some 1) (Some 1)] 2)"
    by (simp add: M)
  moreover have d: "ps_callers (M True 1024 [PT_accept 1024] (PC_done (Some (1, 0))) [?c (Some 1) (Some 1)] 2) 7 = PC_done (Some (1, 0))"
    by (simp add: M)
  moreover from pipe_ends_connected [OF r d] have "length (ps_conns (M True 1024 [PT_accept 1024] (PC_done (Some (1, 0))) [?c (Some 1) (Some 1)] 2)) = 1 \<and>
      cn_server (ps_conns (M True 1024 [PT_accept 1024] (PC_done (Some (1, 0))) [?c (Some 1) (Some 1)] 2) ! 0) = Some 1 \<and>
      cn_client (ps_conns (M True 1024 [PT_accept 1024] (PC_done (Some (1, 0))) [?c (Some 1) (Some 1)] 2) ! 0) = 0"
    by (simp add: M)
  ultimately show ?thesis by (intro exI conjI) (assumption, blast+)
qed

text \<open>A caller whose \<open>recv\<close> fails closes its own end only; the pipe thread has accepted the other one and keeps no note of
  it.\<close>

lemma pipe_failure_forgets_server:
  "pipe_inv S \<Longrightarrow> ps_callers S t = PC_recv k \<Longrightarrow> cn_server (ps_conns S ! k) = Some h \<Longrightarrow>
    pipe_step S (caller_goes t (PC_done None) S) \<and> cn_server (ps_conns (caller_goes t (PC_done None) S) ! k) = Some h"
  using pp_recv_fails [of S t k] by (simp add: caller_goes_def)

text \<open>The flag is set after \<open>CreateThread\<close>: two first calls that overlap create two pipe threads.\<close>

lemma two_pipe_threads: "\<exists>S. pipe_reach S \<and> length (ps_threads S) = 2"
proof -
  have "pipe_reach (caller_goes 1 PC_create pipesys_new)" using pp_next [OF pp_init pp_call [of _ 1]] by (simp add: pipesys_new_def)
  from pp_next [OF this pp_call [of _ 2]] have "pipe_reach (caller_goes 2 PC_create (caller_goes 1 PC_create pipesys_new))"
    by (simp add: pipesys_new_def caller_goes_def)
  from pp_next [OF this pp_create [of _ 1]] obtain S where "pipe_reach S" "ps_callers S 2 = PC_create" "ps_threads S = [PT_listen 1024]"
    by (simp add: pipesys_new_def caller_goes_def)
  with pp_next [OF this(1) pp_create [OF this(2)]] show ?thesis by (intro exI conjI) (assumption, simp add: caller_goes_def)
qed

end
