(* ===== verification/DirectoryWin.thy ===== *)
theory DirectoryWin
  imports DirectorySpec
begin

text \<open>
  The branches for Windows of Directory.cpp. The tree is the one of FileSystem: Windows takes both the slash and the
  backslash as a separator, so a path \<open>p\<close> leads where \<open>wpath p\<close> leads. \<open>FindFirstFile\<close> with \<open>FindNextFile\<close> delivers the
  entries with their attributes and sizes.
\<close>

definition WIN_SEP :: char where "WIN_SEP = CHR 0x5C"

definition wpath :: "cstring \<Rightarrow> cstring" where
  "wpath p = map (\<lambda>c. if c = WIN_SEP then DIR_SEP else c) p"

definition FindFirstFile :: "os \<Rightarrow> cstring \<Rightarrow> fnode \<Rightarrow> (string \<times> fnode) list option" where
  "FindFirstFile os pszDirName fs = opendir os (if pszDirName = [] then [DIR_SEP] else wpath pszDirName) fs"

definition FILE_ATTRIBUTE_DIRECTORY :: int where "FILE_ATTRIBUTE_DIRECTORY = 16"

definition node_attributes :: "fnode \<Rightarrow> int" where
  "node_attributes n = (case n of Dir es \<Rightarrow> FILE_ATTRIBUTE_DIRECTORY | File s \<Rightarrow> 128)"

definition GetFileAttributes :: "fnode \<Rightarrow> cstring \<Rightarrow> int" where
  "GetFileAttributes fs p = (case stat fs (wpath p) of None \<Rightarrow> - 1 | Some n \<Rightarrow> node_attributes n)"

text \<open>\<open>WIN32_FIND_DATA\<close> of an entry; the size is two numbers of 32 bits.\<close>

record find_data =
  cFileName :: string
  dwFileAttributes :: int
  nFileSizeHigh :: int
  nFileSizeLow :: int

definition find_of :: "string \<times> fnode \<Rightarrow> find_data" where
  "find_of e = (let s = (case snd e of File s \<Rightarrow> s | Dir es \<Rightarrow> 0)
     in \<lparr>cFileName = fst e, dwFileAttributes = node_attributes (snd e), nFileSizeHigh = s div 2 ^ 32 mod 2 ^ 32, nFileSizeLow = s mod 2 ^ 32\<rparr>)"

definition find_is_dir :: "int \<Rightarrow> bool" where
  "find_is_dir a \<longleftrightarrow> a div 16 mod 2 = 1"

definition find_error :: "cstring \<Rightarrow> log_event" where
  "find_error pszDirName = (LOG_ERROR, ''FindFirstFile('' @ pszDirName @ '') error(?)'')"

subsection \<open>The operations\<close>

definition AppendName_win :: "string \<Rightarrow> cstring \<Rightarrow> string" where
  "AppendName_win strFileName pszAppend = strFileName @ [WIN_SEP] @ pszAppend"

definition GetDirName_win :: "cstring \<Rightarrow> string" where
  "GetDirName_win pszFilePath =
     (case find_back WIN_SEP pszFilePath (length pszFilePath) of Some i \<Rightarrow> take i pszFilePath | None \<Rightarrow> [])"

definition GetFileName_win :: "cstring \<Rightarrow> string" where
  "GetFileName_win pszFilePath =
     (case find_back WIN_SEP pszFilePath (length pszFilePath) of Some i \<Rightarrow> drop (i + 1) pszFilePath | None \<Rightarrow> [])"

definition IsDirectoryCheck_win :: "fnode \<Rightarrow> cstring \<Rightarrow> int" where
  "IsDirectoryCheck_win fs szDirName =
     (let iAttribute = GetFileAttributes fs szDirName
      in if iAttribute \<noteq> - 1 then if find_is_dir iAttribute then 0 else - 1 else - 2)"

definition CreateDirectory :: "os \<Rightarrow> cstring \<Rightarrow> fnode \<Rightarrow> fnode option" where
  "CreateDirectory os p fs = mkdir os (wpath p) fs"

fun Create_dirs_win :: "os \<Rightarrow> cstring \<Rightarrow> nat \<Rightarrow> cstring \<Rightarrow> fnode \<Rightarrow> bool \<times> fnode" where
  "Create_dirs_win os pszName iCount [] fs = (True, fs)"
| "Create_dirs_win os pszName iCount (c # cs) fs =
     (if c = WIN_SEP
      then if 2 \<le> iCount + 1
           then if IsDirectoryCheck_win fs pszName = - 1 then (False, fs)
                else if IsDirectoryCheck_win fs pszName = - 2
                then (case CreateDirectory os pszName fs of None \<Rightarrow> (False, fs)
                      | Some fs \<Rightarrow> Create_dirs_win os (pszName @ [c]) (iCount + 1) cs fs)
                else Create_dirs_win os (pszName @ [c]) (iCount + 1) cs fs
           else Create_dirs_win os (pszName @ [c]) (iCount + 1) cs fs
      else Create_dirs_win os (pszName @ [c]) iCount cs fs)"

definition Directory_Create_win :: "os \<Rightarrow> cstring \<Rightarrow> fnode \<Rightarrow> (bool \<times> fnode) option" where
  "Directory_Create_win os szDirName fs =
     (let (b, fs) = Create_dirs_win os [] 0 szDirName fs
      in if \<not> b then Some (False, fs)
      else if szDirName = [] then None
      else if last szDirName \<noteq> WIN_SEP
      then if IsDirectoryCheck_win fs szDirName = - 1 then Some (False, fs)
           else if IsDirectoryCheck_win fs szDirName = - 2
           then (case CreateDirectory os szDirName fs of None \<Rightarrow> Some (False, fs) | Some fs \<Rightarrow> Some (True, fs))
           else Some (True, fs)
      else Some (True, fs))"

fun List_win_loop :: "find_data list \<Rightarrow> string list \<Rightarrow> string list" where
  "List_win_loop [] clsFileList = clsFileList"
| "List_win_loop (f # fd) clsFileList =
     (if cFileName f = ''.'' \<or> cFileName f = ''..'' then List_win_loop fd clsFileList
      else List_win_loop fd (clsFileList @ [cFileName f]))"

definition Directory_List_win :: "os \<Rightarrow> fnode \<Rightarrow> cstring \<Rightarrow> (bool \<times> string list) \<times> log_event list" where
  "Directory_List_win os fs pszDirName =
     (case FindFirstFile os pszDirName fs of None \<Rightarrow> ((False, []), [find_error pszDirName])
      | Some es \<Rightarrow> ((True, List_win_loop (map find_of es) []), []))"

fun FileList_win_loop :: "find_data list \<Rightarrow> string list \<Rightarrow> string list" where
  "FileList_win_loop [] clsFileList = clsFileList"
| "FileList_win_loop (f # fd) clsFileList =
     (if cFileName f = ''.'' \<or> cFileName f = ''..'' then FileList_win_loop fd clsFileList
      else if find_is_dir (dwFileAttributes f) then FileList_win_loop fd clsFileList
      else FileList_win_loop fd (clsFileList @ [cFileName f]))"

definition FileList_win :: "os \<Rightarrow> fnode \<Rightarrow> cstring \<Rightarrow> (bool \<times> string list) \<times> log_event list" where
  "FileList_win os fs pszDirName =
     (case FindFirstFile os pszDirName fs of None \<Rightarrow> ((False, []), [find_error pszDirName])
      | Some es \<Rightarrow> ((True, FileList_win_loop (map find_of es) []), []))"

definition DeleteFile :: "os \<Rightarrow> cstring \<Rightarrow> fnode \<Rightarrow> fnode option" where
  "DeleteFile os p = unlink os (wpath p)"

definition RemoveDirectory :: "os \<Rightarrow> cstring \<Rightarrow> fnode \<Rightarrow> fnode option" where
  "RemoveDirectory os p = rmdir os (wpath p)"

fun delete_files :: "os \<Rightarrow> cstring \<Rightarrow> string list \<Rightarrow> fnode \<Rightarrow> fnode" where
  "delete_files os pszDirName [] fs = fs"
| "delete_files os pszDirName (n # ns) fs =
     delete_files os pszDirName ns (attempt (DeleteFile os (AppendName_win pszDirName (cstr n))) fs)"

definition DeleteAllFile_win :: "os \<Rightarrow> cstring \<Rightarrow> fnode \<Rightarrow> fnode \<times> log_event list" where
  "DeleteAllFile_win os pszDirName fs =
     (let ((_, clsFileList), evs) = FileList_win os fs pszDirName in (delete_files os pszDirName clsFileList fs, evs))"

text \<open>The size of a file from its two halves.\<close>

definition find_size :: "find_data \<Rightarrow> int" where
  "find_size f = u64 ((if 0 < nFileSizeHigh f then nFileSizeHigh f * 4294967296 else 0) + nFileSizeLow f)"

fun GetSize_win_dir :: "os \<Rightarrow> cstring \<Rightarrow> (string \<times> fnode) list \<Rightarrow> int \<times> log_event list" where
  "GetSize_win_dir os pszDirName [] = (0, [])"
| "GetSize_win_dir os pszDirName ((d_name, File s) # es) =
     (let (n, evs) = GetSize_win_dir os pszDirName es
      in if d_name = ''.'' \<or> d_name = ''..'' then (n, evs) else (u64 (find_size (find_of (d_name, File s)) + n), evs))"
| "GetSize_win_dir os pszDirName ((d_name, Dir ds) # es) =
     (let (n, evs) = GetSize_win_dir os pszDirName es
      in if d_name = ''.'' \<or> d_name = ''..'' then (n, evs)
         else let strFolder = AppendName_win pszDirName d_name
              in if \<not> may_read os (wpath strFolder) then (n, find_error strFolder # evs)
                 else let (m, evs') = GetSize_win_dir os strFolder ds in (u64 (m + n), evs' @ evs))"

definition GetSize_win :: "os \<Rightarrow> fnode \<Rightarrow> cstring \<Rightarrow> int \<times> log_event list" where
  "GetSize_win os fs pszDirName =
     (case FindFirstFile os pszDirName fs of None \<Rightarrow> (0, [find_error pszDirName])
      | Some es \<Rightarrow> let (n, evs) = GetSize_win_dir os pszDirName es in (i64 n, evs))"

fun Delete_win_loop :: "os \<Rightarrow> cstring \<Rightarrow> (string \<times> fnode) list \<Rightarrow> fnode \<Rightarrow> fnode \<times> log_event list" where
  "Delete_win_loop os pszDirName [] fs = (fs, [])"
| "Delete_win_loop os pszDirName ((d_name, File s) # es) fs =
     (if d_name = ''.'' \<or> d_name = ''..'' then Delete_win_loop os pszDirName es fs
      else Delete_win_loop os pszDirName es (attempt (DeleteFile os (AppendName_win pszDirName d_name)) fs))"
| "Delete_win_loop os pszDirName ((d_name, Dir ds) # es) fs =
     (if d_name = ''.'' \<or> d_name = ''..'' then Delete_win_loop os pszDirName es fs
      else let p = AppendName_win pszDirName d_name;
               (fs, evs) = (if may_read os (wpath p)
                  then let (fs, evs) = Delete_win_loop os p ds fs in (attempt (RemoveDirectory os p) fs, evs)
                  else (fs, [find_error p]));
               (fs, evs') = Delete_win_loop os pszDirName es (attempt (RemoveDirectory os p) fs)
           in (fs, evs @ evs'))"

definition Directory_Delete_win :: "os \<Rightarrow> cstring \<Rightarrow> fnode \<Rightarrow> (bool \<times> fnode) \<times> log_event list" where
  "Directory_Delete_win os pszDirName fs =
     (case FindFirstFile os pszDirName fs of None \<Rightarrow> ((False, fs), [find_error pszDirName])
      | Some es \<Rightarrow> let (fs, evs) = Delete_win_loop os pszDirName es fs in ((True, attempt (RemoveDirectory os pszDirName) fs), evs))"

text \<open>\<open>GetModuleFileName\<close> cuts the path of the program to the buffer; an error is the empty path.\<close>

definition GetProgramDirectory_win :: "cstring \<Rightarrow> cstring \<Rightarrow> cstring" where
  "GetProgramDirectory_win module_name szDir =
     (if szDir \<noteq> [] then szDir
      else let t = take 1023 (cstr module_name)
           in (case find_back WIN_SEP t (length t) of Some i \<Rightarrow> take i t | None \<Rightarrow> t))"

subsection \<open>The branch for other systems as the reference\<close>

text \<open>Names that Windows and other systems take alike, and sizes below \<open>2 ^ 64\<close>.\<close>

fun win_tree :: "fnode \<Rightarrow> bool" where
  "win_tree (File s) \<longleftrightarrow> 0 \<le> s \<and> s < 2 ^ 64"
| "win_tree (Dir es) \<longleftrightarrow> distinct (map fst es) \<and> (\<forall>(k, n) \<in> set es. k \<noteq> [] \<and> DIR_SEP \<notin> set k \<and> WIN_SEP \<notin> set k \<and> win_tree n)"

lemma wpath_id: "WIN_SEP \<notin> set p \<Longrightarrow> wpath p = p"
  by (auto simp: wpath_def intro: map_idI)

lemma wpath_append: "wpath (p @ q) = wpath p @ wpath q"
  by (simp add: wpath_def)

lemma wpath_AppendName: "WIN_SEP \<notin> set n \<Longrightarrow> wpath (AppendName_win p n) = AppendName (wpath p) n"
  using wpath_id [of n] by (simp add: AppendName_win_def AppendName_def wpath_def)

lemma FindFirstFile_opendir: "p \<noteq> [] \<Longrightarrow> FindFirstFile os p fs = opendir os (wpath p) fs"
  by (simp add: FindFirstFile_def)

lemma find_is_dir_node: "find_is_dir (node_attributes n) \<longleftrightarrow> (\<exists>es. n = Dir es)"
  by (cases n) (simp_all add: find_is_dir_def node_attributes_def FILE_ATTRIBUTE_DIRECTORY_def)

lemma node_attributes_valid: "node_attributes n \<noteq> - 1"
  by (cases n) (simp_all add: node_attributes_def FILE_ATTRIBUTE_DIRECTORY_def)

lemma IsDirectoryCheck_win_same: "IsDirectoryCheck_win fs p = IsDirectoryCheck fs (wpath p)"
proof (cases "stat fs (wpath p)")
  case (Some n)
  then show ?thesis using find_is_dir_node [of n] node_attributes_valid [of n]
    by (cases n) (simp_all add: IsDirectoryCheck_win_def IsDirectoryCheck_def GetFileAttributes_def)
qed (simp add: IsDirectoryCheck_win_def IsDirectoryCheck_def GetFileAttributes_def)

lemma Create_dirs_win_same:
  "DIR_SEP \<notin> set q \<Longrightarrow> Create_dirs_win os p k q fs = Create_dirs os (wpath p) k (wpath q) fs"
proof (induction os p k q fs rule: Create_dirs_win.induct)
  case (2 os p k c cs fs)
  have "wpath (p @ [c]) = wpath p @ [if c = WIN_SEP then DIR_SEP else c]" "wpath (c # cs) = (if c = WIN_SEP then DIR_SEP else c) # wpath cs"
    by (simp_all add: wpath_def)
  then show ?case using 2 by (auto simp: IsDirectoryCheck_win_same CreateDirectory_def split: option.split)
qed (simp add: wpath_def)

lemma Directory_Create_win_same:
  assumes "DIR_SEP \<notin> set p"
  shows "Directory_Create_win os p fs = Directory_Create os (wpath p) fs"
proof (cases "p = []")
  case False
  then have "last p \<in> set p" and "last (wpath p) = (if last p = WIN_SEP then DIR_SEP else last p)" by (simp_all add: wpath_def last_map)
  then have "last (wpath p) = DIR_SEP \<longleftrightarrow> last p = WIN_SEP" using assms by auto
  moreover have "wpath p \<noteq> []" using False by (simp add: wpath_def)
  moreover have "Create_dirs_win os [] 0 p fs = Create_dirs os [] 0 (wpath p) fs"
    using Create_dirs_win_same [OF assms, of os "[]" 0 fs] by (simp add: wpath_def)
  ultimately show ?thesis using False
    by (simp add: Directory_Create_win_def Directory_Create_def IsDirectoryCheck_win_same CreateDirectory_def Let_def case_prod_beta)
qed (simp add: Directory_Create_win_def Directory_Create_def wpath_def)

lemma List_win_loop_same: "List_win_loop (map find_of es) xs = List_loop es xs"
  by (induction es xs rule: List_loop.induct) (simp_all add: find_of_def Let_def)

lemma split_on_join: "split_on c (xs @ c # ys) = split_on c xs @ split_on c ys"
  by (induction c xs rule: split_on.induct) (auto split: list.split)

lemma stat_entry:
  assumes "stat fs p = Some (Dir es)" and "k \<noteq> []" and "DIR_SEP \<notin> set k"
  shows "stat fs (AppendName p k) = map_of es k"
proof -
  have "split_on DIR_SEP k = [k]" using assms(3) by (induction k) auto
  then have "comps (AppendName p k) = comps p @ [k]"
    using assms(2) by (simp add: comps_def AppendName_def split_on_join flip: DIR_SEP_def)
  then show ?thesis using assms(1) by (simp add: stat_def AppendName_def lookup_append split: if_splits option.split)
qed

lemma FileList_win_loop_same:
  assumes "stat fs p = Some (Dir es)" and "win_tree (Dir es)"
  shows "set xs \<subseteq> set es \<Longrightarrow> FileList_win_loop (map find_of xs) acc = FileList_loop fs p xs acc"
proof (induction xs arbitrary: acc)
  case (Cons x xs)
  obtain k n where x: "x = (k, n)" by (cases x)
  then have "(k, n) \<in> set es" using Cons.prems by simp
  then have "k \<noteq> []" "DIR_SEP \<notin> set k" "map_of es k = Some n" using assms(2) by auto
  then have "stat fs (AppendName p k) = Some n" using stat_entry [OF assms(1)] by simp
  then show ?case using Cons x find_is_dir_node [of n] by (cases n) (simp_all add: find_of_def Let_def)
qed simp

lemma find_size_file: "0 \<le> s \<Longrightarrow> s < 2 ^ 64 \<Longrightarrow> find_size (find_of (k, File s)) = s"
proof -
  assume s: "0 \<le> s" "s < 2 ^ 64"
  then have "s div 2 ^ 32 < 2 ^ 32" by (simp add: div_less_iff_less_mult flip: power_add)
  then have "s div 2 ^ 32 mod 2 ^ 32 = s div 2 ^ 32" using s by simp
  moreover have "0 \<le> s div 2 ^ 32" using s by simp
  ultimately show ?thesis using s by (auto simp: find_size_def find_of_def u64_def)
qed

lemma GetSize_win_dir_same:
  "\<forall>(k, n) \<in> set es. WIN_SEP \<notin> set k \<and> win_tree n \<Longrightarrow> fst (GetSize_win_dir os p es) = fst (GetSize_dir os (wpath p) es)"
proof (induction os p es rule: GetSize_win_dir.induct)
  case (2 os p k s es)
  then show ?case by (auto simp: Let_def case_prod_beta find_size_file)
next
  case (3 os p k ds es)
  have "\<forall>(k, n) \<in> set ds. WIN_SEP \<notin> set k \<and> win_tree n" using 3(3) by auto
  then have "fst (GetSize_win_dir os (AppendName_win p k) ds) = fst (GetSize_dir os (wpath (AppendName_win p k)) ds)"
    if "\<not> (k = ''.'' \<or> k = ''..'')" "may_read os (wpath (AppendName_win p k))"
    using 3(2) [OF refl prod.collapse that(1) refl] that(2) by simp
  then show ?case using 3(1,3) by (auto simp: Let_def case_prod_beta wpath_AppendName)
qed simp

lemma Delete_win_loop_same:
  "\<forall>(k, n) \<in> set es. WIN_SEP \<notin> set k \<and> win_tree n \<Longrightarrow> fst (Delete_win_loop os p es fs) = fst (Delete_loop os (wpath p) es fs)"
proof (induction os p es fs rule: Delete_win_loop.induct)
  case (2 os p k s es fs)
  then show ?case by (auto simp: DeleteFile_def wpath_AppendName)
next
  case (3 os p k ds es fs)
  have "\<forall>(k, n) \<in> set ds. WIN_SEP \<notin> set k \<and> win_tree n" using 3(4) by auto
  then show ?case using 3 by (auto simp: Let_def case_prod_beta wpath_AppendName RemoveDirectory_def)
qed simp

lemma win_tree_lookup: "win_tree n \<Longrightarrow> lookup n q = Some m \<Longrightarrow> win_tree m"
  by (induction n q rule: lookup.induct) (auto split: option.splits dest: map_of_SomeD)

lemma opendir_win: "win_tree fs \<Longrightarrow> opendir os p fs = Some es \<Longrightarrow> stat fs p = Some (Dir es) \<and> win_tree (Dir es)"
  using win_tree_lookup by (fastforce simp: opendir_def stat_def split: option.splits fnode.splits if_splits)

text \<open>The branches of \<open>CDirectory\<close> for Windows and for other systems do the same: on a tree whose names have no
  separators, a path with backslashes gives the checks, the created directories, the lists, the total size (put
  together from two halves of 32 bits) and the deletions that the path with slashes gives.\<close>

theorem windows_branches_agree:
  assumes "win_tree fs" and "p \<noteq> []" and "DIR_SEP \<notin> set p"
  shows "IsDirectoryCheck_win fs p = IsDirectoryCheck fs (wpath p) \<and>
    Directory_Create_win os p fs = Directory_Create os (wpath p) fs \<and>
    fst (Directory_List_win os fs p) = fst (Directory_List os fs (wpath p)) \<and>
    fst (FileList_win os fs p) = fst (FileList os fs (wpath p)) \<and>
    fst (GetSize_win os fs p) = fst (GetSize_path os fs (wpath p)) \<and>
    fst (Directory_Delete_win os p fs) = fst (Directory_Delete os (wpath p) fs)"
proof (cases "opendir os (wpath p) fs")
  case None
  then show ?thesis using FindFirstFile_opendir [OF assms(2), of os fs]
    by (simp add: IsDirectoryCheck_win_same Directory_Create_win_same [OF assms(3)] Directory_List_win_def Directory_List_def
        FileList_win_def FileList_def GetSize_win_def GetSize_path_def Directory_Delete_win_def Directory_Delete_def)
next
  case (Some es)
  then have es: "stat fs (wpath p) = Some (Dir es)" "win_tree (Dir es)" using opendir_win [OF assms(1)] by blast+
  then have "fst (GetSize_win_dir os p es) = fst (GetSize_dir os (wpath p) es)"
    and "fst (Delete_win_loop os p es fs) = fst (Delete_loop os (wpath p) es fs)"
    by (intro GetSize_win_dir_same Delete_win_loop_same; auto)+
  moreover have "FileList_win_loop (map find_of es) [] = FileList_loop fs (wpath p) es []"
    by (rule FileList_win_loop_same [OF es]) simp
  ultimately show ?thesis using Some FindFirstFile_opendir [OF assms(2), of os fs]
    by (simp add: IsDirectoryCheck_win_same Directory_Create_win_same [OF assms(3)] Directory_List_win_def Directory_List_def
        FileList_win_def FileList_def GetSize_win_def GetSize_path_def Directory_Delete_win_def Directory_Delete_def
        List_win_loop_same RemoveDirectory_def case_prod_beta Let_def)
qed

lemma windows_branches_example:
  "fst (GetSize_win demo_os (Dir [(''c:'', Dir [(''a.txt'', File 5000000000)])]) ''c:'') = 5000000000 \<and>
   fst (FileList_win demo_os (Dir [(''c:'', Dir [(''a.txt'', File 5000000000)])]) ''c:'') = (True, [''a.txt''])"
proof -
  define fs where "fs = Dir [(''c:'', Dir [(''a.txt'', File 5000000000)])]"
  have w: "wpath ''c:'' = ''c:''" by (simp add: wpath_def WIN_SEP_def)
  have s: "stat fs ''c:'' = Some (Dir [(''a.txt'', File 5000000000)])" by (simp add: fs_def stat_def comps_def)
  have t: "stat fs ''c:/a.txt'' = Some (File 5000000000)" by (simp add: fs_def stat_def comps_def)
  have "win_tree fs" by (simp add: fs_def DIR_SEP_def WIN_SEP_def)
  from windows_branches_agree [OF this, of "''c:''" demo_os] show ?thesis
    unfolding fs_def [symmetric] w using s t
    by (simp add: DIR_SEP_def GetSize_path_def FileList_def opendir_def demo_os_def u64_def i64_def AppendName_def)
qed

subsection \<open>Names\<close>

lemma find_back_win: "DIR_SEP \<notin> set p \<Longrightarrow> k \<le> length p \<Longrightarrow> find_back WIN_SEP p k = find_back DIR_SEP (wpath p) k"
proof (induction k)
  case (Suc k)
  then have "p ! k \<in> set p" by simp
  then have "p ! k \<noteq> DIR_SEP" using Suc.prems(1) by metis
  then show ?case using Suc by (simp add: wpath_def)
qed simp

lemma GetDirName_win_same: "DIR_SEP \<notin> set p \<Longrightarrow> wpath (GetDirName_win p) = GetDirName (wpath p)"
  using find_back_win [of p "length p"]
  by (auto simp: GetDirName_win_def GetDirName_def take_map wpath_def split: option.split)

lemma GetFileName_win_same: "DIR_SEP \<notin> set p \<Longrightarrow> wpath (GetFileName_win p) = GetFileName (wpath p)"
  using find_back_win [of p "length p"]
  by (auto simp: GetFileName_win_def GetFileName_def drop_map wpath_def split: option.split)

lemma delete_files_same: "\<forall>n \<in> set ns. WIN_SEP \<notin> set n \<Longrightarrow> delete_files os p ns fs = unlink_all os (wpath p) ns fs"
proof (induction os p ns fs rule: delete_files.induct)
  case (2 os p n ns fs)
  have "WIN_SEP \<notin> set (cstr n)" using 2(2) set_cstr [of n] by auto
  then show ?case using 2 by (simp add: DeleteFile_def wpath_AppendName)
qed simp

end
