(* ===== verification/Spec2Isabelle.thy ===== *)
theory Spec2Isabelle
  imports DbConnectionSpec DbQueue PoolDemo WorkerSystem QueueMutex PlatformSpec XmlElementSpec XmlRoundTrip XmlSearchSpec SipMd5Spec LogCleanup SqlTools MonitorWindow WindowsService SlaveSpec WinPipe DirectoryWin
begin

text \<open>
  A model of dbmysqlpool, a C++ library around the MySQL client library, and of the programs built on it.

  The parts of the program and how they interact.

  \<^item> DbMySQLPool: a connection object (DbMySQLConnection.cpp) that reconnects and repeats a statement
    once, prepares statements and binds strings; a pool of such objects (DbMySQLPool.cpp) that threads borrow
    through \<open>CAutoRelease\<close>; a bounded queue of statements (DbMySQLQueue.cpp) that worker threads
    (DbMySQLThread.cpp) take statements from and execute on connections of their own; helpers that check texts
    for SQL injection and copy columns of rows.
  \<^item> SipPlatform: strings, a string map, times, monitor reports, MD5, files and directories, the process log
    \<open>CLog\<close>, logs of single objects \<open>CFileLog\<close>, and socket wrappers. All other parts log through \<open>CLog\<close>.
  \<^item> XmlParser: elements, a parser, two printers and a search by names.
  \<^item> ServerPlatform and the programs: MySQLSlaveOverWatcher reads its settings from an XML file and makes a
    replication slave skip statements that fail; MySQLQueryMonitor polls the slowest statements;
    MySQLLogExecute replays a general query log; MySQLAlterTable alters all tables of a database.

  Theories and sources.

  \<^item> DbPrelude, CRuntime: types, fact collections, and the functions of the C and C++ libraries that the
    sources call (\<open>cstr\<close>, \<open>snprintf\<close>, \<open>atoi\<close>, \<open>strtoull\<close>, wrap-around of \<open>int\<close> as \<open>i32\<close> and so on).
    LogLevel: the log levels. StdMap: \<open>std::map\<close> as a sorted association list, with the interface \<open>kv_map\<close>.
  \<^item> MySQLClient: the client library is a parameter \<open>libmysql\<close> that answers each call as a function of all
    calls made so far; \<open>pstep\<close> is its documented protocol (which calls are allowed when, which results and
    blocks are open).
  \<^item> DbConnection: class \<open>CDbMySQLConnection\<close>, a record of its members and one function per method.
    DbConnectionSafe: its invariant, kept by every operation; DbConnectionSpec: properties.
  \<^item> DbQueue: class \<open>CDbMySQLQueue\<close>, with the interfaces \<open>fifo\<close> and \<open>bounded_fifo\<close>. DbThread: the worker, the start
    and stop of the threads and their counter. WorkerSystem: the queue and any number of workers as a step relation.
    SipMutex: SipMutex.cpp. QueueWait: threads that wait on the condition of the queue; QueueMutex: the queue
    statement by statement with its mutex, which refines the single steps of QueueWait.
  \<^item> DbPool: class \<open>CDbMySQLPool\<close> and \<open>CAutoRelease\<close> over a heap of connection objects. DbPoolSafe: the
    interface \<open>resource_pool\<close>; DbPoolThreads: any number of threads as a step relation over the critical
    sections, and the properties of the operations. PoolDemo: the program TestDbMySQLPool.
  \<^item> SqlInjection, DbSetData: DbCheckSqlInjection.cpp and DbSetData.cpp.
  \<^item> StringUtility, StringMap, TimeUtility, MonitorString: the files of these names (TimeUtility also
    TimeString.cpp). PlatformSpec: their properties and those of SqlInjection and DbSetData.
  \<^item> SipMd5, SipMd5Spec: SipMd5.cpp on 32-bit words, and the algorithm of RFC 1321.
  \<^item> FileSystem: the file tree that the operating system keeps. Directory, DirectorySpec: FileUtility.cpp
    and Directory.cpp; DirectoryWin: its branches for Windows, which agree with the others.
    LogFile: Log.cpp; FileLog: FileLog.cpp; LogFileSpec: the interface \<open>file_rotation\<close> that both logs implement;
    LogRuns: reachable states of \<open>CLog\<close>; LogCleanup: deletion of old files, and the ways in which the logs stop
    writing.
  \<^item> XmlElement, XmlElementSpec: the accessors of XmlElement.cpp. XmlParse: its parser, a state per
    character and a call per child. XmlPrint: its printers, one of them over an explicit block of memory.
    XmlRoundTrip: parsing what was printed, and bounds. XmlSearch, XmlSearchSpec: XmlSearch.cpp.
  \<^item> Sockets, SocketsSpec: SipTcp.cpp and SipUdp.cpp; the system calls are a parameter \<open>net\<close> that answers
    each call as a function of all calls made so far. SocketsWin: the branches for Windows, \<open>poll\<close> over
    \<open>select\<close> among them; WinPipe: \<open>pipe\<close> on Windows as a step relation of its callers and its threads.
  \<^item> SettingsFile: the interface \<open>settings_file\<close> of settings that are read again when their file changes.
    SlaveWatch, ServerRun: MySQLSlaveOverWatcher and ServerPlatform; WindowsService: ServerPlatform on Windows;
    SlaveSpec: the runs of \<open>CheckSlave\<close>. QueryTimeList, QueryMonitor: MySQLQueryMonitor; MonitorWindow: its window and polling threads as a step relation. SqlTools: MySQLLogExecute and MySQLAlterTable.

  Conventions. A class is a record, a method a function from the object to its result and the changed
  object; an out parameter is part of the result. \<open>bool\<close> results and error codes are values as in the code.
  The result \<open>None\<close> of an operation stands for a call that does not return or whose behaviour C++ does not
  define; each function says which. Log messages are lists of events (level and text) that are part of
  the state. Integers are unbounded where they cannot leave their range, and are wrapped (\<open>i32\<close>, \<open>u32\<close>, words)
  where they can.

  What the groups of lemmas show. For the connection: the client library is only called as its protocol
  allows, whatever the server answers; a statement is acknowledged at most once and tried at most twice; all
  results, statements and blocks are released; arguments and rows arrive in order. For the pool: under every
  interleaving no deleted connection is used and no connection is shared; waiting in \<open>Select\<close> ends exactly when
  a connection or a destruction shows up. For the queue: first in, first out, the bound, and
  that the workers share its statements without loss or repetition; that its mutex makes the operations single
  steps, and that waiting is sound for one consumer only. For the log: which file a
  message is written to, that the counted size is the size of the file, which files are deleted. For XML: the
  round trip, the parser stays inside its text and ends, the buffer printer stays inside its buffer when it
  is large enough, searches find the elements in document order. For MD5: equality with the RFC. For sockets: no
  descriptor is lost and streams are complete; \<open>poll\<close> on Windows marks the readable descriptors (up to 64), and
  \<open>pipe\<close> returns two ends of one connection. For the programs: which settings are accepted, when the slave is
  checked, which statements are kept or replayed, when the
  window of the query monitor can be closed. The lemmas also show where the code fails; these are the
  properties about errors. The other systems of threads (pool, workers, logs) take each critical section as one step,
  as QueueMutex justifies for the queue.

  Bounds and termination. The loops of the repeated statement (two attempts), of \<open>Prepare\<close> (two) and of
  \<open>Destroy\<close> (500 rounds) are bounded in the code, and their models recurse over these numbers. Loops over
  lists, strings and trees are structural or have a proved measure. Loops that wait for other threads or for
  the server (\<open>Select\<close>, fetching rows, \<open>CheckSlave\<close>, the service loop, \<open>TcpSend\<close>, \<open>TcpRecvSize\<close>, \<open>OPEN_FILE\<close> of
  the logs, \<open>ReplaceString\<close>) are partial functions with the result \<open>None\<close> when they do not end; where the code
  relies on their end, it is proved. No fuel is used.

  Not modelled. Branches for Windows outside ServerPlatform, MySQLQueryMonitor, the sockets and Directory.cpp (mutexes, threads, times and the lines of the logs); the drawing and the other windows
  of MySQLQueryMonitor; errors of pthread calls; the vendored headers of the client library. \<open>errno\<close> in the messages
  of directory errors is a question mark. Messages that a signal handler logs are not interleaved with other threads.
\<close>

end
